(* ===== verification/Prelude.thy ===== *)
theory Prelude
  imports Main "HOL-Library.Word"
begin

text \<open>
  Shared vocabulary of the C37.118 simulator development: machine integers of the
  Rust source at their width, the checked and saturating operations of the standard
  library, big-endian encoding, slices, Rust results and panics, and the decimal
  printing used by \<^verbatim>\<open>format!\<close>.  Nothing here is specific to one component.
\<close>

unbundle bit_operations_syntax

section \<open>Collections of facts\<close>

named_theorems be_simps \<open>big-endian encoding and decoding\<close>
named_theorems checked_defs \<open>definitions of the checked integer operations\<close>
named_theorems const_defs \<open>named constants of the source\<close>

section \<open>Machine integers\<close>

type_synonym u8 = "8 word"
type_synonym u16 = "16 word"
type_synonym u32 = "32 word"
type_synonym u64 = "64 word"

text \<open>
  Lengths of slices and vectors (\<^verbatim>\<open>usize\<close>) are \<^typ>\<open>nat\<close>; a \<^verbatim>\<open>usize\<close> on which
  overflow is checked (event tokens) is a \<^typ>\<open>u64\<close>, the target being 64-bit.
  Instants of the monotonic clock and durations are nanoseconds, wall-clock times are
  nanoseconds relative to the Unix epoch (all \<^typ>\<open>int\<close>).
\<close>

type_synonym bytes = "u8 list"
type_synonym instant = int
type_synonym duration = int
type_synonym system_time = int

definition checked_add :: "'a::len word \<Rightarrow> 'a word \<Rightarrow> 'a word option" where
  [checked_defs]: "checked_add a b = (if unat a + unat b < 2 ^ LENGTH('a) then Some (a + b) else None)"

definition checked_mul :: "'a::len word \<Rightarrow> 'a word \<Rightarrow> 'a word option" where
  [checked_defs]: "checked_mul a b = (if unat a * unat b < 2 ^ LENGTH('a) then Some (a * b) else None)"

definition checked_sub :: "'a::len word \<Rightarrow> 'a word \<Rightarrow> 'a word option" where
  [checked_defs]: "checked_sub a b = (if b \<le> a then Some (a - b) else None)"

definition saturating_add :: "'a::len word \<Rightarrow> 'a word \<Rightarrow> 'a word" where
  [checked_defs]: "saturating_add a b = (if unat a + unat b < 2 ^ LENGTH('a) then a + b else - 1)"

definition saturating_mul :: "'a::len word \<Rightarrow> 'a word \<Rightarrow> 'a word" where
  [checked_defs]: "saturating_mul a b = (if unat a * unat b < 2 ^ LENGTH('a) then a * b else - 1)"

definition saturating_sub :: "'a::len word \<Rightarrow> 'a word \<Rightarrow> 'a word" where
  [checked_defs]: "saturating_sub a b = (if b \<le> a then a - b else 0)"

text \<open>\<^verbatim>\<open>u16::try_from(usize)\<close> and its kin: the value when it fits.\<close>

definition try_from :: "nat \<Rightarrow> 'a::len word option" where
  [checked_defs]: "try_from n = (if n < 2 ^ LENGTH('a) then Some (of_nat n) else None)"

text \<open>Evaluation of the range tests over integers: a natural number of 64 bits has no digits.\<close>

lemma nat_less_pow_iff: "m < 2 ^ n \<longleftrightarrow> int m < 2 ^ n"
  using of_nat_less_iff [of m "2 ^ n", where 'a = int] by (simp only: of_nat_power of_nat_numeral)

lemma checked_code [code]:
  "checked_add a b = (if uint a + uint b < 2 ^ LENGTH('a) then Some (a + b) else None)"
  "checked_mul a b = (if uint a * uint b < 2 ^ LENGTH('a) then Some (a * b) else None)"
  "saturating_add a b = (if uint a + uint b < 2 ^ LENGTH('a) then a + b else - 1)"
  "saturating_mul a b = (if uint a * uint b < 2 ^ LENGTH('a) then a * b else - 1)"
  "try_from n = (if int n < 2 ^ LENGTH('a) then Some (word_of_int (int n) :: 'a word) else None)"
  for a b :: "'a::len word"
  by (simp_all only: checked_defs nat_less_pow_iff of_nat_add of_nat_mult uint_nat of_int_of_nat_eq)

lemma unat_add_fits:
  "unat a + unat b < 2 ^ LENGTH('a) \<Longrightarrow> unat (a + b) = unat a + unat (b :: 'a::len word)"
  by (simp add: unat_word_ariths)

lemma unat_mult_fits:
  "unat a * unat b < 2 ^ LENGTH('a) \<Longrightarrow> unat (a * b) = unat a * unat (b :: 'a::len word)"
  by (simp add: unat_word_ariths)

lemma checked_add_Some_iff:
  "checked_add a b = Some c \<longleftrightarrow> unat (c :: 'a::len word) = unat a + unat b"
proof
  assume "checked_add a b = Some c"
  then show "unat c = unat a + unat b"
    by (auto simp: checked_defs unat_add_fits split: if_splits)
next
  assume eq: "unat c = unat a + unat b"
  then have "unat a + unat b < 2 ^ LENGTH('a)"
    by (metis unsigned_less)
  with eq show "checked_add a b = Some c"
    by (simp add: checked_defs) (metis unat_add_fits word_unat_eq_iff)
qed

lemma checked_mul_Some_iff:
  "checked_mul a b = Some c \<longleftrightarrow> unat (c :: 'a::len word) = unat a * unat b"
proof
  assume "checked_mul a b = Some c"
  then show "unat c = unat a * unat b"
    by (auto simp: checked_defs unat_mult_fits split: if_splits)
next
  assume eq: "unat c = unat a * unat b"
  then have "unat a * unat b < 2 ^ LENGTH('a)"
    by (metis unsigned_less)
  with eq show "checked_mul a b = Some c"
    by (simp add: checked_defs) (metis unat_mult_fits word_unat_eq_iff)
qed

lemma checked_sub_Some_iff:
  "checked_sub a b = Some c \<longleftrightarrow> unat b \<le> unat a \<and> unat (c :: 'a::len word) = unat a - unat b"
  by (auto simp: checked_defs word_le_nat_alt unat_sub split: if_splits)
     (metis unat_sub word_le_nat_alt word_unat_eq_iff)

lemma try_from_Some_iff:
  "try_from n = Some (c :: 'a::len word) \<longleftrightarrow> unat c = n"
  by (auto simp: checked_defs unsigned_of_nat take_bit_nat_eq_self split: if_splits)

section \<open>Big-endian integers\<close>

text \<open>\<^verbatim>\<open>to_be_bytes\<close> and \<^verbatim>\<open>from_be_bytes\<close> of the three unsigned widths in use.\<close>

definition u16_to_be :: "u16 \<Rightarrow> bytes" where
  "u16_to_be x = [ucast (drop_bit 8 x), ucast x]"

definition u32_to_be :: "u32 \<Rightarrow> bytes" where
  "u32_to_be x = [ucast (drop_bit 24 x), ucast (drop_bit 16 x), ucast (drop_bit 8 x), ucast x]"

definition u64_to_be :: "u64 \<Rightarrow> bytes" where
  "u64_to_be x = [ucast (drop_bit 56 x), ucast (drop_bit 48 x), ucast (drop_bit 40 x), ucast (drop_bit 32 x),
                  ucast (drop_bit 24 x), ucast (drop_bit 16 x), ucast (drop_bit 8 x), ucast x]"

definition u16_from_be :: "u8 \<Rightarrow> u8 \<Rightarrow> u16" where
  "u16_from_be a b = push_bit 8 (ucast a) OR ucast b"

definition u32_from_be :: "u8 \<Rightarrow> u8 \<Rightarrow> u8 \<Rightarrow> u8 \<Rightarrow> u32" where
  "u32_from_be a b c d =
     push_bit 24 (ucast a) OR push_bit 16 (ucast b) OR push_bit 8 (ucast c) OR ucast d"

lemma length_be [simp, be_simps]:
  "length (u16_to_be x) = 2" "length (u32_to_be y) = 4" "length (u64_to_be z) = 8"
  by (simp_all add: u16_to_be_def u32_to_be_def u64_to_be_def)

lemma u16_from_to_be [simp, be_simps]:
  "u16_from_be (ucast (drop_bit 8 x)) (ucast x) = (x :: u16)"
  by (rule bit_word_eqI) (auto simp: u16_from_be_def bit_simps)

lemma u32_from_to_be [simp, be_simps]:
  "u32_from_be (ucast (drop_bit 24 x)) (ucast (drop_bit 16 x)) (ucast (drop_bit 8 x)) (ucast x) = (x :: u32)"
proof (rule bit_word_eqI)
  fix n assume "n < LENGTH(32)"
  then consider "n < 8" | "8 \<le> n" "n < 16" | "16 \<le> n" "n < 24" | "24 \<le> n" "n < 32"
    by fastforce
  then show "bit (u32_from_be (ucast (drop_bit 24 x)) (ucast (drop_bit 16 x)) (ucast (drop_bit 8 x)) (ucast x)) n
      \<longleftrightarrow> bit x n"
    by cases (auto simp: u32_from_be_def bit_simps)
qed

lemma u32_small_high_byte: "unat x < 2 ^ 24 \<Longrightarrow> ucast (drop_bit 24 (x :: u32)) = (0 :: u8)"
proof -
  assume "unat x < 2 ^ 24"
  then have "drop_bit 24 x = 0"
    by (simp add: word_unat_eq_iff drop_bit_eq_div unat_div)
  then show ?thesis by simp
qed

lemma u32_from_to_be24 [be_simps]:
  "unat x < 2 ^ 24 \<Longrightarrow> u32_from_be 0 (ucast (drop_bit 16 x)) (ucast (drop_bit 8 x)) (ucast x) = (x :: u32)"
  using u32_from_to_be [of x] by (simp only: u32_small_high_byte)

lemma bit_u8_high: "8 \<le> n \<Longrightarrow> \<not> bit (b :: u8) n"
  using bit_imp_le_length [of b n] by auto

lemma u16_to_from_be [be_simps]: "u16_to_be (u16_from_be a b) = [a, b]"
  by (auto simp: u16_to_be_def u16_from_be_def bit_simps bit_u8_high intro!: bit_word_eqI)

lemma xor_right_cancel: "x XOR c = y XOR c \<Longrightarrow> x = (y :: 'a::len word)"
  by (rule bit_word_eqI) (metis bit_xor_iff)

lemma xor_left_cancel: "c XOR x = c XOR y \<Longrightarrow> x = (y :: 'a::len word)"
  by (rule bit_word_eqI) (metis bit_xor_iff)

section \<open>Slices and buffers\<close>

text \<open>
  \<^verbatim>\<open>buffer[off..off + src.len()].copy_from_slice(src)\<close>; the source only writes in
  range, so the length is kept.
\<close>

definition write_at :: "nat \<Rightarrow> 'a list \<Rightarrow> 'a list \<Rightarrow> 'a list" where
  "write_at off src dst = take off dst @ src @ drop (off + length src) dst"

lemma length_write_at [simp]:
  "off + length src \<le> length dst \<Longrightarrow> length (write_at off src dst) = length dst"
  by (simp add: write_at_def)

lemma write_at_append:
  "length a = off \<Longrightarrow> length src = length b \<Longrightarrow> write_at off src (a @ b @ c) = a @ src @ c"
  by (simp add: write_at_def)

lemma take_drop_split:
  "n + k \<le> length xs \<Longrightarrow> xs = take n xs @ take k (drop n xs) @ drop (n + k) xs"
  by (metis append_take_drop_id drop_drop add.commute)

section \<open>Panics\<close>

text \<open>
  A computation that may panic (\<^verbatim>\<open>expect\<close>, \<^verbatim>\<open>assert!\<close>, \<^verbatim>\<open>unreachable!\<close>, an index out of
  range) is an \<^typ>\<open>'a option\<close> whose \<^const>\<open>None\<close> is the panic; a \<^verbatim>\<open>Result<T, E>\<close> is a sum
  with the error on the left.
\<close>

definition is_ok :: "'e + 'a \<Rightarrow> bool" where
  "is_ok r = (case r of Inl _ \<Rightarrow> False | Inr _ \<Rightarrow> True)"

lemma is_ok_simps [simp]: "is_ok (Inr x)" "\<not> is_ok (Inl e)"
  by (simp_all add: is_ok_def)

text \<open>The \<^verbatim>\<open>?\<close> operator, and the guard \<^verbatim>\<open>if bad { return Err(e) }\<close>.\<close>

definition bind_ok :: "'e + 'a \<Rightarrow> ('a \<Rightarrow> 'e + 'b) \<Rightarrow> 'e + 'b" where
  "bind_ok r f = (case r of Inl e \<Rightarrow> Inl e | Inr x \<Rightarrow> f x)"

definition fail_if :: "bool \<Rightarrow> 'e \<Rightarrow> 'e + unit" where
  "fail_if bad e = (if bad then Inl e else Inr ())"

definition ok_or :: "'a option \<Rightarrow> 'e \<Rightarrow> 'e + 'a" where
  "ok_or x e = (case x of None \<Rightarrow> Inl e | Some y \<Rightarrow> Inr y)"

lemma bind_ok_simps [simp]: "bind_ok (Inl e) f = Inl e" "bind_ok (Inr x) f = f x"
  by (simp_all add: bind_ok_def)

lemma bind_ok_Inr_iff [simp]: "bind_ok r f = Inr y \<longleftrightarrow> (\<exists>x. r = Inr x \<and> f x = Inr y)"
  by (cases r) auto

lemma fail_if_Inr_iff [simp]: "fail_if bad e = Inr u \<longleftrightarrow> \<not> bad"
  by (simp add: fail_if_def)

lemma fail_if_False [simp]: "fail_if False e = Inr ()"
  by (simp add: fail_if_def)

lemma fail_if_True [simp]: "fail_if True e = Inl e"
  by (simp add: fail_if_def)

lemma ok_or_simps [simp]: "ok_or None e = Inl e" "ok_or (Some x) e = Inr x"
  by (simp_all add: ok_or_def)

lemma ok_or_Inr_iff [simp]: "ok_or x e = Inr y \<longleftrightarrow> x = Some y"
  by (cases x) auto

section \<open>Text\<close>

text \<open>A Rust string is its UTF-8 bytes: \<^typ>\<open>string\<close> with one character per byte.\<close>

definition str_bytes :: "string \<Rightarrow> bytes" where
  "str_bytes s = map of_char s"

lemma length_str_bytes [simp]: "length (str_bytes s) = length s"
  by (simp add: str_bytes_def)

definition is_ascii_control :: "u8 \<Rightarrow> bool" where
  "is_ascii_control b = (b < 0x20 \<or> b = 0x7f)"

definition is_ascii_digit :: "u8 \<Rightarrow> bool" where
  "is_ascii_digit b = (0x30 \<le> b \<and> b \<le> 0x39)"

definition is_ascii_lowercase :: "u8 \<Rightarrow> bool" where
  "is_ascii_lowercase b = (0x61 \<le> b \<and> b \<le> 0x7a)"

definition is_printable_ascii :: "u8 \<Rightarrow> bool" where
  "is_printable_ascii b = (0x20 \<le> b \<and> b \<le> 0x7e)"

definition digit_char :: "nat \<Rightarrow> char" where
  "digit_char d = char_of (48 + d)"

fun show_nat :: "nat \<Rightarrow> string" where
  "show_nat n = (if n < 10 then [digit_char n] else show_nat (n div 10) @ [digit_char (n mod 10)])"

declare show_nat.simps [simp del]

text \<open>\<^verbatim>\<open>format!("{:03}", n)\<close>: at least three digits, padded with zeros on the left.\<close>

definition show_nat_03 :: "nat \<Rightarrow> string" where
  "show_nat_03 n = (let s = show_nat n in replicate (3 - length s) (CHR ''0'') @ s)"

lemma length_show_nat_le_3: "n < 1000 \<Longrightarrow> length (show_nat n) \<le> 3"
  by (simp add: show_nat.simps [of n] show_nat.simps [of "n div 10"] show_nat.simps [of "n div 10 div 10"])

lemma length_show_nat_03: "n < 1000 \<Longrightarrow> length (show_nat_03 n) = 3"
  using length_show_nat_le_3 [of n] by (simp add: show_nat_03_def Let_def)

end
