(* ===== verification/Management.thy ===== *)
theory Management
  imports Prelude
begin

text \<open>
  The management interface's bounded HTTP parser and response encoder (\<^verbatim>\<open>src/management.rs\<close>).  The
  HTTP tokenizer \<^verbatim>\<open>httparse\<close> and the JSON decoders and writer of \<^verbatim>\<open>serde_json\<close> are parameters.
\<close>

section \<open>Text of the standard library\<close>

definition ascii_lower :: "char \<Rightarrow> char" where
  "ascii_lower c = (let n = of_char c :: nat in if 65 \<le> n \<and> n \<le> 90 then char_of (n + 32) else c)"

definition eq_ignore_ascii_case :: "string \<Rightarrow> string \<Rightarrow> bool" where
  "eq_ignore_ascii_case a b = (map ascii_lower a = map ascii_lower b)"

definition is_ascii_whitespace_byte :: "u8 \<Rightarrow> bool" where
  "is_ascii_whitespace_byte b = (b = 0x20 \<or> b = 0x09 \<or> b = 0x0a \<or> b = 0x0c \<or> b = 0x0d)"

fun split_once :: "char \<Rightarrow> string \<Rightarrow> (string \<times> string) option" where
  "split_once d [] = None"
| "split_once d (c # cs) = (if c = d then Some ([], cs) else map_option (\<lambda>(a, b). (c # a, b)) (split_once d cs))"

fun split_on :: "char \<Rightarrow> string \<Rightarrow> string list" where
  "split_on d [] = [[]]"
| "split_on d (c # cs) =
     (case split_on d cs of
        [] \<Rightarrow> []
      | part # parts \<Rightarrow> if c = d then [] # part # parts else (c # part) # parts)"

text \<open>
  \<^verbatim>\<open>str::from_utf8\<close> as the list of code points of well-formed UTF-8, and the white space that
  \<^verbatim>\<open>str::trim\<close> removes.
\<close>

definition continuation :: "nat \<Rightarrow> bool" where
  "continuation b \<longleftrightarrow> 0x80 \<le> b \<and> b \<le> 0xbf"

definition utf8_second :: "nat \<Rightarrow> nat \<Rightarrow> bool" where
  "utf8_second a b = (if a = 0xe0 then 0xa0 \<le> b \<and> b \<le> 0xbf
     else if a = 0xed then 0x80 \<le> b \<and> b \<le> 0x9f
     else if a = 0xf0 then 0x90 \<le> b \<and> b \<le> 0xbf
     else if a = 0xf4 then 0x80 \<le> b \<and> b \<le> 0x8f
     else continuation b)"

fun utf8_decode :: "nat list \<Rightarrow> nat list option" where
  "utf8_decode [] = Some []"
| "utf8_decode (a # bs) =
     (if a < 0x80 then map_option ((#) a) (utf8_decode bs)
      else if 0xc2 \<le> a \<and> a \<le> 0xdf then
        (case bs of
           b # rest \<Rightarrow> if continuation b then map_option ((#) ((a - 0xc0) * 64 + (b - 0x80))) (utf8_decode rest) else None
         | _ \<Rightarrow> None)
      else if 0xe0 \<le> a \<and> a \<le> 0xef then
        (case bs of
           b # c # rest \<Rightarrow> if utf8_second a b \<and> continuation c
             then map_option ((#) ((a - 0xe0) * 4096 + (b - 0x80) * 64 + (c - 0x80))) (utf8_decode rest) else None
         | _ \<Rightarrow> None)
      else if 0xf0 \<le> a \<and> a \<le> 0xf4 then
        (case bs of
           b # c # d # rest \<Rightarrow> if utf8_second a b \<and> continuation c \<and> continuation d
             then map_option ((#) ((a - 0xf0) * 262144 + (b - 0x80) * 4096 + (c - 0x80) * 64 + (d - 0x80))) (utf8_decode rest)
             else None
         | _ \<Rightarrow> None)
      else None)"

definition unicode_whitespace :: "nat \<Rightarrow> bool" where
  "unicode_whitespace n \<longleftrightarrow> 0x09 \<le> n \<and> n \<le> 0x0d \<or> 0x2000 \<le> n \<and> n \<le> 0x200a
     \<or> n \<in> {0x20, 0x85, 0xa0, 0x1680, 0x2028, 0x2029, 0x202f, 0x205f, 0x3000}"

definition trim :: "nat list \<Rightarrow> nat list" where
  "trim s = rev (dropWhile unicode_whitespace (rev (dropWhile unicode_whitespace s)))"

text \<open>Decimal digits folded into a 64-bit integer with checked arithmetic.\<close>

fun fold_decimal :: "u64 \<Rightarrow> bytes \<Rightarrow> u64 option" where
  "fold_decimal n [] = Some n"
| "fold_decimal n (b # bs) =
     (case checked_mul n 10 of
        None \<Rightarrow> None
      | Some m \<Rightarrow> (case checked_add m (ucast (b - 0x30)) of None \<Rightarrow> None | Some k \<Rightarrow> fold_decimal k bs))"

section \<open>Requests\<close>

definition MAX_REQUEST_BYTES :: nat where [const_defs]: "MAX_REQUEST_BYTES = 8 * 1024"
definition MAX_RESPONSE_BODY_BYTES :: nat where [const_defs]: "MAX_RESPONSE_BODY_BYTES = 64 * 1024"

record management_target =
  mt_stream_id :: u16
  mt_connection_id :: "u64 option"

record prepare_scenario_request =
  rq_target :: management_target
  rq_scenario_name :: string
  rq_actor_label :: "string option"

record confirm_scenario_request =
  cf_token :: u64
  cf_actor_label :: "string option"

record clear_scenario_request =
  cl_target :: management_target
  cl_actor_label :: "string option"

record cancel_scenario_request =
  ca_token :: u64
  ca_actor_label :: "string option"

text \<open>A JSON value, as far as tokens look into it: a number is its printed form.\<close>

datatype json_value = JsonString string | JsonNumber string | JsonOther

record scenario_token_request_body =
  tb_token :: json_value
  tb_actor_label :: "string option"

record console_state_cursor =
  cc_process_identity :: string
  cc_controller_revision :: u64
  cc_offset :: u64

datatype management_request =
    RequestHealthz
  | RequestReadyz
  | RequestMetrics
  | RequestCatalog
  | RequestState
  | RequestConsoleState "console_state_cursor option"
  | RequestPrepare prepare_scenario_request
  | RequestConfirm confirm_scenario_request
  | RequestClear clear_scenario_request
  | RequestCancel cancel_scenario_request

datatype allowed_method = GetMethod | PostMethod

datatype parse_error =
    RequestTooLarge
  | IncompleteAtLimit
  | MalformedRequest
  | TooManyHeaders
  | UnsupportedHttpVersion
  | MissingHost
  | DuplicateHost
  | InvalidHost
  | UnsupportedTransferEncoding
  | DuplicateContentLength
  | InvalidContentLength
  | DuplicateContentType
  | UnsupportedMediaType
  | ContentLengthRequired
  | BodyTooLarge
  | BodyNotAllowed
  | TrailingData
  | MethodNotAllowed allowed_method
  | UnknownPath
  | InvalidJsonBody
  | InvalidRequestTarget
  | InvalidToken
  | InvalidQuery

datatype parse_outcome = Complete management_request | ParseIncomplete | ParseFailed parse_error

datatype status_code =
    StatusOk
  | StatusAccepted
  | StatusNoContent
  | StatusBadRequest
  | StatusNotFound
  | StatusMethodNotAllowed
  | StatusNotAcceptable
  | StatusPayloadTooLarge
  | StatusUnsupportedMediaType
  | StatusInternalServerError
  | StatusServiceUnavailable

fun parse_error_code :: "parse_error \<Rightarrow> string" where
  "parse_error_code RequestTooLarge = ''request_too_large''"
| "parse_error_code IncompleteAtLimit = ''incomplete_at_limit''"
| "parse_error_code MalformedRequest = ''malformed_request''"
| "parse_error_code TooManyHeaders = ''too_many_headers''"
| "parse_error_code UnsupportedHttpVersion = ''unsupported_http_version''"
| "parse_error_code MissingHost = ''missing_host''"
| "parse_error_code DuplicateHost = ''duplicate_host''"
| "parse_error_code InvalidHost = ''invalid_host''"
| "parse_error_code UnsupportedTransferEncoding = ''unsupported_transfer_encoding''"
| "parse_error_code DuplicateContentLength = ''duplicate_content_length''"
| "parse_error_code InvalidContentLength = ''invalid_content_length''"
| "parse_error_code DuplicateContentType = ''duplicate_content_type''"
| "parse_error_code UnsupportedMediaType = ''unsupported_media_type''"
| "parse_error_code ContentLengthRequired = ''content_length_required''"
| "parse_error_code BodyTooLarge = ''body_too_large''"
| "parse_error_code BodyNotAllowed = ''body_not_allowed''"
| "parse_error_code TrailingData = ''trailing_data''"
| "parse_error_code (MethodNotAllowed _) = ''method_not_allowed''"
| "parse_error_code UnknownPath = ''unknown_path''"
| "parse_error_code InvalidJsonBody = ''invalid_json_body''"
| "parse_error_code InvalidRequestTarget = ''invalid_target''"
| "parse_error_code InvalidToken = ''invalid_token''"
| "parse_error_code InvalidQuery = ''invalid_query''"

fun parse_error_message :: "parse_error \<Rightarrow> string" where
  "parse_error_message RequestTooLarge = ''request exceeds the 8192-byte limit''"
| "parse_error_message IncompleteAtLimit = ''request is incomplete at the 8192-byte limit''"
| "parse_error_message MalformedRequest = ''request is not valid HTTP/1.1''"
| "parse_error_message TooManyHeaders = ''request has too many headers''"
| "parse_error_message UnsupportedHttpVersion = ''only HTTP/1.1 is supported''"
| "parse_error_message MissingHost = ''HTTP/1.1 requests require a host header''"
| "parse_error_message DuplicateHost = ''host must appear exactly once''"
| "parse_error_message InvalidHost =
     ''host must be nonempty and contain no ASCII whitespace or control characters''"
| "parse_error_message UnsupportedTransferEncoding = ''transfer encoding is not supported''"
| "parse_error_message DuplicateContentLength = ''content-length must appear at most once''"
| "parse_error_message InvalidContentLength = ''content-length must be a single unsigned decimal integer''"
| "parse_error_message DuplicateContentType = ''content-type must appear at most once''"
| "parse_error_message UnsupportedMediaType =
     ''POST requests must use application/json when content-type is provided''"
| "parse_error_message ContentLengthRequired = ''POST requests require content-length''"
| "parse_error_message BodyTooLarge = ''request body exceeds the 8192-byte limit''"
| "parse_error_message BodyNotAllowed = ''GET requests must not include a body''"
| "parse_error_message TrailingData = ''request contains trailing bytes''"
| "parse_error_message (MethodNotAllowed _) = ''method is not allowed for this path''"
| "parse_error_message UnknownPath = ''path is not supported''"
| "parse_error_message InvalidJsonBody = ''request body must be a valid JSON object''"
| "parse_error_message InvalidRequestTarget = ''target stream_id must be greater than zero''"
| "parse_error_message InvalidToken = ''token must be greater than zero''"
| "parse_error_message InvalidQuery = ''query parameters are not valid for this endpoint''"

fun parse_error_status :: "parse_error \<Rightarrow> status_code" where
  "parse_error_status RequestTooLarge = StatusPayloadTooLarge"
| "parse_error_status IncompleteAtLimit = StatusPayloadTooLarge"
| "parse_error_status BodyTooLarge = StatusPayloadTooLarge"
| "parse_error_status UnsupportedMediaType = StatusUnsupportedMediaType"
| "parse_error_status (MethodNotAllowed _) = StatusMethodNotAllowed"
| "parse_error_status UnknownPath = StatusNotFound"
| "parse_error_status _ = StatusBadRequest"

fun parse_error_allowed_method :: "parse_error \<Rightarrow> allowed_method option" where
  "parse_error_allowed_method (MethodNotAllowed m) = Some m"
| "parse_error_allowed_method _ = None"

section \<open>Headers\<close>

text \<open>What the tokenizer reports: the length of the head (a \<^verbatim>\<open>usize\<close>) and its parts.\<close>

record http_request =
  hr_method :: "string option"
  hr_path :: "string option"
  hr_version :: "u8 option"
  hr_headers :: "(string \<times> bytes) list"

datatype http_result = HttpComplete u64 http_request | HttpPartial | HttpTooManyHeaders | HttpInvalid

record request_framing =
  rf_content_length :: "u64 option"
  rf_content_type :: "bytes option"

definition parse_content_length :: "bytes \<Rightarrow> parse_error + u64" where
  "parse_content_length value =
     (if value = [] \<or> \<not> list_all is_ascii_digit value then Inl InvalidContentLength
      else ok_or (fold_decimal 0 value) InvalidContentLength)"

definition trim_leading_http_whitespace :: "bytes \<Rightarrow> bytes" where
  "trim_leading_http_whitespace value = dropWhile (\<lambda>b. b = 0x20 \<or> b = 0x09) value"

definition is_valid_host :: "bytes \<Rightarrow> bool" where
  "is_valid_host value = (value \<noteq> [] \<and> \<not> list_ex (\<lambda>b. is_ascii_whitespace_byte b \<or> is_ascii_control b) value)"

text \<open>One header: the framing seen so far, and the number of host headers.\<close>

definition inspect_header :: "string \<times> bytes \<Rightarrow> request_framing \<times> nat \<Rightarrow> parse_error + request_framing \<times> nat" where
  "inspect_header header seen =
     (let (name, value) = header; (framing, host_count) = seen in
      bind_ok (if eq_ignore_ascii_case name ''host''
               then if is_valid_host (trim_leading_http_whitespace value) then Inr (host_count + 1) else Inl InvalidHost
               else Inr host_count) (\<lambda>host_count.
      bind_ok (fail_if (eq_ignore_ascii_case name ''transfer-encoding'') UnsupportedTransferEncoding) (\<lambda>_.
      bind_ok (if eq_ignore_ascii_case name ''content-length''
               then if rf_content_length framing \<noteq> None then Inl DuplicateContentLength
                    else bind_ok (parse_content_length value) (\<lambda>n. Inr (framing\<lparr>rf_content_length := Some n\<rparr>))
               else Inr framing) (\<lambda>framing.
      bind_ok (if eq_ignore_ascii_case name ''content-type''
               then if rf_content_type framing \<noteq> None then Inl DuplicateContentType
                    else Inr (framing\<lparr>rf_content_type := Some value\<rparr>)
               else Inr framing) (\<lambda>framing.
      Inr (framing, host_count))))))"

fun inspect_all :: "(string \<times> bytes) list \<Rightarrow> request_framing \<times> nat \<Rightarrow> parse_error + request_framing \<times> nat" where
  "inspect_all [] seen = Inr seen"
| "inspect_all (h # hs) seen = bind_ok (inspect_header h seen) (inspect_all hs)"

definition inspect_headers :: "(string \<times> bytes) list \<Rightarrow> parse_error + request_framing" where
  "inspect_headers headers =
     bind_ok (inspect_all headers (\<lparr>rf_content_length = None, rf_content_type = None\<rparr>, 0)) (\<lambda>(framing, host_count).
     bind_ok (fail_if (host_count = 0) MissingHost) (\<lambda>_.
     bind_ok (fail_if (1 < host_count) DuplicateHost) (\<lambda>_. Inr framing)))"

section \<open>Routes\<close>

datatype route =
    RouteHealthz
  | RouteReadyz
  | RouteMetrics
  | RouteCatalog
  | RouteState
  | RouteConsoleState "console_state_cursor option"
  | RoutePrepare
  | RouteConfirm
  | RouteClear
  | RouteCancel

definition requires_json_body :: "route \<Rightarrow> bool" where
  "requires_json_body r = (r \<in> {RoutePrepare, RouteConfirm, RouteClear, RouteCancel})"

definition parse_decimal_u64 :: "string \<Rightarrow> parse_error + u64" where
  "parse_decimal_u64 value =
     (if value = [] \<or> \<not> list_all is_ascii_digit (str_bytes value) then Inl InvalidQuery
      else ok_or (fold_decimal 0 (str_bytes value)) InvalidQuery)"

text \<open>\<^verbatim>\<open>byte.is_ascii_digit() || (byte.is_ascii_lowercase() && byte.is_ascii_hexdigit())\<close>.\<close>

definition is_lowercase_hex :: "u8 \<Rightarrow> bool" where
  "is_lowercase_hex b = (is_ascii_digit b \<or> is_ascii_lowercase b \<and> 0x61 \<le> b \<and> b \<le> 0x66)"

text \<open>The parts between the colons: three of them; the identifier is checked after the numbers.\<close>

definition parse_console_cursor :: "string \<Rightarrow> parse_error + console_state_cursor" where
  "parse_console_cursor value =
     (case split_on (CHR '':'') value of
        process_identity # revision # off # rest \<Rightarrow>
          bind_ok (parse_decimal_u64 revision) (\<lambda>controller_revision.
          bind_ok (parse_decimal_u64 off) (\<lambda>offset.
          if rest \<noteq> [] \<or> length process_identity \<noteq> 64 \<or> \<not> list_all is_lowercase_hex (str_bytes process_identity)
          then Inl InvalidQuery
          else Inr \<lparr>cc_process_identity = process_identity, cc_controller_revision = controller_revision,
                    cc_offset = offset\<rparr>))
      | _ \<Rightarrow> Inl InvalidQuery)"

fun console_parameters ::
    "string list \<Rightarrow> string option \<Rightarrow> console_state_cursor option
      \<Rightarrow> parse_error + string option \<times> console_state_cursor option" where
  "console_parameters [] format cursor = Inr (format, cursor)"
| "console_parameters (p # ps) format cursor =
     (case split_once (CHR ''='') p of
        None \<Rightarrow> Inl InvalidQuery
      | Some (name, value) \<Rightarrow>
          if name = ''format'' then
            if format = None then console_parameters ps (Some value) cursor else Inl InvalidQuery
          else if name = ''cursor'' then
            bind_ok (parse_console_cursor value) (\<lambda>c.
            if cursor = None then console_parameters ps format (Some c) else Inl InvalidQuery)
          else Inl InvalidQuery)"

definition parse_console_state_route :: "string \<Rightarrow> parse_error + route" where
  "parse_console_state_route query =
     (if query = [] then Inl InvalidQuery
      else bind_ok (console_parameters (split_on (CHR ''&'') query) None None) (\<lambda>(format, cursor).
           if format = Some ''console-v1'' then Inr (RouteConsoleState cursor) else Inl InvalidQuery))"

text \<open>The paths and their methods, and the routes of the paths without a query.\<close>

definition path_routes :: "(string \<times> allowed_method \<times> route) list" where
  "path_routes =
    [(''/healthz'', GetMethod, RouteHealthz), (''/readyz'', GetMethod, RouteReadyz),
     (''/metrics'', GetMethod, RouteMetrics), (''/v1/catalog'', GetMethod, RouteCatalog),
     (''/v1/state'', GetMethod, RouteState),
     (''/v1/scenarios/prepare'', PostMethod, RoutePrepare), (''/v1/scenarios/confirm'', PostMethod, RouteConfirm),
     (''/v1/scenarios/clear'', PostMethod, RouteClear), (''/v1/scenarios/cancel'', PostMethod, RouteCancel)]"

definition route_for :: "string option \<Rightarrow> string option \<Rightarrow> parse_error + route" where
  "route_for method request_target =
     bind_ok (ok_or method MalformedRequest) (\<lambda>method.
     bind_ok (ok_or request_target MalformedRequest) (\<lambda>request_target.
     bind_ok (case split_once (CHR ''?'') request_target of
                Some (path, query) \<Rightarrow> if CHR ''?'' \<in> set query then Inl InvalidQuery else Inr (path, Some query)
              | None \<Rightarrow> Inr (request_target, None)) (\<lambda>(path, query).
     case map_of path_routes path of
       None \<Rightarrow> Inl UnknownPath
     | Some (allowed, route) \<Rightarrow>
         if allowed = GetMethod \<and> method \<noteq> ''GET'' \<or> allowed = PostMethod \<and> method \<noteq> ''POST''
         then Inl (MethodNotAllowed allowed)
         else case query of
                None \<Rightarrow> Inr route
              | Some query \<Rightarrow> if path = ''/v1/state'' then parse_console_state_route query else Inl InvalidQuery)))"

definition is_json_content_type :: "bytes \<Rightarrow> bool" where
  "is_json_content_type value =
     (case utf8_decode (map unat value) of
        None \<Rightarrow> False
      | Some text \<Rightarrow>
          let media = trim (takeWhile (\<lambda>c. c \<noteq> 0x3b) text)
          in list_all (\<lambda>c. c < 0x80) media \<and> eq_ignore_ascii_case (map char_of media) ''application/json'')"

section \<open>Bodies\<close>

text \<open>The JSON decoders, by the type they decode to; \<^const>\<open>None\<close> is any decoding error.\<close>

record json_decoders =
  decode_prepare :: "bytes \<Rightarrow> prepare_scenario_request option"
  decode_clear :: "bytes \<Rightarrow> clear_scenario_request option"
  decode_token :: "bytes \<Rightarrow> scenario_token_request_body option"

definition parse_canonical_decimal_token :: "string \<Rightarrow> u64 option" where
  "parse_canonical_decimal_token token =
     (case str_bytes token of
        [] \<Rightarrow> None
      | b # bs \<Rightarrow> if 0x31 \<le> b \<and> b \<le> 0x39 \<and> list_all is_ascii_digit (b # bs) then fold_decimal 0 (b # bs) else None)"

fun parse_legacy_compatible_scenario_token :: "json_value \<Rightarrow> u64 option" where
  "parse_legacy_compatible_scenario_token (JsonString token) = parse_canonical_decimal_token token"
| "parse_legacy_compatible_scenario_token (JsonNumber token) = parse_canonical_decimal_token token"
| "parse_legacy_compatible_scenario_token JsonOther = None"

fun parse_canonical_scenario_token :: "json_value \<Rightarrow> u64 option" where
  "parse_canonical_scenario_token (JsonString token) = parse_canonical_decimal_token token"
| "parse_canonical_scenario_token _ = None"

definition parse_scenario_token_request ::
    "json_decoders \<Rightarrow> bytes \<Rightarrow> (json_value \<Rightarrow> u64 option) \<Rightarrow> parse_error + u64 \<times> string option" where
  "parse_scenario_token_request json body parse_token =
     bind_ok (ok_or (decode_token json body) InvalidJsonBody) (\<lambda>request.
     bind_ok (ok_or (parse_token (tb_token request)) InvalidToken) (\<lambda>token.
     Inr (token, tb_actor_label request)))"

definition parse_prepare :: "json_decoders \<Rightarrow> bytes \<Rightarrow> parse_outcome" where
  "parse_prepare json body =
     (case decode_prepare json body of
        None \<Rightarrow> ParseFailed InvalidJsonBody
      | Some request \<Rightarrow>
          if mt_stream_id (rq_target request) = 0 then ParseFailed InvalidRequestTarget else Complete (RequestPrepare request))"

definition parse_confirm :: "json_decoders \<Rightarrow> bytes \<Rightarrow> parse_outcome" where
  "parse_confirm json body =
     (case parse_scenario_token_request json body parse_legacy_compatible_scenario_token of
        Inl e \<Rightarrow> ParseFailed e
      | Inr (token, actor) \<Rightarrow> Complete (RequestConfirm \<lparr>cf_token = token, cf_actor_label = actor\<rparr>))"

definition parse_clear :: "json_decoders \<Rightarrow> bytes \<Rightarrow> parse_outcome" where
  "parse_clear json body =
     (case decode_clear json body of
        None \<Rightarrow> ParseFailed InvalidJsonBody
      | Some request \<Rightarrow>
          if mt_stream_id (cl_target request) = 0 then ParseFailed InvalidRequestTarget else Complete (RequestClear request))"

definition parse_cancel :: "json_decoders \<Rightarrow> bytes \<Rightarrow> parse_outcome" where
  "parse_cancel json body =
     (case parse_scenario_token_request json body parse_canonical_scenario_token of
        Inl e \<Rightarrow> ParseFailed e
      | Inr (token, actor) \<Rightarrow> Complete (RequestCancel \<lparr>ca_token = token, ca_actor_label = actor\<rparr>))"

section \<open>The parser\<close>

definition incomplete_or_at_limit :: "nat \<Rightarrow> parse_outcome" where
  "incomplete_or_at_limit n = (if n = MAX_REQUEST_BYTES then ParseFailed IncompleteAtLimit else ParseIncomplete)"

fun parse_route :: "json_decoders \<Rightarrow> route \<Rightarrow> bytes \<Rightarrow> parse_outcome" where
  "parse_route json RouteHealthz body = Complete RequestHealthz"
| "parse_route json RouteReadyz body = Complete RequestReadyz"
| "parse_route json RouteMetrics body = Complete RequestMetrics"
| "parse_route json RouteCatalog body = Complete RequestCatalog"
| "parse_route json RouteState body = Complete RequestState"
| "parse_route json (RouteConsoleState cursor) body = Complete (RequestConsoleState cursor)"
| "parse_route json RoutePrepare body = parse_prepare json body"
| "parse_route json RouteConfirm body = parse_confirm json body"
| "parse_route json RouteClear body = parse_clear json body"
| "parse_route json RouteCancel body = parse_cancel json body"

text \<open>The length of the body a request announces, or the error that ends the parse.\<close>

definition announced_body :: "route \<Rightarrow> request_framing \<Rightarrow> parse_error + u64" where
  "announced_body route framing =
     bind_ok (fail_if (requires_json_body route
                 \<and> (case rf_content_type framing of None \<Rightarrow> False | Some t \<Rightarrow> \<not> is_json_content_type t))
               UnsupportedMediaType) (\<lambda>_.
     bind_ok (case rf_content_length framing of
                Some n \<Rightarrow> Inr n
              | None \<Rightarrow> if requires_json_body route then Inl ContentLengthRequired else Inr 0) (\<lambda>body_length.
     bind_ok (fail_if (MAX_REQUEST_BYTES < unat body_length) BodyTooLarge) (\<lambda>_.
     bind_ok (fail_if (\<not> requires_json_body route \<and> body_length \<noteq> 0) BodyNotAllowed) (\<lambda>_.
     Inr body_length))))"

definition parse_head :: "http_request \<Rightarrow> parse_error + route \<times> u64" where
  "parse_head request =
     bind_ok (fail_if (hr_version request \<noteq> Some 1) UnsupportedHttpVersion) (\<lambda>_.
     bind_ok (inspect_headers (hr_headers request)) (\<lambda>framing.
     bind_ok (route_for (hr_method request) (hr_path request)) (\<lambda>route.
     bind_ok (announced_body route framing) (\<lambda>body_length.
     Inr (route, body_length)))))"

definition parse :: "(bytes \<Rightarrow> http_result) \<Rightarrow> json_decoders \<Rightarrow> bytes \<Rightarrow> parse_outcome" where
  "parse http json input =
     (if MAX_REQUEST_BYTES < length input then ParseFailed RequestTooLarge
      else case http input of
        HttpPartial \<Rightarrow> incomplete_or_at_limit (length input)
      | HttpTooManyHeaders \<Rightarrow> ParseFailed TooManyHeaders
      | HttpInvalid \<Rightarrow> ParseFailed MalformedRequest
      | HttpComplete header_end request \<Rightarrow>
          (case parse_head request of
             Inl e \<Rightarrow> ParseFailed e
           | Inr (route, body_length) \<Rightarrow>
               (case checked_add header_end body_length of
                  None \<Rightarrow> ParseFailed RequestTooLarge
                | Some request_end \<Rightarrow>
                    if MAX_REQUEST_BYTES < unat request_end then ParseFailed RequestTooLarge
                    else if length input < unat request_end then incomplete_or_at_limit (length input)
                    else if unat request_end < length input then ParseFailed TrailingData
                    else parse_route json route (drop (unat header_end) input))))"

section \<open>Responses\<close>

datatype response_encode_error = JsonEncodeError | ResponseBodyTooLarge nat nat | NoContentBody nat

record bounded_json_writer =
  bw_body :: bytes
  bw_maximum :: nat
  bw_exceeded :: bool

definition new_bounded_json_writer :: "nat \<Rightarrow> bounded_json_writer" where
  "new_bounded_json_writer maximum = \<lparr>bw_body = [], bw_maximum = maximum, bw_exceeded = False\<rparr>"

definition bounded_write :: "bytes \<Rightarrow> bounded_json_writer \<Rightarrow> bool \<times> bounded_json_writer" where
  "bounded_write buffer wr =
     (if bw_maximum wr - length (bw_body wr) < length buffer then (False, wr\<lparr>bw_exceeded := True\<rparr>)
      else (True, wr\<lparr>bw_body := bw_body wr @ buffer\<rparr>))"

text \<open>
  \<^verbatim>\<open>serde_json::to_writer\<close> is known by the buffers it writes in turn and by whether the value can be
  serialized; it stops at the first write that fails.
\<close>

type_synonym json_output = "bytes list \<times> bool"

fun to_writer :: "json_output \<Rightarrow> bounded_json_writer \<Rightarrow> bool \<times> bounded_json_writer" where
  "to_writer ([], ok) wr = (ok, wr)"
| "to_writer (b # bs, ok) wr = (case bounded_write b wr of (True, wr') \<Rightarrow> to_writer (bs, ok) wr' | (False, wr') \<Rightarrow> (False, wr'))"

fun code_and_reason :: "status_code \<Rightarrow> nat \<times> string" where
  "code_and_reason StatusOk = (200, ''OK'')"
| "code_and_reason StatusAccepted = (202, ''Accepted'')"
| "code_and_reason StatusNoContent = (204, ''No Content'')"
| "code_and_reason StatusBadRequest = (400, ''Bad Request'')"
| "code_and_reason StatusNotFound = (404, ''Not Found'')"
| "code_and_reason StatusMethodNotAllowed = (405, ''Method Not Allowed'')"
| "code_and_reason StatusNotAcceptable = (406, ''Not Acceptable'')"
| "code_and_reason StatusPayloadTooLarge = (413, ''Payload Too Large'')"
| "code_and_reason StatusUnsupportedMediaType = (415, ''Unsupported Media Type'')"
| "code_and_reason StatusInternalServerError = (500, ''Internal Server Error'')"
| "code_and_reason StatusServiceUnavailable = (503, ''Service Unavailable'')"

definition crlf :: string where "crlf = [CHR 0x0d, CHR 0x0a]"

definition append_static_headers :: "(string \<times> string) list \<Rightarrow> bytes" where
  "append_static_headers headers = concat (map (\<lambda>(name, value). str_bytes (name @ '': '' @ value @ crlf)) headers)"

definition status_line :: "status_code \<Rightarrow> string" where
  "status_line status = (case code_and_reason status of (code, reason) \<Rightarrow> ''HTTP/1.1 '' @ show_nat code @ '' '' @ reason @ crlf)"

definition encode_response ::
    "status_code \<Rightarrow> string \<Rightarrow> bytes \<Rightarrow> (string \<times> string) list \<Rightarrow> response_encode_error + bytes" where
  "encode_response status content_type body extra_headers =
     (if status = StatusNoContent then
        if body \<noteq> [] then Inl (NoContentBody (length body))
        else Inr (str_bytes (status_line status) @ append_static_headers extra_headers
                  @ str_bytes (''Connection: close'' @ crlf @ crlf))
      else if MAX_RESPONSE_BODY_BYTES < length body then Inl (ResponseBodyTooLarge (length body) MAX_RESPONSE_BODY_BYTES)
      else Inr (str_bytes (status_line status @ ''Content-Type: '' @ content_type @ crlf
                           @ ''Content-Length: '' @ show_nat (length body) @ crlf)
                @ append_static_headers extra_headers @ str_bytes (''Connection: close'' @ crlf @ crlf) @ body))"

definition JSON_CONTENT_TYPE :: string where "JSON_CONTENT_TYPE = ''application/json; charset=utf-8''"
definition PROMETHEUS_CONTENT_TYPE :: string where "PROMETHEUS_CONTENT_TYPE = ''text/plain; version=0.0.4; charset=utf-8''"
definition EMPTY_CONTENT_TYPE :: string where "EMPTY_CONTENT_TYPE = ''text/plain; charset=utf-8''"

definition json_response ::
    "status_code \<Rightarrow> json_output \<Rightarrow> (string \<times> string) list \<Rightarrow> response_encode_error + bytes" where
  "json_response status output extra_headers =
     (let maximum = (if status = StatusNoContent then 0 else MAX_RESPONSE_BODY_BYTES)
      in case to_writer output (new_bounded_json_writer maximum) of
           (True, wr) \<Rightarrow> encode_response status JSON_CONTENT_TYPE (bw_body wr) extra_headers
         | (False, wr) \<Rightarrow>
             if bw_exceeded wr then
               if status = StatusNoContent then Inl (NoContentBody 1)
               else Inl (ResponseBodyTooLarge (MAX_RESPONSE_BODY_BYTES + 1) MAX_RESPONSE_BODY_BYTES)
             else Inl JsonEncodeError)"

definition json_success :: "status_code \<Rightarrow> json_output \<Rightarrow> response_encode_error + bytes" where
  "json_success status output = json_response status output []"

text \<open>The error envelope is serialized like every other value: \<open>error_json code message\<close>.\<close>

definition json_error ::
    "(string \<Rightarrow> string \<Rightarrow> json_output) \<Rightarrow> status_code \<Rightarrow> string \<Rightarrow> string \<Rightarrow> response_encode_error + bytes" where
  "json_error error_json status code message = json_response status (error_json code message) []"

definition allow_headers :: "allowed_method option \<Rightarrow> (string \<times> string) list" where
  "allow_headers m = (case m of
       Some GetMethod \<Rightarrow> [(''Allow'', ''GET'')]
     | Some PostMethod \<Rightarrow> [(''Allow'', ''POST'')]
     | None \<Rightarrow> [])"

definition parse_error_response ::
    "(string \<Rightarrow> string \<Rightarrow> json_output) \<Rightarrow> parse_error \<Rightarrow> response_encode_error + bytes" where
  "parse_error_response error_json e =
     json_response (parse_error_status e) (error_json (parse_error_code e) (parse_error_message e))
       (allow_headers (parse_error_allowed_method e))"

definition prometheus_text :: "status_code \<Rightarrow> bytes \<Rightarrow> response_encode_error + bytes" where
  "prometheus_text status body = encode_response status PROMETHEUS_CONTENT_TYPE body []"

text \<open>\<^const>\<open>None\<close> is the panic of the \<^verbatim>\<open>expect\<close>.\<close>

definition empty_response :: "status_code \<Rightarrow> bytes option" where
  "empty_response status =
     (case encode_response status EMPTY_CONTENT_TYPE [] [] of Inl _ \<Rightarrow> None | Inr r \<Rightarrow> Some r)"

section \<open>Cursors\<close>

text \<open>\<^verbatim>\<open>console_cursor\<close> of \<^verbatim>\<open>src/server.rs\<close>: what the parser above reads back.\<close>

definition console_cursor :: "string \<Rightarrow> u64 \<Rightarrow> u64 \<Rightarrow> string" where
  "console_cursor process_identity controller_revision offset =
     process_identity @ '':'' @ show_nat (unat controller_revision) @ '':'' @ show_nat (unat offset)"

end
