(* ===== verification/F32.thy ===== *)
theory F32
  imports Prelude "HOL-Library.Log_Nat"
begin

text \<open>
  The IEEE 754 binary32 numbers behind Rust's \<^verbatim>\<open>f32\<close>, as their 32 bits.  Arithmetic is
  computed exactly on rationals and rounded once to the nearest number, ties to even,
  which is what the standard and the Rust reference prescribe for \<open>+\<close>, \<open>*\<close> and \<open>/\<close>.
  Conversions with \<^verbatim>\<open>as\<close> truncate and saturate; \<^verbatim>\<open>round\<close> rounds halves away from zero.
\<close>

type_synonym f32 = "32 word"

section \<open>Fields and values\<close>

definition f32_negative :: "f32 \<Rightarrow> bool" where
  "f32_negative x = bit x 31"

definition f32_exponent :: "f32 \<Rightarrow> int" where
  "f32_exponent x = uint (take_bit 8 (drop_bit 23 x))"

definition f32_fraction :: "f32 \<Rightarrow> int" where
  "f32_fraction x = uint (take_bit 23 x)"

definition f32_is_finite :: "f32 \<Rightarrow> bool" where
  "f32_is_finite x = (f32_exponent x \<noteq> 255)"

definition f32_is_nan :: "f32 \<Rightarrow> bool" where
  "f32_is_nan x = (f32_exponent x = 255 \<and> f32_fraction x \<noteq> 0)"

definition pow2 :: "int \<Rightarrow> rat" where
  "pow2 k = (if 0 \<le> k then 2 ^ nat k else 1 / 2 ^ nat (- k))"

text \<open>The magnitude of a finite number: significand times a power of two.\<close>

definition f32_magnitude :: "f32 \<Rightarrow> rat" where
  "f32_magnitude x =
     (if f32_exponent x = 0 then of_int (f32_fraction x) * pow2 (- 149)
      else of_int (2 ^ 23 + f32_fraction x) * pow2 (f32_exponent x - 150))"

definition f32_value :: "f32 \<Rightarrow> rat" where
  "f32_value x = (if f32_negative x then - f32_magnitude x else f32_magnitude x)"

section \<open>Rounding\<close>

text \<open>The nearest integer, ties to even.\<close>

definition round_even :: "rat \<Rightarrow> int" where
  "round_even r =
     (let f = \<lfloor>r\<rfloor>; d = r - of_int f
      in if d < 1 / 2 then f else if 1 / 2 < d then f + 1 else if even f then f else f + 1)"

text \<open>The exponent of the leading binary digit of a positive rational.\<close>

definition floor_log2 :: "rat \<Rightarrow> int" where
  "floor_log2 r =
     (let (n, d) = quotient_of r; k = bitlen n - bitlen d
      in if pow2 k \<le> r then k else k - 1)"

text \<open>
  The bits of the number nearest to a non-negative rational: with the leading digit at
  \<open>2\<^sup>e\<close> (at least the subnormal threshold), the significand is counted in units of
  \<open>2\<^sup>e\<^sup>-\<^sup>2\<^sup>3\<close>; a carry out of it runs into the exponent field, and everything
  from the largest exponent on is infinity.
\<close>

definition f32_bits_of :: "rat \<Rightarrow> int" where
  "f32_bits_of r =
     (if r \<le> 0 then 0
      else let e = max (floor_log2 r) (- 126); m = round_even (r / pow2 (e - 23))
           in min (255 * 2 ^ 23) ((e + 126) * 2 ^ 23 + m))"

definition f32_of_rat :: "bool \<Rightarrow> rat \<Rightarrow> f32" where
  "f32_of_rat neg r = (of_int (f32_bits_of \<bar>r\<bar>) :: f32) OR (if neg then 0x80000000 else 0)"

text \<open>A decimal literal of the source, correctly rounded.\<close>

definition f32_lit :: "rat \<Rightarrow> f32" where
  "f32_lit r = f32_of_rat (r < 0) r"

definition f32_infinity :: f32 where
  "f32_infinity = 0x7f800000"

definition f32_nan :: f32 where
  "f32_nan = 0x7fc00000"

section \<open>Arithmetic\<close>

definition f32_signed_infinity :: "bool \<Rightarrow> f32" where
  "f32_signed_infinity neg = (if neg then 0xff800000 else 0x7f800000)"

definition f32_abs :: "f32 \<Rightarrow> f32" where
  "f32_abs x = x AND 0x7fffffff"

definition f32_add :: "f32 \<Rightarrow> f32 \<Rightarrow> f32" where
  "f32_add x y =
     (if f32_is_nan x \<or> f32_is_nan y then f32_nan
      else if \<not> f32_is_finite x then
        (if \<not> f32_is_finite y \<and> f32_negative x \<noteq> f32_negative y then f32_nan else x)
      else if \<not> f32_is_finite y then y
      else let s = f32_value x + f32_value y
           in f32_of_rat (if s = 0 then f32_negative x \<and> f32_negative y else s < 0) s)"

definition f32_mul :: "f32 \<Rightarrow> f32 \<Rightarrow> f32" where
  "f32_mul x y =
     (let neg = (f32_negative x \<noteq> f32_negative y)
      in if f32_is_nan x \<or> f32_is_nan y then f32_nan
         else if \<not> f32_is_finite x \<or> \<not> f32_is_finite y then
           (if (f32_is_finite x \<and> f32_value x = 0) \<or> (f32_is_finite y \<and> f32_value y = 0)
            then f32_nan else f32_signed_infinity neg)
         else f32_of_rat neg (f32_value x * f32_value y))"

definition f32_div :: "f32 \<Rightarrow> f32 \<Rightarrow> f32" where
  "f32_div x y =
     (let neg = (f32_negative x \<noteq> f32_negative y)
      in if f32_is_nan x \<or> f32_is_nan y then f32_nan
         else if \<not> f32_is_finite x then
           (if \<not> f32_is_finite y then f32_nan else f32_signed_infinity neg)
         else if \<not> f32_is_finite y then f32_of_rat neg 0
         else if f32_value y = 0 then
           (if f32_value x = 0 then f32_nan else f32_signed_infinity neg)
         else f32_of_rat neg (f32_value x / f32_value y))"

text \<open>\<^verbatim>\<open>f32::round\<close>: to the nearest integer, halves away from zero.\<close>

definition f32_round :: "f32 \<Rightarrow> f32" where
  "f32_round x =
     (if \<not> f32_is_finite x then x
      else f32_of_rat (f32_negative x) (of_int \<lfloor>f32_magnitude x + 1 / 2\<rfloor>))"

section \<open>Comparisons\<close>

text \<open>Infinities compare like a rational beyond the finite range; NaN compares with nothing.\<close>

definition f32_order_value :: "f32 \<Rightarrow> rat" where
  "f32_order_value x =
     (if f32_is_finite x then f32_value x else if f32_negative x then - (2 ^ 128) else 2 ^ 128)"

definition f32_lt :: "f32 \<Rightarrow> f32 \<Rightarrow> bool" where
  "f32_lt x y = (\<not> f32_is_nan x \<and> \<not> f32_is_nan y \<and> f32_order_value x < f32_order_value y)"

definition f32_le :: "f32 \<Rightarrow> f32 \<Rightarrow> bool" where
  "f32_le x y = (\<not> f32_is_nan x \<and> \<not> f32_is_nan y \<and> f32_order_value x \<le> f32_order_value y)"

definition f32_eq :: "f32 \<Rightarrow> f32 \<Rightarrow> bool" where
  "f32_eq x y = (\<not> f32_is_nan x \<and> \<not> f32_is_nan y \<and> f32_order_value x = f32_order_value y)"

section \<open>Conversions\<close>

text \<open>Truncation towards zero of the value a conversion sees.\<close>

definition f32_trunc :: "f32 \<Rightarrow> int" where
  "f32_trunc x =
     (let v = f32_order_value x in if v < 0 then - \<lfloor>- v\<rfloor> else \<lfloor>v\<rfloor>)"

definition f32_as_int :: "int \<Rightarrow> int \<Rightarrow> f32 \<Rightarrow> int" where
  "f32_as_int lo hi x = (if f32_is_nan x then 0 else max lo (min hi (f32_trunc x)))"

definition f32_as_u16 :: "f32 \<Rightarrow> u16" where
  "f32_as_u16 x = of_int (f32_as_int 0 65535 x)"

definition f32_as_i16 :: "f32 \<Rightarrow> u16" where
  "f32_as_i16 x = of_int (f32_as_int (- 32768) 32767 x)"

definition f32_as_u32 :: "f32 \<Rightarrow> u32" where
  "f32_as_u32 x = of_int (f32_as_int 0 4294967295 x)"

text \<open>\<^verbatim>\<open>as f32\<close> from an unsigned integer, given by its value.\<close>

definition f32_from_uint :: "int \<Rightarrow> f32" where
  "f32_from_uint n = f32_of_rat False (of_int n)"

end
