(* ===== verification/Config.thy ===== *)
theory Config
  imports F32
begin

text \<open>
  Profile compilation (\<^verbatim>\<open>src/config.rs\<close>): the raw profile as the YAML deserializer
  delivers it, its validation, and its expansion into one endpoint descriptor per PMU.
  YAML itself is third-party: \<^verbatim>\<open>parse_profile\<close> takes the deserializer as an argument.
  The error messages of the source are constructors of \<open>config_error\<close>, one for each
  message, with the values the message mentions.
\<close>

section \<open>Constants\<close>

definition MAX_LOGICAL_PMUS :: nat where [const_defs]: "MAX_LOGICAL_PMUS = 150"
definition PHASOR_COUNT :: nat where [const_defs]: "PHASOR_COUNT = 6"
definition FREQUENCY_COUNT :: nat where [const_defs]: "FREQUENCY_COUNT = 1"
definition ROCOF_COUNT :: nat where [const_defs]: "ROCOF_COUNT = 1"
definition MAX_COMMAND_FRAME_BYTES :: nat where [const_defs]: "MAX_COMMAND_FRAME_BYTES = 4 * 1024"
definition V2_PROTOCOL_VERSION :: u8 where [const_defs]: "V2_PROTOCOL_VERSION = 2"
definition V3_PROTOCOL_VERSION :: u8 where [const_defs]: "V3_PROTOCOL_VERSION = 3"
definition V2_NAME_FIELD_BYTES :: nat where [const_defs]: "V2_NAME_FIELD_BYTES = 16"

section \<open>Compiled data\<close>

datatype ip_addr = IpV4 u32 | IpV6 "128 word"

record socket_addr =
  sa_ip :: ip_addr
  sa_port :: u16

record limits =
  command_frame_bytes :: nat
  receive_buffer_bytes :: nat
  send_buffer_bytes :: nat

datatype wire_version = V2 | V3

fun protocol_version :: "wire_version \<Rightarrow> u8" where
  "protocol_version V2 = V2_PROTOCOL_VERSION"
| "protocol_version V3 = V3_PROTOCOL_VERSION"

record signal_recipe =
  nominal :: f32
  variation :: f32

record v2_endpoint_metadata =
  station_name :: bytes
  v2_channel_names :: "bytes list"
  phunits :: "u32 list"
  good_stat :: bool

record endpoint_descriptor =
  ep_index :: nat
  ep_address :: socket_addr
  ep_stream_id :: u16
  ep_pmu_id :: u16
  ep_protocol_version :: u8
  ep_wire_version :: wire_version
  ep_v2 :: "v2_endpoint_metadata option"
  ep_pdc_name :: bytes
  ep_pmu_name :: bytes
  ep_global_pmu_id :: bytes
  ep_channel_names :: "bytes list"
  ep_time_base :: u32
  ep_data_rate_hz :: u16
  ep_nominal_frequency_hz :: u16
  ep_voltage_magnitude :: f32
  ep_voltage_variation :: f32
  ep_voltage_class :: f32
  ep_voltage_scale :: f32
  ep_current_magnitude :: f32
  ep_current_variation :: f32
  ep_current_scale :: f32
  ep_frequency_deviation :: signal_recipe
  ep_rocof :: signal_recipe

record compiled_profile =
  cp_seed :: u64
  cp_limits :: limits
  cp_endpoints :: "endpoint_descriptor list"

section \<open>Raw data and errors\<close>

record raw_limits =
  max_logical_pmus :: nat
  max_clients_per_endpoint :: nat
  max_command_frame_bytes :: nat
  requested_socket_receive_buffer_bytes :: nat
  requested_socket_send_buffer_bytes :: nat

record phasor_recipe =
  voltage_magnitude :: f32
  voltage_variation :: f32
  voltage_class :: f32
  voltage_scale :: f32
  current_magnitude :: f32
  current_variation :: f32
  current_scale :: f32

record fleet =
  fl_count :: nat
  bind_address :: ip_addr
  first_listen_port :: u16
  first_stream_id :: u16
  first_pmu_id :: u16
  fl_pdc_name :: string
  pmu_name_prefix :: string
  fl_protocol_version :: u8
  v2_good_stat_pmu_ids :: "u16 list"
  fl_data_rate_hz :: u16
  fl_time_base :: u32
  fl_nominal_frequency_hz :: u16
  phasors :: phasor_recipe
  frequency_deviation_hz :: signal_recipe
  rocof_hz_per_s :: signal_recipe

record profile =
  pr_seed :: u64
  pr_limits :: raw_limits
  pr_fleet :: fleet

datatype config_error =
    InvalidYaml string
  | CannotRead string
  | MaxLogicalPmusRange
  | MaxClientsNotTwo
  | MaxCommandFrameBytesRange
  | SocketBufferRange string
  | FleetCountRange nat
  | FleetCountExceedsPmuLimit
  | UnsupportedProtocolVersion
  | DataRateNotFifty
  | TimeBaseRange
  | TimeBaseNotMultiple
  | NominalFrequencyUnsupported
  | NameLengthRange string
  | NameControlCharacter string
  | IdentifierOverflow string
  | IdentifierRange string
  | GoodStatRequiresV2
  | GoodStatUnknownPmu
  | GoodStatDuplicate
  | NotFinite string
  | NotPositive string
  | NegativeValue string
  | VariationExceedsMagnitude string
  | MagnitudeOutOfRange string
  | FrequencyOutOfRange
  | RocofOutOfRange
  | ListenerPortOverflow
  | ListenerPortZero
  | FleetIndexOverflow
  | V2NameInvalid string
  | PhunitUnrepresentable string

section \<open>Validation helpers\<close>

definition wire_version_try_from :: "u8 \<Rightarrow> config_error + wire_version" where
  "wire_version_try_from v =
     (if v = V2_PROTOCOL_VERSION then Inr V2
      else if v = V3_PROTOCOL_VERSION then Inr V3
      else Inl UnsupportedProtocolVersion)"

definition final_identifier :: "u16 \<Rightarrow> u16 \<Rightarrow> string \<Rightarrow> config_error + u16" where
  "final_identifier first offset name =
     bind_ok (ok_or (checked_add first offset) (IdentifierOverflow name)) (\<lambda>final_value.
     bind_ok (fail_if (first = 0 \<or> final_value = 0xffff) (IdentifierRange name)) (\<lambda>_.
     Inr final_value))"

definition validate_finite :: "string \<Rightarrow> f32 \<Rightarrow> config_error + unit" where
  "validate_finite name value = fail_if (\<not> f32_is_finite value) (NotFinite name)"

definition validate_positive_finite :: "string \<Rightarrow> f32 \<Rightarrow> config_error + unit" where
  "validate_positive_finite name value =
     bind_ok (validate_finite name value) (\<lambda>_. fail_if (f32_le value 0) (NotPositive name))"

definition validate_non_negative :: "string \<Rightarrow> f32 \<Rightarrow> config_error + unit" where
  "validate_non_negative name value =
     bind_ok (validate_finite name value) (\<lambda>_. fail_if (f32_lt value 0) (NegativeValue name))"

definition validate_fixed_magnitude_range :: "string \<Rightarrow> f32 \<Rightarrow> f32 \<Rightarrow> f32 \<Rightarrow> config_error + unit" where
  "validate_fixed_magnitude_range name nom var scale =
     fail_if (f32_lt (f32_from_uint 65535) (f32_div (f32_add nom var) scale)) (MagnitudeOutOfRange name)"

definition encoded_name :: "string \<Rightarrow> string \<Rightarrow> config_error + bytes" where
  "encoded_name value field =
     (if value = [] \<or> 255 < length value then Inl (NameLengthRange field)
      else if list_ex is_ascii_control (str_bytes value) then Inl (NameControlCharacter field)
      else Inr (of_nat (length value) # str_bytes value))"

definition v2_fixed_ascii :: "string \<Rightarrow> string \<Rightarrow> config_error + bytes" where
  "v2_fixed_ascii value field =
     (if value = [] \<or> V2_NAME_FIELD_BYTES < length value
         \<or> \<not> list_all is_printable_ascii (str_bytes value)
      then Inl (V2NameInvalid field)
      else Inr (write_at 0 (str_bytes value) (replicate V2_NAME_FIELD_BYTES 0x20)))"

text \<open>The loop over the configured good-STAT identifiers, with the ones already seen.\<close>

fun validate_good_stat_loop :: "u16 \<Rightarrow> u16 \<Rightarrow> u16 list \<Rightarrow> u16 list \<Rightarrow> config_error + unit" where
  "validate_good_stat_loop first_id final_id seen [] = Inr ()"
| "validate_good_stat_loop first_id final_id seen (pmu_id # rest) =
     (if \<not> (first_id \<le> pmu_id \<and> pmu_id \<le> final_id) then Inl GoodStatUnknownPmu
      else if pmu_id \<in> set seen then Inl GoodStatDuplicate
      else validate_good_stat_loop first_id final_id (seen @ [pmu_id]) rest)"

definition validate_v2_good_stat_pmu_ids ::
    "u16 list \<Rightarrow> u16 \<Rightarrow> u16 \<Rightarrow> wire_version \<Rightarrow> config_error + unit" where
  "validate_v2_good_stat_pmu_ids pmu_ids first_id final_id wv =
     bind_ok (fail_if (pmu_ids \<noteq> [] \<and> wv \<noteq> V2) GoodStatRequiresV2) (\<lambda>_.
     validate_good_stat_loop first_id final_id [] pmu_ids)"

definition validate_limits :: "raw_limits \<Rightarrow> config_error + unit" where
  "validate_limits l =
     bind_ok (fail_if (\<not> (1 \<le> max_logical_pmus l \<and> max_logical_pmus l \<le> MAX_LOGICAL_PMUS))
                MaxLogicalPmusRange) (\<lambda>_.
     bind_ok (fail_if (max_clients_per_endpoint l \<noteq> 2) MaxClientsNotTwo) (\<lambda>_.
     bind_ok (fail_if (\<not> (18 \<le> max_command_frame_bytes l \<and> max_command_frame_bytes l \<le> MAX_COMMAND_FRAME_BYTES))
                MaxCommandFrameBytesRange) (\<lambda>_.
     bind_ok (fail_if (\<not> (1 \<le> requested_socket_receive_buffer_bytes l
                         \<and> requested_socket_receive_buffer_bytes l \<le> MAX_COMMAND_FRAME_BYTES))
                (SocketBufferRange ''limits.requested_socket_receive_buffer_bytes'')) (\<lambda>_.
     fail_if (\<not> (1 \<le> requested_socket_send_buffer_bytes l
                \<and> requested_socket_send_buffer_bytes l \<le> MAX_COMMAND_FRAME_BYTES))
       (SocketBufferRange ''limits.requested_socket_send_buffer_bytes'')))))"

definition validate_phasors :: "phasor_recipe \<Rightarrow> config_error + unit" where
  "validate_phasors ph =
     bind_ok (validate_positive_finite ''fleet.phasors.voltage_magnitude'' (voltage_magnitude ph)) (\<lambda>_.
     bind_ok (validate_non_negative ''fleet.phasors.voltage_variation'' (voltage_variation ph)) (\<lambda>_.
     bind_ok (fail_if (f32_lt (voltage_magnitude ph) (voltage_variation ph))
                (VariationExceedsMagnitude ''fleet.phasors.voltage_variation'')) (\<lambda>_.
     bind_ok (validate_non_negative ''fleet.phasors.voltage_class'' (voltage_class ph)) (\<lambda>_.
     bind_ok (validate_positive_finite ''fleet.phasors.voltage_scale'' (voltage_scale ph)) (\<lambda>_.
     bind_ok (validate_fixed_magnitude_range ''fleet.phasors.voltage_magnitude''
                (voltage_magnitude ph) (voltage_variation ph) (voltage_scale ph)) (\<lambda>_.
     bind_ok (validate_positive_finite ''fleet.phasors.current_magnitude'' (current_magnitude ph)) (\<lambda>_.
     bind_ok (validate_non_negative ''fleet.phasors.current_variation'' (current_variation ph)) (\<lambda>_.
     bind_ok (fail_if (f32_lt (current_magnitude ph) (current_variation ph))
                (VariationExceedsMagnitude ''fleet.phasors.current_variation'')) (\<lambda>_.
     bind_ok (validate_positive_finite ''fleet.phasors.current_scale'' (current_scale ph)) (\<lambda>_.
     validate_fixed_magnitude_range ''fleet.phasors.current_magnitude''
       (current_magnitude ph) (current_variation ph) (current_scale ph)))))))))))"

definition validate_signals :: "signal_recipe \<Rightarrow> signal_recipe \<Rightarrow> config_error + unit" where
  "validate_signals freq rocof =
     bind_ok (validate_finite ''fleet.frequency_deviation_hz.nominal'' (nominal freq)) (\<lambda>_.
     bind_ok (validate_non_negative ''fleet.frequency_deviation_hz.variation'' (variation freq)) (\<lambda>_.
     bind_ok (validate_finite ''fleet.rocof_hz_per_s.nominal'' (nominal rocof)) (\<lambda>_.
     bind_ok (validate_non_negative ''fleet.rocof_hz_per_s.variation'' (variation rocof)) (\<lambda>_.
     bind_ok (fail_if (f32_lt (f32_lit 32.767) (f32_add (f32_abs (nominal freq)) (variation freq)))
                FrequencyOutOfRange) (\<lambda>_.
     fail_if (f32_lt (f32_lit 327.67) (f32_add (f32_abs (nominal rocof)) (variation rocof)))
       RocofOutOfRange)))))"

definition validate_fleet :: "fleet \<Rightarrow> nat \<Rightarrow> config_error + wire_version" where
  "validate_fleet f max_pmus =
     bind_ok (fail_if (\<not> (1 \<le> fl_count f \<and> fl_count f \<le> max_pmus)) (FleetCountRange max_pmus)) (\<lambda>_.
     bind_ok (wire_version_try_from (fl_protocol_version f)) (\<lambda>wv.
     bind_ok (fail_if (fl_data_rate_hz f \<noteq> 50) DataRateNotFifty) (\<lambda>_.
     bind_ok (fail_if (\<not> (1 \<le> fl_time_base f \<and> fl_time_base f \<le> 0x00ffffff)) TimeBaseRange) (\<lambda>_.
     bind_ok (fail_if (fl_time_base f mod ucast (fl_data_rate_hz f) \<noteq> 0) TimeBaseNotMultiple) (\<lambda>_.
     bind_ok (fail_if (\<not> (fl_nominal_frequency_hz f = 50 \<or> fl_nominal_frequency_hz f = 60))
                NominalFrequencyUnsupported) (\<lambda>_.
     bind_ok (encoded_name (fl_pdc_name f) ''fleet.pdc_name'') (\<lambda>_.
     bind_ok (encoded_name (pmu_name_prefix f @ show_nat_03 (fl_count f)) ''fleet.pmu_name_prefix'') (\<lambda>_.
     bind_ok (ok_or (try_from (fl_count f - 1)) FleetCountExceedsPmuLimit) (\<lambda>count_minus_one.
     bind_ok (final_identifier (first_stream_id f) count_minus_one ''STREAM_ID'') (\<lambda>_.
     bind_ok (final_identifier (first_pmu_id f) count_minus_one ''PMU_ID'') (\<lambda>final_pmu_id.
     bind_ok (validate_v2_good_stat_pmu_ids (v2_good_stat_pmu_ids f) (first_pmu_id f) final_pmu_id wv) (\<lambda>_.
     bind_ok (validate_phasors (phasors f)) (\<lambda>_.
     bind_ok (validate_signals (frequency_deviation_hz f) (rocof_hz_per_s f)) (\<lambda>_.
     Inr wv))))))))))))))"

section \<open>Compilation\<close>

definition splitmix64 :: "u64 \<Rightarrow> u64" where
  "splitmix64 value0 =
     (let value1 = value0 + 0x9e3779b97f4a7c15;
          value2 = (value1 XOR drop_bit 30 value1) * 0xbf58476d1ce4e5b9;
          value3 = (value2 XOR drop_bit 27 value2) * 0x94d049bb133111eb
      in value3 XOR drop_bit 31 value3)"

definition deterministic_uuid :: "u64 \<Rightarrow> nat \<Rightarrow> bytes" where
  "deterministic_uuid seed index =
     (let first = splitmix64 (seed XOR of_nat index);
          second = splitmix64 (first XOR 0x9e3779b97f4a7c15);
          identifier = write_at 8 (u64_to_be second) (write_at 0 (u64_to_be first) (replicate 16 0));
          identifier = identifier[6 := (identifier ! 6 AND 0x0f) OR 0x40]
      in identifier[8 := (identifier ! 8 AND 0x3f) OR 0x80])"

definition v2_phunit :: "f32 \<Rightarrow> bool \<Rightarrow> string \<Rightarrow> config_error + u32" where
  "v2_phunit scale current field =
     (let scaled = f32_round (f32_mul scale (f32_lit 100000))
      in if \<not> f32_is_finite scaled
            \<or> \<not> (f32_le (f32_lit 1) scaled \<and> f32_le scaled (f32_from_uint 0x00ffffff))
         then Inl (PhunitUnrepresentable field)
         else Inr (push_bit 24 (if current then 1 else 0) OR f32_as_u32 scaled))"

definition v2_phunits :: "phasor_recipe \<Rightarrow> config_error + u32 list" where
  "v2_phunits ph =
     bind_ok (v2_phunit (voltage_scale ph) False ''fleet.phasors.voltage_scale'') (\<lambda>voltage.
     bind_ok (v2_phunit (current_scale ph) True ''fleet.phasors.current_scale'') (\<lambda>current.
     Inr [voltage, voltage, voltage, current, current, current]))"

text \<open>\<^verbatim>\<open>iter().map(f).collect::<Result<Vec<_>, _>>()\<close> and loops that push \<^verbatim>\<open>f(x)?\<close>.\<close>

fun collect_ok :: "('a \<Rightarrow> 'e + 'b) \<Rightarrow> 'a list \<Rightarrow> 'e + 'b list" where
  "collect_ok f [] = Inr []"
| "collect_ok f (x # xs) = bind_ok (f x) (\<lambda>y. bind_ok (collect_ok f xs) (\<lambda>ys. Inr (y # ys)))"

definition standard_channel_names :: "config_error + bytes list" where
  "standard_channel_names =
     collect_ok (\<lambda>name. encoded_name name ''V3 channel name'')
       [''VL1'', ''VL2'', ''VL3'', ''IL1'', ''IL2'', ''IL3'', ''FREQ'', ''ROCOF'']"

definition standard_v2_channel_names :: "config_error + bytes list" where
  "standard_v2_channel_names =
     collect_ok (\<lambda>name. v2_fixed_ascii name ''V2 channel name'')
       [''VL1'', ''VL2'', ''VL3'', ''IL1'', ''IL2'', ''IL3'']"

text \<open>
  One round of the endpoint loop.  The fixed-width names and PHUNIT values are
  \<^const>\<open>None\<close> for a V3 profile; taking them with \<^verbatim>\<open>expect\<close> would then panic, which is the
  outer \<^const>\<open>None\<close>.
\<close>

definition compile_endpoint ::
    "profile \<Rightarrow> wire_version \<Rightarrow> bytes \<Rightarrow> bytes list \<Rightarrow> bytes list option \<Rightarrow> u32 list option \<Rightarrow> nat
      \<Rightarrow> (config_error + endpoint_descriptor) option" where
  "compile_endpoint p wv pdc_name channel_names v2_names v2_units index =
     (let f = pr_fleet p;
          ids = bind_ok (ok_or (try_from index) FleetIndexOverflow) (\<lambda>offset.
                bind_ok (ok_or (checked_add (first_listen_port f) offset) ListenerPortOverflow) (\<lambda>port.
                bind_ok (ok_or (checked_add (first_stream_id f) offset) (IdentifierOverflow ''STREAM_ID'')) (\<lambda>stream_id.
                bind_ok (ok_or (checked_add (first_pmu_id f) offset) (IdentifierOverflow ''PMU_ID'')) (\<lambda>pmu_id.
                Inr (port, stream_id, pmu_id)))));
          source = pmu_name_prefix f @ show_nat_03 (index + 1);
          named = (case wv of
              V2 \<Rightarrow> Inr ([], replicate 16 0)
            | V3 \<Rightarrow> bind_ok (encoded_name source ''fleet.pmu_name_prefix'')
                      (\<lambda>name. Inr (name, deterministic_uuid (pr_seed p) index)))
      in case bind_ok ids (\<lambda>i. bind_ok named (\<lambda>n. Inr (i, n))) of
           Inl e \<Rightarrow> Some (Inl e)
         | Inr ((port, stream_id, pmu_id), (pmu_name, global_pmu_id)) \<Rightarrow>
             (let metadata = (case wv of
                  V3 \<Rightarrow> Some (Inr None)
                | V2 \<Rightarrow> (case v2_fixed_ascii source ''fleet.pmu_name_prefix'' of
                      Inl e \<Rightarrow> Some (Inl e)
                    | Inr station \<Rightarrow>
                        (case v2_names of None \<Rightarrow> None | Some names \<Rightarrow>
                        (case v2_units of None \<Rightarrow> None | Some units \<Rightarrow>
                          Some (Inr (Some
                            \<lparr>station_name = station, v2_channel_names = names, phunits = units,
                             good_stat = (pmu_id \<in> set (v2_good_stat_pmu_ids f))\<rparr>))))))
              in case metadata of
                   None \<Rightarrow> None
                 | Some (Inl e) \<Rightarrow> Some (Inl e)
                 | Some (Inr v2) \<Rightarrow> Some (Inr
                     \<lparr>ep_index = index,
                      ep_address = \<lparr>sa_ip = bind_address f, sa_port = port\<rparr>,
                      ep_stream_id = stream_id,
                      ep_pmu_id = pmu_id,
                      ep_protocol_version = fl_protocol_version f,
                      ep_wire_version = wv,
                      ep_v2 = v2,
                      ep_pdc_name = pdc_name,
                      ep_pmu_name = pmu_name,
                      ep_global_pmu_id = global_pmu_id,
                      ep_channel_names = channel_names,
                      ep_time_base = fl_time_base f,
                      ep_data_rate_hz = fl_data_rate_hz f,
                      ep_nominal_frequency_hz = fl_nominal_frequency_hz f,
                      ep_voltage_magnitude = voltage_magnitude (phasors f),
                      ep_voltage_variation = voltage_variation (phasors f),
                      ep_voltage_class = voltage_class (phasors f),
                      ep_voltage_scale = voltage_scale (phasors f),
                      ep_current_magnitude = current_magnitude (phasors f),
                      ep_current_variation = current_variation (phasors f),
                      ep_current_scale = current_scale (phasors f),
                      ep_frequency_deviation = frequency_deviation_hz f,
                      ep_rocof = rocof_hz_per_s f\<rparr>)))"

text \<open>The loop over \<^verbatim>\<open>0..count\<close>: stops at the first panic or error.\<close>

fun compile_endpoints ::
    "(nat \<Rightarrow> (config_error + endpoint_descriptor) option) \<Rightarrow> nat list
      \<Rightarrow> (config_error + endpoint_descriptor list) option" where
  "compile_endpoints body [] = Some (Inr [])"
| "compile_endpoints body (i # is) =
     (case body i of
        None \<Rightarrow> None
      | Some (Inl e) \<Rightarrow> Some (Inl e)
      | Some (Inr ep) \<Rightarrow>
          (case compile_endpoints body is of
             None \<Rightarrow> None
           | Some (Inl e) \<Rightarrow> Some (Inl e)
           | Some (Inr eps) \<Rightarrow> Some (Inr (ep # eps))))"

text \<open>Everything \<^verbatim>\<open>compile_profile\<close> computes before the loop.\<close>

definition compile_prefix ::
    "profile \<Rightarrow> config_error + (wire_version \<times> bytes \<times> bytes list \<times> bytes list option \<times> u32 list option)" where
  "compile_prefix p =
     (let f = pr_fleet p in
     bind_ok (validate_limits (pr_limits p)) (\<lambda>_.
     bind_ok (validate_fleet f (max_logical_pmus (pr_limits p))) (\<lambda>wv.
     bind_ok (ok_or (try_from (fl_count f - 1)) FleetCountExceedsPmuLimit) (\<lambda>count_minus_one.
     bind_ok (ok_or (checked_add (first_listen_port f) count_minus_one) ListenerPortOverflow) (\<lambda>final_port.
     bind_ok (final_identifier (first_stream_id f) count_minus_one ''STREAM_ID'') (\<lambda>_.
     bind_ok (final_identifier (first_pmu_id f) count_minus_one ''PMU_ID'') (\<lambda>_.
     bind_ok (fail_if (first_listen_port f = 0 \<or> final_port = 0) ListenerPortZero) (\<lambda>_.
     bind_ok (encoded_name (fl_pdc_name f) ''fleet.pdc_name'') (\<lambda>pdc_name.
     bind_ok (case wv of V2 \<Rightarrow> Inr [] | V3 \<Rightarrow> standard_channel_names) (\<lambda>channel_names.
     bind_ok (case wv of V2 \<Rightarrow> bind_ok standard_v2_channel_names (Inr \<circ> Some) | V3 \<Rightarrow> Inr None) (\<lambda>v2_names.
     bind_ok (case wv of V2 \<Rightarrow> bind_ok (v2_phunits (phasors f)) (Inr \<circ> Some) | V3 \<Rightarrow> Inr None) (\<lambda>v2_units.
     Inr (wv, pdc_name, channel_names, v2_names, v2_units)))))))))))))"

definition compile_profile :: "profile \<Rightarrow> (config_error + compiled_profile) option" where
  "compile_profile p =
     (case compile_prefix p of
        Inl e \<Rightarrow> Some (Inl e)
      | Inr (wv, pdc_name, channel_names, v2_names, v2_units) \<Rightarrow>
          (case compile_endpoints (compile_endpoint p wv pdc_name channel_names v2_names v2_units)
                  [0..<fl_count (pr_fleet p)] of
             None \<Rightarrow> None
           | Some (Inl e) \<Rightarrow> Some (Inl e)
           | Some (Inr eps) \<Rightarrow> Some (Inr
               \<lparr>cp_seed = pr_seed p,
                cp_limits = \<lparr>command_frame_bytes = max_command_frame_bytes (pr_limits p),
                             receive_buffer_bytes = requested_socket_receive_buffer_bytes (pr_limits p),
                             send_buffer_bytes = requested_socket_send_buffer_bytes (pr_limits p)\<rparr>,
                cp_endpoints = eps\<rparr>)))"

definition parse_profile ::
    "(string \<Rightarrow> string + profile) \<Rightarrow> string \<Rightarrow> (config_error + compiled_profile) option" where
  "parse_profile yaml contents =
     (case yaml contents of Inl e \<Rightarrow> Some (Inl (InvalidYaml e)) | Inr p \<Rightarrow> compile_profile p)"

definition load_profile ::
    "(string \<Rightarrow> string option) \<Rightarrow> (string \<Rightarrow> string + profile) \<Rightarrow> string
      \<Rightarrow> (config_error + compiled_profile) option" where
  "load_profile read_to_string yaml path =
     (case read_to_string path of
        None \<Rightarrow> Some (Inl (CannotRead path))
      | Some contents \<Rightarrow> parse_profile yaml contents)"

section \<open>PHUNIT words\<close>

lemma f32_order_value_lit_1: "f32_order_value (f32_lit 1) = 1"
  by code_simp

lemma f32_order_value_phunit_max: "f32_order_value (f32_from_uint 0x00ffffff) = 16777215"
  by code_simp

lemma f32_as_u32_range:
  assumes "f32_le (f32_lit 1) x" and "f32_le x (f32_from_uint 0x00ffffff)"
  shows "1 \<le> unat (f32_as_u32 x)" "unat (f32_as_u32 x) \<le> 0x00ffffff"
proof -
  let ?v = "f32_order_value x"
  have v: "1 \<le> ?v" "?v \<le> 16777215" and n: "\<not> f32_is_nan x"
    using assms by (simp_all add: f32_le_def f32_order_value_lit_1 f32_order_value_phunit_max)
  then have "1 \<le> \<lfloor>?v\<rfloor>" "\<lfloor>?v\<rfloor> \<le> 16777215"
    by (simp_all add: le_floor_iff floor_le_iff)
  moreover have "f32_as_int 0 4294967295 x = \<lfloor>?v\<rfloor>"
    using v n calculation by (simp add: f32_as_int_def f32_trunc_def Let_def)
  ultimately have "uint (f32_as_u32 x) = \<lfloor>?v\<rfloor>"
    by (simp add: f32_as_u32_def uint_word_of_int_eq take_bit_int_eq_self_iff)
  then have "int (unat (f32_as_u32 x)) = \<lfloor>?v\<rfloor>"
    by simp
  with \<open>1 \<le> \<lfloor>?v\<rfloor>\<close> \<open>\<lfloor>?v\<rfloor> \<le> 16777215\<close>
  show "1 \<le> unat (f32_as_u32 x)" "unat (f32_as_u32 x) \<le> 0x00ffffff"
    by linarith+
qed

definition phunit_wf :: "u32 \<Rightarrow> bool" where
  "phunit_wf u = (drop_bit 24 u \<le> 1 \<and> u AND 0x00ffffff \<noteq> 0)"

lemma mask_24: "(0x00ffffff :: u32) = mask 24"
  by (simp add: mask_eq_exp_minus_1)

lemma low24_bound: "unat (w :: u32) \<le> 0x00ffffff \<Longrightarrow> take_bit 24 w = w"
  by (simp add: word_unat_eq_iff unsigned_take_bit_eq take_bit_nat_eq_self)

lemma phunit_fields:
  assumes "unat (w :: u32) \<le> 0x00ffffff"
  shows "drop_bit 24 (push_bit 24 c OR w) = take_bit 8 c"
    and "(push_bit 24 c OR w) AND 0x00ffffff = w"
proof -
  have b: "\<not> bit w n" if "24 \<le> n" for n
    using low24_bound [OF assms] that by (metis bit_take_bit_iff not_le)
  show "drop_bit 24 (push_bit 24 c OR w) = take_bit 8 c"
    by (rule bit_word_eqI) (auto simp: bit_simps b)
  show "(push_bit 24 c OR w) AND 0x00ffffff = w"
    unfolding mask_24
    using b by (intro bit_word_eqI) (auto simp: bit_simps not_le [symmetric])
qed

lemma v2_phunit_Inr:
  assumes "v2_phunit scale current field = Inr u"
  shows "phunit_wf u" "drop_bit 24 u = (if current then 1 else 0)"
proof -
  let ?w = "f32_as_u32 (f32_round (f32_mul scale (f32_lit 100000)))"
  from assms have u: "u = push_bit 24 (if current then 1 else 0) OR ?w"
    and r: "1 \<le> unat ?w" "unat ?w \<le> 0x00ffffff"
    using f32_as_u32_range [of "f32_round (f32_mul scale (f32_lit 100000))"]
    by (auto simp: v2_phunit_def Let_def split: if_splits)
  have top: "drop_bit 24 u = take_bit 8 (if current then 1 else 0)"
    unfolding u by (rule phunit_fields(1) [OF r(2)])
  show "drop_bit 24 u = (if current then 1 else 0)"
    unfolding top by (cases current) simp_all
  have "u AND 0x00ffffff = ?w"
    unfolding u by (rule phunit_fields(2) [OF r(2)])
  moreover have "?w \<noteq> 0"
    using r(1) by auto
  ultimately show "phunit_wf u"
    unfolding phunit_wf_def top by (cases current) simp_all
qed

section \<open>Names\<close>

text \<open>An indexed name: one length byte, then that many bytes without ASCII controls.\<close>

definition indexed_name_wf :: "bytes \<Rightarrow> bool" where
  "indexed_name_wf bs =
     (bs \<noteq> [] \<and> unat (hd bs) = length (tl bs) \<and> tl bs \<noteq> [] \<and> \<not> list_ex is_ascii_control (tl bs))"

definition fixed_name_wf :: "bytes \<Rightarrow> bool" where
  "fixed_name_wf bs = (length bs = V2_NAME_FIELD_BYTES \<and> list_all is_printable_ascii bs)"

lemma encoded_name_Inr:
  assumes "encoded_name value field = Inr bs"
  shows "indexed_name_wf bs" "tl bs = str_bytes value" "length bs = length value + 1"
  using assms
  by (auto simp: encoded_name_def indexed_name_wf_def unsigned_of_nat take_bit_nat_eq_self
      str_bytes_def split: if_splits)

lemma v2_fixed_ascii_Inr:
  assumes "v2_fixed_ascii value field = Inr bs"
  shows "fixed_name_wf bs" "take (length value) bs = str_bytes value"
  using assms
  by (auto simp: v2_fixed_ascii_def fixed_name_wf_def write_at_def const_defs list_all_iff
      is_printable_ascii_def split: if_splits)

lemma standard_channel_names_eq:
  "standard_channel_names = Inr (map (\<lambda>s. of_nat (length s) # str_bytes s)
     [''VL1'', ''VL2'', ''VL3'', ''IL1'', ''IL2'', ''IL3'', ''FREQ'', ''ROCOF''])"
  by (simp add: standard_channel_names_def encoded_name_def str_bytes_def is_ascii_control_def)

lemma standard_v2_channel_names_Inr:
  "standard_v2_channel_names = Inr names \<Longrightarrow> length names = 6 \<and> list_all fixed_name_wf names"
  by (auto simp: standard_v2_channel_names_def dest!: v2_fixed_ascii_Inr(1))

lemma v2_phunits_Inr:
  "v2_phunits ph = Inr us \<Longrightarrow> length us = PHASOR_COUNT \<and> list_all phunit_wf us"
  by (auto simp: v2_phunits_def const_defs dest: v2_phunit_Inr(1))

section \<open>Identifiers\<close>

lemma length_deterministic_uuid: "length (deterministic_uuid seed i) = 16"
  by (simp add: deterministic_uuid_def Let_def)

definition uuid_v4_shaped :: "bytes \<Rightarrow> bool" where
  "uuid_v4_shaped bs = (length bs = 16 \<and> drop_bit 4 (bs ! 6) = 4 \<and> drop_bit 6 (bs ! 8) = 2)"

lemma version_nibble: "drop_bit 4 ((b AND 0x0f) OR 0x40 :: u8) = 4"
  by (rule bit_word_eqI) (auto simp: bit_simps bit_numeral_rec numeral_eq_Suc less_Suc_eq)

lemma variant_bits: "drop_bit 6 ((b AND 0x3f) OR 0x80 :: u8) = 2"
  by (rule bit_word_eqI) (auto simp: bit_simps numeral_eq_Suc less_Suc_eq)

lemma deterministic_uuid_shaped: "uuid_v4_shaped (deterministic_uuid seed i)"
  unfolding uuid_v4_shaped_def
  by (simp add: length_deterministic_uuid) (simp add: deterministic_uuid_def Let_def version_nibble variant_bits)


section \<open>Well-formed profiles\<close>

definition identifier_wf :: "u16 \<Rightarrow> bool" where
  "identifier_wf i = (1 \<le> unat i \<and> unat i \<le> 65534)"

definition v2_metadata_wf :: "v2_endpoint_metadata \<Rightarrow> bool" where
  "v2_metadata_wf m =
     (fixed_name_wf (station_name m)
      \<and> length (v2_channel_names m) = PHASOR_COUNT \<and> list_all fixed_name_wf (v2_channel_names m)
      \<and> length (phunits m) = PHASOR_COUNT \<and> list_all phunit_wf (phunits m))"

definition v3_names_wf :: "endpoint_descriptor \<Rightarrow> bool" where
  "v3_names_wf ep =
     (indexed_name_wf (ep_pmu_name ep) \<and> uuid_v4_shaped (ep_global_pmu_id ep)
      \<and> length (ep_channel_names ep) = 8 \<and> list_all indexed_name_wf (ep_channel_names ep))"

definition endpoint_wf :: "endpoint_descriptor \<Rightarrow> bool" where
  "endpoint_wf ep =
     (identifier_wf (ep_stream_id ep) \<and> identifier_wf (ep_pmu_id ep)
      \<and> sa_port (ep_address ep) \<noteq> 0
      \<and> ep_protocol_version ep = protocol_version (ep_wire_version ep)
      \<and> ep_data_rate_hz ep = 50
      \<and> 0 < unat (ep_time_base ep) \<and> unat (ep_time_base ep) < 2 ^ 24 \<and> unat (ep_time_base ep) mod 50 = 0
      \<and> (ep_nominal_frequency_hz ep = 50 \<or> ep_nominal_frequency_hz ep = 60)
      \<and> indexed_name_wf (ep_pdc_name ep)
      \<and> (case ep_wire_version ep of
           V2 \<Rightarrow> (case ep_v2 ep of None \<Rightarrow> False | Some m \<Rightarrow> v2_metadata_wf m)
         | V3 \<Rightarrow> ep_v2 ep = None \<and> v3_names_wf ep))"

definition profile_wf :: "compiled_profile \<Rightarrow> bool" where
  "profile_wf cp =
     (1 \<le> length (cp_endpoints cp) \<and> length (cp_endpoints cp) \<le> MAX_LOGICAL_PMUS
      \<and> list_all endpoint_wf (cp_endpoints cp)
      \<and> map ep_index (cp_endpoints cp) = [0..<length (cp_endpoints cp)]
      \<and> list_all (\<lambda>ep. ep_wire_version ep = ep_wire_version (hd (cp_endpoints cp))
                     \<and> ep_time_base ep = ep_time_base (hd (cp_endpoints cp))) (cp_endpoints cp)
      \<and> 18 \<le> command_frame_bytes (cp_limits cp)
      \<and> command_frame_bytes (cp_limits cp) \<le> MAX_COMMAND_FRAME_BYTES)"

lemma compile_endpoints_Inr:
  assumes "compile_endpoints body is = Some (Inr eps)"
  shows "list_all2 (\<lambda>i ep. body i = Some (Inr ep)) is eps"
  using assms
  by (induction body "is" arbitrary: eps rule: compile_endpoints.induct)
     (auto split: option.splits sum.splits)

text \<open>What one successful round of the endpoint loop yields.\<close>

lemma compile_endpoint_Inr:
  assumes "compile_endpoint p wv pdc names v2_names v2_units i = Some (Inr ep)"
  shows "ep_index ep = i"
    and "ep_wire_version ep = wv"
    and "unat (sa_port (ep_address ep)) = unat (first_listen_port (pr_fleet p)) + i"
    and "unat (ep_stream_id ep) = unat (first_stream_id (pr_fleet p)) + i"
    and "unat (ep_pmu_id ep) = unat (first_pmu_id (pr_fleet p)) + i"
    and "ep_protocol_version ep = fl_protocol_version (pr_fleet p)"
    and "ep_data_rate_hz ep = fl_data_rate_hz (pr_fleet p)"
    and "ep_time_base ep = fl_time_base (pr_fleet p)"
    and "ep_nominal_frequency_hz ep = fl_nominal_frequency_hz (pr_fleet p)"
    and "ep_pdc_name ep = pdc" and "ep_channel_names ep = names"
    and "wv = V3 \<Longrightarrow> ep_v2 ep = None \<and> indexed_name_wf (ep_pmu_name ep) \<and> uuid_v4_shaped (ep_global_pmu_id ep)"
    and "wv = V2 \<Longrightarrow> \<exists>m. ep_v2 ep = Some m \<and> fixed_name_wf (station_name m)
           \<and> v2_names = Some (v2_channel_names m) \<and> v2_units = Some (phunits m)
           \<and> (good_stat m \<longleftrightarrow> ep_pmu_id ep \<in> set (v2_good_stat_pmu_ids (pr_fleet p)))"
  using assms
  by (auto simp: compile_endpoint_def Let_def checked_add_Some_iff try_from_Some_iff
      deterministic_uuid_shaped
      split: sum.splits wire_version.splits option.splits prod.splits
      dest: encoded_name_Inr(1) v2_fixed_ascii_Inr(1))


lemma final_identifier_Inr:
  "final_identifier first offset name = Inr v \<Longrightarrow>
     unat v = unat first + unat offset \<and> 1 \<le> unat first \<and> unat v \<le> 65534"
proof -
  assume "final_identifier first offset name = Inr v"
  then have v: "unat v = unat first + unat offset" and ne: "first \<noteq> 0" "v \<noteq> 0xffff"
    by (auto simp: final_identifier_def checked_add_Some_iff)
  moreover have "unat v < 65536" using unsigned_less [of v, where ?'a = nat] by simp
  moreover have "unat v \<noteq> 65535" using ne(2) by (auto simp: word_unat_eq_iff)
  moreover have "unat first \<noteq> 0" using ne(1) by (simp add: unat_eq_zero [symmetric] word_unat_eq_iff)
  ultimately show ?thesis by simp
qed

lemma validate_fleet_Inr:
  assumes "validate_fleet f max_pmus = Inr wv"
  shows "1 \<le> fl_count f" "fl_count f \<le> max_pmus"
    and "fl_protocol_version f = protocol_version wv"
    and "fl_data_rate_hz f = 50"
    and "0 < unat (fl_time_base f)" "unat (fl_time_base f) < 2 ^ 24" "unat (fl_time_base f) mod 50 = 0"
    and "fl_nominal_frequency_hz f = 50 \<or> fl_nominal_frequency_hz f = 60"
proof -
  from assms have t: "1 \<le> fl_time_base f" "fl_time_base f \<le> 0x00ffffff" "fl_time_base f mod ucast (fl_data_rate_hz f) = 0"
    and r: "fl_data_rate_hz f = 50"
    by (auto simp: validate_fleet_def)
  then show "0 < unat (fl_time_base f)" "unat (fl_time_base f) < 2 ^ 24"
    by (simp_all add: word_le_nat_alt)
  from t(3) r have "unat (fl_time_base f mod 50) = 0" by simp
  then show "unat (fl_time_base f) mod 50 = 0"
    by (simp add: unat_mod)
qed (use assms in \<open>auto simp: validate_fleet_def wire_version_try_from_def split: if_splits\<close>)

lemma compile_prefix_Inr:
  assumes "compile_prefix p = Inr (wv, pdc, names, v2_names, v2_units)"
  shows "validate_limits (pr_limits p) = Inr ()"
    and "validate_fleet (pr_fleet p) (max_logical_pmus (pr_limits p)) = Inr wv"
    and "unat (first_listen_port (pr_fleet p)) + (fl_count (pr_fleet p) - 1) < 65536"
    and "first_listen_port (pr_fleet p) \<noteq> 0"
    and "1 \<le> unat (first_stream_id (pr_fleet p))" "unat (first_stream_id (pr_fleet p)) + (fl_count (pr_fleet p) - 1) \<le> 65534"
    and "1 \<le> unat (first_pmu_id (pr_fleet p))" "unat (first_pmu_id (pr_fleet p)) + (fl_count (pr_fleet p) - 1) \<le> 65534"
    and "indexed_name_wf pdc"
    and "wv = V3 \<Longrightarrow> v2_names = None \<and> v2_units = None \<and> standard_channel_names = Inr names"
    and "wv = V2 \<Longrightarrow> \<exists>ns us. v2_names = Some ns \<and> v2_units = Some us
           \<and> standard_v2_channel_names = Inr ns \<and> v2_phunits (phasors (pr_fleet p)) = Inr us"
proof -
  from assms obtain c port sid pid where
    c: "try_from (fl_count (pr_fleet p) - 1) = Some (c :: u16)"
    and port: "checked_add (first_listen_port (pr_fleet p)) c = Some port"
    and sid: "final_identifier (first_stream_id (pr_fleet p)) c ''STREAM_ID'' = Inr sid"
    and pid: "final_identifier (first_pmu_id (pr_fleet p)) c ''PMU_ID'' = Inr pid"
    by (auto simp: compile_prefix_def Let_def)
  have cn: "unat c = fl_count (pr_fleet p) - 1" using c by (simp add: try_from_Some_iff)
  show "unat (first_listen_port (pr_fleet p)) + (fl_count (pr_fleet p) - 1) < 65536"
    using port unsigned_less [of port, where ?'a = nat] by (simp add: checked_add_Some_iff cn)
  show "1 \<le> unat (first_stream_id (pr_fleet p))" "unat (first_stream_id (pr_fleet p)) + (fl_count (pr_fleet p) - 1) \<le> 65534"
    using final_identifier_Inr [OF sid] by (simp_all add: cn)
  show "1 \<le> unat (first_pmu_id (pr_fleet p))" "unat (first_pmu_id (pr_fleet p)) + (fl_count (pr_fleet p) - 1) \<le> 65534"
    using final_identifier_Inr [OF pid] by (simp_all add: cn)
qed (use assms in \<open>cases wv; auto simp: compile_prefix_def Let_def dest: encoded_name_Inr(1)\<close>)+

lemma validate_limits_Inr:
  assumes "validate_limits l = Inr ()"
  shows "max_logical_pmus l \<le> MAX_LOGICAL_PMUS"
    and "18 \<le> max_command_frame_bytes l" "max_command_frame_bytes l \<le> MAX_COMMAND_FRAME_BYTES"
  using assms by (simp_all add: validate_limits_def)

lemma compile_profile_Inr:
  assumes "compile_profile p = Some (Inr cp)"
  obtains wv pdc names v2_names v2_units
    where "compile_prefix p = Inr (wv, pdc, names, v2_names, v2_units)"
      and "length (cp_endpoints cp) = fl_count (pr_fleet p)"
      and "\<And>i. i < fl_count (pr_fleet p) \<Longrightarrow>
             compile_endpoint p wv pdc names v2_names v2_units i = Some (Inr (cp_endpoints cp ! i))"
      and "cp_seed cp = pr_seed p"
      and "command_frame_bytes (cp_limits cp) = max_command_frame_bytes (pr_limits p)"
      and "receive_buffer_bytes (cp_limits cp) = requested_socket_receive_buffer_bytes (pr_limits p)"
      and "send_buffer_bytes (cp_limits cp) = requested_socket_send_buffer_bytes (pr_limits p)"
  using assms
  by (auto simp: compile_profile_def list_all2_conv_all_nth dest!: compile_endpoints_Inr
      split: sum.splits option.splits prod.splits)

lemma compiled_endpoint_wf:
  assumes pre: "compile_prefix p = Inr (wv, pdc, names, v2_names, v2_units)"
    and i: "i < fl_count (pr_fleet p)"
    and ep: "compile_endpoint p wv pdc names v2_names v2_units i = Some (Inr ep)"
  shows "endpoint_wf ep"
proof -
  note e = compile_endpoint_Inr [OF ep] and c = compile_prefix_Inr [OF pre]
  note f = validate_fleet_Inr [OF c(2)]
  have "identifier_wf (ep_stream_id ep)" "identifier_wf (ep_pmu_id ep)"
    using i c(5-8) by (auto simp: identifier_wf_def e)
  moreover have "unat (sa_port (ep_address ep)) \<noteq> 0"
    using c(4) by (simp add: e unat_eq_0)
  then have "sa_port (ep_address ep) \<noteq> 0"
    by (metis unat_0)
  moreover have "case ep_wire_version ep of
           V2 \<Rightarrow> (case ep_v2 ep of None \<Rightarrow> False | Some m \<Rightarrow> v2_metadata_wf m)
         | V3 \<Rightarrow> ep_v2 ep = None \<and> v3_names_wf ep"
  proof (cases wv)
    case V2
    with e(13) c(11) show ?thesis
      using standard_v2_channel_names_Inr v2_phunits_Inr
      by (auto simp: e(2) v2_metadata_wf_def PHASOR_COUNT_def)
  next
    case V3
    with e(12) c(10) show ?thesis
      by (auto simp: e v3_names_wf_def standard_channel_names_eq indexed_name_wf_def str_bytes_def
          is_ascii_control_def)
  qed
  ultimately show ?thesis
    using f(6) by (simp add: endpoint_wf_def e f c)
qed

lemma compile_profile_wf:
  assumes "compile_profile p = Some (Inr cp)"
  shows "profile_wf cp"
proof -
  from assms obtain wv pdc names v2_names v2_units
    where pre: "compile_prefix p = Inr (wv, pdc, names, v2_names, v2_units)"
      and len: "length (cp_endpoints cp) = fl_count (pr_fleet p)"
      and eps: "\<And>i. i < fl_count (pr_fleet p) \<Longrightarrow>
             compile_endpoint p wv pdc names v2_names v2_units i = Some (Inr (cp_endpoints cp ! i))"
      and lim: "command_frame_bytes (cp_limits cp) = max_command_frame_bytes (pr_limits p)"
    by (elim compile_profile_Inr) blast
  note c = compile_prefix_Inr [OF pre] and e = eps [THEN compile_endpoint_Inr(1)]
    eps [THEN compile_endpoint_Inr(2)] eps [THEN compile_endpoint_Inr(8)]
  note f = validate_fleet_Inr [OF c(2)] and l = validate_limits_Inr [OF c(1)]
  have "cp_endpoints cp \<noteq> []" using f(1) len by auto
  then have hd: "hd (cp_endpoints cp) = cp_endpoints cp ! 0" "0 < fl_count (pr_fleet p)"
    using len f(1) by (auto simp: hd_conv_nth)
  have "map ep_index (cp_endpoints cp) = [0..<length (cp_endpoints cp)]"
    by (rule nth_equalityI) (simp_all add: len e(1))
  moreover have "list_all endpoint_wf (cp_endpoints cp)"
    using compiled_endpoint_wf [OF pre _ eps] by (simp add: list_all_length len)
  moreover have "list_all (\<lambda>ep. ep_wire_version ep = ep_wire_version (hd (cp_endpoints cp))
                     \<and> ep_time_base ep = ep_time_base (hd (cp_endpoints cp))) (cp_endpoints cp)"
    by (simp add: list_all_length len e hd)
  ultimately show ?thesis
    using f(1,2) l by (simp add: profile_wf_def len lim)
qed

lemma compile_profile_identifiers:
  assumes "compile_profile p = Some (Inr cp)" and "i < length (cp_endpoints cp)"
  shows "unat (sa_port (ep_address (cp_endpoints cp ! i))) = unat (first_listen_port (pr_fleet p)) + i"
    and "unat (ep_stream_id (cp_endpoints cp ! i)) = unat (first_stream_id (pr_fleet p)) + i"
    and "unat (ep_pmu_id (cp_endpoints cp ! i)) = unat (first_pmu_id (pr_fleet p)) + i"
proof -
  from assms(1) obtain wv pdc names v2_names v2_units
    where "length (cp_endpoints cp) = fl_count (pr_fleet p)"
      and eps: "\<And>i. i < fl_count (pr_fleet p) \<Longrightarrow>
             compile_endpoint p wv pdc names v2_names v2_units i = Some (Inr (cp_endpoints cp ! i))"
    by (elim compile_profile_Inr) blast
  then have "compile_endpoint p wv pdc names v2_names v2_units i = Some (Inr (cp_endpoints cp ! i))"
    using assms(2) by simp
  then show "unat (sa_port (ep_address (cp_endpoints cp ! i))) = unat (first_listen_port (pr_fleet p)) + i"
    and "unat (ep_stream_id (cp_endpoints cp ! i)) = unat (first_stream_id (pr_fleet p)) + i"
    and "unat (ep_pmu_id (cp_endpoints cp ! i)) = unat (first_pmu_id (pr_fleet p)) + i"
    by (rule compile_endpoint_Inr(3) compile_endpoint_Inr(4) compile_endpoint_Inr(5))+
qed

lemma compile_endpoint_no_panic:
  assumes "compile_prefix p = Inr (wv, pdc, names, v2_names, v2_units)"
  shows "compile_endpoint p wv pdc names v2_names v2_units i \<noteq> None"
  using compile_prefix_Inr(11) [OF assms]
  by (cases wv) (auto simp: compile_endpoint_def Let_def split: sum.splits prod.splits)

lemma compile_endpoints_no_panic:
  "(\<And>i. body i \<noteq> None) \<Longrightarrow> compile_endpoints body is \<noteq> None"
  by (induction body "is" rule: compile_endpoints.induct) (auto split: option.splits sum.splits)

lemma compile_profile_no_panic: "compile_profile p \<noteq> None"
proof (cases "compile_prefix p")
  case (Inr q)
  obtain wv pdc names v2_names v2_units where q: "q = (wv, pdc, names, v2_names, v2_units)"
    by (cases q) 
  have "compile_endpoints (compile_endpoint p wv pdc names v2_names v2_units) is \<noteq> None" for "is"
    by (rule compile_endpoints_no_panic) (rule compile_endpoint_no_panic [OF Inr [unfolded q]])
  then show ?thesis
    by (auto simp: compile_profile_def Inr q split: option.splits sum.splits)
qed (simp add: compile_profile_def)

end
