(* ===== verification/BTree_Map.thy ===== *)
theory BTree_Map
  imports Prelude
begin

text \<open>
  The ordered map of the Rust standard library (\<^verbatim>\<open>BTreeMap\<close>), as far as the scenario
  controller uses it: lookup, insertion, removal, \<^verbatim>\<open>retain\<close>, and iteration in key order.
  The locale \<open>ordered_map\<close> is the contract the clients rely on; a strictly sorted
  association list implements it.  The locale \<open>reverse_index\<close> is the client side of two such
  maps of which one indexes the other by a key stored in the value.
\<close>

section \<open>The interface\<close>

locale ordered_map =
  fixes empty :: "'m"
    and lookup :: "'m \<Rightarrow> 'k::linorder \<Rightarrow> 'v option"
    and insert :: "'k \<Rightarrow> 'v \<Rightarrow> 'm \<Rightarrow> 'm"
    and remove :: "'k \<Rightarrow> 'm \<Rightarrow> 'm"
    and retain :: "('k \<Rightarrow> 'v \<Rightarrow> bool) \<Rightarrow> 'm \<Rightarrow> 'm"
    and entries :: "'m \<Rightarrow> ('k \<times> 'v) list"
  assumes lookup_empty: "lookup empty k = None"
    and lookup_insert: "lookup (insert k v m) = (lookup m)(k \<mapsto> v)"
    and lookup_remove: "lookup (remove k m) = (lookup m)(k := None)"
    and lookup_retain: "lookup (retain P m) k = Some v \<longleftrightarrow> lookup m k = Some v \<and> P k v"
    and entries_iff: "(k, v) \<in> set (entries m) \<longleftrightarrow> lookup m k = Some v"
    and entries_sorted: "sorted_wrt (<) (map fst (entries m))"
    and lookup_inject: "lookup m = lookup m' \<Longrightarrow> m = m'"
begin

lemma dom_entries: "dom (lookup m) = set (map fst (entries m))"
  using entries_iff by (force simp: dom_def)

lemma finite_dom: "finite (dom (lookup m))"
  by (simp add: dom_entries del: set_map)

lemma card_dom: "card (dom (lookup m)) = length (entries m)"
proof -
  have "distinct (map fst (entries m))"
    using entries_sorted [of m] strict_sorted_iff by blast
  then show ?thesis
    by (metis dom_entries distinct_card length_map)
qed

lemma remove_absent: "lookup m k = None \<Longrightarrow> remove k m = m"
  by (rule lookup_inject) (auto simp: lookup_remove)

lemma retain_None: "lookup (retain P m) k = None \<longleftrightarrow> (\<forall>v. lookup m k = Some v \<longrightarrow> \<not> P k v)"
  using lookup_retain [of P m k] by (cases "lookup (retain P m) k") (auto simp: option.the_def)

lemma dom_retain: "dom (lookup (retain P m)) \<subseteq> dom (lookup m)"
  by (auto simp: dom_def lookup_retain)

text \<open>Comparing lengths before and after \<^verbatim>\<open>retain\<close> tells whether an entry was dropped.\<close>

lemma retain_length_eq_iff: "length (entries (retain P m)) = length (entries m) \<longleftrightarrow> retain P m = m"
proof
  assume "length (entries (retain P m)) = length (entries m)"
  then have "card (dom (lookup (retain P m))) = card (dom (lookup m))"
    by (simp add: card_dom)
  then have dom: "dom (lookup (retain P m)) = dom (lookup m)"
    by (rule card_subset_eq [OF finite_dom dom_retain])
  show "retain P m = m"
  proof (rule lookup_inject, rule ext)
    fix k show "lookup (retain P m) k = lookup m k"
    proof (cases "lookup m k")
      case None
      then show ?thesis using dom by (auto simp: domIff)
    next
      case (Some v)
      then obtain w where "lookup (retain P m) k = Some w" using dom by blast
      with Some show ?thesis by (simp add: lookup_retain)
    qed
  qed
qed simp

lemma entries_Nil_iff: "entries m = [] \<longleftrightarrow> (\<forall>k. lookup m k = None)"
  by (metis dom_entries dom_eq_empty_conv map_is_Nil_conv set_empty2)

end

section \<open>Sorted association lists\<close>

typedef (overloaded) ('k::linorder, 'v) btree = "{m :: ('k \<times> 'v) list. sorted_wrt (<) (map fst m)}"
  morphisms btree_entries Btree
  by (rule exI [of _ "[]"]) simp

setup_lifting type_definition_btree

fun alist_insert :: "'k::linorder \<Rightarrow> 'v \<Rightarrow> ('k \<times> 'v) list \<Rightarrow> ('k \<times> 'v) list" where
  "alist_insert k v [] = [(k, v)]"
| "alist_insert k v ((k', v') # m) =
     (if k < k' then (k, v) # (k', v') # m
      else if k = k' then (k, v) # m
      else (k', v') # alist_insert k v m)"

lemma alist_insert_keys: "set (map fst (alist_insert k v m)) = insert k (set (map fst m))"
  by (induction k v m rule: alist_insert.induct) auto

lemma alist_insert_sorted:
  "sorted_wrt (<) (map fst m) \<Longrightarrow> sorted_wrt (<) (map fst (alist_insert k v m))"
proof (induction k v m rule: alist_insert.induct)
  case (2 k v k' v' m)
  then show ?case
    using alist_insert_keys [of k v m] by fastforce
qed simp

lemma map_of_alist_insert:
  "sorted_wrt (<) (map fst m) \<Longrightarrow> map_of (alist_insert k v m) = (map_of m)(k \<mapsto> v)"
  by (induction k v m rule: alist_insert.induct) auto

lemma sorted_filter_keys:
  "sorted_wrt (<) (map fst m) \<Longrightarrow> sorted_wrt (<) (map fst (filter P m))"
  by (induction m) auto

lemma distinct_keys: "sorted_wrt (<) (map fst (m :: ('k::linorder \<times> 'v) list)) \<Longrightarrow> distinct (map fst m)"
  by (simp add: strict_sorted_iff)

lemma map_of_filter_iff:
  "sorted_wrt (<) (map fst (m :: ('k::linorder \<times> 'v) list)) \<Longrightarrow>
     map_of (filter P m) k = Some v \<longleftrightarrow> map_of m k = Some v \<and> P (k, v)"
  using distinct_keys [OF sorted_filter_keys, of m P] distinct_keys [of m] by simp

lemma sorted_alist_unique:
  assumes "sorted_wrt (<) (map fst (m :: ('k::linorder \<times> 'v) list))" "sorted_wrt (<) (map fst m')"
    and "map_of m = map_of m'"
  shows "m = m'"
proof (rule map_sorted_distinct_set_unique [where f = fst])
  show set: "set m = set m'"
    using assms map_of_inject_set distinct_keys by metis
  show "inj_on fst (set m \<union> set m')"
    using distinct_keys [OF assms(1)] set by (simp add: distinct_map)
qed (use assms(1,2) in \<open>simp_all add: strict_sorted_iff\<close>)

lemma map_of_remove: "map_of (filter (\<lambda>(k', _). k' \<noteq> k) m) = (map_of m)(k := None)"
  by (induction m) auto

lift_definition btree_empty :: "('k::linorder, 'v) btree" is "[]" by simp

lift_definition btree_lookup :: "('k::linorder, 'v) btree \<Rightarrow> 'k \<Rightarrow> 'v option" is map_of .

lift_definition btree_insert :: "'k::linorder \<Rightarrow> 'v \<Rightarrow> ('k, 'v) btree \<Rightarrow> ('k, 'v) btree" is alist_insert
  by (rule alist_insert_sorted)

lift_definition btree_remove :: "'k::linorder \<Rightarrow> ('k, 'v) btree \<Rightarrow> ('k, 'v) btree" is
  "\<lambda>k. filter (\<lambda>(k', _). k' \<noteq> k)"
  by (rule sorted_filter_keys)

lift_definition btree_retain :: "('k \<Rightarrow> 'v \<Rightarrow> bool) \<Rightarrow> ('k::linorder, 'v) btree \<Rightarrow> ('k, 'v) btree" is
  "\<lambda>P. filter (\<lambda>(k, v). P k v)"
  by (rule sorted_filter_keys)

interpretation bt: ordered_map btree_empty btree_lookup btree_insert btree_remove btree_retain btree_entries
proof unfold_locales
  fix k :: "'k::linorder" and v :: 'v and m m' :: "('k, 'v) btree" and P
  show "btree_lookup btree_empty k = None" by transfer simp
  show "btree_lookup (btree_insert k v m) = (btree_lookup m)(k \<mapsto> v)"
    by transfer (rule map_of_alist_insert)
  show "btree_lookup (btree_remove k m) = (btree_lookup m)(k := None)"
    by transfer (rule map_of_remove)
  show "btree_lookup (btree_retain P m) k = Some v \<longleftrightarrow> btree_lookup m k = Some v \<and> P k v"
    by transfer (simp add: map_of_filter_iff)
  show "(k, v) \<in> set (btree_entries m) \<longleftrightarrow> btree_lookup m k = Some v"
    by transfer (simp add: distinct_keys)
  show "sorted_wrt (<) (map fst (btree_entries m))" by transfer simp
  show "btree_lookup m = btree_lookup m' \<Longrightarrow> m = m'"
    by transfer (rule sorted_alist_unique)
qed

instantiation btree :: (linorder, equal) equal
begin

definition equal_btree :: "('a, 'b) btree \<Rightarrow> ('a, 'b) btree \<Rightarrow> bool" where
  "equal_btree m m' \<longleftrightarrow> btree_entries m = btree_entries m'"

instance
  by standard (simp add: equal_btree_def btree_entries_inject)

end

declare bt.lookup_empty [simp] bt.lookup_insert [simp] bt.lookup_remove [simp]

section \<open>A map with a reverse index\<close>

text \<open>
  \<open>key_of\<close> is the key of the index that a stored value carries.  The two maps agree when each
  stored value is found through the index and the index holds nothing else.
\<close>

locale reverse_index =
  fixes key_of :: "'v \<Rightarrow> 't::linorder"
begin

definition agree :: "('k::linorder, 'v) btree \<Rightarrow> ('t, 'k) btree \<Rightarrow> bool" where
  "agree p t \<longleftrightarrow>
     (\<forall>k v. btree_lookup p k = Some v \<longrightarrow> btree_lookup t (key_of v) = Some k)
     \<and> (\<forall>x k. btree_lookup t x = Some k \<longrightarrow> (\<exists>v. btree_lookup p k = Some v \<and> key_of v = x))"

lemma agree_empty: "agree btree_empty btree_empty"
  by (simp add: agree_def)

lemma agree_insert:
  assumes "agree p t" "btree_lookup p k = None" "btree_lookup t (key_of v) = None"
  shows "agree (btree_insert k v p) (btree_insert (key_of v) k t)"
  using assms unfolding agree_def by (auto split: if_splits) fastforce+

lemma agree_remove:
  assumes "agree p t" "btree_lookup p k = Some v"
  shows "agree (btree_remove k p) (btree_remove (key_of v) t)"
  using assms unfolding agree_def by (auto split: if_splits) (metis option.inject)+

lemma agree_key_inj:
  "agree p t \<Longrightarrow> btree_lookup p k = Some v \<Longrightarrow> btree_lookup p k' = Some v' \<Longrightarrow> key_of v = key_of v' \<Longrightarrow> k = k'"
  unfolding agree_def by (metis option.inject)

lemma agree_card:
  assumes "agree p t"
  shows "card (dom (btree_lookup p)) \<le> card (dom (btree_lookup t))"
proof (rule card_inj_on_le)
  show "inj_on (\<lambda>k. key_of (the (btree_lookup p k))) (dom (btree_lookup p))"
    using agree_key_inj [OF assms] by (auto simp: inj_on_def)
  show "(\<lambda>k. key_of (the (btree_lookup p k))) ` dom (btree_lookup p) \<subseteq> dom (btree_lookup t)"
    using assms by (auto simp: agree_def)
qed (rule bt.finite_dom)

lemma agree_dom: "agree p t \<Longrightarrow> dom (btree_lookup t) = key_of ` ran (btree_lookup p)"
  unfolding agree_def by (fastforce simp: dom_def ran_def image_def)

end

end
