(* ===== verification/Scenario.thy ===== *)
theory Scenario
  imports Config BTree_Map "HOL-Library.Monad_Syntax"
begin

text \<open>
  Fault scenarios (\<^verbatim>\<open>src/scenario.rs\<close>): compilation of the scenario catalog and the runtime
  controller that prepares, confirms, cancels and applies operator actions at reporting
  boundaries.  An operation of the controller is a function from the controller to
  \<open>((error + result) \<times> controller) option\<close>: the outer \<^const>\<open>None\<close> is a panic, the sum is the
  \<^verbatim>\<open>Result\<close>, and the controller is returned on the error paths too, since the source mutates
  it before some of its early returns.
\<close>

section \<open>Constants\<close>

definition SCENARIO_CATALOG_VERSION :: u32 where [const_defs]: "SCENARIO_CATALOG_VERSION = 1"
definition MAX_SCENARIO_CATALOG_ENTRIES :: nat where [const_defs]: "MAX_SCENARIO_CATALOG_ENTRIES = 128"
definition MAX_SCENARIO_TARGETS :: nat where [const_defs]: "MAX_SCENARIO_TARGETS = MAX_LOGICAL_PMUS * 3"
definition MAX_SCENARIO_ACTOR_LABEL_BYTES :: nat where [const_defs]: "MAX_SCENARIO_ACTOR_LABEL_BYTES = 64"
definition ACTIVATION_TOKEN_TTL :: duration where [const_defs]: "ACTIVATION_TOKEN_TTL = 60 * 10 ^ 9"

section \<open>Catalog data\<close>

datatype scenario_kind =
  Normal | DegradedTime | MissingFrames | DisconnectPdc | SignalExcursion | Recovery

datatype scenario_lifecycle = Transient | Sustained

record signal_excursion =
  voltage_magnitude_delta :: f32
  excursion_frequency_deviation_hz :: f32
  excursion_rocof_hz_per_s :: f32

record scenario_definition =
  sd_name :: string
  sd_kind :: scenario_kind
  start_frame_offset :: u64
  sd_lifecycle :: scenario_lifecycle
  duration_frames :: "u64 option"
  sd_signal :: "signal_excursion option"

record scenario_catalog =
  sc_version :: u32
  sc_scenarios :: "scenario_definition list"

definition catalog_scenario :: "scenario_catalog \<Rightarrow> string \<Rightarrow> scenario_definition option" where
  "catalog_scenario c name = List.find (\<lambda>s. sd_name s = name) (sc_scenarios c)"

text \<open>The raw catalog as the YAML deserializer delivers it.\<close>

datatype raw_scenario_kind =
  RawNormal | RawDegradedTime | RawMissingFrames | RawDisconnectPdc | RawSignalExcursion | RawRecovery

datatype raw_scenario_lifecycle = RawTransient | RawSustained

record raw_signal_excursion =
  raw_voltage_magnitude_delta :: f32
  raw_frequency_deviation_hz :: f32
  raw_rocof_hz_per_s :: f32

record raw_scenario =
  raw_name :: string
  raw_kind :: raw_scenario_kind
  raw_start_frame_offset :: u64
  raw_lifecycle :: raw_scenario_lifecycle
  raw_duration_frames :: "u64 option"
  raw_signal :: "raw_signal_excursion option"

record raw_scenario_catalog =
  raw_version :: u32
  raw_scenarios :: "raw_scenario list"

datatype catalog_error =
    CatalogCannotRead string
  | CatalogInvalidYaml string
  | CatalogVersion
  | CatalogEmpty
  | CatalogTooManyScenarios
  | CatalogDuplicateName
  | CatalogInvalidName
  | TransientDurationNotPositive
  | TransientDurationMissing
  | SustainedDurationPresent
  | SignalMissing
  | SignalNotAllowed
  | SignalNotFinite
  | SignalUnchanged

section \<open>Catalog compilation\<close>

definition validate_name :: "string \<Rightarrow> catalog_error + unit" where
  "validate_name name =
     fail_if (name = [] \<or> 64 < length name
        \<or> \<not> list_all (\<lambda>b. is_ascii_lowercase b \<or> is_ascii_digit b \<or> b = 0x2d) (str_bytes name))
       CatalogInvalidName"

fun compile_kind :: "raw_scenario_kind \<Rightarrow> scenario_kind" where
  "compile_kind RawNormal = Normal"
| "compile_kind RawDegradedTime = DegradedTime"
| "compile_kind RawMissingFrames = MissingFrames"
| "compile_kind RawDisconnectPdc = DisconnectPdc"
| "compile_kind RawSignalExcursion = SignalExcursion"
| "compile_kind RawRecovery = Recovery"

fun compile_lifecycle :: "raw_scenario_lifecycle \<Rightarrow> scenario_lifecycle" where
  "compile_lifecycle RawTransient = Transient"
| "compile_lifecycle RawSustained = Sustained"

definition compile_signal :: "raw_signal_excursion \<Rightarrow> catalog_error + signal_excursion" where
  "compile_signal raw =
     (let s = \<lparr>voltage_magnitude_delta = raw_voltage_magnitude_delta raw,
               excursion_frequency_deviation_hz = raw_frequency_deviation_hz raw,
               excursion_rocof_hz_per_s = raw_rocof_hz_per_s raw\<rparr> in
     bind_ok (fail_if (\<not> f32_is_finite (voltage_magnitude_delta s)
                \<or> \<not> f32_is_finite (excursion_frequency_deviation_hz s)
                \<or> \<not> f32_is_finite (excursion_rocof_hz_per_s s)) SignalNotFinite) (\<lambda>_.
     bind_ok (fail_if (f32_eq (voltage_magnitude_delta s) 0
                \<and> f32_eq (excursion_frequency_deviation_hz s) 0
                \<and> f32_eq (excursion_rocof_hz_per_s s) 0) SignalUnchanged) (\<lambda>_.
     Inr s)))"

definition compile_duration :: "scenario_lifecycle \<Rightarrow> u64 option \<Rightarrow> catalog_error + u64 option" where
  "compile_duration lifecycle frames =
     (case (lifecycle, frames) of
        (Transient, Some n) \<Rightarrow> if 0 < n then Inr (Some n) else Inl TransientDurationNotPositive
      | (Transient, None) \<Rightarrow> Inl TransientDurationMissing
      | (Sustained, None) \<Rightarrow> Inr None
      | (Sustained, Some _) \<Rightarrow> Inl SustainedDurationPresent)"

definition compile_signal_for ::
    "scenario_kind \<Rightarrow> raw_signal_excursion option \<Rightarrow> catalog_error + signal_excursion option" where
  "compile_signal_for kind s =
     (case s of
        Some excursion \<Rightarrow>
          if kind = SignalExcursion then bind_ok (compile_signal excursion) (Inr \<circ> Some)
          else Inl SignalNotAllowed
      | None \<Rightarrow> if kind = SignalExcursion then Inl SignalMissing else Inr None)"

definition compile_scenario :: "raw_scenario \<Rightarrow> catalog_error + scenario_definition" where
  "compile_scenario raw =
     (let kind = compile_kind (raw_kind raw);
          lifecycle = compile_lifecycle (raw_lifecycle raw) in
     bind_ok (compile_duration lifecycle (raw_duration_frames raw)) (\<lambda>frames.
     bind_ok (compile_signal_for kind (raw_signal raw)) (\<lambda>s.
     Inr \<lparr>sd_name = raw_name raw, sd_kind = kind,
          start_frame_offset = raw_start_frame_offset raw,
          sd_lifecycle = lifecycle, duration_frames = frames, sd_signal = s\<rparr>)))"

text \<open>The loop of \<^verbatim>\<open>compile_catalog\<close>, with the scenarios compiled so far.\<close>

fun compile_scenarios ::
    "scenario_definition list \<Rightarrow> raw_scenario list \<Rightarrow> catalog_error + scenario_definition list" where
  "compile_scenarios scenarios [] = Inr scenarios"
| "compile_scenarios scenarios (raw # rest) =
     bind_ok (validate_name (raw_name raw)) (\<lambda>_.
     bind_ok (fail_if (list_ex (\<lambda>s. sd_name s = raw_name raw) scenarios) CatalogDuplicateName) (\<lambda>_.
     bind_ok (compile_scenario raw) (\<lambda>s.
     compile_scenarios (scenarios @ [s]) rest)))"

definition compile_catalog :: "raw_scenario_catalog \<Rightarrow> catalog_error + scenario_catalog" where
  "compile_catalog raw =
     bind_ok (fail_if (raw_version raw \<noteq> SCENARIO_CATALOG_VERSION) CatalogVersion) (\<lambda>_.
     bind_ok (fail_if (raw_scenarios raw = []) CatalogEmpty) (\<lambda>_.
     bind_ok (fail_if (MAX_SCENARIO_CATALOG_ENTRIES < length (raw_scenarios raw)) CatalogTooManyScenarios) (\<lambda>_.
     bind_ok (compile_scenarios [] (raw_scenarios raw)) (\<lambda>scenarios.
     Inr \<lparr>sc_version = raw_version raw, sc_scenarios = scenarios\<rparr>))))"

definition parse_catalog ::
    "(string \<Rightarrow> string + raw_scenario_catalog) \<Rightarrow> string \<Rightarrow> catalog_error + scenario_catalog" where
  "parse_catalog yaml contents =
     (case yaml contents of Inl e \<Rightarrow> Inl (CatalogInvalidYaml e) | Inr raw \<Rightarrow> compile_catalog raw)"

definition load_catalog ::
    "(string \<Rightarrow> string option) \<Rightarrow> (string \<Rightarrow> string + raw_scenario_catalog) \<Rightarrow> string
      \<Rightarrow> catalog_error + scenario_catalog" where
  "load_catalog read_to_string yaml path =
     (case read_to_string path of
        None \<Rightarrow> Inl (CatalogCannotRead path)
      | Some contents \<Rightarrow> parse_catalog yaml contents)"

section \<open>Controller data\<close>

datatype scenario_target =
    Endpoint (target_stream_id: u16)
  | Pdc (target_stream_id: u16) (target_connection_id: u64)

text \<open>The derived order: \<^verbatim>\<open>Endpoint\<close> before \<^verbatim>\<open>Pdc\<close>, then the fields from left to right.\<close>

instantiation scenario_target :: linorder
begin

fun less_eq_scenario_target :: "scenario_target \<Rightarrow> scenario_target \<Rightarrow> bool" where
  "Endpoint s \<le> Endpoint s' \<longleftrightarrow> s \<le> s'"
| "Endpoint _ \<le> Pdc _ _ \<longleftrightarrow> True"
| "Pdc _ _ \<le> Endpoint _ \<longleftrightarrow> False"
| "Pdc s c \<le> Pdc s' c' \<longleftrightarrow> s < s' \<or> (s = s' \<and> c \<le> c')"

definition less_scenario_target :: "scenario_target \<Rightarrow> scenario_target \<Rightarrow> bool" where
  "less_scenario_target t t' \<longleftrightarrow> t \<le> t' \<and> \<not> t' \<le> t"

instance
proof
  fix x y z :: scenario_target
  show "x < y \<longleftrightarrow> x \<le> y \<and> \<not> y \<le> x" by (rule less_scenario_target_def)
  show "x \<le> x" by (cases x) simp_all
  show "x \<le> y \<Longrightarrow> y \<le> z \<Longrightarrow> x \<le> z" by (cases x; cases y; cases z) auto
  show "x \<le> y \<Longrightarrow> y \<le> x \<Longrightarrow> x = y" by (cases x; cases y) auto
  show "x \<le> y \<or> y \<le> x" by (cases x; cases y) auto
qed

end

type_synonym activation_token = u64

definition activation_token_from_value :: "u64 \<Rightarrow> activation_token option" where
  "activation_token_from_value v = (if v \<noteq> 0 then Some v else None)"

datatype scenario_action = ActivateAction string | ClearAction

datatype stored_action = Activate scenario_definition | Clear

fun stored_action_snapshot :: "stored_action \<Rightarrow> scenario_action" where
  "stored_action_snapshot (Activate s) = ActivateAction (sd_name s)"
| "stored_action_snapshot Clear = ClearAction"

record prepared_snapshot =
  ps_token :: activation_token
  confirm_expires_in_ms :: u64
  ps_target :: scenario_target
  ps_action :: scenario_action
  ps_actor_label :: "string option"

record pending_snapshot =
  pn_target :: scenario_target
  pn_action :: scenario_action
  pn_actor_label :: "string option"

record active_snapshot =
  as_target :: scenario_target
  as_scenario_name :: string
  as_kind :: scenario_kind
  as_lifecycle :: scenario_lifecycle
  as_start_frame_offset :: u64
  as_first_eligible_boundary :: u64
  as_actor_label :: "string option"

record controller_snapshot =
  cs_current_sample_index :: "u64 option"
  cs_prepared :: "prepared_snapshot list"
  cs_pending :: "pending_snapshot list"
  cs_active :: "active_snapshot list"

record frame_plan_type =
  degraded_time :: bool
  omit_data :: bool
  plan_signal :: "signal_excursion option"
  disconnect_pdc_connection_ids :: "u64 list"

definition default_plan :: frame_plan_type where
  "default_plan = \<lparr>degraded_time = False, omit_data = False, plan_signal = None,
                   disconnect_pdc_connection_ids = []\<rparr>"

definition plan_is_noop :: "frame_plan_type \<Rightarrow> bool" where
  "plan_is_noop p =
     (\<not> degraded_time p \<and> \<not> omit_data p \<and> plan_signal p = None \<and> disconnect_pdc_connection_ids p = [])"

datatype controller_error =
    InvalidTarget scenario_target
  | InvalidScenarioName string
  | InvalidActorLabel nat
  | UnknownScenario string
  | IncompatibleTarget scenario_target scenario_kind
  | TargetBusy scenario_target
  | TargetCapacityExceeded nat
  | NoActiveScenario scenario_target
  | ClearRequiresSustainedScenario scenario_target
  | UnknownToken activation_token
  | ExpiredToken activation_token
  | TokenSpaceExhausted
  | TokenExpiryOverflow
  | NonMonotonicBoundary u64 u64

record prepared_action =
  pa_target :: scenario_target
  pa_action :: stored_action
  pa_actor_label :: "string option"
  expires_at :: instant

record pending_action =
  pd_action :: stored_action
  pd_actor_label :: "string option"

record active_action =
  aa_scenario :: scenario_definition
  aa_actor_label :: "string option"
  first_eligible_boundary :: u64

record controller =
  catalog :: scenario_catalog
  prepared :: "(activation_token, prepared_action) btree"
  prepared_targets :: "(scenario_target, activation_token) btree"
  pending :: "(scenario_target, pending_action) btree"
  active :: "(scenario_target, active_action) btree"
  current_sample_index :: "u64 option"
  next_token :: u64
  revision :: u64

type_synonym 'a outcome = "((controller_error + 'a) \<times> controller) option"

section \<open>Controller helpers\<close>

definition new_controller :: "scenario_catalog \<Rightarrow> controller" where
  "new_controller cat =
     \<lparr>catalog = cat, prepared = btree_empty, prepared_targets = btree_empty, pending = btree_empty,
      active = btree_empty, current_sample_index = None, next_token = 1, revision = 0\<rparr>"

definition contains_key :: "('k::linorder, 'v) btree \<Rightarrow> 'k \<Rightarrow> bool" where
  "contains_key m k = (btree_lookup m k \<noteq> None)"

definition has_active_target :: "controller \<Rightarrow> scenario_target \<Rightarrow> bool" where
  "has_active_target c t = contains_key (active c) t"

text \<open>\<^verbatim>\<open>expect\<close> on \<^verbatim>\<open>checked_add(1)\<close>.\<close>

definition bump_revision :: "controller \<Rightarrow> controller option" where
  "bump_revision c =
     do { r \<leftarrow> checked_add (revision c) 1;
          Some (c\<lparr>revision := r\<rparr>) }"

text \<open>
  \<^verbatim>\<open>Instant\<close> arithmetic of the target platform: the seconds of an instant are a signed 64-bit
  number.
\<close>

definition instant_checked_add :: "instant \<Rightarrow> duration \<Rightarrow> instant option" where
  "instant_checked_add t d = (if t + d < 2 ^ 63 * 10 ^ 9 then Some (t + d) else None)"

definition checked_duration_since :: "instant \<Rightarrow> instant \<Rightarrow> duration option" where
  "checked_duration_since later earlier = (if earlier \<le> later then Some (later - earlier) else None)"

definition confirmation_expires_in_ms :: "instant \<Rightarrow> instant \<Rightarrow> u64" where
  "confirmation_expires_in_ms expires now =
     (case checked_duration_since expires now of
        None \<Rightarrow> 0
      | Some remaining \<Rightarrow>
          (let ms = remaining div 10 ^ 6 in if ms < 2 ^ 64 then word_of_int ms else - 1))"

definition prepared_action_snapshot :: "prepared_action \<Rightarrow> activation_token \<Rightarrow> instant \<Rightarrow> prepared_snapshot" where
  "prepared_action_snapshot p token now =
     \<lparr>ps_token = token, confirm_expires_in_ms = confirmation_expires_in_ms (expires_at p) now,
      ps_target = pa_target p, ps_action = stored_action_snapshot (pa_action p),
      ps_actor_label = pa_actor_label p\<rparr>"

definition validate_controller_target :: "scenario_target \<Rightarrow> controller_error + unit" where
  "validate_controller_target t = fail_if (target_stream_id t = 0) (InvalidTarget t)"

definition validate_controller_name :: "string \<Rightarrow> controller_error + unit" where
  "validate_controller_name name =
     (case validate_name name of Inl _ \<Rightarrow> Inl (InvalidScenarioName name) | Inr u \<Rightarrow> Inr u)"

definition validate_actor_label :: "string option \<Rightarrow> controller_error + unit" where
  "validate_actor_label label =
     fail_if (case label of None \<Rightarrow> False | Some l \<Rightarrow> MAX_SCENARIO_ACTOR_LABEL_BYTES < length l)
       (InvalidActorLabel MAX_SCENARIO_ACTOR_LABEL_BYTES)"

fun compatible :: "scenario_kind \<Rightarrow> scenario_target \<Rightarrow> bool" where
  "compatible DisconnectPdc (Pdc _ _) = True"
| "compatible Normal (Endpoint _) = True"
| "compatible DegradedTime (Endpoint _) = True"
| "compatible MissingFrames (Endpoint _) = True"
| "compatible SignalExcursion (Endpoint _) = True"
| "compatible Recovery (Endpoint _) = True"
| "compatible _ _ = False"

definition validate_scenario_target :: "scenario_target \<Rightarrow> scenario_kind \<Rightarrow> controller_error + unit" where
  "validate_scenario_target t kind = fail_if (\<not> compatible kind t) (IncompatibleTarget t kind)"

definition is_effective_at :: "active_action \<Rightarrow> u64 \<Rightarrow> bool" where
  "is_effective_at a sample_index =
     (case checked_sub sample_index (first_eligible_boundary a) of
        None \<Rightarrow> False
      | Some elapsed \<Rightarrow> start_frame_offset (aa_scenario a) \<le> elapsed)"

text \<open>\<^const>\<open>None\<close> is the panic of \<^verbatim>\<open>expect\<close> on a missing duration.\<close>

definition is_expired_at :: "active_action \<Rightarrow> u64 \<Rightarrow> bool option" where
  "is_expired_at a sample_index =
     (case checked_sub sample_index (first_eligible_boundary a) of
        None \<Rightarrow> Some False
      | Some elapsed \<Rightarrow>
          (case checked_sub elapsed (start_frame_offset (aa_scenario a)) of
             None \<Rightarrow> Some False
           | Some elapsed_since_start \<Rightarrow>
               do { frames \<leftarrow> duration_frames (aa_scenario a);
                    Some (frames \<le> elapsed_since_start) }))"

definition tracks_target :: "controller \<Rightarrow> scenario_target \<Rightarrow> bool" where
  "tracks_target c t =
     (contains_key (prepared_targets c) t \<or> contains_key (pending c) t \<or> contains_key (active c) t)"

definition tracked_target_count :: "controller \<Rightarrow> nat" where
  "tracked_target_count c =
     card (set (map fst (btree_entries (active c)) @ map fst (btree_entries (pending c))
                @ map fst (btree_entries (prepared_targets c))))"

text \<open>Removal of a preparation from both maps, and the loop over the expired tokens.\<close>

definition drop_prepared :: "activation_token \<Rightarrow> prepared_action \<Rightarrow> controller \<Rightarrow> controller" where
  "drop_prepared token p c =
     c\<lparr>prepared := btree_remove token (prepared c),
       prepared_targets := btree_remove (pa_target p) (prepared_targets c)\<rparr>"

fun discard_tokens :: "activation_token list \<Rightarrow> controller \<Rightarrow> controller option" where
  "discard_tokens [] c = Some c"
| "discard_tokens (token # rest) c =
     (case btree_lookup (prepared c) token of
        None \<Rightarrow> discard_tokens rest c
      | Some p \<Rightarrow>
          do { c \<leftarrow> bump_revision (drop_prepared token p c);
               discard_tokens rest c })"

definition discard_expired_preparations :: "instant \<Rightarrow> controller \<Rightarrow> controller option" where
  "discard_expired_preparations now c =
     discard_tokens (map fst (filter (\<lambda>(token, p). expires_at p \<le> now) (btree_entries (prepared c)))) c"

definition expire_transient_actions :: "u64 \<Rightarrow> controller \<Rightarrow> controller option" where
  "expire_transient_actions sample_index c =
     (if list_ex (\<lambda>(_, a). sd_lifecycle (aa_scenario a) = Transient \<and> is_expired_at a sample_index = None)
           (btree_entries (active c))
      then None
      else Some (c\<lparr>active := btree_retain
             (\<lambda>_ a. sd_lifecycle (aa_scenario a) \<noteq> Transient \<or> is_expired_at a sample_index \<noteq> Some True)
             (active c)\<rparr>))"

section \<open>Controller operations\<close>

definition prepare_action ::
    "scenario_target \<Rightarrow> stored_action \<Rightarrow> string option \<Rightarrow> instant \<Rightarrow> bool \<Rightarrow> controller
      \<Rightarrow> prepared_snapshot outcome" where
  "prepare_action target action label now permits_active c =
     do { c \<leftarrow> discard_expired_preparations now c;
          if contains_key (prepared_targets c) target \<or> contains_key (pending c) target
             \<or> (\<not> permits_active \<and> contains_key (active c) target)
          then Some (Inl (TargetBusy target), c)
          else if \<not> tracks_target c target \<and> MAX_SCENARIO_TARGETS \<le> tracked_target_count c
          then Some (Inl (TargetCapacityExceeded MAX_SCENARIO_TARGETS), c)
          else case instant_checked_add now ACTIVATION_TOKEN_TTL of
            None \<Rightarrow> Some (Inl TokenExpiryOverflow, c)
          | Some expires \<Rightarrow>
              (case checked_add (next_token c) 1 of
                 None \<Rightarrow> Some (Inl TokenSpaceExhausted, c)
               | Some next \<Rightarrow>
                   let token = next_token c;
                       p = \<lparr>pa_target = target, pa_action = action, pa_actor_label = label,
                            expires_at = expires\<rparr>
                   in do { c \<leftarrow> bump_revision
                             (c\<lparr>next_token := next,
                                prepared := btree_insert token p (prepared c),
                                prepared_targets := btree_insert target token (prepared_targets c)\<rparr>);
                           Some (Inr (prepared_action_snapshot p token now), c) }) }"

definition prepare_activation ::
    "scenario_target \<Rightarrow> string \<Rightarrow> string option \<Rightarrow> instant \<Rightarrow> controller \<Rightarrow> prepared_snapshot outcome" where
  "prepare_activation target name label now c =
     (case bind_ok (validate_controller_target target) (\<lambda>_.
           bind_ok (validate_controller_name name) (\<lambda>_.
           bind_ok (validate_actor_label label) (\<lambda>_.
           bind_ok (ok_or (catalog_scenario (catalog c) name) (UnknownScenario name)) (\<lambda>s.
           bind_ok (validate_scenario_target target (sd_kind s)) (\<lambda>_.
           Inr s))))) of
        Inl e \<Rightarrow> Some (Inl e, c)
      | Inr s \<Rightarrow> prepare_action target (Activate s) label now False c)"

definition prepare_clear ::
    "scenario_target \<Rightarrow> string option \<Rightarrow> instant \<Rightarrow> controller \<Rightarrow> prepared_snapshot outcome" where
  "prepare_clear target label now c =
     (case bind_ok (validate_controller_target target) (\<lambda>_. validate_actor_label label) of
        Inl e \<Rightarrow> Some (Inl e, c)
      | Inr _ \<Rightarrow>
          do { c \<leftarrow> discard_expired_preparations now c;
               if contains_key (prepared_targets c) target \<or> contains_key (pending c) target
               then Some (Inl (TargetBusy target), c)
               else case btree_lookup (active c) target of
                 None \<Rightarrow> Some (Inl (NoActiveScenario target), c)
               | Some a \<Rightarrow>
                   if sd_lifecycle (aa_scenario a) \<noteq> Sustained
                   then Some (Inl (ClearRequiresSustainedScenario target), c)
                   else prepare_action target Clear label now True c })"

text \<open>The admission test of \<^verbatim>\<open>confirm\<close> on the state that the action will meet.\<close>

definition confirm_check :: "prepared_action \<Rightarrow> controller \<Rightarrow> controller_error + unit" where
  "confirm_check p c =
     (let target = pa_target p in
      case pa_action p of
        Activate _ \<Rightarrow> fail_if (contains_key (pending c) target \<or> contains_key (active c) target) (TargetBusy target)
      | Clear \<Rightarrow>
          bind_ok (fail_if (contains_key (pending c) target) (TargetBusy target)) (\<lambda>_.
          bind_ok (ok_or (btree_lookup (active c) target) (NoActiveScenario target)) (\<lambda>a.
          fail_if (sd_lifecycle (aa_scenario a) \<noteq> Sustained) (ClearRequiresSustainedScenario target))))"

text \<open>What \<^verbatim>\<open>confirm\<close> and \<^verbatim>\<open>cancel\<close> share: the token is consumed before it is checked.\<close>

definition take_prepared ::
    "activation_token \<Rightarrow> controller \<Rightarrow> prepared_action outcome" where
  "take_prepared token c =
     (case btree_lookup (prepared c) token of
        None \<Rightarrow> Some (Inl (UnknownToken token), c)
      | Some p \<Rightarrow>
          do { c \<leftarrow> bump_revision (drop_prepared token p c);
               Some (Inr p, c) })"

definition confirm :: "activation_token \<Rightarrow> instant \<Rightarrow> controller \<Rightarrow> pending_snapshot outcome" where
  "confirm token now c =
     do { (r, c) \<leftarrow> take_prepared token c;
          case r of
            Inl e \<Rightarrow> Some (Inl e, c)
          | Inr p \<Rightarrow>
              if expires_at p \<le> now then Some (Inl (ExpiredToken token), c)
              else do { c \<leftarrow> discard_expired_preparations now c;
                        case confirm_check p c of
                          Inl e \<Rightarrow> Some (Inl e, c)
                        | Inr _ \<Rightarrow> Some
                            (Inr \<lparr>pn_target = pa_target p, pn_action = stored_action_snapshot (pa_action p),
                                  pn_actor_label = pa_actor_label p\<rparr>,
                             c\<lparr>pending := btree_insert (pa_target p)
                                  \<lparr>pd_action = pa_action p, pd_actor_label = pa_actor_label p\<rparr> (pending c)\<rparr>) } }"

definition cancel :: "activation_token \<Rightarrow> instant \<Rightarrow> controller \<Rightarrow> prepared_snapshot outcome" where
  "cancel token now c =
     do { (r, c) \<leftarrow> take_prepared token c;
          case r of
            Inl e \<Rightarrow> Some (Inl e, c)
          | Inr p \<Rightarrow>
              if expires_at p \<le> now then Some (Inl (ExpiredToken token), c)
              else do { c \<leftarrow> discard_expired_preparations now c;
                        Some (Inr (prepared_action_snapshot p token now), c) } }"

text \<open>One queued action reaching its boundary, in the order of the targets.\<close>

definition apply_pending ::
    "u64 \<Rightarrow> scenario_target \<times> pending_action \<Rightarrow> (scenario_target, active_action) btree
      \<Rightarrow> (scenario_target, active_action) btree" where
  "apply_pending sample_index entry act =
     (case pd_action (snd entry) of
        Activate s \<Rightarrow> btree_insert (fst entry)
          \<lparr>aa_scenario = s, aa_actor_label = pd_actor_label (snd entry),
           first_eligible_boundary = sample_index\<rparr> act
      | Clear \<Rightarrow> btree_remove (fst entry) act)"

definition advance_to :: "u64 \<Rightarrow> controller \<Rightarrow> unit outcome" where
  "advance_to sample_index c =
     (let queued = btree_entries (pending c);
          c = c\<lparr>current_sample_index := Some sample_index,
                pending := btree_empty,
                active := fold (apply_pending sample_index) queued (active c)\<rparr>;
          active_count = length (btree_entries (active c))
      in do { c \<leftarrow> expire_transient_actions sample_index c;
              c \<leftarrow> (if queued \<noteq> [] \<or> length (btree_entries (active c)) \<noteq> active_count
                    then bump_revision c else Some c);
              Some (Inr (), c) })"

definition advance_boundary :: "u64 \<Rightarrow> controller \<Rightarrow> unit outcome" where
  "advance_boundary sample_index c =
     (case current_sample_index c of
        None \<Rightarrow> advance_to sample_index c
      | Some previous \<Rightarrow>
          if sample_index \<le> previous
          then Some (Inl (NonMonotonicBoundary previous sample_index), c)
          else advance_to sample_index c)"

definition frame_plan :: "controller \<Rightarrow> u16 \<Rightarrow> frame_plan_type" where
  "frame_plan c stream_id =
     (case current_sample_index c of
        None \<Rightarrow> default_plan
      | Some sample_index \<Rightarrow>
          (let plan = (case btree_lookup (active c) (Endpoint stream_id) of
                 None \<Rightarrow> default_plan
               | Some a \<Rightarrow>
                   if is_effective_at a sample_index
                   then (case sd_kind (aa_scenario a) of
                           DegradedTime \<Rightarrow> default_plan\<lparr>degraded_time := True\<rparr>
                         | MissingFrames \<Rightarrow> default_plan\<lparr>omit_data := True\<rparr>
                         | SignalExcursion \<Rightarrow> default_plan\<lparr>plan_signal := sd_signal (aa_scenario a)\<rparr>
                         | _ \<Rightarrow> default_plan)
                   else default_plan)
           in plan\<lparr>disconnect_pdc_connection_ids :=
                [connection_id. (Pdc sid connection_id, a) \<leftarrow> btree_entries (active c),
                   sid = stream_id \<and> sd_kind (aa_scenario a) = DisconnectPdc
                   \<and> is_effective_at a sample_index]\<rparr>))"

definition prepared_actions_at :: "instant \<Rightarrow> controller \<Rightarrow> prepared_snapshot list" where
  "prepared_actions_at now c =
     map (\<lambda>(token, p). prepared_action_snapshot p token now) (btree_entries (prepared c))"

definition pending_actions :: "controller \<Rightarrow> pending_snapshot list" where
  "pending_actions c =
     map (\<lambda>(target, p). \<lparr>pn_target = target, pn_action = stored_action_snapshot (pd_action p),
                          pn_actor_label = pd_actor_label p\<rparr>) (btree_entries (pending c))"

definition active_scenarios :: "controller \<Rightarrow> active_snapshot list" where
  "active_scenarios c =
     map (\<lambda>(target, a).
        \<lparr>as_target = target, as_scenario_name = sd_name (aa_scenario a), as_kind = sd_kind (aa_scenario a),
         as_lifecycle = sd_lifecycle (aa_scenario a),
         as_start_frame_offset = start_frame_offset (aa_scenario a),
         as_first_eligible_boundary = first_eligible_boundary a, as_actor_label = aa_actor_label a\<rparr>)
       (btree_entries (active c))"

definition snapshot :: "instant \<Rightarrow> controller \<Rightarrow> (controller_snapshot \<times> controller) option" where
  "snapshot now c =
     do { c \<leftarrow> discard_expired_preparations now c;
          Some (\<lparr>cs_current_sample_index = current_sample_index c,
                 cs_prepared = prepared_actions_at now c,
                 cs_pending = pending_actions c,
                 cs_active = active_scenarios c\<rparr>, c) }"

end
