(* ===== verification/Effects.thy ===== *)
theory Effects
  imports Prelude "HOL-Library.While_Combinator"
begin

text \<open>
  Stateful computations of the server.  A Rust function that mutates what it borrows and returns
  a \<^verbatim>\<open>Result\<close> is a function from the state to one of four outcomes: it returns a value and the new
  state, it returns an error (which ends the server, so the state is not kept), it panics, or one of
  its loops never ends.  \<open>wp f Q E s\<close> says that from the state \<open>s\<close> the computation \<open>f\<close> ends
  without a panic, either with a value and a state in \<open>Q\<close> or with an error in \<open>E\<close>; the rules
  below carry the proofs of the server.
\<close>

named_theorems wp_simps \<open>weakest preconditions of the effect combinators\<close>
named_theorems prog_defs \<open>definitions of the effect combinators\<close>

section \<open>Outcomes and combinators\<close>

datatype ('e, 'a) res = Ok 'a | Err 'e | Panic | Diverged

type_synonym ('s, 'e, 'a) prog = "'s \<Rightarrow> ('e, 'a \<times> 's) res"

definition ret :: "'a \<Rightarrow> ('s, 'e, 'a) prog" where
  [prog_defs]: "ret x = (\<lambda>s. Ok (x, s))"

definition raise :: "'e \<Rightarrow> ('s, 'e, 'a) prog" where
  [prog_defs]: "raise e = (\<lambda>s. Err e)"

definition panic :: "('s, 'e, 'a) prog" where
  [prog_defs]: "panic = (\<lambda>s. Panic)"

definition bind_p :: "('s, 'e, 'a) prog \<Rightarrow> ('a \<Rightarrow> ('s, 'e, 'b) prog) \<Rightarrow> ('s, 'e, 'b) prog" where
  [prog_defs]: "bind_p f g = (\<lambda>s. case f s of Ok (x, t) \<Rightarrow> g x t | Err e \<Rightarrow> Err e | Panic \<Rightarrow> Panic | Diverged \<Rightarrow> Diverged)"

definition gets :: "('s \<Rightarrow> 'a) \<Rightarrow> ('s, 'e, 'a) prog" where
  [prog_defs]: "gets f = (\<lambda>s. Ok (f s, s))"

definition modify :: "('s \<Rightarrow> 's) \<Rightarrow> ('s, 'e, unit) prog" where
  [prog_defs]: "modify f = (\<lambda>s. Ok ((), f s))"

text \<open>\<^verbatim>\<open>expect\<close> on an option, and \<^verbatim>\<open>?\<close> on a result that does not touch the state.\<close>

definition expect :: "'a option \<Rightarrow> ('s, 'e, 'a) prog" where
  [prog_defs]: "expect x = (case x of None \<Rightarrow> panic | Some y \<Rightarrow> ret y)"

definition lift_ok :: "'e + 'a \<Rightarrow> ('s, 'e, 'a) prog" where
  [prog_defs]: "lift_ok r = (case r of Inl e \<Rightarrow> raise e | Inr x \<Rightarrow> ret x)"

text \<open>\<^verbatim>\<open>for x in xs { ... }\<close> and \<^verbatim>\<open>loop { ... }\<close>; the body of a loop yields \<^const>\<open>None\<close> to go on.\<close>

fun for_each :: "'a list \<Rightarrow> ('a \<Rightarrow> ('s, 'e, unit) prog) \<Rightarrow> ('s, 'e, unit) prog" where
  "for_each [] f = ret ()"
| "for_each (x # xs) f = bind_p (f x) (\<lambda>_. for_each xs f)"

text \<open>\<^verbatim>\<open>for _ in 0..n { ... }\<close> with a body that may return early: \<^const>\<open>Some\<close> ends the loop.\<close>

fun for_upto :: "nat \<Rightarrow> ('s, 'e, unit option) prog \<Rightarrow> ('s, 'e, unit) prog" where
  "for_upto 0 body = ret ()"
| "for_upto (Suc n) body = bind_p body (\<lambda>r. case r of None \<Rightarrow> for_upto n body | Some _ \<Rightarrow> ret ())"

definition continues :: "('e, 'a option \<times> 's) res \<Rightarrow> bool" where
  "continues r = (case r of Ok (None, s) \<Rightarrow> True | _ \<Rightarrow> False)"

definition next_round :: "('s, 'e, 'a option) prog \<Rightarrow> ('e, 'a option \<times> 's) res \<Rightarrow> ('e, 'a option \<times> 's) res" where
  "next_round body r = (case r of Ok (x, s) \<Rightarrow> body s | _ \<Rightarrow> r)"

definition loop_result :: "('e, 'a option \<times> 's) res option \<Rightarrow> ('e, 'a \<times> 's) res" where
  "loop_result r = (case r of
       Some (Ok (Some x, s)) \<Rightarrow> Ok (x, s) | Some (Err e) \<Rightarrow> Err e | Some Panic \<Rightarrow> Panic | _ \<Rightarrow> Diverged)"

definition loop_p :: "('s, 'e, 'a option) prog \<Rightarrow> ('s, 'e, 'a) prog" where
  "loop_p body s = loop_result (while_option continues (next_round body) (body s))"

lemma loop_p_unfold:
  "loop_p body s = (case body s of
       Ok (None, t) \<Rightarrow> loop_p body t | Ok (Some x, t) \<Rightarrow> Ok (x, t) | Err e \<Rightarrow> Err e | Panic \<Rightarrow> Panic | Diverged \<Rightarrow> Diverged)"
  unfolding loop_p_def
  by (subst while_option_unfold)
     (auto simp: continues_def next_round_def loop_result_def split: res.splits prod.splits option.splits)

lemmas loop_p_code [code] = loop_p_unfold

lemma bind_p_simps [simp]:
  "bind_p (ret x) g = g x" "bind_p (raise e) g = raise e" "bind_p panic g = panic"
  "bind_p (bind_p f g) h = bind_p f (\<lambda>x. bind_p (g x) h)"
  by (auto simp: prog_defs fun_eq_iff split: res.splits prod.splits)

lemma expect_simps [simp]: "expect None = panic" "expect (Some x) = ret x"
  by (simp_all add: expect_def)

lemma lift_ok_simps [simp]: "lift_ok (Inl e) = raise e" "lift_ok (Inr x) = ret x"
  by (simp_all add: lift_ok_def)

text \<open>Running a computation on a part of the state.\<close>

definition zoom :: "('s \<Rightarrow> 't) \<Rightarrow> ('t \<Rightarrow> 's \<Rightarrow> 's) \<Rightarrow> ('t, 'e, 'a) prog \<Rightarrow> ('s, 'e, 'a) prog" where
  "zoom get put f s = (case f (get s) of
       Ok (x, t) \<Rightarrow> Ok (x, put t s) | Err e \<Rightarrow> Err e | Panic \<Rightarrow> Panic | Diverged \<Rightarrow> Diverged)"

section \<open>Weakest preconditions\<close>

definition wp :: "('s, 'e, 'a) prog \<Rightarrow> ('a \<Rightarrow> 's \<Rightarrow> bool) \<Rightarrow> ('e \<Rightarrow> bool) \<Rightarrow> 's \<Rightarrow> bool" where
  "wp f Q E s = (case f s of Ok (x, t) \<Rightarrow> Q x t | Err e \<Rightarrow> E e | Panic \<Rightarrow> False | Diverged \<Rightarrow> False)"

lemma wp_Ok: "wp f Q E s \<Longrightarrow> f s = Ok (x, t) \<Longrightarrow> Q x t"
  by (simp add: wp_def)

lemma wp_outcome:
  assumes "wp f Q E s"
  obtains x t where "f s = Ok (x, t)" "Q x t" | e where "f s = Err e" "E e"
  using assms by (cases "f s") (auto simp: wp_def)

lemma wp_conseq:
  assumes "wp f Q E s" "\<And>x t. Q x t \<Longrightarrow> Q' x t" "\<And>e. E e \<Longrightarrow> E' e"
  shows "wp f Q' E' s"
  using assms(1) by (rule wp_outcome) (simp_all add: wp_def assms(2,3))

lemma wp_mono: "wp f Q E s \<Longrightarrow> (\<And>x t. Q x t \<Longrightarrow> Q' x t) \<Longrightarrow> wp f Q' E s"
  by (rule wp_conseq)

text \<open>Two facts about the same run.\<close>

lemma wp_conj: "wp f Q E s \<Longrightarrow> wp f Q' E s \<Longrightarrow> wp f (\<lambda>x t. Q x t \<and> Q' x t) E s"
  by (cases "f s") (auto simp: wp_def)

text \<open>The rules are equations between predicates, so that they apply under further combinators.\<close>

lemma wp_combinators [simp]:
  "wp (ret x) Q E = Q x"
  "wp (raise e) Q E = (\<lambda>_. E e)"
  "wp panic Q E = (\<lambda>_. False)"
  "wp (gets h) Q' E = (\<lambda>s. Q' (h s) s)"
  "wp (modify k) Q'' E = (\<lambda>s. Q'' () (k s))"
  by (simp_all add: wp_def prog_defs fun_eq_iff)

lemma wp_bind [simp]: "wp (bind_p f g) Q E = wp f (\<lambda>x. wp (g x) Q E) E"
  by (simp add: wp_def bind_p_def fun_eq_iff split: res.splits prod.splits)

lemma wp_if [simp]: "wp (if b then f else g) Q E = (if b then wp f Q E else wp g Q E)"
  by simp

lemma wp_case [wp_simps]:
  "wp (case v of None \<Rightarrow> f | Some y \<Rightarrow> g y) Q E = (case v of None \<Rightarrow> wp f Q E | Some y \<Rightarrow> wp (g y) Q E)"
  "wp (case r of Inl y \<Rightarrow> f' y | Inr z \<Rightarrow> g' z) Q E = (case r of Inl y \<Rightarrow> wp (f' y) Q E | Inr z \<Rightarrow> wp (g' z) Q E)"
  "wp (case p of (y, z) \<Rightarrow> h y z) Q E = (case p of (y, z) \<Rightarrow> wp (h y z) Q E)"
  by (simp_all split: option.splits sum.splits prod.splits)

lemma wp_expect [wp_simps]: "wp (expect x) Q E = (\<lambda>s. \<exists>y. x = Some y \<and> Q y s)"
  by (cases x) (simp_all add: fun_eq_iff)

text \<open>Calls and loops: a fact about the callee, weakened to what the caller needs.\<close>

lemma wp_for_each:
  assumes "I s" and "\<And>x t. x \<in> set xs \<Longrightarrow> I t \<Longrightarrow> wp (f x) (\<lambda>_. I) E t"
  shows "wp (for_each xs f) (\<lambda>_. I) E s"
  using assms
proof (induction xs arbitrary: s)
  case (Cons x xs)
  have "wp (f x) (\<lambda>_. I) E s" using Cons.prems by simp
  then have "wp (f x) (\<lambda>_. wp (for_each xs f) (\<lambda>_. I) E) E s"
    by (rule wp_mono) (rule Cons.IH, use Cons.prems(2) in simp_all)
  then show ?case by simp
qed simp

text \<open>The same over a range of indices, with the part already visited in view.\<close>

lemma wp_for_upt:
  assumes "I 0 s" and step: "\<And>i t. i < n \<Longrightarrow> I i t \<Longrightarrow> wp (f i) (\<lambda>_. I (Suc i)) E t"
  shows "wp (for_each [0..<n] f) (\<lambda>_. I n) E s"
proof -
  have "wp (for_each [a..<a + k] f) (\<lambda>_. I (a + k)) E t" if "a + k \<le> n" "I a t" for a k t
    using that
  proof (induction k arbitrary: a t)
    case (Suc k)
    have eq: "for_each [a..<a + Suc k] f = bind_p (f a) (\<lambda>_. for_each [Suc a..<Suc a + k] f)"
      using upt_conv_Cons [of a "a + Suc k"] by (simp del: upt_Suc)
    have "a < n" using Suc.prems by simp
    then have "wp (f a) (\<lambda>_. I (Suc a)) E t" using step Suc.prems(2) by blast
    then have "wp (f a) (\<lambda>_. wp (for_each [Suc a..<Suc a + k] f) (\<lambda>_. I (Suc a + k)) E) E t"
      by (rule wp_mono) (rule Suc.IH, use Suc.prems in simp_all)
    then show ?case unfolding eq by simp
  qed simp
  from this [of 0 n s] assms(1) show ?thesis by simp
qed

lemma wp_for_upto:
  assumes "I s" and "\<And>t. I t \<Longrightarrow> wp body (\<lambda>_. I) E t"
  shows "wp (for_upto n body) (\<lambda>_. I) E s"
  using assms(1)
proof (induction n arbitrary: s)
  case (Suc n)
  have "wp body (\<lambda>r. wp (case r of None \<Rightarrow> for_upto n body | Some _ \<Rightarrow> ret ()) (\<lambda>_. I) E) E s"
    by (rule wp_mono [OF assms(2) [OF Suc.prems]]) (auto split: option.splits intro: Suc.IH)
  then show ?case by (simp only: for_upto.simps wp_bind)
qed simp

text \<open>A loop ends when a measure of the state goes down in every round that goes on.\<close>

lemma wp_loop:
  assumes "I s"
    and body: "\<And>t. I t \<Longrightarrow> wp body (\<lambda>r u. case r of None \<Rightarrow> I u \<and> m u < (m t :: nat) | Some x \<Rightarrow> Q x u) E t"
  shows "wp (loop_p body) Q E s"
  using assms(1)
proof (induction "m s" arbitrary: s rule: less_induct)
  case less
  from body [OF less.prems] show ?case
  proof (rule wp_outcome)
    fix x t assume *: "body s = Ok (x, t)" "case x of None \<Rightarrow> I t \<and> m t < m s | Some y \<Rightarrow> Q y t"
    have "I t \<Longrightarrow> m t < m s \<Longrightarrow> wp (loop_p body) Q E t" by (rule less.hyps)
    then show ?thesis
      unfolding wp_def by (subst loop_p_unfold) (use * in \<open>auto split: option.splits\<close>)
  next
    fix e assume "body s = Err e" "E e"
    then show ?thesis unfolding wp_def by (subst loop_p_unfold) simp
  qed
qed

lemma wp_zoom [wp_simps]: "wp (zoom get put f) Q E = (\<lambda>s. wp f (\<lambda>x t. Q x (put t s)) E (get s))"
  by (simp add: wp_def zoom_def fun_eq_iff split: res.splits prod.splits)

end
