(* ===== verification/Crc.thy ===== *)
theory Crc
  imports Prelude
begin

text \<open>
  The CRC-16-CCITT checksum of the frame envelope (\<^verbatim>\<open>crc16_ccitt\<close> of \<^verbatim>\<open>wire_v2.rs\<close> and
  \<^verbatim>\<open>wire_v3.rs\<close>, seed \<^verbatim>\<open>0xffff\<close>, polynomial \<^verbatim>\<open>0x1021\<close>).  The interface the frame
  parsers rely on is the locale \<^verbatim>\<open>byte_checksum\<close>: a fold over the bytes whose step is
  injective in the running state and in the byte.  What follows from it alone is
  that corrupting one byte changes the checksum.
\<close>

section \<open>The checksum as the source computes it\<close>

text \<open>One round of the inner loop: shift left, and subtract the polynomial on carry.\<close>

definition crc_shift :: "u16 \<Rightarrow> u16" where
  "crc_shift checksum =
     (if checksum AND 0x8000 \<noteq> 0 then push_bit 1 checksum XOR 0x1021 else push_bit 1 checksum)"

text \<open>One round of the outer loop: mix in a byte, then eight inner rounds.\<close>

definition crc_byte :: "u16 \<Rightarrow> u8 \<Rightarrow> u16" where
  "crc_byte checksum byte = (crc_shift ^^ 8) (checksum XOR push_bit 8 (ucast byte))"

definition crc16_ccitt :: "bytes \<Rightarrow> u16" where
  "crc16_ccitt bytes = fold (\<lambda>byte checksum. crc_byte checksum byte) bytes 0xffff"

section \<open>Folding checksums\<close>

locale byte_checksum =
  fixes step :: "'s \<Rightarrow> u8 \<Rightarrow> 's"
  assumes step_inj_state: "step s b = step t b \<Longrightarrow> s = t"
    and step_inj_byte: "step s a = step s b \<Longrightarrow> a = b"
begin

lemma fold_inj_state:
  "fold (\<lambda>b s. step s b) bs s = fold (\<lambda>b s. step s b) bs t \<Longrightarrow> s = t"
  by (induction bs arbitrary: s t) (auto dest: step_inj_state)

text \<open>Two messages that differ in exactly one byte have different checksums.\<close>

lemma single_byte_change:
  assumes "i < length bs" and "b \<noteq> bs ! i"
  shows "fold (\<lambda>b s. step s b) (bs[i := b]) s \<noteq> fold (\<lambda>b s. step s b) bs s"
proof
  let ?f = "fold (\<lambda>b s. step s b)"
  assume eq: "?f (bs[i := b]) s = ?f bs s"
  have "?f (bs[i := b]) s = ?f (drop (Suc i) bs) (step (?f (take i bs) s) b)"
    using assms(1) by (simp add: upd_conv_take_nth_drop)
  moreover have "?f bs s = ?f (drop (Suc i) bs) (step (?f (take i bs) s) (bs ! i))"
    using assms(1) by (subst id_take_nth_drop [of i bs]) simp_all
  ultimately have "step (?f (take i bs) s) b = step (?f (take i bs) s) (bs ! i)"
    using eq by (metis fold_inj_state)
  then show False
    using assms(2) step_inj_byte by blast
qed

end

section \<open>CRC-16-CCITT is such a checksum\<close>

lemma and_8000: "(x :: u16) AND 0x8000 \<noteq> 0 \<longleftrightarrow> bit x 15"
proof -
  have "(0x8000 :: u16) = push_bit 15 1" by simp
  then show ?thesis
    by (metis and_exp_eq_0_iff_not_bit push_bit_of_1)
qed

lemma crc_shift_bit0: "bit (crc_shift x) 0 \<longleftrightarrow> bit x 15"
proof -
  have "\<not> bit (push_bit 1 x) 0"
    by (subst bit_push_bit_iff) simp
  then show ?thesis
    unfolding crc_shift_def and_8000 by (simp only: bit_xor_iff split: if_splits) simp
qed

lemma push_bit_1_inj: "push_bit 1 x = push_bit 1 y \<Longrightarrow> bit x 15 = bit y 15 \<Longrightarrow> x = (y :: u16)"
proof (rule bit_word_eqI)
  fix n assume eq: "push_bit 1 x = push_bit 1 y" and top: "bit x 15 = bit y 15"
    and "n < LENGTH(16)"
  then consider "n = 15" | "Suc n < 16" by fastforce
  then show "bit x n = bit y n"
  proof cases
    case 1 with top show ?thesis by simp
  next
    case 2
    from eq have "bit (push_bit 1 x) (Suc n) = bit (push_bit 1 y) (Suc n)" by simp
    then show ?thesis
      unfolding bit_push_bit_iff using 2 by simp
  qed
qed

lemma crc_shift_inj: "crc_shift x = crc_shift y \<Longrightarrow> x = y"
proof -
  assume eq: "crc_shift x = crc_shift y"
  then have top: "bit x 15 = bit y 15"
    by (metis crc_shift_bit0)
  with eq have "push_bit 1 x = push_bit 1 y"
    unfolding crc_shift_def and_8000
    by (simp only: split: if_splits) (auto dest: xor_right_cancel)
  then show ?thesis
    using top by (rule push_bit_1_inj)
qed

lemma crc_shift_pow_inj: "(crc_shift ^^ n) x = (crc_shift ^^ n) y \<Longrightarrow> x = y"
  by (induction n arbitrary: x y) (auto dest: crc_shift_inj)

lemma crc_byte_inj_state: "crc_byte s b = crc_byte t b \<Longrightarrow> s = t"
  unfolding crc_byte_def
  by (drule crc_shift_pow_inj) (rule xor_right_cancel)

lemma crc_byte_inj_byte: "crc_byte s a = crc_byte s b \<Longrightarrow> a = b"
proof -
  assume "crc_byte s a = crc_byte s b"
  then have "s XOR push_bit 8 (ucast a :: u16) = s XOR push_bit 8 (ucast b)"
    unfolding crc_byte_def by (rule crc_shift_pow_inj)
  then have eq: "push_bit 8 (ucast a :: u16) = push_bit 8 (ucast b)"
    by (rule xor_left_cancel)
  show "a = b"
  proof (rule bit_word_eqI)
    fix n assume "n < LENGTH(8)"
    moreover from eq have "bit (push_bit 8 (ucast a :: u16)) (8 + n) = bit (push_bit 8 (ucast b :: u16)) (8 + n)"
      by simp
    ultimately show "bit a n = bit b n"
      by (simp add: bit_simps)
  qed
qed

interpretation crc: byte_checksum crc_byte
  by unfold_locales (fact crc_byte_inj_state, fact crc_byte_inj_byte)

lemma crc16_single_byte_change:
  "i < length bs \<Longrightarrow> b \<noteq> bs ! i \<Longrightarrow> crc16_ccitt (bs[i := b]) \<noteq> crc16_ccitt bs"
  unfolding crc16_ccitt_def by (rule crc.single_byte_change)

section \<open>A reference computation on integers\<close>

text \<open>
  The same checksum as division by the polynomial on plain integers; the kernel
  evaluates it quickly on concrete frames.
\<close>

definition crc_shift_int :: "int \<Rightarrow> int" where
  "crc_shift_int x = (let y = 2 * x in if 65536 \<le> y then (y - 65536) XOR 0x1021 else y)"

definition crc_byte_int :: "int \<Rightarrow> int \<Rightarrow> int" where
  "crc_byte_int c b = (crc_shift_int ^^ 8) (c XOR (256 * b))"

primrec crc16_int :: "int list \<Rightarrow> int \<Rightarrow> int" where
  "crc16_int [] c = c"
| "crc16_int (b # bs) c = crc16_int bs (crc_byte_int c b)"

lemma bit_15_iff: "bit (x :: u16) 15 \<longleftrightarrow> 32768 \<le> uint x"
proof -
  have "bit x 15 \<longleftrightarrow> odd (uint x div 32768)"
    using bit_uint_iff [of x 15] bit_iff_odd [of "uint x" 15] by simp
  moreover have "0 \<le> uint x" "uint x < 65536"
    using uint_lt2p [of x] by simp_all
  ultimately show ?thesis
    by (cases "uint x < 32768") (auto simp: div_pos_pos_trivial, smt (verit) div_pos_geq odd_one div_pos_pos_trivial)
qed

lemma uint_crc_shift: "uint (crc_shift x) = crc_shift_int (uint x)"
proof -
  have r: "0 \<le> uint x" "uint x < 65536"
    using uint_lt2p [of x] by simp_all
  have "uint (push_bit 1 x) = (2 * uint x) mod 65536"
    by (simp add: uint_word_ariths mult.commute)
  then have p: "uint (push_bit 1 x) = (if 32768 \<le> uint x then 2 * uint x - 65536 else 2 * uint x)"
    using r by (auto simp: mod_pos_pos_trivial) (smt (verit) mod_pos_pos_trivial minus_mod_self2)
  show ?thesis
    by (cases "32768 \<le> uint x")
       (simp_all only: crc_shift_def and_8000 bit_15_iff crc_shift_int_def Let_def uint_xor p if_True if_False, simp_all)
qed

lemma uint_crc_shift_pow: "uint ((crc_shift ^^ n) x) = (crc_shift_int ^^ n) (uint x)"
  by (induction n) (simp_all add: uint_crc_shift)

lemma uint_crc_byte: "uint (crc_byte c b) = crc_byte_int (uint c) (uint b)"
proof -
  have "uint (push_bit 8 (ucast b :: u16)) = 256 * uint b"
    using uint_lt2p [of b] by (simp add: uint_word_ariths push_bit_eq_mult  uint_up_ucast is_up mod_pos_pos_trivial)
  then show ?thesis
    unfolding crc_byte_def crc_byte_int_def by (simp only: uint_crc_shift_pow uint_xor)
qed

lemma crc16_ccitt_int: "uint (crc16_ccitt bs) = crc16_int (map uint bs) 0xffff"
proof -
  have "uint (fold (\<lambda>b c. crc_byte c b) bs s) = crc16_int (map uint bs) (uint s)" for s
    by (induction bs arbitrary: s) (simp_all add: uint_crc_byte)
  then show ?thesis by (simp add: crc16_ccitt_def)
qed

lemma crc_byte_int_unfold:
  "crc_byte_int c b = crc_shift_int (crc_shift_int (crc_shift_int (crc_shift_int
     (crc_shift_int (crc_shift_int (crc_shift_int (crc_shift_int (c XOR (256 * b)))))))))"
  by (simp add: crc_byte_int_def eval_nat_numeral)

lemmas crc_eval = crc_byte_int_unfold crc_shift_int_def

lemma crc16_reference_vector: "crc16_ccitt (str_bytes ''123456789'') = 0x29b1"
proof -
  have "uint (crc16_ccitt (str_bytes ''123456789'')) = 0x29b1"
    by (simp add: crc16_ccitt_int str_bytes_def crc_eval)
  then show ?thesis by (simp add: word_uint_eq_iff)
qed

end
