(* ===== verification/Wire.thy ===== *)
theory Wire
  imports Crc F32
begin

text \<open>
  What the two wire modules (\<^verbatim>\<open>src/wire_v2.rs\<close>, \<^verbatim>\<open>src/wire_v3.rs\<close>) have in common: the frame
  envelope.  The locale \<open>frame_codec\<close> is the contract of one protocol version: which byte strings
  its parser accepts and which bytes its encoder produces.  Round trips and the rejection of
  corrupted frames follow from the contract alone.
\<close>

section \<open>Shared data\<close>

datatype frame_error =
    TooShort
  | BadSync
  | DeclaredSizeTooSmall
  | DeclaredSizeTooLarge
  | Incomplete
  | TrailingBytes
  | BadChecksum
  | UnsupportedVersion
  | UnexpectedFrameType
  | InvalidCommandSize
  | UnsupportedCommand

record timestamp =
  soc :: u32
  fracsec :: u32

definition SYNC_BYTE :: u8 where [const_defs]: "SYNC_BYTE = 0xaa"
definition FRAME_HEADER_BYTES :: nat where [const_defs]: "FRAME_HEADER_BYTES = 14"
definition FRAME_CHECKSUM_BYTES :: nat where [const_defs]: "FRAME_CHECKSUM_BYTES = 2"
definition MIN_FRAME_BYTES :: nat where [const_defs]: "MIN_FRAME_BYTES = FRAME_HEADER_BYTES + FRAME_CHECKSUM_BYTES"

definition checksum_matches :: "bytes \<Rightarrow> bool" where
  "checksum_matches frame =
     (if length frame < FRAME_CHECKSUM_BYTES then False
      else let payload_end = length frame - FRAME_CHECKSUM_BYTES;
               expected = u16_from_be (frame ! payload_end) (frame ! (payload_end + 1))
           in crc16_ccitt (take payload_end frame) = expected)"

section \<open>Fixed-point values\<close>

definition fixed_magnitude :: "f32 \<Rightarrow> f32 \<Rightarrow> u16" where
  "fixed_magnitude v scale = f32_as_u16 (f32_round (f32_div v scale))"

definition fixed_angle :: "f32 \<Rightarrow> u16" where
  "fixed_angle v = f32_as_i16 (f32_round (f32_mul v (f32_lit 10000)))"

definition fixed_frequency :: "f32 \<Rightarrow> u16" where
  "fixed_frequency value_hz = f32_as_i16 (f32_round (f32_mul value_hz (f32_lit 1000)))"

definition fixed_rocof :: "f32 \<Rightarrow> u16" where
  "fixed_rocof value_hz_per_second = f32_as_i16 (f32_round (f32_mul value_hz_per_second (f32_lit 100)))"

text \<open>
  The synthetic waveform.  The precision of \<^verbatim>\<open>f32::sin\<close> is unspecified, so the function is a
  parameter.
\<close>

definition waveform :: "(f32 \<Rightarrow> f32) \<Rightarrow> u64 \<Rightarrow> nat \<Rightarrow> nat \<Rightarrow> u64 \<Rightarrow> f32" where
  "waveform sin32 seed endpoint_index channel sample_index =
     (let phase_seed = seed + of_nat endpoint_index * 37 + of_nat channel * 101;
          phase = f32_div (f32_from_uint (uint (phase_seed mod 6283))) (f32_lit 1000);
          step = f32_mul (f32_from_uint (uint (sample_index mod 10000))) (f32_lit 0.03141593)
      in sin32 (f32_add phase step))"

definition phase_angle :: "nat \<Rightarrow> f32" where
  "phase_angle channel =
     (if channel mod 3 = 0 then 0
      else if channel mod 3 = 1 then f32_lit (- 2.0943952) else f32_lit 2.0943952)"

section \<open>Buffers\<close>

text \<open>Consecutive 16-bit writes into a buffer at a moving offset.\<close>

definition write_u16 :: "bytes \<times> nat \<Rightarrow> u16 \<Rightarrow> bytes \<times> nat" where
  "write_u16 st value = (case st of (buffer, offset) \<Rightarrow> (write_at offset (u16_to_be value) buffer, offset + 2))"

lemma write_u16_append:
  assumes "2 \<le> length suf"
  shows "write_u16 (pre @ suf, length pre) v = ((pre @ u16_to_be v) @ drop 2 suf, length (pre @ u16_to_be v))"
  by (simp add: write_u16_def write_at_def)

lemma write_u16s_append:
  "2 * length vs \<le> length suf \<Longrightarrow>
     fold (\<lambda>v st. write_u16 st v) vs (pre @ suf, length pre) =
       ((pre @ concat (map u16_to_be vs)) @ drop (2 * length vs) suf, length pre + 2 * length vs)"
proof (induction vs arbitrary: pre suf)
  case (Cons v vs)
  then have "2 \<le> length suf" "2 * length vs \<le> length (drop 2 suf)" by auto
  then show ?case
    by (simp only: fold_simps write_u16_append Cons.IH) simp
qed simp

lemma length_words: "length (concat (map u16_to_be vs)) = 2 * length vs"
  by (induction vs) simp_all

section \<open>The envelope\<close>

lemma list14E:
  assumes "14 \<le> length xs"
  obtains x0 x1 x2 x3 x4 x5 x6 x7 x8 x9 x10 x11 x12 x13 rest
  where "xs = x0 # x1 # x2 # x3 # x4 # x5 # x6 # x7 # x8 # x9 # x10 # x11 # x12 # x13 # rest"
  using assms by (auto simp: numeral_eq_Suc Suc_le_length_iff)

definition frame_header :: "u8 \<Rightarrow> u8 \<Rightarrow> u8 \<Rightarrow> u16 \<Rightarrow> timestamp \<Rightarrow> nat \<Rightarrow> bytes" where
  "frame_header version quality ty ident ts frame_size =
     [SYNC_BYTE, push_bit 4 ty OR version] @ u16_to_be (of_nat frame_size) @ u16_to_be ident
       @ u32_to_be (soc ts) @ [quality] @ tl (u32_to_be (fracsec ts))"

lemma length_frame_header [simp]: "length (frame_header v q ty i ts n) = 14"
  by (simp add: frame_header_def)

text \<open>A complete frame: header, body, and the checksum of both.\<close>

definition frame_bytes :: "u8 \<Rightarrow> u8 \<Rightarrow> u8 \<Rightarrow> u16 \<Rightarrow> timestamp \<Rightarrow> bytes \<Rightarrow> bytes" where
  "frame_bytes version quality ty ident ts body =
     (let payload = frame_header version quality ty ident ts (16 + length body) @ body
      in payload @ u16_to_be (crc16_ccitt payload))"

lemma length_frame_bytes [simp]: "length (frame_bytes v q ty i ts body) = 16 + length body"
  by (simp add: frame_bytes_def Let_def)

text \<open>The fields of a frame at their offsets.\<close>

lemma frame_fields:
  fixes v q ty i ts body
  defines "f \<equiv> frame_bytes v q ty i ts body"
  shows "f ! 0 = SYNC_BYTE" "f ! Suc 0 = push_bit 4 ty OR v"
    "u16_from_be (f ! 4) (f ! 5) = i"
    "u32_from_be (f ! 6) (f ! 7) (f ! 8) (f ! 9) = soc ts"
    "f ! 10 = q"
    "unat (fracsec ts) < 2 ^ 24 \<Longrightarrow> u32_from_be 0 (f ! 11) (f ! 12) (f ! 13) = fracsec ts"
    "take (length body) (drop 14 f) = body"
  by (simp_all add: f_def frame_bytes_def Let_def frame_header_def u16_to_be_def u32_to_be_def u32_from_to_be24)

lemma frame_body_word:
  "u16_from_be (frame_bytes v q ty i ts (u16_to_be w) ! 14) (frame_bytes v q ty i ts (u16_to_be w) ! 15) = w"
  by (simp add: frame_bytes_def Let_def frame_header_def u16_to_be_def u32_to_be_def)

lemma checksum_matches_append:
  "checksum_matches (payload @ [a, b]) \<longleftrightarrow> crc16_ccitt payload = u16_from_be a b"
  by (simp add: checksum_matches_def const_defs nth_append)

lemma checksum_matches_frame: "checksum_matches (frame_bytes v q ty i ts body)"
  unfolding frame_bytes_def Let_def u16_to_be_def by (subst checksum_matches_append) simp

text \<open>Replacing one byte of a frame whose checksum matches breaks the match.\<close>

lemma checksum_corruption:
  assumes "checksum_matches bs" and "i < length bs" and "b \<noteq> bs ! i"
  shows "\<not> checksum_matches (bs[i := b])"
proof -
  let ?n = "length bs - 2"
  have len: "2 \<le> length bs" using assms(1) by (simp add: checksum_matches_def const_defs split: if_splits)
  have m: "checksum_matches cs \<longleftrightarrow> crc16_ccitt (take ?n cs) = u16_from_be (cs ! ?n) (cs ! (?n + 1))"
    if "length cs = length bs" for cs
    using that len by (simp add: checksum_matches_def const_defs Let_def)
  consider "i < ?n" | "i = ?n" | "i = ?n + 1" using assms(2) by linarith
  then show ?thesis
  proof cases
    case 1
    then have "crc16_ccitt (take ?n (bs[i := b])) \<noteq> crc16_ccitt (take ?n bs)"
      using crc16_single_byte_change [of i "take ?n bs" b] assms(3) by (simp add: take_update_swap)
    then show ?thesis using m [of bs] m [of "bs[i := b]"] assms(1) 1 by simp
  next
    case 2
    have "u16_from_be b (bs ! (?n + 1)) \<noteq> u16_from_be (bs ! i) (bs ! (?n + 1))"
      using assms(3) u16_to_from_be by (metis list.inject)
    then show ?thesis using m [of bs] m [of "bs[i := b]"] assms 2 by auto
  next
    case 3
    have "u16_from_be (bs ! ?n) b \<noteq> u16_from_be (bs ! ?n) (bs ! i)"
      using assms(3) u16_to_from_be by (metis list.inject)
    then show ?thesis using m [of bs] m [of "bs[i := b]"] assms 3 by auto
  qed
qed

section \<open>The contract of one protocol version\<close>

text \<open>The size field of a frame.\<close>

definition declared_size :: "bytes \<Rightarrow> nat" where
  "declared_size bs = unat (u16_from_be (bs ! 2) (bs ! 3))"

locale frame_codec =
  fixes parse :: "bytes \<Rightarrow> nat \<Rightarrow> frame_error + bytes"
    and encode :: "u8 \<Rightarrow> u16 \<Rightarrow> timestamp \<Rightarrow> bytes \<Rightarrow> bytes option"
    and accepts_type :: "u8 \<Rightarrow> bool"
    and version quality :: u8
  assumes parse_ok: "parse bs limit = Inr f \<longleftrightarrow>
        f = bs \<and> 16 \<le> length bs \<and> bs ! 0 = SYNC_BYTE \<and> accepts_type (bs ! 1)
        \<and> declared_size bs = length bs \<and> length bs \<le> limit \<and> checksum_matches bs"
    and encode_eq: "encode ty ident ts body =
        (if 16 + length body \<le> 65535 then Some (frame_bytes version quality ty ident ts body) else None)"
begin

lemma declared_size_frame:
  assumes "16 + length body \<le> 65535"
  shows "declared_size (frame_bytes v q ty i ts body) = 16 + length body"
proof -
  have "unat (of_nat n :: u16) = n" if "n \<le> 65535" for n
    using that by (simp add: unsigned_of_nat take_bit_nat_eq_self)
  from this [OF assms] show ?thesis
    by (simp del: of_nat_add add: declared_size_def frame_bytes_def Let_def frame_header_def u16_to_be_def nth_append)
qed

text \<open>Encoding within the size field succeeds, and its result is accepted at any limit it fits.\<close>

lemma parse_encode:
  assumes "16 + length body \<le> 65535" "16 + length body \<le> limit" "accepts_type (push_bit 4 ty OR version)"
  shows "\<exists>f. encode ty ident ts body = Some f \<and> parse f limit = Inr f \<and> length f = 16 + length body"
proof -
  let ?f = "frame_bytes version quality ty ident ts body"
  have "?f ! 0 = SYNC_BYTE" "?f ! 1 = push_bit 4 ty OR version"
    by (simp_all add: frame_bytes_def Let_def frame_header_def)
  then have "parse ?f limit = Inr ?f"
    using assms declared_size_frame [OF assms(1)] by (simp add: parse_ok checksum_matches_frame)
  then show ?thesis using assms(1) by (simp add: encode_eq)
qed

text \<open>A frame with one byte replaced is rejected, whatever limit it is parsed with.\<close>

lemma corruption_rejected:
  assumes "parse bs limit = Inr f" "i < length bs" "b \<noteq> bs ! i"
  shows "\<exists>e. parse (bs[i := b]) limit' = Inl e"
proof (cases "parse (bs[i := b]) limit'")
  case (Inr g)
  then have "checksum_matches (bs[i := b])" by (simp add: parse_ok)
  moreover have "checksum_matches bs" using assms(1) by (simp add: parse_ok)
  ultimately show ?thesis using checksum_corruption assms(2,3) by blast
qed simp

text \<open>What is accepted fits both the limit and the minimum, and is returned unchanged.\<close>

lemma accepted_bounds: "parse bs limit = Inr f \<Longrightarrow> f = bs \<and> 16 \<le> length bs \<and> length bs \<le> limit"
  by (simp add: parse_ok)

end

end
