(* ===== verification/Scheduling.thy ===== *)
theory Scheduling
  imports Wire
begin

text \<open>
  The frame scheduler and the wall clock of the server (\<^verbatim>\<open>src/server.rs\<close>).  The 128-bit products of
  the source do not overflow for any value of their arguments, so they are integers; the 64-bit
  sums and products are the checked, saturating or wrapping operations of the source.
\<close>

section \<open>Data\<close>

datatype server_error =
    NoEndpoints
  | MixedRates
  | ZeroDataRate
  | ClockBeforeEpoch
  | SocRangeExceeded
  | ErrorResponseSocRange
  | ConnectionTokenRange
  | PdcTokenRange
  | ManagementTokenRange
  | BoundaryFailed u64
  | FrameStorageMismatch
  | IoError string

record server_stats =
  accepted_clients :: u64
  closed_clients :: u64
  rejected_clients :: u64
  malformed_commands :: u64
  unsupported_commands :: u64
  slow_clients :: u64
  sent_data_frames :: u64
  skipped_ticks :: u64

record scheduler =
  started :: instant
  sch_data_rate_hz :: u16
  next_sample_index :: u64

record wall_clock =
  first_timestamp :: timestamp
  ticks_per_frame :: u32
  wc_time_base :: u32

section \<open>The scheduler\<close>

definition new_scheduler :: "u16 \<Rightarrow> instant \<Rightarrow> scheduler" where
  "new_scheduler data_rate_hz start =
     \<lparr>started = start, sch_data_rate_hz = data_rate_hz, next_sample_index = 0\<rparr>"

definition saturating_duration_since :: "instant \<Rightarrow> instant \<Rightarrow> duration" where
  "saturating_duration_since later earlier = max 0 (later - earlier)"

definition sample_offset :: "u64 \<Rightarrow> u16 \<Rightarrow> duration" where
  "sample_offset sample_index data_rate_hz =
     min ((uint sample_index * 1000000000) div uint data_rate_hz) (2 ^ 64 - 1)"

definition scheduler_timeout :: "scheduler \<Rightarrow> instant \<Rightarrow> duration" where
  "scheduler_timeout s now =
     saturating_duration_since (started s + sample_offset (next_sample_index s) (sch_data_rate_hz s)) now"

definition take_due :: "scheduler \<Rightarrow> instant \<Rightarrow> server_stats \<Rightarrow> u64 option \<times> scheduler \<times> server_stats" where
  "take_due s now stats =
     (let elapsed = saturating_duration_since now (started s);
          current_index = word_of_int (min ((elapsed * uint (sch_data_rate_hz s)) div 1000000000) (2 ^ 64 - 1)) :: u64
      in if current_index < next_sample_index s then (None, s, stats)
         else (Some current_index,
               s\<lparr>next_sample_index := saturating_add current_index 1\<rparr>,
               stats\<lparr>skipped_ticks := skipped_ticks stats + saturating_sub current_index (next_sample_index s)\<rparr>))"

section \<open>The wall clock\<close>

definition aligned_timestamp :: "duration \<Rightarrow> u16 \<Rightarrow> u32 \<Rightarrow> server_error + timestamp" where
  "aligned_timestamp now data_rate_hz time_base =
     (let ticks = ucast (time_base div ucast data_rate_hz) :: u64;
          secs = word_of_int (now div 1000000000) :: u64;
          subsec_nanos = now mod 1000000000;
          total_ticks = saturating_mul secs (ucast time_base)
                        + word_of_int ((subsec_nanos * uint time_base) div 1000000000);
          next_ticks = saturating_mul (total_ticks div ticks + 1) ticks;
          seconds = next_ticks div ucast time_base
      in bind_ok (ok_or (try_from (unat seconds)) SocRangeExceeded) (\<lambda>s.
         Inr \<lparr>soc = s, fracsec = ucast (next_ticks mod ucast time_base)\<rparr>))"

definition delay_until_timestamp :: "duration \<Rightarrow> timestamp \<Rightarrow> u32 \<Rightarrow> duration" where
  "delay_until_timestamp now ts time_base =
     (let target_ticks = uint (soc ts) * uint time_base + uint (fracsec ts);
          target_nanos = (target_ticks * 1000000000 + uint time_base - 1) div uint time_base
      in min (max 0 (target_nanos - now)) (2 ^ 64 - 1))"

definition timestamp_for_sample :: "wall_clock \<Rightarrow> u64 \<Rightarrow> timestamp" where
  "timestamp_for_sample wc sample_index =
     (let total_ticks = ucast (fracsec (first_timestamp wc))
                        + saturating_mul sample_index (ucast (ticks_per_frame wc))
      in \<lparr>soc = saturating_add (soc (first_timestamp wc)) (ucast (total_ticks div ucast (wc_time_base wc))),
          fracsec = ucast (total_ticks mod ucast (wc_time_base wc))\<rparr>)"

text \<open>
  \<^verbatim>\<open>WallClock::aligned_start\<close>, with the two clock readings it makes as arguments.
\<close>

definition aligned_start ::
    "system_time \<Rightarrow> instant \<Rightarrow> u16 \<Rightarrow> u32 \<Rightarrow> server_error + (wall_clock \<times> instant)" where
  "aligned_start system_now instant_now data_rate_hz time_base =
     bind_ok (fail_if (system_now < 0) ClockBeforeEpoch) (\<lambda>_.
     bind_ok (aligned_timestamp system_now data_rate_hz time_base) (\<lambda>first.
     let delay = delay_until_timestamp system_now first time_base;
         clock = \<lparr>first_timestamp = first, ticks_per_frame = time_base div ucast data_rate_hz,
                  wc_time_base = time_base\<rparr>
     in Inr (clock, instant_now + delay)))"

definition response_timestamp :: "system_time \<Rightarrow> u32 \<Rightarrow> server_error + timestamp" where
  "response_timestamp system_now time_base =
     bind_ok (fail_if (system_now < 0) ClockBeforeEpoch) (\<lambda>_.
     bind_ok (ok_or (try_from (nat (system_now div 1000000000))) ErrorResponseSocRange) (\<lambda>s.
     Inr \<lparr>soc = s, fracsec = word_of_int (((system_now mod 1000000000) * uint time_base) div 1000000000)\<rparr>))"

section \<open>Scheduler lemmas\<close>

lemma take_due_None: "take_due s now stats = (None, s', stats') \<Longrightarrow> s' = s \<and> stats' = stats"
  by (simp add: take_due_def Let_def split: if_splits)

lemma saturating_add_1: "unat (saturating_add x (1 :: u64)) = min (unat x + 1) (2 ^ 64 - 1)"
proof (cases "unat x + 1 < 2 ^ 64")
  case True
  then show ?thesis by (simp add: saturating_add_def unat_add_fits)
next
  case False
  moreover have "unat x < 2 ^ 64" using unsigned_less [of x, where ?'a = nat] by simp
  moreover have "unat (- 1 :: u64) = 2 ^ 64 - 1" by (simp add: unsigned_minus_1_eq_mask mask_eq_exp_minus_1)
  ultimately show ?thesis by (simp add: saturating_add_def)
qed

lemma take_due_Some:
  assumes "take_due s now stats = (Some i, s', stats')"
  shows "next_sample_index s \<le> i"
    and "uint i = min (max 0 (now - started s) * uint (sch_data_rate_hz s) div 1000000000) (2 ^ 64 - 1)"
    and "unat (next_sample_index s') = min (unat i + 1) (2 ^ 64 - 1)"
    and "started s' = started s" "sch_data_rate_hz s' = sch_data_rate_hz s"
    and "stats' = stats\<lparr>skipped_ticks := skipped_ticks stats + (i - next_sample_index s)\<rparr>"
proof -
  let ?c = "min (max 0 (now - started s) * uint (sch_data_rate_hz s) div 1000000000) (2 ^ 64 - 1)"
  have i: "i = word_of_int ?c" and le: "next_sample_index s \<le> i"
    using assms by (auto simp: take_due_def Let_def saturating_duration_since_def split: if_splits)
  have "0 \<le> ?c" "?c < 2 ^ 64" by (auto simp: pos_imp_zdiv_nonneg_iff)
  then show "uint i = ?c" unfolding i by (subst uint_word_of_int_eq) (simp add: take_bit_int_eq_self_iff)
  show "next_sample_index s \<le> i" by (fact le)
  show "stats' = stats\<lparr>skipped_ticks := skipped_ticks stats + (i - next_sample_index s)\<rparr>"
    using assms le by (auto simp: take_due_def Let_def saturating_sub_def split: if_splits)
  show "unat (next_sample_index s') = min (unat i + 1) (2 ^ 64 - 1)"
    using assms by (auto simp: take_due_def Let_def saturating_add_1 split: if_splits)
qed (use assms in \<open>auto simp: take_due_def Let_def split: if_splits\<close>)

section \<open>Clock lemmas\<close>

text \<open>The ticks since the epoch that a timestamp denotes.\<close>

definition ticks_of :: "u32 \<Rightarrow> timestamp \<Rightarrow> int" where
  "ticks_of time_base ts = uint (soc ts) * uint time_base + uint (fracsec ts)"

definition rate_divides :: "u16 \<Rightarrow> u32 \<Rightarrow> bool" where
  "rate_divides data_rate_hz time_base =
     (0 < uint data_rate_hz \<and> 0 < uint time_base \<and> uint time_base mod uint data_rate_hz = 0)"

lemma uint_ucast_up [simp]:
  "uint (ucast (x :: u32) :: u64) = uint x" "uint (ucast (y :: u16) :: u32) = uint y"
  by (simp_all add: unsigned_ucast_eq take_bit_int_eq_self_iff order.strict_trans2 [OF uint_lt2p])

lemma uint_ucast_down: "uint (x :: u64) < 2 ^ 32 \<Longrightarrow> uint (ucast x :: u32) = uint x"
  by (simp add: unsigned_ucast_eq take_bit_int_eq_self_iff)

lemma uint_word_of_int_64: "0 \<le> n \<Longrightarrow> n < 2 ^ 64 \<Longrightarrow> uint (word_of_int n :: u64) = n"
  by (simp add: uint_word_of_int_eq take_bit_int_eq_self_iff)

lemma uint_add_64: "uint (a :: u64) + uint b < 2 ^ 64 \<Longrightarrow> uint (a + b) = uint a + uint b"
  by (simp add: uint_word_ariths)

lemma uint_saturating_mul: "uint (a :: u64) * uint b < 2 ^ 64 \<Longrightarrow> uint (saturating_mul a b) = uint a * uint b"
  by (simp add: checked_code uint_word_ariths)

lemma ticks_per_frame_pos:
  assumes "rate_divides rate tb"
  shows "0 < uint (tb div ucast rate)" "uint (tb div ucast rate) * uint rate = uint tb"
proof -
  have eq: "uint (tb div ucast rate) = uint tb div uint rate" by (simp add: uint_div)
  show "uint (tb div ucast rate) * uint rate = uint tb"
    unfolding eq using assms by (simp add: rate_divides_def mod_eq_0_iff_dvd)
  then show "0 < uint (tb div ucast rate)"
    using assms by (cases "uint (tb div ucast rate) = 0") (auto simp: rate_divides_def order.strict_iff_order)
qed

lemma small_product: "0 \<le> (a::int) \<Longrightarrow> a < 2 ^ 32 \<Longrightarrow> 0 \<le> b \<Longrightarrow> b < 2 ^ 24 \<Longrightarrow> a * b < 2 ^ 56"
  using mult_strict_mono' [of a "2 ^ 32" b "2 ^ 24"] by simp

lemma div_less_int: "0 < c \<Longrightarrow> x < k * c \<Longrightarrow> x div c < (k :: int)"
proof -
  assume c: "0 < c" and x: "x < k * c"
  have "x div c * c = x - x mod c" by (simp add: minus_mod_eq_div_mult)
  moreover have "0 \<le> x mod c" using c by simp
  ultimately have "x div c * c < k * c" using x by linarith
  then show ?thesis using c by (simp add: mult_less_cancel_right)
qed

lemma div_mult_le_int: "0 < c \<Longrightarrow> x div c * c \<le> (x :: int)"
  by (simp add: minus_mod_eq_div_mult [symmetric])

lemma ceil_div_int: "0 < c \<Longrightarrow> (x + c - 1) div c * c \<le> x + c - 1 \<and> x \<le> (x + c - 1) div c * (c :: int)"
proof -
  assume c: "0 < c"
  have "(x + c - 1) div c * c = x + c - 1 - (x + c - 1) mod c" by (rule minus_mod_eq_div_mult [symmetric])
  moreover have "0 \<le> (x + c - 1) mod c" "(x + c - 1) mod c < c" using c by simp_all
  ultimately show ?thesis by linarith
qed

lemma ticks_split: "(now div 1000000000) * T + ((now mod 1000000000) * T) div 1000000000 = now * T div (1000000000 :: int)"
proof -
  have "now * T = ((now div 1000000000) * 1000000000 + now mod 1000000000) * T" by simp
  also have "\<dots> = (now div 1000000000) * T * 1000000000 + (now mod 1000000000) * T"
    by (simp only: distrib_right mult.assoc mult.commute [of T])
  finally have eq: "now * T = (now div 1000000000) * T * 1000000000 + (now mod 1000000000) * T" .
  show ?thesis unfolding eq by simp
qed

text \<open>The 64-bit computation of the next frame boundary does not wrap before the year 2106.\<close>

lemma next_ticks_exact:
  assumes "rate_divides rate tb" "uint tb < 2 ^ 24" "0 \<le> now" "now < 2 ^ 32 * 1000000000"
  defines "F \<equiv> uint (tb div ucast rate)"
    and "tot \<equiv> saturating_mul (word_of_int (now div 1000000000) :: u64) (ucast tb)
        + word_of_int (((now mod 1000000000) * uint tb) div 1000000000)"
  shows "uint (saturating_mul (tot div ucast (tb div ucast rate) + 1) (ucast (tb div ucast rate)) :: u64)
      = (now * uint tb div 1000000000 div F + 1) * F"
    and "(now * uint tb div 1000000000 div F + 1) * F < 2 ^ 57"
proof -
  let ?T = "uint tb" and ?s = "now div 1000000000" and ?r = "((now mod 1000000000) * uint tb) div 1000000000"
  let ?n = "now * uint tb div 1000000000"
  have T: "0 < ?T" using assms(1) by (simp add: rate_divides_def)
  have F: "0 < F" "F * uint rate = ?T" using ticks_per_frame_pos [OF assms(1)] by (simp_all add: F_def)
  have "1 \<le> uint rate" using assms(1) by (auto simp: rate_divides_def)
  then have "F * 1 \<le> F * uint rate" using F(1) by (intro mult_left_mono) simp_all
  then have FT: "F \<le> ?T" using F(2) by simp
  have s: "0 \<le> ?s" "?s < 2 ^ 32" using assms(3,4) by (auto simp: pos_imp_zdiv_nonneg_iff)
  have "(now mod 1000000000) * ?T < ?T * 1000000000" using T by (simp add: mult.commute)
  then have r: "0 \<le> ?r" "?r < ?T" using T by (auto simp: pos_imp_zdiv_nonneg_iff intro!: div_less_int)
  have sT: "?s * ?T < 2 ^ 56" "0 \<le> ?s * ?T" using small_product [of ?s ?T] s assms(2) T by auto
  have mul: "uint (saturating_mul (word_of_int ?s :: u64) (ucast tb)) = ?s * ?T"
    using s sT by (subst uint_saturating_mul) (simp_all add: uint_word_of_int_64)
  have n: "?n = ?s * ?T + ?r" by (simp add: ticks_split)
  have tot: "uint tot = ?n"
    unfolding tot_def n using sT r assms(2) mul
    by (subst uint_add_64) (simp_all add: uint_word_of_int_64)
  have nb: "0 \<le> ?n" "?n < 2 ^ 56 + 2 ^ 24" using n sT r assms(2) by auto
  have q: "?n div F * F \<le> ?n" "0 \<le> ?n div F" "?n div F \<le> ?n"
    using F(1) nb div_mult_le_int zdiv_mono2 [of ?n 1 F] by (auto simp: pos_imp_zdiv_nonneg_iff)
  show b: "(?n div F + 1) * F < 2 ^ 57"
    using q nb FT assms(2) by (simp add: distrib_right)
  have div: "uint (tot div ucast (tb div ucast rate)) = ?n div F"
    by (simp add: uint_div tot F_def)
  have plus: "uint (tot div ucast (tb div ucast rate) + 1 :: u64) = ?n div F + 1"
    using q nb by (subst uint_add_64) (simp_all add: div)
  show "uint (saturating_mul (tot div ucast (tb div ucast rate) + 1) (ucast (tb div ucast rate)) :: u64) = (?n div F + 1) * F"
    using b by (subst uint_saturating_mul) (simp_all add: plus F_def)
qed

lemma aligned_timestamp_ticks:
  assumes "aligned_timestamp now rate tb = Inr ts"
    and "rate_divides rate tb" "uint tb < 2 ^ 24" "0 \<le> now" "now < 2 ^ 32 * 1000000000"
  defines "F \<equiv> uint (tb div ucast rate)"
  shows "ticks_of tb ts = (now * uint tb div 1000000000 div F + 1) * F" "uint (fracsec ts) < uint tb"
proof -
  let ?N = "(now * uint tb div 1000000000 div F + 1) * F"
  define nxt where "nxt = saturating_mul ((saturating_mul (word_of_int (now div 1000000000) :: u64) (ucast tb)
        + word_of_int (((now mod 1000000000) * uint tb) div 1000000000)) div ucast (tb div ucast rate) + 1)
        (ucast (tb div ucast rate) :: u64)"
  have nxt: "uint nxt = ?N"
    unfolding nxt_def F_def by (rule next_ticks_exact(1) [OF assms(2-5)])
  from assms(1) obtain sec where sec: "try_from (unat (nxt div ucast tb)) = Some sec"
    and ts: "ts = \<lparr>soc = sec, fracsec = ucast (nxt mod ucast tb)\<rparr>"
    by (auto simp: aligned_timestamp_def Let_def nxt_def)
  have T: "0 < uint tb" using assms(2) by (simp add: rate_divides_def)
  have "uint sec = uint (nxt div ucast tb)"
    using sec by (metis try_from_Some_iff uint_nat)
  then have s: "uint (soc ts) = ?N div uint tb" by (simp add: ts uint_div nxt)
  have "uint (nxt mod ucast tb) = ?N mod uint tb" by (simp add: uint_mod nxt)
  moreover have "?N mod uint tb < uint tb" using T by simp
  ultimately have f: "uint (fracsec ts) = ?N mod uint tb"
    using assms(3) by (simp add: ts uint_ucast_down)
  then show "uint (fracsec ts) < uint tb" using T by simp
  show "ticks_of tb ts = ?N" by (simp add: ticks_of_def s f)
qed

text \<open>The boundary lies after the given time, by at most one frame.\<close>

lemma next_boundary:
  fixes n T F :: int
  assumes "0 < F" "0 < T"
  defines "N \<equiv> (n * T div 1000000000 div F + 1) * F"
  shows "n * T < N * 1000000000" "(N - F) * 1000000000 \<le> n * T" "N mod F = 0"
proof -
  let ?t = "n * T div 1000000000"
  have "?t div F * F \<le> ?t" using assms(1) by (rule div_mult_le_int)
  then have "(N - F) \<le> ?t" by (simp add: N_def distrib_right)
  then have "(N - F) * 1000000000 \<le> ?t * 1000000000" by simp
  also have "\<dots> \<le> n * T" by (rule div_mult_le_int) simp
  finally show "(N - F) * 1000000000 \<le> n * T" .
  have "?t < N" using assms(1) by (simp add: N_def distrib_right minus_mod_eq_div_mult [symmetric]) 
  then have "(?t + 1) * 1000000000 \<le> N * 1000000000" by simp
  moreover have "n * T < (?t + 1) * 1000000000"
    using pos_mod_bound [of 1000000000 "n * T"] by (simp add: distrib_right minus_mod_eq_div_mult [symmetric])
  ultimately show "n * T < N * 1000000000" by linarith
  show "N mod F = 0" by (simp add: N_def)
qed

text \<open>
  Before the first sample is due the elapsed time saturates to zero, so a call that comes early - the
  main loop makes one after every event - already takes sample 0.
\<close>

lemma early_first_sample:
  assumes "now \<le> started s" "next_sample_index s = 0"
  shows "take_due s now stats = (Some 0, s\<lparr>next_sample_index := 1\<rparr>, stats)"
  using assms by (simp add: take_due_def Let_def saturating_duration_since_def checked_defs)

section \<open>Properties\<close>

text \<open>C18. Due samples: the index handed out is the number of whole reporting periods since the start, it is not
  below the index expected next, and the statistics grow by exactly the number of periods passed
  over; the expected index then is the next one, so indices strictly increase from call to call.\<close>

theorem take_due_correct:
  assumes "take_due s now stats = (Some i, s', stats')" and "started s \<le> now"
    and "(now - started s) * uint (sch_data_rate_hz s) div 1000000000 < 2 ^ 64 - 1"
  shows "uint i = (now - started s) * uint (sch_data_rate_hz s) div 1000000000
    \<and> next_sample_index s \<le> i \<and> next_sample_index s' = i + 1 \<and> i < i + 1
    \<and> stats' = stats\<lparr>skipped_ticks := skipped_ticks stats + (i - next_sample_index s)\<rparr>"
proof (intro conjI)
  note d = take_due_Some [OF assms(1)]
  show i: "uint i = (now - started s) * uint (sch_data_rate_hz s) div 1000000000"
    using d(2) assms(2,3) by simp
  have "int (unat i + 1) < 2 ^ 64" using i assms(3) by simp
  then have lt: "unat i + 1 < 2 ^ 64" by (simp only: nat_less_pow_iff)
  then have n: "unat (i + 1) = unat i + 1" by (simp add: unat_add_fits)
  show "next_sample_index s' = i + 1" using d(3) lt n by (simp add: word_unat_eq_iff)
  show "i < i + 1" using n by (simp add: word_less_nat_alt)
  show "next_sample_index s \<le> i" "stats' = stats\<lparr>skipped_ticks := skipped_ticks stats + (i - next_sample_index s)\<rparr>"
    by (fact d)+
qed

definition idle_stats :: server_stats where
  "idle_stats = \<lparr>accepted_clients = 0, closed_clients = 0, rejected_clients = 0, malformed_commands = 0,
     unsupported_commands = 0, slow_clients = 0, sent_data_frames = 0, skipped_ticks = 0\<rparr>"

theorem take_due_correct_witness:
  "fst (take_due (new_scheduler 50 0) 70000000 idle_stats) = Some 3
   \<and> skipped_ticks (snd (snd (take_due (new_scheduler 50 0) 70000000 idle_stats))) = 3"
proof -
  obtain i s' st where t: "take_due (new_scheduler 50 0) 70000000 idle_stats = (Some i, s', st)"
    by (auto simp: take_due_def new_scheduler_def Let_def saturating_duration_since_def)
  have "uint i = 3" "st = idle_stats\<lparr>skipped_ticks := skipped_ticks idle_stats + (i - 0)\<rparr>"
    using take_due_correct [OF t] by (simp_all add: new_scheduler_def)
  moreover from this(1) have "i = 3" by (simp add: word_uint_eq_iff)
  ultimately show ?thesis unfolding t by (simp add: idle_stats_def)
qed

lemma aligned_first_sample:
  assumes "aligned_start sys inst rate tb = Inr (clock, start)"
    and "rate_divides rate tb" and "uint tb < 2 ^ 24" and "sys < 2 ^ 32 * 1000000000"
  shows "let N = ticks_of tb (first_timestamp clock); F = uint (ticks_per_frame clock)
     in F * uint rate = uint tb \<and> N mod F = 0
        \<and> sys * uint tb < N * 1000000000 \<and> (N - F) * 1000000000 \<le> sys * uint tb
        \<and> uint (fracsec (first_timestamp clock)) < uint tb
        \<and> inst < start \<and> (start - inst - 1) * uint rate < 1000000000"
proof -
  define F where "F = uint (tb div ucast rate)"
  from assms(1) obtain ts where sys: "0 \<le> sys" and ts: "aligned_timestamp sys rate tb = Inr ts"
    and clock: "first_timestamp clock = ts" "ticks_per_frame clock = tb div ucast rate"
    and start: "start = inst + delay_until_timestamp sys ts tb"
    by (auto simp: aligned_start_def Let_def)
  define N where "N = ticks_of tb ts"
  have T: "0 < uint tb" "0 < uint rate" using assms(2) by (simp_all add: rate_divides_def)
  have F: "0 < F" "F * uint rate = uint tb" using ticks_per_frame_pos [OF assms(2)] by (simp_all add: F_def)
  have N: "N = (sys * uint tb div 1000000000 div F + 1) * F" and f: "uint (fracsec ts) < uint tb"
    using aligned_timestamp_ticks [OF ts assms(2,3) sys assms(4)] by (simp_all add: N_def F_def)
  note b = next_boundary [OF F(1) T(1), of sys, folded N]
  let ?c = "(N * 1000000000 + uint tb - 1) div uint tb"
  have c: "?c * uint tb \<le> N * 1000000000 + uint tb - 1" "N * 1000000000 \<le> ?c * uint tb"
    using ceil_div_int [OF T(1)] by simp_all
  have gt: "sys < ?c"
  proof -
    have "sys * uint tb < ?c * uint tb" using b(1) c(2) by linarith
    then show ?thesis using T(1) by (simp add: mult_less_cancel_right)
  qed
  have up: "(?c - sys - 1) * uint rate < 1000000000"
  proof -
    have "(?c - sys - 1) * uint tb < F * 1000000000"
      using c(1) b(2) by (simp add: left_diff_distrib)
    then have "((?c - sys - 1) * uint rate) * F < 1000000000 * F"
      by (simp add: F(2) [symmetric] mult.assoc mult.commute mult.left_commute)
    then show ?thesis using F(1) by (simp add: mult_less_cancel_right)
  qed
  have "?c - sys - 1 < 1000000000"
  proof (rule ccontr)
    assume "\<not> ?c - sys - 1 < 1000000000"
    then have "1000000000 * 1 \<le> (?c - sys - 1) * uint rate" using T(2) by (intro mult_mono) auto
    then show False using up by simp
  qed
  then have "delay_until_timestamp sys ts tb = ?c - sys"
    using gt by (simp add: delay_until_timestamp_def Let_def N_def ticks_of_def)
  then show ?thesis
    using b F f gt up by (simp add: clock start N_def F_def Let_def)
qed

text \<open>C27. The first sample is aligned: with a time base that the rate divides and a clock between 1970 and 2106, the
  first timestamp is the first frame boundary after the wall clock reading, its fraction is below
  the time base, and the scheduler starts after a delay that is positive and shorter than one period
  plus one nanosecond.\<close>

theorem first_sample_aligned:
  assumes "aligned_start sys inst rate tb = Inr (clock, start)"
    and "rate_divides rate tb" and "uint tb < 2 ^ 24" and "sys < 2 ^ 32 * 1000000000"
  shows "let N = ticks_of tb (first_timestamp clock); F = uint (ticks_per_frame clock)
     in F * uint rate = uint tb \<and> N mod F = 0
        \<and> sys * uint tb < N * 1000000000 \<and> (N - F) * 1000000000 \<le> sys * uint tb
        \<and> uint (fracsec (first_timestamp clock)) < uint tb
        \<and> inst < start \<and> (start - inst - 1) * uint rate < 1000000000"
  using assms by (rule aligned_first_sample)

theorem first_sample_aligned_witness:
  "\<exists>clock start. aligned_start 123000000 0 50 1000000 = Inr (clock, start) \<and> 0 < start"
proof -
  have "is_ok (aligned_start 123000000 0 50 1000000)" by code_simp
  then obtain clock start where a: "aligned_start 123000000 0 50 1000000 = Inr (clock, start)"
    by (auto simp: is_ok_def split: sum.splits)
  from first_sample_aligned [OF a] have "0 < start" by (simp add: rate_divides_def Let_def)
  with a show ?thesis by blast
qed

lemma sample_ticks:
  assumes "uint (wc_time_base wc) < 2 ^ 24" and "uint (fracsec (first_timestamp wc)) < uint (wc_time_base wc)"
    and "uint i * uint (ticks_per_frame wc) < 2 ^ 63"
    and "uint (soc (first_timestamp wc))
       + (uint (fracsec (first_timestamp wc)) + uint i * uint (ticks_per_frame wc)) div uint (wc_time_base wc) < 2 ^ 32"
  shows "ticks_of (wc_time_base wc) (timestamp_for_sample wc i)
       = ticks_of (wc_time_base wc) (first_timestamp wc) + uint i * uint (ticks_per_frame wc)
    \<and> unat (fracsec (timestamp_for_sample wc i)) < 2 ^ 24
    \<and> uint (fracsec (timestamp_for_sample wc i)) < uint (wc_time_base wc)"
proof (intro conjI)
  let ?T = "uint (wc_time_base wc)" and ?f = "uint (fracsec (first_timestamp wc))"
    and ?s = "uint (soc (first_timestamp wc))"
  let ?x = "?f + uint i * uint (ticks_per_frame wc)"
  define tot :: u64 where "tot = ucast (fracsec (first_timestamp wc)) + saturating_mul i (ucast (ticks_per_frame wc))"
  have T: "0 < ?T" using assms(2) order.strict_trans1 [OF uint_ge_0] by blast
  have m: "uint (saturating_mul i (ucast (ticks_per_frame wc)) :: u64) = uint i * uint (ticks_per_frame wc)"
    using assms(3) by (subst uint_saturating_mul) simp_all
  have x: "uint tot = ?x"
    unfolding tot_def using assms(1-3) m by (subst uint_add_64) simp_all
  have q: "uint (tot div ucast (wc_time_base wc)) = ?x div ?T" "uint (tot mod ucast (wc_time_base wc)) = ?x mod ?T"
    by (simp_all add: uint_div uint_mod x)
  have d: "0 \<le> ?x div ?T" using T by (simp add: pos_imp_zdiv_nonneg_iff)
  have d': "?x div ?T < 2 ^ 32"
    using assms(4) uint_ge_0 [of "soc (first_timestamp wc)"] by linarith
  have r: "?x mod ?T < ?T" using T by simp
  have u: "uint (ucast (tot div ucast (wc_time_base wc)) :: u32) = ?x div ?T"
    "uint (ucast (tot mod ucast (wc_time_base wc)) :: u32) = ?x mod ?T"
    using d d' r assms(1) by (subst uint_ucast_down; simp add: q)+
  have soc: "uint (soc (timestamp_for_sample wc i)) = ?s + ?x div ?T"
    using assms(4) u(1) d
    by (simp add: timestamp_for_sample_def Let_def tot_def [symmetric] checked_code(3) uint_word_ariths mod_pos_pos_trivial)
  have fr: "uint (fracsec (timestamp_for_sample wc i)) = ?x mod ?T"
    using u(2) by (simp add: timestamp_for_sample_def Let_def tot_def [symmetric])
  show "ticks_of (wc_time_base wc) (timestamp_for_sample wc i)
       = ticks_of (wc_time_base wc) (first_timestamp wc) + uint i * uint (ticks_per_frame wc)"
    unfolding ticks_of_def soc fr by (simp add: distrib_right div_mult_mod_eq add.assoc)
  show "uint (fracsec (timestamp_for_sample wc i)) < ?T" using fr r by simp
  show "unat (fracsec (timestamp_for_sample wc i)) < 2 ^ 24"
    using fr r assms(1) by (simp only: nat_less_pow_iff flip: uint_nat)
qed

text \<open>C28. Sample timestamps: as long as the seconds counter does not overflow, sample \<open>i\<close> is stamped exactly \<open>i\<close>
  frames after the first sample, with a fraction below the time base, hence within its 24 bits.\<close>

theorem sample_timestamps:
  assumes "uint (wc_time_base wc) < 2 ^ 24" and "uint (fracsec (first_timestamp wc)) < uint (wc_time_base wc)"
    and "uint i * uint (ticks_per_frame wc) < 2 ^ 63"
    and "uint (soc (first_timestamp wc))
       + (uint (fracsec (first_timestamp wc)) + uint i * uint (ticks_per_frame wc)) div uint (wc_time_base wc) < 2 ^ 32"
  shows "ticks_of (wc_time_base wc) (timestamp_for_sample wc i)
       = ticks_of (wc_time_base wc) (first_timestamp wc) + uint i * uint (ticks_per_frame wc)
    \<and> unat (fracsec (timestamp_for_sample wc i)) < 2 ^ 24"
  using sample_ticks [OF assms] by simp

theorem sample_timestamps_witness:
  "timestamp_for_sample \<lparr>first_timestamp = \<lparr>soc = 5, fracsec = 980000\<rparr>, ticks_per_frame = 20000, wc_time_base = 1000000\<rparr> 3
     = \<lparr>soc = 6, fracsec = 40000\<rparr>
   \<and> ticks_of 1000000 \<lparr>soc = 6, fracsec = 40000\<rparr> = ticks_of 1000000 \<lparr>soc = 5, fracsec = 980000\<rparr> + 3 * 20000"
proof -
  let ?wc = "\<lparr>first_timestamp = \<lparr>soc = 5, fracsec = 980000\<rparr>, ticks_per_frame = 20000, wc_time_base = 1000000\<rparr>"
  have t: "timestamp_for_sample ?wc 3 = \<lparr>soc = 6, fracsec = 40000\<rparr>" by code_simp
  then show ?thesis using sample_timestamps [of ?wc 3] by simp
qed

end
