(* ===== verification/Tokens.thy ===== *)
theory Tokens
  imports Scheduling "HOL-Library.Monad_Syntax"
begin

text \<open>
  Event tokens (\<^verbatim>\<open>src/server.rs\<close>): how listeners, PDC connections and management connections are
  numbered for the poller, and how an event finds its target again.  A token is a 64-bit \<^verbatim>\<open>usize\<close>
  and so are the counts and indices it is computed from.
\<close>

section \<open>Encoding\<close>

definition PDC_SLOTS_PER_ENDPOINT :: u64 where [const_defs]: "PDC_SLOTS_PER_ENDPOINT = 2"
definition MANAGEMENT_CONNECTION_LIMIT :: u64 where [const_defs]: "MANAGEMENT_CONNECTION_LIMIT = 8"
definition MANAGEMENT_TOKEN_BASE :: u64 where [const_defs]: "MANAGEMENT_TOKEN_BASE = (- 1) div 2 + 1"
definition MANAGEMENT_LISTENER_TOKEN :: u64 where [const_defs]: "MANAGEMENT_LISTENER_TOKEN = MANAGEMENT_TOKEN_BASE"

datatype event_target_type =
    ListenerTarget u64
  | ConnectionTarget u64 u64 u64
  | ManagementListenerTarget
  | ManagementConnectionTarget u64 u64

definition listener_token :: "u64 \<Rightarrow> u64" where
  "listener_token index = index"

text \<open>\<^verbatim>\<open>usize::try_from\<close> on a 64-bit identifier cannot fail on the 64-bit target.\<close>

definition connection_token :: "u64 \<Rightarrow> u64 \<Rightarrow> u64 \<Rightarrow> u64 \<Rightarrow> server_error + u64" where
  "connection_token endpoint_count endpoint_index slot_index connection_id =
     bind_ok (ok_or (do { v \<leftarrow> checked_mul connection_id endpoint_count;
                          v \<leftarrow> checked_add v endpoint_index;
                          v \<leftarrow> checked_mul v PDC_SLOTS_PER_ENDPOINT;
                          v \<leftarrow> checked_add v slot_index;
                          checked_add v endpoint_count }) ConnectionTokenRange) (\<lambda>token.
     bind_ok (fail_if (MANAGEMENT_TOKEN_BASE \<le> token) PdcTokenRange) (\<lambda>_.
     Inr token))"

definition management_connection_token :: "u64 \<Rightarrow> u64 \<Rightarrow> server_error + u64" where
  "management_connection_token slot_index connection_id =
     bind_ok (ok_or (do { v \<leftarrow> checked_sub connection_id 1;
                          v \<leftarrow> checked_mul v MANAGEMENT_CONNECTION_LIMIT;
                          v \<leftarrow> checked_add v slot_index;
                          checked_add v 1 }) ManagementTokenRange) (\<lambda>encoded.
     ok_or (checked_add MANAGEMENT_TOKEN_BASE encoded) ManagementTokenRange)"

definition event_target :: "u64 \<Rightarrow> u64 \<Rightarrow> event_target_type option" where
  "event_target token endpoint_count =
     (if token = MANAGEMENT_LISTENER_TOKEN then Some ManagementListenerTarget
      else if MANAGEMENT_TOKEN_BASE < token then
        do { encoded \<leftarrow> checked_sub token (MANAGEMENT_TOKEN_BASE + 1);
             Some (ManagementConnectionTarget (encoded mod MANAGEMENT_CONNECTION_LIMIT)
                     (encoded div MANAGEMENT_CONNECTION_LIMIT + 1)) }
      else if token < endpoint_count then Some (ListenerTarget token)
      else if endpoint_count = 0 then None
      else
        do { encoded \<leftarrow> checked_sub token endpoint_count;
             let slot_index = encoded mod PDC_SLOTS_PER_ENDPOINT;
                 endpoint_and_connection = encoded div PDC_SLOTS_PER_ENDPOINT;
                 endpoint_index = endpoint_and_connection mod endpoint_count;
                 connection_id = endpoint_and_connection div endpoint_count
             in if connection_id \<noteq> 0
                then Some (ConnectionTarget endpoint_index slot_index connection_id)
                else None })"

section \<open>Decoding inverts encoding\<close>

lemma token_base: "MANAGEMENT_TOKEN_BASE = 2 ^ 63"
  by (simp add: MANAGEMENT_TOKEN_BASE_def word_uint_eq_iff uint_word_ariths uint_div unsigned_minus_1_eq_mask mask_eq_exp_minus_1)

lemma unat_token_base: "unat MANAGEMENT_TOKEN_BASE = 2 ^ 63"
  by (simp add: token_base)

lemma connection_token_Inr:
  assumes "connection_token n e s c = Inr t"
  shows "unat t = (unat c * unat n + unat e) * 2 + unat s + unat n" "unat t < 2 ^ 63"
  using assms
  by (auto simp: connection_token_def bind_eq_Some_conv checked_add_Some_iff checked_mul_Some_iff
      PDC_SLOTS_PER_ENDPOINT_def unat_token_base word_le_nat_alt not_le)

lemma management_connection_token_Inr:
  assumes "management_connection_token s c = Inr t"
  shows "unat t = 2 ^ 63 + ((unat c - 1) * 8 + unat s + 1)" "1 \<le> unat c"
  using assms
  by (auto simp: management_connection_token_def bind_eq_Some_conv checked_add_Some_iff checked_mul_Some_iff
      checked_sub_Some_iff MANAGEMENT_CONNECTION_LIMIT_def unat_token_base)

lemma event_target_connection:
  assumes "connection_token n e s c = Inr t" "e < n" "s < 2" "c \<noteq> 0"
  shows "event_target t n = Some (ConnectionTarget e s c)"
proof -
  note t = connection_token_Inr [OF assms(1)]
  have lt: "unat e < unat n" "unat s < 2" "0 < unat c" using assms(2-4)
    by (simp_all add: word_less_nat_alt unat_gt_0)
  let ?x = "t - n"
  have x: "unat ?x = (unat c * unat n + unat e) * 2 + unat s"
    using t by (simp add: unat_sub word_le_nat_alt)
  have unat_2: "unat (2 :: u64) = 2" by simp
  have y: "(y * 2 + unat s) mod 2 = unat s" "(y * 2 + unat s) div 2 = y" for y
    using lt(2) by simp_all
  have "unat (?x mod 2) = unat s" "unat (?x div 2) = unat c * unat n + unat e"
    using y [of "unat c * unat n + unat e"] by (simp_all only: unat_mod unat_div x unat_2)
  then have "?x mod 2 = s" "unat (?x div 2 mod n) = unat e" "unat (?x div 2 div n) = unat c"
    using lt by (simp_all add: word_unat_eq_iff unat_mod unat_div)
  then have d: "?x mod 2 = s" "?x div 2 mod n = e" "?x div 2 div n = c"
    by (simp_all add: word_unat_eq_iff)
  have "\<not> t < n" "n \<noteq> 0" "t \<noteq> MANAGEMENT_TOKEN_BASE" "\<not> MANAGEMENT_TOKEN_BASE < t" "n \<le> t"
    using t lt(1) unat_token_base by (auto simp: word_less_nat_alt word_le_nat_alt)
  then show ?thesis
    using d assms(4) by (simp add: event_target_def checked_sub_def MANAGEMENT_LISTENER_TOKEN_def PDC_SLOTS_PER_ENDPOINT_def)
qed

lemma event_target_management:
  assumes "management_connection_token s c = Inr t" "s < 8"
  shows "event_target t n = Some (ManagementConnectionTarget s c)"
proof -
  note t = management_connection_token_Inr [OF assms(1)]
  have s: "unat s < 8" using assms(2) by (simp add: word_less_nat_alt)
  have b: "unat (MANAGEMENT_TOKEN_BASE + 1) = 2 ^ 63 + 1" by (simp add: token_base)
  let ?x = "t - (MANAGEMENT_TOKEN_BASE + 1)"
  have le: "MANAGEMENT_TOKEN_BASE + 1 \<le> t" using t b by (simp add: word_le_nat_alt)
  then have x: "unat ?x = (unat c - 1) * 8 + unat s"
    using t b by (simp add: unat_sub)
  have "unat (?x mod 8) = unat s" "unat (?x div 8) = unat c - 1"
    using x s by (simp_all add: unat_mod unat_div)
  moreover have "unat c < 2 ^ 64" using unsigned_less [of c, where ?'a = nat] by simp
  ultimately have d: "?x mod 8 = s" "?x div 8 + 1 = c"
    using t(2) by (simp_all add: word_unat_eq_iff unat_add_fits)
  have "t \<noteq> MANAGEMENT_TOKEN_BASE" "MANAGEMENT_TOKEN_BASE < t"
    using t unat_token_base by (auto simp: word_less_nat_alt)
  then show ?thesis
    using d le by (simp add: event_target_def checked_sub_def MANAGEMENT_LISTENER_TOKEN_def MANAGEMENT_CONNECTION_LIMIT_def)
qed

lemma event_target_listener:
  assumes "i < n" "n < 2 ^ 63"
  shows "event_target (listener_token i) n = Some (ListenerTarget i)"
proof -
  have "unat i < unat n" "unat n < 2 ^ 63" using assms by (simp_all add: word_less_nat_alt)
  then have "i \<noteq> MANAGEMENT_TOKEN_BASE" "\<not> MANAGEMENT_TOKEN_BASE < i"
    using unat_token_base by (auto simp: word_less_nat_alt)
  then show ?thesis using assms by (simp add: event_target_def listener_token_def MANAGEMENT_LISTENER_TOKEN_def)
qed

section \<open>Properties\<close>

text \<open>C24. Every token that is handed out leads back to exactly what it was made for: the listener, the endpoint,
  slot and identifier of a PDC connection, the management listener, or the slot and identifier of a
  management connection.  Tokens of different targets therefore differ, and no token of one
  kind can be taken for another.\<close>

theorem event_tokens_roundtrip:
  "(i < n \<and> n < 2 ^ 63 \<longrightarrow> event_target (listener_token i) n = Some (ListenerTarget i))
   \<and> (connection_token n e s c = Inr t \<and> e < n \<and> s < PDC_SLOTS_PER_ENDPOINT \<and> c \<noteq> 0 \<longrightarrow>
        event_target t n = Some (ConnectionTarget e s c))
   \<and> event_target MANAGEMENT_LISTENER_TOKEN n = Some ManagementListenerTarget
   \<and> (management_connection_token s c = Inr t \<and> s < MANAGEMENT_CONNECTION_LIMIT \<longrightarrow>
        event_target t n = Some (ManagementConnectionTarget s c))"
  using event_target_listener event_target_connection event_target_management
  by (auto simp: PDC_SLOTS_PER_ENDPOINT_def MANAGEMENT_CONNECTION_LIMIT_def event_target_def)

theorem event_tokens_roundtrip_witness:
  "event_target (listener_token 3) 150 = Some (ListenerTarget 3)
   \<and> (\<exists>t. connection_token 150 7 1 42 = Inr t \<and> event_target t 150 = Some (ConnectionTarget 7 1 42))
   \<and> (\<exists>t. management_connection_token 5 9 = Inr t \<and> event_target t 150 = Some (ManagementConnectionTarget 5 9))"
proof -
  have "is_ok (connection_token 150 7 1 42)" "is_ok (management_connection_token 5 9)" by code_simp+
  then obtain t u where "connection_token 150 7 1 42 = Inr t" "management_connection_token 5 9 = Inr u"
    by (auto simp: is_ok_def split: sum.splits)
  then show ?thesis
    using event_tokens_roundtrip [of 3 150 7 1 42 t] event_tokens_roundtrip [of 3 150 7 5 9 u]
    by (simp add: PDC_SLOTS_PER_ENDPOINT_def MANAGEMENT_CONNECTION_LIMIT_def)
qed

end
