(* ===== verification/Wire_V2.thy ===== *)
theory Wire_V2
  imports Wire Scenario
begin

text \<open>
  The version-2 wire module (\<^verbatim>\<open>src/wire_v2.rs\<close>).  A \<^verbatim>\<open>FrameView\<close> is the byte string the parser
  accepted.  Encoders that \<^verbatim>\<open>expect\<close> version-2 metadata or assert the frame size return
  \<^const>\<open>None\<close> where the source panics; the \<^verbatim>\<open>debug_assert!\<close>s of the source are absent from
  release builds and appear as hypotheses or as proved facts.
\<close>

section \<open>Constants and data\<close>

definition COMMAND_FRAME_BYTES_V2 :: nat where [const_defs]: "COMMAND_FRAME_BYTES_V2 = 18"
definition PERIODIC_DATA_FRAME_BYTES_V2 :: nat where [const_defs]: "PERIODIC_DATA_FRAME_BYTES_V2 = 46"

definition FRAME_TYPE_PERIODIC_DATA_V2 :: u8 where [const_defs]: "FRAME_TYPE_PERIODIC_DATA_V2 = 0x0"
definition FRAME_TYPE_HEADER_V2 :: u8 where [const_defs]: "FRAME_TYPE_HEADER_V2 = 0x1"
definition FRAME_TYPE_CONFIGURATION_1_V2 :: u8 where [const_defs]: "FRAME_TYPE_CONFIGURATION_1_V2 = 0x2"
definition FRAME_TYPE_CONFIGURATION_2_V2 :: u8 where [const_defs]: "FRAME_TYPE_CONFIGURATION_2_V2 = 0x3"
definition FRAME_TYPE_COMMAND_V2 :: u8 where [const_defs]: "FRAME_TYPE_COMMAND_V2 = 0x4"

definition MESSAGE_TIME_QUALITY_UNKNOWN :: u8 where [const_defs]: "MESSAGE_TIME_QUALITY_UNKNOWN = 0x0f"
definition STAT_FLAG_SYNC_UNCERTAIN :: u16 where [const_defs]: "STAT_FLAG_SYNC_UNCERTAIN = 0x2000"
definition STAT_PMU_TIME_QUALITY_UNKNOWN :: u16 where [const_defs]: "STAT_PMU_TIME_QUALITY_UNKNOWN = 0x01c0"

datatype command_v2 = StopV2 | StartV2 | HeaderV2 | Configuration1 | Configuration2

fun command_code_v2 :: "command_v2 \<Rightarrow> u16" where
  "command_code_v2 StopV2 = 0x0001"
| "command_code_v2 StartV2 = 0x0002"
| "command_code_v2 HeaderV2 = 0x0003"
| "command_code_v2 Configuration1 = 0x0004"
| "command_code_v2 Configuration2 = 0x0005"

record command_request_v2 =
  req_idcode :: u16
  req_command_v2 :: command_v2

section \<open>Parsing\<close>

definition parse_with_limit_v2 :: "bytes \<Rightarrow> nat \<Rightarrow> frame_error + bytes" where
  "parse_with_limit_v2 bs maximum_size =
     (if length bs < MIN_FRAME_BYTES then Inl TooShort
      else if bs ! 0 \<noteq> SYNC_BYTE \<or> bs ! 1 AND 0x80 \<noteq> 0 then Inl BadSync
      else let declared = unat (u16_from_be (bs ! 2) (bs ! 3))
           in if declared < MIN_FRAME_BYTES then Inl DeclaredSizeTooSmall
              else if maximum_size < declared then Inl DeclaredSizeTooLarge
              else if length bs < declared then Inl Incomplete
              else if declared < length bs then Inl TrailingBytes
              else if \<not> checksum_matches bs then Inl BadChecksum
              else Inr bs)"

definition parse_v2 :: "bytes \<Rightarrow> frame_error + bytes" where
  "parse_v2 bs = parse_with_limit_v2 bs 65535"

definition frame_type_v2 :: "bytes \<Rightarrow> u8" where
  "frame_type_v2 f = drop_bit 4 (f ! 1)"

definition version_v2 :: "bytes \<Rightarrow> u8" where
  "version_v2 f = f ! 1 AND 0x0f"

definition idcode_v2 :: "bytes \<Rightarrow> u16" where
  "idcode_v2 f = u16_from_be (f ! 4) (f ! 5)"

definition timestamp_v2 :: "bytes \<Rightarrow> timestamp" where
  "timestamp_v2 f =
     \<lparr>soc = u32_from_be (f ! 6) (f ! 7) (f ! 8) (f ! 9),
      fracsec = u32_from_be 0 (f ! 11) (f ! 12) (f ! 13)\<rparr>"

definition message_time_quality_v2 :: "bytes \<Rightarrow> u8" where
  "message_time_quality_v2 f = f ! 10"

definition body_v2 :: "bytes \<Rightarrow> bytes" where
  "body_v2 f = take (length f - FRAME_CHECKSUM_BYTES - FRAME_HEADER_BYTES) (drop FRAME_HEADER_BYTES f)"

definition parse_command_v2 :: "bytes \<Rightarrow> frame_error + command_request_v2" where
  "parse_command_v2 f =
     (if version_v2 f \<noteq> V2_PROTOCOL_VERSION then Inl UnsupportedVersion
      else if frame_type_v2 f \<noteq> FRAME_TYPE_COMMAND_V2 then Inl UnexpectedFrameType
      else if length f \<noteq> COMMAND_FRAME_BYTES_V2 then Inl InvalidCommandSize
      else let code = u16_from_be (f ! 14) (f ! 15);
               request = (\<lambda>c. Inr \<lparr>req_idcode = idcode_v2 f, req_command_v2 = c\<rparr>)
           in if code = 0x0001 then request StopV2
              else if code = 0x0002 then request StartV2
              else if code = 0x0003 then request HeaderV2
              else if code = 0x0004 then request Configuration1
              else if code = 0x0005 then request Configuration2
              else Inl UnsupportedCommand)"

section \<open>Encoding\<close>

definition write_common_v2 :: "bytes \<Rightarrow> u8 \<Rightarrow> u16 \<Rightarrow> timestamp \<Rightarrow> bytes" where
  "write_common_v2 output0 ty idcode ts =
     (let frame_size = of_nat (length output0) :: u16;
          output1 = output0[0 := SYNC_BYTE];
          output2 = output1[1 := push_bit 4 ty OR V2_PROTOCOL_VERSION];
          output3 = write_at 2 (u16_to_be frame_size) output2;
          output4 = write_at 4 (u16_to_be idcode) output3;
          output5 = write_at 6 (u32_to_be (soc ts)) output4;
          output6 = output5[10 := MESSAGE_TIME_QUALITY_UNKNOWN];
          fraction = u32_to_be (fracsec ts)
      in write_at 11 (drop 1 fraction) output6)"

definition encode_frame_v2 :: "u8 \<Rightarrow> u16 \<Rightarrow> timestamp \<Rightarrow> bytes \<Rightarrow> bytes option" where
  "encode_frame_v2 ty idcode ts body =
     (let frame_size = MIN_FRAME_BYTES + length body
      in if 65535 < frame_size then None
         else let frame0 = replicate FRAME_HEADER_BYTES 0 @ body;
                  frame1 = frame0 @ replicate (frame_size - length frame0) 0;
                  frame2 = write_common_v2 frame1 ty idcode ts;
                  checksum = crc16_ccitt (take (frame_size - FRAME_CHECKSUM_BYTES) frame2)
              in Some (write_at (frame_size - FRAME_CHECKSUM_BYTES) (u16_to_be checksum) frame2))"

definition encode_command_v2 :: "u16 \<Rightarrow> command_v2 \<Rightarrow> timestamp \<Rightarrow> bytes option" where
  "encode_command_v2 idcode command ts =
     encode_frame_v2 FRAME_TYPE_COMMAND_V2 idcode ts (u16_to_be (command_code_v2 command))"

definition encode_header_v2 :: "endpoint_descriptor \<Rightarrow> timestamp \<Rightarrow> bytes option" where
  "encode_header_v2 ep ts =
     (case ep_v2 ep of
        None \<Rightarrow> None
      | Some metadata \<Rightarrow> encode_frame_v2 FRAME_TYPE_HEADER_V2 (ep_stream_id ep) ts (station_name metadata))"

definition configuration_body_v2 :: "endpoint_descriptor \<Rightarrow> v2_endpoint_metadata \<Rightarrow> bytes" where
  "configuration_body_v2 ep metadata =
     u32_to_be (ep_time_base ep)
     @ u16_to_be 1
     @ station_name metadata
     @ u16_to_be (ep_pmu_id ep)
     @ u16_to_be 0x0001
     @ u16_to_be (of_nat PHASOR_COUNT)
     @ u16_to_be 0
     @ u16_to_be 0
     @ concat (v2_channel_names metadata)
     @ concat (map u32_to_be (phunits metadata))
     @ u16_to_be (if ep_nominal_frequency_hz ep = 50 then 1 else 0)
     @ u16_to_be 0
     @ u16_to_be (ep_data_rate_hz ep)"

definition encode_configuration_v2 :: "u8 \<Rightarrow> endpoint_descriptor \<Rightarrow> timestamp \<Rightarrow> bytes option" where
  "encode_configuration_v2 ty ep ts =
     (case ep_v2 ep of
        None \<Rightarrow> None
      | Some metadata \<Rightarrow> encode_frame_v2 ty (ep_stream_id ep) ts (configuration_body_v2 ep metadata))"

definition encode_configuration_1 :: "endpoint_descriptor \<Rightarrow> timestamp \<Rightarrow> bytes option" where
  "encode_configuration_1 ep ts = encode_configuration_v2 FRAME_TYPE_CONFIGURATION_1_V2 ep ts"

definition encode_configuration_2 :: "endpoint_descriptor \<Rightarrow> timestamp \<Rightarrow> bytes option" where
  "encode_configuration_2 ep ts = encode_configuration_v2 FRAME_TYPE_CONFIGURATION_2_V2 ep ts"

section \<open>Periodic data\<close>

definition phunit_scale :: "u32 \<Rightarrow> f32" where
  "phunit_scale phunit = f32_div (f32_from_uint (uint (phunit AND 0x00ffffff))) (f32_lit 100000)"

definition channel_magnitude ::
    "(f32 \<Rightarrow> f32) \<Rightarrow> endpoint_descriptor \<Rightarrow> u64 \<Rightarrow> u64 \<Rightarrow> signal_excursion option \<Rightarrow> nat \<Rightarrow> f32" where
  "channel_magnitude sin32 ep seed sample_index excursion channel =
     (if channel < 3
      then let magnitude = f32_add (ep_voltage_magnitude ep)
                 (f32_mul (ep_voltage_variation ep) (waveform sin32 seed (ep_index ep) channel sample_index))
           in (case excursion of
                 Some s \<Rightarrow> f32_add magnitude (voltage_magnitude_delta s)
               | None \<Rightarrow> magnitude)
      else f32_add (ep_current_magnitude ep)
             (f32_mul (ep_current_variation ep) (waveform sin32 seed (ep_index ep) channel sample_index)))"

definition signal_value ::
    "(f32 \<Rightarrow> f32) \<Rightarrow> endpoint_descriptor \<Rightarrow> signal_recipe \<Rightarrow> u64 \<Rightarrow> u64 \<Rightarrow> nat \<Rightarrow> f32 option \<Rightarrow> f32" where
  "signal_value sin32 ep recipe seed sample_index channel delta =
     (let base = f32_add (nominal recipe)
            (f32_mul (variation recipe) (waveform sin32 seed (ep_index ep) channel sample_index))
      in case delta of Some d \<Rightarrow> f32_add base d | None \<Rightarrow> base)"

definition stat_v2 :: "v2_endpoint_metadata \<Rightarrow> bool \<Rightarrow> u16" where
  "stat_v2 metadata force_degraded_time =
     (if good_stat metadata \<and> \<not> force_degraded_time then 0
      else STAT_FLAG_SYNC_UNCERTAIN OR STAT_PMU_TIME_QUALITY_UNKNOWN)"

text \<open>
  The PHUNIT array of the source has six entries by its type; the model's list is tested for it, as
  an index out of range would panic.
\<close>

definition encode_periodic_data_with_scenario_v2 ::
    "(f32 \<Rightarrow> f32) \<Rightarrow> endpoint_descriptor \<Rightarrow> u64 \<Rightarrow> u64 \<Rightarrow> timestamp \<Rightarrow> bool \<Rightarrow> signal_excursion option
      \<Rightarrow> bytes \<Rightarrow> bytes option" where
  "encode_periodic_data_with_scenario_v2 sin32 ep seed sample_index ts force_degraded_time excursion output0 =
     (case ep_v2 ep of
        None \<Rightarrow> None
      | Some metadata \<Rightarrow>
          if length (phunits metadata) < PHASOR_COUNT then None
          else
            (let st0 = (write_common_v2 output0 FRAME_TYPE_PERIODIC_DATA_V2 (ep_stream_id ep) ts, FRAME_HEADER_BYTES);
                 st1 = write_u16 st0 (stat_v2 metadata force_degraded_time);
                 st2 = fold (\<lambda>channel st.
                         write_u16
                           (write_u16 st
                             (fixed_magnitude (channel_magnitude sin32 ep seed sample_index excursion channel)
                                (phunit_scale (phunits metadata ! channel))))
                           (fixed_angle (phase_angle channel)))
                       [0..<PHASOR_COUNT] st1;
                 st3 = write_u16 st2 (fixed_frequency
                         (signal_value sin32 ep (ep_frequency_deviation ep) seed sample_index PHASOR_COUNT
                            (map_option excursion_frequency_deviation_hz excursion)));
                 (output4, offset) = write_u16 st3 (fixed_rocof
                         (signal_value sin32 ep (ep_rocof ep) seed sample_index (PHASOR_COUNT + 1)
                            (map_option excursion_rocof_hz_per_s excursion)));
                 checksum = crc16_ccitt (take offset output4)
             in Some (write_at offset (u16_to_be checksum) output4)))"

definition encode_periodic_data_v2 ::
    "(f32 \<Rightarrow> f32) \<Rightarrow> endpoint_descriptor \<Rightarrow> u64 \<Rightarrow> u64 \<Rightarrow> timestamp \<Rightarrow> bytes \<Rightarrow> bytes option" where
  "encode_periodic_data_v2 sin32 ep seed sample_index ts output0 =
     encode_periodic_data_with_scenario_v2 sin32 ep seed sample_index ts False None output0"

section \<open>The codec contract\<close>

lemma write_common_v2_eq:
  assumes "14 \<le> length out"
  shows "write_common_v2 out ty i ts =
    frame_header V2_PROTOCOL_VERSION MESSAGE_TIME_QUALITY_UNKNOWN ty i ts (length out) @ drop 14 out"
  using assms
  by (elim list14E)
     (simp add: write_common_v2_def Let_def frame_header_def write_at_def u16_to_be_def u32_to_be_def)

lemma encode_frame_v2_eq:
  "encode_frame_v2 ty i ts body =
     (if 16 + length body \<le> 65535
      then Some (frame_bytes V2_PROTOCOL_VERSION MESSAGE_TIME_QUALITY_UNKNOWN ty i ts body) else None)"
  by (simp add: encode_frame_v2_def Let_def frame_bytes_def const_defs(4)
      write_common_v2_eq FRAME_HEADER_BYTES_def FRAME_CHECKSUM_BYTES_def MIN_FRAME_BYTES_def write_at_def)

interpretation v2: frame_codec parse_with_limit_v2 encode_frame_v2 "\<lambda>b. b AND 0x80 = 0"
  V2_PROTOCOL_VERSION MESSAGE_TIME_QUALITY_UNKNOWN
proof unfold_locales
  fix bs f limit
  show "parse_with_limit_v2 bs limit = Inr f \<longleftrightarrow>
        f = bs \<and> 16 \<le> length bs \<and> bs ! 0 = SYNC_BYTE \<and> bs ! 1 AND 0x80 = 0
        \<and> declared_size bs = length bs \<and> length bs \<le> limit \<and> checksum_matches bs"
    by (auto simp: parse_with_limit_v2_def Let_def declared_size_def MIN_FRAME_BYTES_def
        FRAME_HEADER_BYTES_def FRAME_CHECKSUM_BYTES_def)
qed (rule encode_frame_v2_eq)

section \<open>Commands\<close>

lemma command_code_v2_inj: "command_code_v2 c = command_code_v2 c' \<Longrightarrow> c = c'"
  by (cases c; cases c') simp_all

lemma parse_command_v2_ok:
  "parse_command_v2 f = Inr r \<longleftrightarrow>
     version_v2 f = 2 \<and> frame_type_v2 f = 4 \<and> length f = 18
     \<and> req_idcode r = idcode_v2 f \<and> u16_from_be (f ! 14) (f ! 15) = command_code_v2 (req_command_v2 r)"
  by (cases r; cases "req_command_v2 r") (auto simp: parse_command_v2_def Let_def const_defs)

lemma frame_accessors_v2:
  fixes ty i ts body
  defines "f \<equiv> frame_bytes V2_PROTOCOL_VERSION MESSAGE_TIME_QUALITY_UNKNOWN ty i ts body"
  shows "frame_type_v2 f = drop_bit 4 (push_bit 4 ty OR 2)" "version_v2 f = (push_bit 4 ty OR 2) AND 0x0f"
    "idcode_v2 f = i" "message_time_quality_v2 f = 0x0f" "body_v2 f = body"
    "unat (fracsec ts) < 2 ^ 24 \<Longrightarrow> timestamp_v2 f = ts"
  by (simp_all add: f_def frame_type_v2_def version_v2_def idcode_v2_def message_time_quality_v2_def body_v2_def
      timestamp_v2_def frame_fields V2_PROTOCOL_VERSION_def MESSAGE_TIME_QUALITY_UNKNOWN_def
      FRAME_HEADER_BYTES_def FRAME_CHECKSUM_BYTES_def)

lemma encode_command_v2_roundtrip:
  "\<exists>f. encode_command_v2 i c ts = Some f \<and> length f = 18 \<and> parse_with_limit_v2 f 18 = Inr f
     \<and> parse_command_v2 f = Inr \<lparr>req_idcode = i, req_command_v2 = c\<rparr>"
proof -
  let ?f = "frame_bytes V2_PROTOCOL_VERSION MESSAGE_TIME_QUALITY_UNKNOWN 4 i ts (u16_to_be (command_code_v2 c))"
  have "encode_command_v2 i c ts = Some ?f"
    by (simp add: encode_command_v2_def v2.encode_eq FRAME_TYPE_COMMAND_V2_def)
  moreover have "parse_with_limit_v2 ?f 18 = Inr ?f"
    using v2.parse_encode [of "u16_to_be (command_code_v2 c)" 18 4 i ts]
    by (simp add: V2_PROTOCOL_VERSION_def v2.encode_eq)
  moreover have "parse_command_v2 ?f = Inr \<lparr>req_idcode = i, req_command_v2 = c\<rparr>"
    by (simp add: parse_command_v2_ok frame_accessors_v2 frame_body_word)
  ultimately show ?thesis by simp
qed

section \<open>Periodic data frames\<close>

text \<open>The sixteen words of a data frame body: STAT, six phasors, frequency and ROCOF.\<close>

definition data_words_v2 ::
    "(f32 \<Rightarrow> f32) \<Rightarrow> endpoint_descriptor \<Rightarrow> v2_endpoint_metadata \<Rightarrow> u64 \<Rightarrow> u64 \<Rightarrow> bool \<Rightarrow> signal_excursion option
      \<Rightarrow> u16 list" where
  "data_words_v2 sin32 ep metadata seed sample_index degraded excursion =
     [stat_v2 metadata degraded]
     @ concat (map (\<lambda>channel.
         [fixed_magnitude (channel_magnitude sin32 ep seed sample_index excursion channel)
            (phunit_scale (phunits metadata ! channel)),
          fixed_angle (phase_angle channel)]) [0, 1, 2, 3, 4, 5])
     @ [fixed_frequency (signal_value sin32 ep (ep_frequency_deviation ep) seed sample_index PHASOR_COUNT
          (map_option excursion_frequency_deviation_hz excursion)),
        fixed_rocof (signal_value sin32 ep (ep_rocof ep) seed sample_index (PHASOR_COUNT + 1)
          (map_option excursion_rocof_hz_per_s excursion))]"

lemma length_data_words_v2: "length (data_words_v2 s ep m seed i d x) = 15"
  by (simp add: data_words_v2_def)

lemma upt_phasors: "[0..<PHASOR_COUNT] = [0, 1, 2, 3, 4, 5]"
  by (simp add: PHASOR_COUNT_def upt_rec)

lemma encode_periodic_data_v2_eq:
  assumes "length out = PERIODIC_DATA_FRAME_BYTES_V2"
    and "ep_v2 ep = Some m" and "length (phunits m) = PHASOR_COUNT"
  shows "encode_periodic_data_with_scenario_v2 sin32 ep seed i ts degraded x out =
    Some (frame_bytes V2_PROTOCOL_VERSION MESSAGE_TIME_QUALITY_UNKNOWN FRAME_TYPE_PERIODIC_DATA_V2
      (ep_stream_id ep) ts (concat (map u16_to_be (data_words_v2 sin32 ep m seed i degraded x))))"
proof -
  let ?h = "frame_header V2_PROTOCOL_VERSION MESSAGE_TIME_QUALITY_UNKNOWN FRAME_TYPE_PERIODIC_DATA_V2 (ep_stream_id ep) ts 46"
  let ?ws = "data_words_v2 sin32 ep m seed i degraded x"
  have len: "length out = 46" using assms(1) by (simp add: PERIODIC_DATA_FRAME_BYTES_V2_def)
  have common: "write_common_v2 out FRAME_TYPE_PERIODIC_DATA_V2 (ep_stream_id ep) ts = ?h @ drop 14 out"
    using write_common_v2_eq [of out] len by simp
  have w: "fold (\<lambda>v st. write_u16 st v) ?ws (?h @ drop 14 out, 14) =
      ((?h @ concat (map u16_to_be ?ws)) @ drop 44 out, 44)"
    using write_u16s_append [of ?ws "drop 14 out" ?h] len by (simp add: length_data_words_v2)
  have "encode_periodic_data_with_scenario_v2 sin32 ep seed i ts degraded x out =
    (let (o4, offset) = fold (\<lambda>v st. write_u16 st v) ?ws (?h @ drop 14 out, 14)
     in Some (write_at offset (u16_to_be (crc16_ccitt (take offset o4))) o4))"
    by (simp add: encode_periodic_data_with_scenario_v2_def assms(2,3) common FRAME_HEADER_BYTES_def
        upt_phasors data_words_v2_def Let_def)
  also have "\<dots> = Some (frame_bytes V2_PROTOCOL_VERSION MESSAGE_TIME_QUALITY_UNKNOWN FRAME_TYPE_PERIODIC_DATA_V2
      (ep_stream_id ep) ts (concat (map u16_to_be ?ws)))"
    using len by (simp add: w frame_bytes_def Let_def write_at_def length_words length_data_words_v2)
  finally show ?thesis .
qed

end
