(* ===== verification/Wire_V3.thy ===== *)
theory Wire_V3
  imports Wire_V2
begin

text \<open>
  The version-3 wire module (\<^verbatim>\<open>src/wire_v3.rs\<close>), with the same conventions as version 2.  The
  fixed-point conversions and the waveform of the two source files are the same functions, and
  so are the channel values computed from an endpoint.
\<close>

section \<open>Constants and data\<close>

definition PERIODIC_DATA_FRAME_BYTES_V3 :: nat where [const_defs]: "PERIODIC_DATA_FRAME_BYTES_V3 = 48"
definition ERROR_RESPONSE_FRAME_BYTES :: nat where [const_defs]: "ERROR_RESPONSE_FRAME_BYTES = 20"

definition FRAME_TYPE_PERIODIC_DATA_V3 :: u8 where [const_defs]: "FRAME_TYPE_PERIODIC_DATA_V3 = 0x8"
definition FRAME_TYPE_CAPABILITY :: u8 where [const_defs]: "FRAME_TYPE_CAPABILITY = 0xa"
definition FRAME_TYPE_STREAM_CONFIGURATION :: u8 where [const_defs]: "FRAME_TYPE_STREAM_CONFIGURATION = 0xb"
definition FRAME_TYPE_COMMAND_V3 :: u8 where [const_defs]: "FRAME_TYPE_COMMAND_V3 = 0xc"
definition FRAME_TYPE_ERROR_RESPONSE :: u8 where [const_defs]: "FRAME_TYPE_ERROR_RESPONSE = 0xf"

definition TIME_QUALITY_UNKNOWN :: u16 where [const_defs]: "TIME_QUALITY_UNKNOWN = 0x7fff"

datatype command_v3 = StopV3 | StartV3 | Capability | StreamConfiguration

fun command_code_v3 :: "command_v3 \<Rightarrow> u16" where
  "command_code_v3 StopV3 = 0x0010"
| "command_code_v3 StartV3 = 0x0020"
| "command_code_v3 Capability = 0x0040"
| "command_code_v3 StreamConfiguration = 0x0060"

record command_request_v3 =
  req_stream_id :: u16
  req_command_v3 :: command_v3

datatype error_response_code = RejectedCommand | WrongStreamOrPmu

fun error_code :: "error_response_code \<Rightarrow> u16" where
  "error_code RejectedCommand = 1"
| "error_code WrongStreamOrPmu = 2"

section \<open>Parsing\<close>

definition checksum_matches_v3 :: "bytes \<Rightarrow> bool" where
  "checksum_matches_v3 frame =
     (if length frame < FRAME_CHECKSUM_BYTES then False
      else let payload_end = length frame - FRAME_CHECKSUM_BYTES;
               expected = u16_from_be (frame ! payload_end) (frame ! (payload_end + 1))
           in crc16_ccitt (take payload_end frame) = expected)"

definition parse_with_limit_v3 :: "bytes \<Rightarrow> nat \<Rightarrow> frame_error + bytes" where
  "parse_with_limit_v3 bs maximum_size =
     (if length bs < MIN_FRAME_BYTES then Inl TooShort
      else if bs ! 0 \<noteq> SYNC_BYTE then Inl BadSync
      else let declared = unat (u16_from_be (bs ! 2) (bs ! 3))
           in if declared < MIN_FRAME_BYTES then Inl DeclaredSizeTooSmall
              else if maximum_size < declared then Inl DeclaredSizeTooLarge
              else if length bs < declared then Inl Incomplete
              else if declared < length bs then Inl TrailingBytes
              else if \<not> checksum_matches_v3 bs then Inl BadChecksum
              else Inr bs)"

definition parse_v3 :: "bytes \<Rightarrow> frame_error + bytes" where
  "parse_v3 bs = parse_with_limit_v3 bs 65535"

definition frame_type_v3 :: "bytes \<Rightarrow> u8" where
  "frame_type_v3 f = drop_bit 4 (f ! 1)"

definition version_v3 :: "bytes \<Rightarrow> u8" where
  "version_v3 f = f ! 1 AND 0x0f"

definition stream_id_v3 :: "bytes \<Rightarrow> u16" where
  "stream_id_v3 f = u16_from_be (f ! 4) (f ! 5)"

definition timestamp_v3 :: "bytes \<Rightarrow> timestamp" where
  "timestamp_v3 f =
     \<lparr>soc = u32_from_be (f ! 6) (f ! 7) (f ! 8) (f ! 9),
      fracsec = u32_from_be 0 (f ! 11) (f ! 12) (f ! 13)\<rparr>"

definition body_v3 :: "bytes \<Rightarrow> bytes" where
  "body_v3 f = take (length f - FRAME_CHECKSUM_BYTES - FRAME_HEADER_BYTES) (drop FRAME_HEADER_BYTES f)"

definition parse_command_v3 :: "bytes \<Rightarrow> frame_error + command_request_v3" where
  "parse_command_v3 f =
     (if version_v3 f \<noteq> V3_PROTOCOL_VERSION then Inl UnsupportedVersion
      else if frame_type_v3 f \<noteq> FRAME_TYPE_COMMAND_V3 then Inl UnexpectedFrameType
      else if length f \<noteq> 18 then Inl InvalidCommandSize
      else let code = u16_from_be (f ! 14) (f ! 15);
               request = (\<lambda>c. Inr \<lparr>req_stream_id = stream_id_v3 f, req_command_v3 = c\<rparr>)
           in if code = 0x0010 then request StopV3
              else if code = 0x0020 then request StartV3
              else if code = 0x0040 then request Capability
              else if code = 0x0060 then request StreamConfiguration
              else Inl UnsupportedCommand)"

section \<open>Encoding\<close>

definition write_common_v3 :: "bytes \<Rightarrow> u8 \<Rightarrow> u16 \<Rightarrow> timestamp \<Rightarrow> bytes" where
  "write_common_v3 output0 ty stream_id ts =
     (let frame_size = of_nat (length output0) :: u16;
          output1 = output0[0 := SYNC_BYTE];
          output2 = output1[1 := push_bit 4 ty OR V3_PROTOCOL_VERSION];
          output3 = write_at 2 (u16_to_be frame_size) output2;
          output4 = write_at 4 (u16_to_be stream_id) output3;
          output5 = write_at 6 (u32_to_be (soc ts)) output4;
          output6 = output5[10 := 0];
          fraction = u32_to_be (fracsec ts)
      in write_at 11 (drop 1 fraction) output6)"

definition encode_frame_v3 :: "u8 \<Rightarrow> u16 \<Rightarrow> timestamp \<Rightarrow> bytes \<Rightarrow> bytes option" where
  "encode_frame_v3 ty stream_id ts body =
     (let frame_size = MIN_FRAME_BYTES + length body
      in if 65535 < frame_size then None
         else let frame0 = replicate FRAME_HEADER_BYTES 0 @ body;
                  frame1 = frame0 @ replicate (frame_size - length frame0) 0;
                  frame2 = write_common_v3 frame1 ty stream_id ts;
                  checksum = crc16_ccitt (take (frame_size - FRAME_CHECKSUM_BYTES) frame2)
              in Some (write_at (frame_size - FRAME_CHECKSUM_BYTES) (u16_to_be checksum) frame2))"

definition encode_command_v3 :: "u16 \<Rightarrow> command_v3 \<Rightarrow> timestamp \<Rightarrow> bytes option" where
  "encode_command_v3 stream_id command ts =
     encode_frame_v3 FRAME_TYPE_COMMAND_V3 stream_id ts (u16_to_be (command_code_v3 command))"

definition phase_type :: "nat \<Rightarrow> bool \<Rightarrow> u8" where
  "phase_type channel current =
     (let component = (if channel mod 3 = 0 then 4 else if channel mod 3 = 1 then 5 else 6)
      in if current then component OR 8 else component)"

definition pmu_flag :: "u16 \<Rightarrow> u16" where
  "pmu_flag nominal_frequency_hz =
     push_bit 15 1 OR (if nominal_frequency_hz = 50 then push_bit 13 1 else 0)"

definition configuration_body_v3 :: "endpoint_descriptor \<Rightarrow> bytes" where
  "configuration_body_v3 ep =
     u16_to_be 0
     @ u32_to_be (ep_time_base ep)
     @ ep_pdc_name ep
     @ u16_to_be 1
     @ ep_pmu_name ep
     @ u16_to_be (ep_pmu_id ep)
     @ u16_to_be (ucast (ep_protocol_version ep))
     @ ep_global_pmu_id ep
     @ u16_to_be 0x0001
     @ u16_to_be (of_nat PHASOR_COUNT)
     @ u16_to_be 0
     @ u16_to_be (of_nat FREQUENCY_COUNT)
     @ u16_to_be (of_nat ROCOF_COUNT)
     @ u16_to_be 0
     @ concat (ep_channel_names ep)
     @ concat (map (\<lambda>channel.
         [0, 0, phase_type channel (3 \<le> channel), 0]
         @ u32_to_be (if channel < 3 then ep_voltage_scale ep else ep_current_scale ep)
         @ u32_to_be (f32_lit 0)
         @ u32_to_be (ep_voltage_class ep)) [0..<PHASOR_COUNT])
     @ u32_to_be (f32_lit 0.001)
     @ u32_to_be (f32_lit 0)
     @ u32_to_be (f32_lit 0.01)
     @ u32_to_be (f32_lit 0)
     @ u32_to_be f32_infinity
     @ u32_to_be f32_infinity
     @ u32_to_be f32_infinity
     @ u16_to_be (pmu_flag (ep_nominal_frequency_hz ep))
     @ u32_to_be (- 1)
     @ u32_to_be (- 1)
     @ u16_to_be (ep_data_rate_hz ep)
     @ u16_to_be 0
     @ u16_to_be (ep_data_rate_hz ep)
     @ u16_to_be 0"

definition encode_configuration_v3 :: "u8 \<Rightarrow> endpoint_descriptor \<Rightarrow> timestamp \<Rightarrow> bytes option" where
  "encode_configuration_v3 ty ep ts = encode_frame_v3 ty (ep_stream_id ep) ts (configuration_body_v3 ep)"

definition encode_capability :: "endpoint_descriptor \<Rightarrow> timestamp \<Rightarrow> bytes option" where
  "encode_capability ep ts = encode_configuration_v3 FRAME_TYPE_CAPABILITY ep ts"

definition encode_stream_configuration :: "endpoint_descriptor \<Rightarrow> timestamp \<Rightarrow> bytes option" where
  "encode_stream_configuration ep ts = encode_configuration_v3 FRAME_TYPE_STREAM_CONFIGURATION ep ts"

definition encode_error_response ::
    "u16 \<Rightarrow> error_response_code \<Rightarrow> timestamp \<Rightarrow> bytes \<Rightarrow> bytes" where
  "encode_error_response stream_id code ts output0 =
     (let output1 = write_common_v3 output0 FRAME_TYPE_ERROR_RESPONSE stream_id ts;
          output2 = write_at 14 (u16_to_be (error_code code)) output1;
          output3 = write_at 16 (u16_to_be 0) output2;
          checksum = crc16_ccitt (take 18 output3)
      in write_at 18 (u16_to_be checksum) output3)"

section \<open>Periodic data\<close>

definition encode_periodic_data_with_scenario_v3 ::
    "(f32 \<Rightarrow> f32) \<Rightarrow> endpoint_descriptor \<Rightarrow> u64 \<Rightarrow> u64 \<Rightarrow> timestamp \<Rightarrow> bool \<Rightarrow> signal_excursion option
      \<Rightarrow> bytes \<Rightarrow> bytes" where
  "encode_periodic_data_with_scenario_v3 sin32 ep seed sample_index ts force_degraded_time excursion output0 =
     (let st0 = (write_common_v3 output0 FRAME_TYPE_PERIODIC_DATA_V3 (ep_stream_id ep) ts, FRAME_HEADER_BYTES);
          st1 = write_u16 st0 STAT_FLAG_SYNC_UNCERTAIN;
          st2 = write_u16 st1 TIME_QUALITY_UNKNOWN;
          st3 = fold (\<lambda>channel st.
                  write_u16
                    (write_u16 st
                      (fixed_magnitude (channel_magnitude sin32 ep seed sample_index excursion channel)
                         (if channel < 3 then ep_voltage_scale ep else ep_current_scale ep)))
                    (fixed_angle (phase_angle channel)))
                [0..<PHASOR_COUNT] st2;
          st4 = write_u16 st3 (fixed_frequency
                  (signal_value sin32 ep (ep_frequency_deviation ep) seed sample_index PHASOR_COUNT
                     (map_option excursion_frequency_deviation_hz excursion)));
          (output5, offset) = write_u16 st4 (fixed_rocof
                  (signal_value sin32 ep (ep_rocof ep) seed sample_index (PHASOR_COUNT + 1)
                     (map_option excursion_rocof_hz_per_s excursion)));
          checksum = crc16_ccitt (take offset output5)
      in write_at offset (u16_to_be checksum) output5)"

definition encode_periodic_data_v3 ::
    "(f32 \<Rightarrow> f32) \<Rightarrow> endpoint_descriptor \<Rightarrow> u64 \<Rightarrow> u64 \<Rightarrow> timestamp \<Rightarrow> bytes \<Rightarrow> bytes" where
  "encode_periodic_data_v3 sin32 ep seed sample_index ts output0 =
     encode_periodic_data_with_scenario_v3 sin32 ep seed sample_index ts False None output0"

section \<open>The codec contract\<close>

lemma checksum_matches_v3_eq: "checksum_matches_v3 = checksum_matches"
  by (simp add: fun_eq_iff checksum_matches_v3_def checksum_matches_def)

lemma write_common_v3_eq:
  assumes "14 \<le> length out"
  shows "write_common_v3 out ty i ts = frame_header V3_PROTOCOL_VERSION 0 ty i ts (length out) @ drop 14 out"
  using assms
  by (elim list14E)
     (simp add: write_common_v3_def Let_def frame_header_def write_at_def u16_to_be_def u32_to_be_def)

lemma encode_frame_v3_eq:
  "encode_frame_v3 ty i ts body =
     (if 16 + length body \<le> 65535 then Some (frame_bytes V3_PROTOCOL_VERSION 0 ty i ts body) else None)"
  by (simp add: encode_frame_v3_def Let_def frame_bytes_def
      write_common_v3_eq FRAME_HEADER_BYTES_def FRAME_CHECKSUM_BYTES_def MIN_FRAME_BYTES_def write_at_def)

interpretation v3: frame_codec parse_with_limit_v3 encode_frame_v3 "\<lambda>b. True" V3_PROTOCOL_VERSION 0
proof unfold_locales
  fix bs f limit
  show "parse_with_limit_v3 bs limit = Inr f \<longleftrightarrow>
        f = bs \<and> 16 \<le> length bs \<and> bs ! 0 = SYNC_BYTE \<and> True
        \<and> declared_size bs = length bs \<and> length bs \<le> limit \<and> checksum_matches bs"
    by (auto simp: parse_with_limit_v3_def Let_def declared_size_def MIN_FRAME_BYTES_def
        FRAME_HEADER_BYTES_def FRAME_CHECKSUM_BYTES_def checksum_matches_v3_eq)
qed (rule encode_frame_v3_eq)

section \<open>Commands\<close>

lemma parse_command_v3_ok:
  "parse_command_v3 f = Inr r \<longleftrightarrow>
     version_v3 f = 3 \<and> frame_type_v3 f = 0xc \<and> length f = 18
     \<and> req_stream_id r = stream_id_v3 f \<and> u16_from_be (f ! 14) (f ! 15) = command_code_v3 (req_command_v3 r)"
  by (cases r; cases "req_command_v3 r")
     (auto simp: parse_command_v3_def Let_def V3_PROTOCOL_VERSION_def FRAME_TYPE_COMMAND_V3_def)

lemma frame_accessors_v3:
  fixes ty i ts body
  defines "f \<equiv> frame_bytes V3_PROTOCOL_VERSION 0 ty i ts body"
  shows "frame_type_v3 f = drop_bit 4 (push_bit 4 ty OR 3)" "version_v3 f = (push_bit 4 ty OR 3) AND 0x0f"
    "stream_id_v3 f = i" "body_v3 f = body"
    "unat (fracsec ts) < 2 ^ 24 \<Longrightarrow> timestamp_v3 f = ts"
  by (simp_all add: f_def frame_type_v3_def version_v3_def stream_id_v3_def body_v3_def
      timestamp_v3_def frame_fields V3_PROTOCOL_VERSION_def FRAME_HEADER_BYTES_def FRAME_CHECKSUM_BYTES_def)

lemma encode_command_v3_roundtrip:
  "\<exists>f. encode_command_v3 i c ts = Some f \<and> length f = 18 \<and> parse_with_limit_v3 f 18 = Inr f
     \<and> parse_command_v3 f = Inr \<lparr>req_stream_id = i, req_command_v3 = c\<rparr>"
proof -
  let ?f = "frame_bytes V3_PROTOCOL_VERSION 0 0xc i ts (u16_to_be (command_code_v3 c))"
  have "encode_command_v3 i c ts = Some ?f"
    by (simp add: encode_command_v3_def v3.encode_eq FRAME_TYPE_COMMAND_V3_def)
  moreover have "parse_with_limit_v3 ?f 18 = Inr ?f"
    using v3.parse_encode [of "u16_to_be (command_code_v3 c)" 18 "0xc" i ts] by (simp add: v3.encode_eq)
  moreover have "parse_command_v3 ?f = Inr \<lparr>req_stream_id = i, req_command_v3 = c\<rparr>"
    by (simp add: parse_command_v3_ok frame_accessors_v3 frame_body_word)
  ultimately show ?thesis by simp
qed

section \<open>Response and data frames\<close>

lemma encode_error_response_eq:
  assumes "length out = ERROR_RESPONSE_FRAME_BYTES"
  shows "encode_error_response i code ts out =
    frame_bytes V3_PROTOCOL_VERSION 0 FRAME_TYPE_ERROR_RESPONSE i ts (u16_to_be (error_code code) @ u16_to_be 0)"
proof -
  have len: "length out = 20" using assms by (simp add: ERROR_RESPONSE_FRAME_BYTES_def)
  then show ?thesis
    by (simp add: encode_error_response_def Let_def write_common_v3_eq frame_bytes_def write_at_def)
qed

definition data_words_v3 ::
    "(f32 \<Rightarrow> f32) \<Rightarrow> endpoint_descriptor \<Rightarrow> u64 \<Rightarrow> u64 \<Rightarrow> signal_excursion option \<Rightarrow> u16 list" where
  "data_words_v3 sin32 ep seed sample_index excursion =
     [STAT_FLAG_SYNC_UNCERTAIN, TIME_QUALITY_UNKNOWN]
     @ concat (map (\<lambda>channel.
         [fixed_magnitude (channel_magnitude sin32 ep seed sample_index excursion channel)
            (if channel < 3 then ep_voltage_scale ep else ep_current_scale ep),
          fixed_angle (phase_angle channel)]) [0, 1, 2, 3, 4, 5])
     @ [fixed_frequency (signal_value sin32 ep (ep_frequency_deviation ep) seed sample_index PHASOR_COUNT
          (map_option excursion_frequency_deviation_hz excursion)),
        fixed_rocof (signal_value sin32 ep (ep_rocof ep) seed sample_index (PHASOR_COUNT + 1)
          (map_option excursion_rocof_hz_per_s excursion))]"

lemma length_data_words_v3: "length (data_words_v3 s ep seed i x) = 16"
  by (simp add: data_words_v3_def)

lemma encode_periodic_data_v3_eq:
  assumes "length out = PERIODIC_DATA_FRAME_BYTES_V3"
  shows "encode_periodic_data_with_scenario_v3 sin32 ep seed i ts degraded x out =
    frame_bytes V3_PROTOCOL_VERSION 0 FRAME_TYPE_PERIODIC_DATA_V3
      (ep_stream_id ep) ts (concat (map u16_to_be (data_words_v3 sin32 ep seed i x)))"
proof -
  let ?h = "frame_header V3_PROTOCOL_VERSION 0 FRAME_TYPE_PERIODIC_DATA_V3 (ep_stream_id ep) ts 48"
  let ?ws = "data_words_v3 sin32 ep seed i x"
  have len: "length out = 48" using assms(1) by (simp add: PERIODIC_DATA_FRAME_BYTES_V3_def)
  have common: "write_common_v3 out FRAME_TYPE_PERIODIC_DATA_V3 (ep_stream_id ep) ts = ?h @ drop 14 out"
    using write_common_v3_eq [of out] len by simp
  have w: "fold (\<lambda>v st. write_u16 st v) ?ws (?h @ drop 14 out, 14) =
      ((?h @ concat (map u16_to_be ?ws)) @ drop 46 out, 46)"
    using write_u16s_append [of ?ws "drop 14 out" ?h] len by (simp add: length_data_words_v3)
  have "encode_periodic_data_with_scenario_v3 sin32 ep seed i ts degraded x out =
    (let (o4, offset) = fold (\<lambda>v st. write_u16 st v) ?ws (?h @ drop 14 out, 14)
     in write_at offset (u16_to_be (crc16_ccitt (take offset o4))) o4)"
    by (simp add: encode_periodic_data_with_scenario_v3_def common FRAME_HEADER_BYTES_def
        upt_phasors data_words_v3_def Let_def)
  also have "\<dots> = frame_bytes V3_PROTOCOL_VERSION 0 FRAME_TYPE_PERIODIC_DATA_V3
      (ep_stream_id ep) ts (concat (map u16_to_be ?ws))"
    using len by (simp add: w frame_bytes_def Let_def write_at_def length_words length_data_words_v3)
  finally show ?thesis .
qed

end
