(* ===== verification/Connection.thy ===== *)
theory Connection
  imports Effects Tokens Wire_V2 Wire_V3
begin

text \<open>
  The parts of a PDC connection (\<^verbatim>\<open>src/server.rs\<close>): the receive buffer with its command decoder, the
  frame that is being sent, and the connection itself with its deadlines.  The operating system is
  the record \<open>os\<close> of functions over a world \<open>'w\<close>; sockets are numbers.
\<close>

section \<open>The operating system\<close>

datatype 'a io = Done 'a | WouldBlock | Failed string

type_synonym socket = nat

datatype interest = READABLE | WRITABLE | READABLE_WRITABLE

record 'w os =
  os_now :: "'w \<Rightarrow> instant \<times> 'w"
  os_system_time :: "'w \<Rightarrow> system_time \<times> 'w"
  os_poll_new :: "'w \<Rightarrow> unit io \<times> 'w"
  os_bind :: "socket_addr \<Rightarrow> 'w \<Rightarrow> socket io \<times> 'w"
  os_accept :: "socket \<Rightarrow> 'w \<Rightarrow> socket io \<times> 'w"
  os_read :: "socket \<Rightarrow> nat \<Rightarrow> 'w \<Rightarrow> bytes io \<times> 'w"
  os_write :: "socket \<Rightarrow> bytes \<Rightarrow> 'w \<Rightarrow> nat io \<times> 'w"
  os_drop :: "socket \<Rightarrow> 'w \<Rightarrow> 'w"
  os_set_nodelay :: "socket \<Rightarrow> 'w \<Rightarrow> unit io \<times> 'w"
  os_set_recv_buffer_size :: "socket \<Rightarrow> nat \<Rightarrow> 'w \<Rightarrow> unit io \<times> 'w"
  os_set_send_buffer_size :: "socket \<Rightarrow> nat \<Rightarrow> 'w \<Rightarrow> unit io \<times> 'w"
  os_register :: "socket \<Rightarrow> u64 \<Rightarrow> 'w \<Rightarrow> unit io \<times> 'w"
  os_reregister :: "socket \<Rightarrow> u64 \<Rightarrow> interest \<Rightarrow> 'w \<Rightarrow> unit io \<times> 'w"
  os_deregister :: "socket \<Rightarrow> 'w \<Rightarrow> unit io \<times> 'w"
  os_read_to_string :: "string \<Rightarrow> 'w \<Rightarrow> string option \<times> 'w"
  os_process_id :: "'w \<Rightarrow> nat \<times> 'w"
  os_next_incarnation :: "'w \<Rightarrow> u64 \<times> 'w"
  os_poll :: "duration \<Rightarrow> 'w \<Rightarrow> (u64 \<times> bool \<times> bool) list io \<times> 'w"
  os_eprintln :: "string \<Rightarrow> 'w \<Rightarrow> 'w"

text \<open>
  What the documentation of \<^verbatim>\<open>Read::read\<close> and \<^verbatim>\<open>Write::write\<close> promises: neither transfers more
  bytes than the slice it is given holds.
\<close>

definition io_bounded :: "'w os \<Rightarrow> bool" where
  "io_bounded os \<longleftrightarrow>
     (\<forall>s n w bs w'. os_read os s n w = (Done bs, w') \<longrightarrow> length bs \<le> n)
   \<and> (\<forall>s bs w n w'. os_write os s bs w = (Done n, w') \<longrightarrow> n \<le> length bs)"

lemma io_bounded_read: "io_bounded os \<Longrightarrow> os_read os s n w = (Done bs, w') \<Longrightarrow> length bs \<le> n"
  and io_bounded_write: "io_bounded os \<Longrightarrow> os_write os s bs' w = (Done k, w') \<Longrightarrow> k \<le> length bs'"
  unfolding io_bounded_def by blast+

section \<open>The receive buffer\<close>

record receive_buffer =
  rb_bytes :: bytes
  rb_length :: nat
  rb_limit :: nat

datatype read_result = Open | Closed | ClosedWithBufferedData

datatype server_command =
    Stop
  | Start
  | V2Header
  | V2Configuration1
  | V2Configuration2
  | V3Capability
  | V3StreamConfiguration

record buffered_command_request =
  bc_idcode :: u16
  bc_command :: server_command

datatype received_command =
    Accepted buffered_command_request
  | Rejected u16 wire_version

record malformed_command =
  mc_idcode :: "u16 option"

definition new_receive_buffer :: "nat \<Rightarrow> receive_buffer" where
  "new_receive_buffer limit =
     \<lparr>rb_bytes = replicate MAX_COMMAND_FRAME_BYTES 0, rb_length = 0, rb_limit = limit\<rparr>"

text \<open>
  One round of the reading loop.  Taking the slice between the length and the limit panics when
  it is not within the array; an I/O error is a value here, since the caller handles it.
\<close>

definition read_round :: "'w os \<Rightarrow> socket \<Rightarrow> (receive_buffer \<times> 'w, server_error, (string + read_result) option) prog" where
  "read_round os stream = (\<lambda>(rb, w).
     if rb_length rb = rb_limit rb then Ok (Some (Inr Open), rb, w)
     else if rb_limit rb < rb_length rb \<or> length (rb_bytes rb) < rb_limit rb then Panic
     else case os_read os stream (rb_limit rb - rb_length rb) w of
         (Done data, w') \<Rightarrow>
           if data = [] then Ok (Some (Inr (if rb_length rb = 0 then Closed else ClosedWithBufferedData)), rb, w')
           else Ok (None, rb\<lparr>rb_bytes := write_at (rb_length rb) data (rb_bytes rb),
                            rb_length := rb_length rb + length data\<rparr>, w')
       | (WouldBlock, w') \<Rightarrow> Ok (Some (Inr Open), rb, w')
       | (Failed e, w') \<Rightarrow> Ok (Some (Inl e), rb, w'))"

definition read_from :: "'w os \<Rightarrow> socket \<Rightarrow> (receive_buffer \<times> 'w, server_error, string + read_result) prog" where
  "read_from os stream = loop_p (read_round os stream)"

definition malformed_command_of :: "receive_buffer \<Rightarrow> malformed_command" where
  "malformed_command_of rb =
     \<lparr>mc_idcode = (if 6 \<le> rb_length rb then Some (u16_from_be (rb_bytes rb ! 4) (rb_bytes rb ! 5)) else None)\<rparr>"

fun server_command_v2 :: "command_v2 \<Rightarrow> server_command" where
  "server_command_v2 StopV2 = Stop"
| "server_command_v2 StartV2 = Start"
| "server_command_v2 HeaderV2 = V2Header"
| "server_command_v2 Configuration1 = V2Configuration1"
| "server_command_v2 Configuration2 = V2Configuration2"

fun server_command_v3 :: "command_v3 \<Rightarrow> server_command" where
  "server_command_v3 StopV3 = Stop"
| "server_command_v3 StartV3 = Start"
| "server_command_v3 Capability = V3Capability"
| "server_command_v3 StreamConfiguration = V3StreamConfiguration"

text \<open>The frame at the front of the buffer, decoded by the endpoint's protocol version.\<close>

definition decode_command :: "wire_version \<Rightarrow> bytes \<Rightarrow> frame_error + received_command" where
  "decode_command wv bs =
     (case wv of
        V2 \<Rightarrow> bind_ok (parse_v2 bs) (\<lambda>frame.
          Inr (case parse_command_v2 frame of
                 Inr request \<Rightarrow> Accepted \<lparr>bc_idcode = req_idcode request,
                                          bc_command = server_command_v2 (req_command_v2 request)\<rparr>
               | Inl _ \<Rightarrow> Rejected (idcode_v2 frame) wv))
      | V3 \<Rightarrow> bind_ok (parse_v3 bs) (\<lambda>frame.
          Inr (case parse_command_v3 frame of
                 Inr request \<Rightarrow> Accepted \<lparr>bc_idcode = req_stream_id request,
                                          bc_command = server_command_v3 (req_command_v3 request)\<rparr>
               | Inl _ \<Rightarrow> Rejected (stream_id_v3 frame) wv)))"

text \<open>The outer \<^const>\<open>None\<close> is the panic of a slice beyond the array.\<close>

definition next_command ::
    "wire_version \<Rightarrow> receive_buffer \<Rightarrow> ((malformed_command + received_command option) \<times> receive_buffer) option" where
  "next_command wv rb =
     (if rb_length rb < 4 then Some (Inr None, rb)
      else let size = unat (u16_from_be (rb_bytes rb ! 2) (rb_bytes rb ! 3))
           in if rb_limit rb < size then Some (Inl (malformed_command_of rb), rb)
              else if rb_length rb < size then Some (Inr None, rb)
              else if length (rb_bytes rb) < rb_length rb then None
              else case decode_command wv (take size (rb_bytes rb)) of
                     Inl _ \<Rightarrow> Some (Inl (malformed_command_of rb), rb)
                   | Inr command \<Rightarrow>
                       Some (Inr (Some command),
                             rb\<lparr>rb_bytes := write_at 0 (drop size (take (rb_length rb) (rb_bytes rb))) (rb_bytes rb),
                                rb_length := rb_length rb - size\<rparr>))"

section \<open>The frame being sent\<close>

datatype pending_frame =
    PendingNone
  | PendingV2Header nat
  | PendingV2Configuration1 nat
  | PendingV2Configuration2 nat
  | PendingV3Capability nat
  | PendingV3StreamConfiguration nat
  | PendingError nat
  | PendingData nat

fun is_pending :: "pending_frame \<Rightarrow> bool" where
  "is_pending PendingNone = False"
| "is_pending _ = True"

fun with_offset :: "pending_frame \<Rightarrow> nat \<Rightarrow> pending_frame" where
  "with_offset PendingNone offset = PendingNone"
| "with_offset (PendingV2Header _) offset = PendingV2Header offset"
| "with_offset (PendingV2Configuration1 _) offset = PendingV2Configuration1 offset"
| "with_offset (PendingV2Configuration2 _) offset = PendingV2Configuration2 offset"
| "with_offset (PendingV3Capability _) offset = PendingV3Capability offset"
| "with_offset (PendingV3StreamConfiguration _) offset = PendingV3StreamConfiguration offset"
| "with_offset (PendingError _) offset = PendingError offset"
| "with_offset (PendingData _) offset = PendingData offset"

fun pending_offset :: "pending_frame \<Rightarrow> nat" where
  "pending_offset PendingNone = 0"
| "pending_offset (PendingV2Header offset) = offset"
| "pending_offset (PendingV2Configuration1 offset) = offset"
| "pending_offset (PendingV2Configuration2 offset) = offset"
| "pending_offset (PendingV3Capability offset) = offset"
| "pending_offset (PendingV3StreamConfiguration offset) = offset"
| "pending_offset (PendingError offset) = offset"
| "pending_offset (PendingData offset) = offset"

section \<open>The connection\<close>

definition FIRST_VALID_COMMAND_DEADLINE :: duration where [const_defs]: "FIRST_VALID_COMMAND_DEADLINE = 15 * 10 ^ 9"
definition IDLE_NON_STREAMING_DEADLINE :: duration where [const_defs]: "IDLE_NON_STREAMING_DEADLINE = 5 * 60 * 10 ^ 9"

record connection =
  cn_id :: u64
  cn_token :: u64
  cn_stream :: socket
  cn_receive :: receive_buffer
  cn_pending :: pending_frame
  cn_error_frame :: "bytes option"
  cn_streaming :: bool
  cn_accepted_at :: instant
  cn_first_valid_command_at :: "instant option"
  cn_last_valid_command_at :: instant
  cn_close_after_flush :: bool

text \<open>\<^verbatim>\<open>Connection::new\<close>, with the clock reading it makes as the first argument.\<close>

definition new_connection :: "instant \<Rightarrow> u64 \<Rightarrow> u64 \<Rightarrow> socket \<Rightarrow> nat \<Rightarrow> wire_version \<Rightarrow> connection" where
  "new_connection now connection_id token stream command_limit wv =
     \<lparr>cn_id = connection_id, cn_token = token, cn_stream = stream,
      cn_receive = new_receive_buffer command_limit, cn_pending = PendingNone,
      cn_error_frame = (if wv = V3 then Some (replicate ERROR_RESPONSE_FRAME_BYTES 0) else None),
      cn_streaming = False, cn_accepted_at = now, cn_first_valid_command_at = None,
      cn_last_valid_command_at = now, cn_close_after_flush = False\<rparr>"

definition record_valid_command :: "instant \<Rightarrow> connection \<Rightarrow> connection" where
  "record_valid_command now c =
     c\<lparr>cn_first_valid_command_at := (case cn_first_valid_command_at c of None \<Rightarrow> Some now | Some t \<Rightarrow> Some t),
       cn_last_valid_command_at := now\<rparr>"

definition deadline_expired :: "connection \<Rightarrow> instant \<Rightarrow> bool" where
  "deadline_expired c now =
     (if cn_first_valid_command_at c = None
      then FIRST_VALID_COMMAND_DEADLINE \<le> saturating_duration_since now (cn_accepted_at c)
      else \<not> cn_streaming c
           \<and> IDLE_NON_STREAMING_DEADLINE \<le> saturating_duration_since now (cn_last_valid_command_at c))"

section \<open>The buffer as a queue of bytes\<close>

text \<open>
  Abstractly the buffer is the bytes received and not yet consumed: reading appends to them and
  taking a command removes the frame at the front.
\<close>

definition contents :: "receive_buffer \<Rightarrow> bytes" where
  "contents rb = take (rb_length rb) (rb_bytes rb)"

definition buffer_wf :: "receive_buffer \<Rightarrow> bool" where
  "buffer_wf rb \<longleftrightarrow> length (rb_bytes rb) = MAX_COMMAND_FRAME_BYTES \<and> rb_length rb \<le> rb_limit rb
     \<and> 18 \<le> rb_limit rb \<and> rb_limit rb \<le> MAX_COMMAND_FRAME_BYTES"

lemma buffer_wfD:
  "buffer_wf rb \<Longrightarrow> length (rb_bytes rb) = 4096" "buffer_wf rb \<Longrightarrow> rb_length rb \<le> rb_limit rb"
  "buffer_wf rb \<Longrightarrow> 18 \<le> rb_limit rb" "buffer_wf rb \<Longrightarrow> rb_limit rb \<le> 4096"
  by (simp_all add: buffer_wf_def MAX_COMMAND_FRAME_BYTES_def)

lemma length_contents: "buffer_wf rb \<Longrightarrow> length (contents rb) = rb_length rb"
  using buffer_wfD [of rb] by (simp add: contents_def)

lemma new_receive_buffer_wf:
  assumes "18 \<le> limit" "limit \<le> MAX_COMMAND_FRAME_BYTES"
  shows "buffer_wf (new_receive_buffer limit)" "contents (new_receive_buffer limit) = []"
  using assms by (simp_all add: buffer_wf_def new_receive_buffer_def contents_def)

text \<open>The command decoder on a queue of bytes.\<close>

definition next_command_spec ::
    "wire_version \<Rightarrow> nat \<Rightarrow> bytes \<Rightarrow> (malformed_command + received_command option) \<times> bytes" where
  "next_command_spec wv limit bs =
     (let size = declared_size bs;
          malformed = \<lparr>mc_idcode = (if 6 \<le> length bs then Some (u16_from_be (bs ! 4) (bs ! 5)) else None)\<rparr>
      in if length bs < 4 then (Inr None, bs)
         else if limit < size then (Inl malformed, bs)
         else if length bs < size then (Inr None, bs)
         else case decode_command wv (take size bs) of
                Inl _ \<Rightarrow> (Inl malformed, bs)
              | Inr command \<Rightarrow> (Inr (Some command), drop size bs))"

lemma read_append:
  assumes "buffer_wf rb" "rb_length rb + length data \<le> rb_limit rb"
  shows "buffer_wf (rb\<lparr>rb_bytes := write_at (rb_length rb) data (rb_bytes rb), rb_length := rb_length rb + length data\<rparr>)"
    "contents (rb\<lparr>rb_bytes := write_at (rb_length rb) data (rb_bytes rb), rb_length := rb_length rb + length data\<rparr>)
       = contents rb @ data"
  using assms buffer_wfD [OF assms(1)] by (simp_all add: buffer_wf_def contents_def write_at_def)

lemma wp_read_round:
  fixes os :: "'w os"
  assumes "io_bounded os" and wf: "buffer_wf rb"
  shows "wp (read_round os stream)
      (\<lambda>r (rb', w'). buffer_wf rb' \<and> rb_limit rb' = rb_limit rb \<and> (\<exists>more. contents rb' = contents rb @ more) \<and>
         (case r of None \<Rightarrow> rb_limit rb - rb_length rb' < rb_limit rb - rb_length rb
          | Some x \<Rightarrow> x = Inr Closed \<longrightarrow> contents rb' = [])) E (rb, w)"
proof -
  note d = buffer_wfD [OF wf]
  obtain r w' where rd: "os_read os stream (rb_limit rb - rb_length rb) w = (r, w')" by force
  show ?thesis
  proof (cases r)
    case (Done data)
    have "rb_length rb + length data \<le> rb_limit rb"
      using io_bounded_read [OF assms(1), of stream _ w data w'] rd Done d(2) by fastforce
    moreover have "data \<noteq> [] \<Longrightarrow> rb_length rb \<noteq> rb_limit rb \<Longrightarrow>
        rb_limit rb - (rb_length rb + length data) < rb_limit rb - rb_length rb"
      using d(2) by (cases data) simp_all
    ultimately show ?thesis
      using wf d rd Done read_append [OF wf] by (auto simp: wp_def read_round_def contents_def)
  qed (use wf d rd in \<open>simp_all add: wp_def read_round_def\<close>)
qed

text \<open>Reading ends, keeps what was buffered and appends to it, and reports a closed peer only on an empty buffer.\<close>

lemma wp_read_from:
  fixes os :: "'w os"
  assumes "io_bounded os" and "buffer_wf rb"
  shows "wp (read_from os stream)
      (\<lambda>r (rb', w'). buffer_wf rb' \<and> rb_limit rb' = rb_limit rb \<and> (\<exists>more. contents rb' = contents rb @ more) \<and>
         (r = Inr Closed \<longrightarrow> contents rb' = [])) E (rb, w)"
proof -
  let ?I = "\<lambda>(rb', w' :: 'w). buffer_wf rb' \<and> rb_limit rb' = rb_limit rb \<and> (\<exists>more. contents rb' = contents rb @ more)"
  let ?m = "\<lambda>(rb', w' :: 'w). rb_limit rb' - rb_length rb'"
  show ?thesis
    unfolding read_from_def
  proof (rule wp_loop [where I = ?I and m = ?m])
    show "?I (rb, w)" using assms(2) by simp
    fix t assume t: "?I t"
    obtain rb1 w1 where t1: "t = (rb1, w1)" by force
    show "wp (read_round os stream) (\<lambda>r u. case r of None \<Rightarrow> ?I u \<and> ?m u < ?m t
        | Some x \<Rightarrow> (case u of (rb', w') \<Rightarrow> buffer_wf rb' \<and> rb_limit rb' = rb_limit rb
            \<and> (\<exists>more. contents rb' = contents rb @ more) \<and> (x = Inr Closed \<longrightarrow> contents rb' = []))) E t"
      unfolding t1
      by (rule wp_mono [OF wp_read_round [OF assms(1)]]) (use t t1 in \<open>auto split: option.splits\<close>)
  qed
qed

text \<open>The array implements the queue.\<close>

lemma contents_nth: "buffer_wf rb \<Longrightarrow> i < rb_length rb \<Longrightarrow> contents rb ! i = rb_bytes rb ! i"
  by (simp add: contents_def)

lemma decode_command_Inr:
  assumes "decode_command wv bs = Inr command"
  shows "16 \<le> length bs" "declared_size bs = length bs"
proof -
  have "parse_v2 bs = Inr bs \<or> parse_v3 bs = Inr bs"
    using assms by (auto simp: decode_command_def v2.parse_ok v3.parse_ok parse_v2_def parse_v3_def split: wire_version.splits)
  then show "16 \<le> length bs" "declared_size bs = length bs"
    by (auto simp: v2.parse_ok v3.parse_ok parse_v2_def parse_v3_def)
qed

lemma next_command_refines:
  assumes wf: "buffer_wf rb"
  obtains r rb' where "next_command wv rb = Some (r, rb')" "buffer_wf rb'" "rb_limit rb' = rb_limit rb"
    "next_command_spec wv (rb_limit rb) (contents rb) = (r, contents rb')"
proof -
  note d = buffer_wfD [OF wf] and len = length_contents [OF wf]
  let ?bs = "contents rb" and ?size = "unat (u16_from_be (rb_bytes rb ! 2) (rb_bytes rb ! 3))"
  have m: "malformed_command_of rb
      = \<lparr>mc_idcode = (if 6 \<le> length ?bs then Some (u16_from_be (?bs ! 4) (?bs ! 5)) else None)\<rparr>"
    using wf by (simp add: malformed_command_of_def len contents_nth)
  consider (short) "rb_length rb < 4" | (big) "4 \<le> rb_length rb" "rb_limit rb < ?size"
    | (partial) "4 \<le> rb_length rb" "?size \<le> rb_limit rb" "rb_length rb < ?size"
    | (frame) "4 \<le> rb_length rb" "?size \<le> rb_limit rb" "?size \<le> rb_length rb" by linarith
  then show thesis
  proof cases
    case frame
    then have size: "declared_size ?bs = ?size" using wf by (simp add: declared_size_def contents_nth)
    have front: "take ?size ?bs = take ?size (rb_bytes rb)" using frame by (simp add: contents_def)
    let ?rb = "rb\<lparr>rb_bytes := write_at 0 (drop ?size (take (rb_length rb) (rb_bytes rb))) (rb_bytes rb),
      rb_length := rb_length rb - ?size\<rparr>"
    have "buffer_wf ?rb" "contents ?rb = drop ?size ?bs"
      using d frame wf by (simp_all add: buffer_wf_def contents_def write_at_def)
    then show thesis
      using frame size front d len m wf
      by (intro that [of "fst (next_command_spec wv (rb_limit rb) ?bs)"
            "if is_ok (decode_command wv (take ?size ?bs)) then ?rb else rb"])
         (auto simp: next_command_def next_command_spec_def Let_def split: sum.splits)
  qed (use wf m len in \<open>auto intro!: that simp: next_command_def next_command_spec_def Let_def declared_size_def contents_nth\<close>)
qed

text \<open>An accepted or rejected command shortens the buffer; a full buffer never waits for more.\<close>

lemma next_command_consumes:
  assumes "buffer_wf rb" "next_command wv rb = Some (Inr (Some command), rb')"
  shows "rb_length rb' < rb_length rb" "buffer_wf rb'" "rb_limit rb' = rb_limit rb"
proof -
  obtain r rb'' where r: "next_command wv rb = Some (r, rb'')" "buffer_wf rb''" "rb_limit rb'' = rb_limit rb"
    "next_command_spec wv (rb_limit rb) (contents rb) = (r, contents rb'')"
    using next_command_refines [OF assms(1)] by blast
  then show "buffer_wf rb'" "rb_limit rb' = rb_limit rb" using assms(2) by auto
  have "length (contents rb') < length (contents rb)"
    using r assms(2)
    by (auto simp: next_command_spec_def Let_def split: if_splits sum.splits dest!: decode_command_Inr(1))
       (metis decode_command_Inr(1) diff_less le_trans length_drop less_le_trans zero_less_numeral length_take min.bounded_iff not_le)
  then show "rb_length rb' < rb_length rb"
    using length_contents assms(1) r(1,2) assms(2) by (metis Pair_inject option.inject)
qed

lemma next_command_full:
  assumes "buffer_wf rb" "rb_length rb = rb_limit rb"
  shows "next_command wv rb \<noteq> Some (Inr None, rb')"
  using buffer_wfD [OF assms(1)] assms(2)
  by (auto simp: next_command_def Let_def split: if_splits sum.splits)

end
