(* ===== verification/Endpoint.thy ===== *)
theory Endpoint
  imports Connection Config
begin

text \<open>
  One endpoint of the server (\<^verbatim>\<open>src/server.rs\<close>): a listener with two connection slots, the static
  frames it answers with and the data frame its connections share.  The functions below take the
  endpoint, the statistics and the operating system by mutable reference in the source; here they
  work on a \<open>ctx\<close> that holds all of them.
\<close>

section \<open>Data\<close>

text \<open>Header, configuration 1 and configuration 2; or capability and stream configuration.\<close>

datatype endpoint_frames =
    FramesV2 bytes bytes bytes
  | FramesV3 bytes bytes

datatype data_frame = DataV2 bytes | DataV3 bytes

fun data_frame_bytes :: "data_frame \<Rightarrow> bytes" where
  "data_frame_bytes (DataV2 bs) = bs"
| "data_frame_bytes (DataV3 bs) = bs"

record endpoint =
  en_descriptor :: endpoint_descriptor
  en_limits :: limits
  en_listener :: socket
  en_frames :: endpoint_frames
  en_data_frame :: data_frame
  en_connections :: "connection option list"

record 'w ctx =
  cx_endpoint :: endpoint
  cx_next_connection_id :: u64
  cx_stats :: server_stats
  cx_world :: 'w

type_synonym ('w, 'a) action = "('w ctx, server_error, 'a) prog"

section \<open>Access to the context\<close>

definition world :: "('w \<Rightarrow> 'a \<times> 'w) \<Rightarrow> ('w, 'a) action" where
  "world f = (\<lambda>c. case f (cx_world c) of (x, w) \<Rightarrow> Ok (x, c\<lparr>cx_world := w\<rparr>))"

text \<open>\<^verbatim>\<open>?\<close> on an \<^verbatim>\<open>io::Result\<close>.\<close>

definition io_try :: "'a io \<Rightarrow> ('s, server_error, 'a) prog" where
  "io_try r = (case r of Done x \<Rightarrow> ret x | WouldBlock \<Rightarrow> raise (IoError ''would block'') | Failed m \<Rightarrow> raise (IoError m))"

text \<open>\<^verbatim>\<open>endpoint.connections[slot_index]\<close> panics out of range; so does \<^verbatim>\<open>expect\<close> on an empty slot.\<close>

definition slot_of :: "endpoint \<Rightarrow> nat \<Rightarrow> connection option option" where
  "slot_of en slot = (if slot < length (en_connections en) then Some (en_connections en ! slot) else None)"

definition get_slot :: "nat \<Rightarrow> ('w, connection option) action" where
  "get_slot slot = bind_p (gets cx_endpoint) (\<lambda>en. expect (slot_of en slot))"

definition get_connection :: "nat \<Rightarrow> ('w, connection) action" where
  "get_connection slot = bind_p (get_slot slot) expect"

definition set_slot :: "nat \<Rightarrow> connection option \<Rightarrow> ('w, unit) action" where
  "set_slot slot x =
     modify (\<lambda>c. c\<lparr>cx_endpoint := (cx_endpoint c)\<lparr>en_connections := (en_connections (cx_endpoint c))[slot := x]\<rparr>\<rparr>)"

definition tally :: "(server_stats \<Rightarrow> server_stats) \<Rightarrow> ('w, unit) action" where
  "tally f = modify (\<lambda>c. c\<lparr>cx_stats := f (cx_stats c)\<rparr>)"

section \<open>Opening and closing\<close>

definition reregister_connection :: "'w os \<Rightarrow> connection \<Rightarrow> bool \<Rightarrow> ('w, unit) action" where
  "reregister_connection os c writable =
     (let interest = (if writable then READABLE_WRITABLE else READABLE)
      in bind_p (world (os_reregister os (cn_stream c) (cn_token c) interest)) io_try)"

definition close_connection :: "'w os \<Rightarrow> nat \<Rightarrow> u64 \<Rightarrow> ('w, unit) action" where
  "close_connection os slot connection_id =
     bind_p (get_slot slot) (\<lambda>opt. case opt of
         None \<Rightarrow> ret ()
       | Some c \<Rightarrow>
           if cn_id c \<noteq> connection_id then ret ()
           else bind_p (set_slot slot None) (\<lambda>_.
                bind_p (world (os_deregister os (cn_stream c))) (\<lambda>r.
                bind_p (world (\<lambda>w. ((), os_drop os (cn_stream c) w))) (\<lambda>_.
                bind_p (io_try r) (\<lambda>_.
                tally (closed_clients_update (\<lambda>n. n + 1)))))))"

text \<open>
  The stages of \<^verbatim>\<open>configure_stream\<close> in their order; the first one that fails ends it, and the
  stream is dropped.
\<close>

definition configure_stream :: "'w os \<Rightarrow> limits \<Rightarrow> u64 \<Rightarrow> socket \<Rightarrow> 'w \<Rightarrow> bool \<times> 'w" where
  "configure_stream os limits token stream w0 =
     (case os_set_nodelay os stream w0 of
        (Done _, w1) \<Rightarrow>
          (case os_set_recv_buffer_size os stream (receive_buffer_bytes limits) w1 of
             (Done _, w2) \<Rightarrow>
               (case os_set_send_buffer_size os stream (send_buffer_bytes limits) w2 of
                  (Done _, w3) \<Rightarrow>
                    (case os_register os stream token w3 of
                       (Done _, w4) \<Rightarrow> (True, w4)
                     | (_, w4) \<Rightarrow> (False, os_drop os stream w4))
                | (_, w3) \<Rightarrow> (False, os_drop os stream w3))
           | (_, w2) \<Rightarrow> (False, os_drop os stream w2))
      | (_, w1) \<Rightarrow> (False, os_drop os stream w1))"

definition find_free :: "connection option list \<Rightarrow> nat option" where
  "find_free cs = List.find (\<lambda>i. cs ! i = None) [0..<length cs]"

text \<open>Refusing a stream: it is dropped and counted, and the loop goes on.\<close>

definition reject_client :: "'w os \<Rightarrow> socket \<Rightarrow> ('w, unit option) action" where
  "reject_client os stream =
     bind_p (world (\<lambda>w. ((), os_drop os stream w))) (\<lambda>_.
     bind_p (tally (rejected_clients_update (\<lambda>n. n + 1))) (\<lambda>_. ret None))"

definition accept_round :: "'w os \<Rightarrow> u64 \<Rightarrow> u64 \<Rightarrow> ('w, unit option) action" where
  "accept_round os endpoint_count endpoint_index =
     bind_p (gets cx_endpoint) (\<lambda>en.
     bind_p (world (os_accept os (en_listener en))) (\<lambda>r. case r of
         Done stream \<Rightarrow>
           (case find_free (en_connections en) of
              None \<Rightarrow> reject_client os stream
            | Some slot \<Rightarrow>
                bind_p (gets cx_next_connection_id) (\<lambda>connection_id.
                case checked_add connection_id 1 of
                  None \<Rightarrow> reject_client os stream
                | Some next_id \<Rightarrow>
                    (case connection_token endpoint_count endpoint_index (of_nat slot) connection_id of
                       Inl _ \<Rightarrow> reject_client os stream
                     | Inr token \<Rightarrow>
                         bind_p (world (configure_stream os (en_limits en) token stream)) (\<lambda>ok.
                         if ok then
                           bind_p (modify (cx_next_connection_id_update (\<lambda>_. next_id))) (\<lambda>_.
                           bind_p (world (os_now os)) (\<lambda>now.
                           bind_p (set_slot slot (Some (new_connection now connection_id token stream
                                     (command_frame_bytes (en_limits en)) (ep_wire_version (en_descriptor en))))) (\<lambda>_.
                           bind_p (tally (accepted_clients_update (\<lambda>n. n + 1))) (\<lambda>_. ret None))))
                         else bind_p (tally (rejected_clients_update (\<lambda>n. n + 1))) (\<lambda>_. ret None)))))
       | WouldBlock \<Rightarrow> ret (Some ())
       | Failed m \<Rightarrow> raise (IoError m)))"

definition accept_connections :: "'w os \<Rightarrow> u64 \<Rightarrow> u64 \<Rightarrow> ('w, unit) action" where
  "accept_connections os endpoint_count endpoint_index = loop_p (accept_round os endpoint_count endpoint_index)"

section \<open>Commands\<close>

definition queue_error_response ::
    "'w os \<Rightarrow> nat \<Rightarrow> u16 \<Rightarrow> error_response_code \<Rightarrow> ('w, unit) action" where
  "queue_error_response os slot stream_id code =
     bind_p (gets (\<lambda>c. ep_time_base (en_descriptor (cx_endpoint c)))) (\<lambda>time_base.
     bind_p (world (os_system_time os)) (\<lambda>system_now.
     bind_p (lift_ok (response_timestamp system_now time_base)) (\<lambda>ts.
     bind_p (get_connection slot) (\<lambda>c.
     bind_p (expect (cn_error_frame c)) (\<lambda>error_frame.
     let c' = c\<lparr>cn_error_frame := Some (encode_error_response stream_id code ts error_frame),
                cn_pending := PendingError 0, cn_streaming := False, cn_close_after_flush := True\<rparr>
     in bind_p (set_slot slot (Some c')) (\<lambda>_. reregister_connection os c' True))))))"

text \<open>The effect of a command on a connection with nothing pending; \<^const>\<open>None\<close> when the version lacks it.\<close>

fun command_effect :: "wire_version \<Rightarrow> server_command \<Rightarrow> connection \<Rightarrow> connection option" where
  "command_effect _ Stop c = Some (c\<lparr>cn_streaming := False\<rparr>)"
| "command_effect _ Start c = Some (c\<lparr>cn_streaming := True\<rparr>)"
| "command_effect V2 V2Header c = Some (c\<lparr>cn_pending := PendingV2Header 0\<rparr>)"
| "command_effect V2 V2Configuration1 c = Some (c\<lparr>cn_pending := PendingV2Configuration1 0\<rparr>)"
| "command_effect V2 V2Configuration2 c = Some (c\<lparr>cn_pending := PendingV2Configuration2 0\<rparr>)"
| "command_effect V3 V3Capability c = Some (c\<lparr>cn_pending := PendingV3Capability 0\<rparr>)"
| "command_effect V3 V3StreamConfiguration c = Some (c\<lparr>cn_pending := PendingV3StreamConfiguration 0\<rparr>)"
| "command_effect _ _ c = None"

definition handle_command :: "'w os \<Rightarrow> nat \<Rightarrow> server_command \<Rightarrow> ('w, bool) action" where
  "handle_command os slot command =
     bind_p (get_connection slot) (\<lambda>c.
     if is_pending (cn_pending c)
     then bind_p (tally (slow_clients_update (\<lambda>n. n + 1))) (\<lambda>_. ret False)
     else bind_p (gets (\<lambda>x. ep_wire_version (en_descriptor (cx_endpoint x)))) (\<lambda>wv.
          case command_effect wv command c of
            None \<Rightarrow> bind_p (tally (unsupported_commands_update (\<lambda>n. n + 1))) (\<lambda>_. ret False)
          | Some c' \<Rightarrow>
              bind_p (set_slot slot (Some c')) (\<lambda>_.
              bind_p (reregister_connection os c' (is_pending (cn_pending c'))) (\<lambda>_.
              ret True))))"

text \<open>A bad command: version 3 answers with an error response, version 2 gives up the connection.\<close>

definition refuse_command ::
    "'w os \<Rightarrow> nat \<Rightarrow> wire_version \<Rightarrow> u16 \<Rightarrow> error_response_code \<Rightarrow> ('w, bool option) action" where
  "refuse_command os slot wv idcode code =
     (if wv = V3 then bind_p (queue_error_response os slot idcode code) (\<lambda>_. ret (Some True))
      else ret (Some False))"

definition process_round :: "'w os \<Rightarrow> nat \<Rightarrow> ('w, bool option) action" where
  "process_round os slot =
     bind_p (gets (\<lambda>c. en_descriptor (cx_endpoint c))) (\<lambda>d.
     bind_p (get_slot slot) (\<lambda>opt.
     if (case opt of None \<Rightarrow> False | Some c \<Rightarrow> is_pending (cn_pending c) \<or> cn_close_after_flush c)
     then ret (Some True)
     else bind_p (expect opt) (\<lambda>c.
          bind_p (expect (next_command (ep_wire_version d) (cn_receive c))) (\<lambda>(request, rb).
          bind_p (set_slot slot (Some (c\<lparr>cn_receive := rb\<rparr>))) (\<lambda>_.
          case request of
            Inl malformed \<Rightarrow>
              bind_p (tally (malformed_commands_update (\<lambda>n. n + 1))) (\<lambda>_.
              refuse_command os slot (ep_wire_version d)
                (case mc_idcode malformed of Some i \<Rightarrow> i | None \<Rightarrow> ep_stream_id d) RejectedCommand)
          | Inr None \<Rightarrow> ret (Some True)
          | Inr (Some (Rejected idcode wv)) \<Rightarrow>
              bind_p (tally (unsupported_commands_update (\<lambda>n. n + 1))) (\<lambda>_.
              refuse_command os slot wv idcode RejectedCommand)
          | Inr (Some (Accepted request)) \<Rightarrow>
              if bc_idcode request \<noteq> ep_stream_id d
              then bind_p (tally (malformed_commands_update (\<lambda>n. n + 1))) (\<lambda>_.
                   refuse_command os slot (ep_wire_version d) (bc_idcode request) WrongStreamOrPmu)
              else bind_p (get_connection slot) (\<lambda>c'.
                   bind_p (world (os_now os)) (\<lambda>now.
                   bind_p (set_slot slot (Some (record_valid_command now c'))) (\<lambda>_.
                   bind_p (handle_command os slot (bc_command request)) (\<lambda>ok.
                   ret (if ok then None else Some False))))))))))"

definition process_buffered_commands :: "'w os \<Rightarrow> nat \<Rightarrow> ('w, bool) action" where
  "process_buffered_commands os slot = loop_p (process_round os slot)"

section \<open>Reading and writing\<close>

text \<open>What follows a read: the buffered commands are processed unless the peer is gone.\<close>

definition after_read :: "'w os \<Rightarrow> nat \<Rightarrow> string + read_result \<Rightarrow> ('w, bool) action" where
  "after_read os slot r =
     (case r of
        Inl _ \<Rightarrow> bind_p (tally (malformed_commands_update (\<lambda>n. n + 1))) (\<lambda>_. ret False)
      | Inr result \<Rightarrow>
          if result = Closed then ret False
          else bind_p (process_buffered_commands os slot) (\<lambda>ok.
               if \<not> ok then ret False
               else if result = Open then ret True
               else bind_p (get_slot slot) (\<lambda>opt. case opt of
                      None \<Rightarrow> ret False
                    | Some c \<Rightarrow> ret (cn_close_after_flush c \<and> is_pending (cn_pending c)))))"

definition read_connection :: "'w os \<Rightarrow> nat \<Rightarrow> ('w, bool) action" where
  "read_connection os slot =
     bind_p (get_slot slot) (\<lambda>opt. case opt of
         None \<Rightarrow> ret True
       | Some c \<Rightarrow>
           if cn_close_after_flush c then ret True
           else bind_p (zoom (\<lambda>x. (cn_receive c, cx_world x))
                          (\<lambda>(rb, w) x. x\<lparr>cx_endpoint := (cx_endpoint x)\<lparr>en_connections :=
                             (en_connections (cx_endpoint x))[slot := Some (c\<lparr>cn_receive := rb\<rparr>)]\<rparr>, cx_world := w\<rparr>)
                          (read_from os (cn_stream c))) (after_read os slot))"

text \<open>
  The frame a connection is sending; \<^const>\<open>None\<close> where the source reaches \<^verbatim>\<open>unreachable!\<close> or a failing
  \<^verbatim>\<open>expect\<close>.
\<close>

fun frame_of :: "endpoint_frames \<Rightarrow> data_frame \<Rightarrow> bytes option \<Rightarrow> pending_frame \<Rightarrow> bytes option" where
  "frame_of (FramesV2 h c1 c2) _ _ (PendingV2Header _) = Some h"
| "frame_of (FramesV2 h c1 c2) _ _ (PendingV2Configuration1 _) = Some c1"
| "frame_of (FramesV2 h c1 c2) _ _ (PendingV2Configuration2 _) = Some c2"
| "frame_of (FramesV3 cap sc) _ _ (PendingV3Capability _) = Some cap"
| "frame_of (FramesV3 cap sc) _ _ (PendingV3StreamConfiguration _) = Some sc"
| "frame_of _ _ error_frame (PendingError _) = error_frame"
| "frame_of _ d _ (PendingData _) = Some (data_frame_bytes d)"
| "frame_of _ _ _ _ = None"

text \<open>The slice from an offset; it panics when the offset is beyond the end.\<close>

definition slice_from :: "nat \<Rightarrow> bytes \<Rightarrow> bytes option" where
  "slice_from offset bs = (if offset \<le> length bs then Some (drop offset bs) else None)"

fun is_data :: "pending_frame \<Rightarrow> bool" where
  "is_data (PendingData _) = True"
| "is_data _ = False"

fun is_error :: "pending_frame \<Rightarrow> bool" where
  "is_error (PendingError _) = True"
| "is_error _ = False"

definition finish_frame :: "'w os \<Rightarrow> nat \<Rightarrow> pending_frame \<Rightarrow> ('w, bool) action" where
  "finish_frame os slot p =
     bind_p (if is_data p then tally (sent_data_frames_update (\<lambda>n. n + 1)) else ret ()) (\<lambda>_.
     bind_p (get_connection slot) (\<lambda>c.
     bind_p (set_slot slot (Some (c\<lparr>cn_pending := PendingNone\<rparr>))) (\<lambda>_.
     if cn_close_after_flush c then ret False
     else bind_p (process_buffered_commands os slot) (\<lambda>ok.
          if \<not> ok then ret False
          else bind_p (get_connection slot) (\<lambda>c'.
               if is_pending (cn_pending c') then ret True
               else bind_p (reregister_connection os c' False) (\<lambda>_. ret True))))))"

definition flush_connection :: "'w os \<Rightarrow> nat \<Rightarrow> ('w, bool) action" where
  "flush_connection os slot =
     bind_p (get_slot slot) (\<lambda>opt.
     let p = (case opt of None \<Rightarrow> PendingNone | Some c \<Rightarrow> cn_pending c)
     in if \<not> is_pending p then ret True
        else bind_p (get_connection slot) (\<lambda>c.
             bind_p (gets cx_endpoint) (\<lambda>en.
             bind_p (expect (frame_of (en_frames en) (en_data_frame en) (cn_error_frame c) p)) (\<lambda>frame.
             bind_p (expect (slice_from (pending_offset p) frame)) (\<lambda>slice.
             bind_p (world (os_write os (cn_stream c) slice)) (\<lambda>r. case r of
                 Done written \<Rightarrow>
                   if written = 0 then ret False
                   else if pending_offset p + written = pending_offset p + length slice then finish_frame os slot p
                   else bind_p (set_slot slot (Some (c\<lparr>cn_pending := with_offset p (pending_offset p + written)\<rparr>))) (\<lambda>_.
                        bind_p (reregister_connection os c True) (\<lambda>_. ret True))
               | WouldBlock \<Rightarrow> bind_p (reregister_connection os c True) (\<lambda>_. ret True)
               | Failed _ \<Rightarrow> ret False))))))"

end
