(* ===== verification/Time_Health.thy ===== *)
theory Time_Health
  imports Prelude
begin

text \<open>
  Time health (\<^verbatim>\<open>src/time_health.rs\<close>): whether the synchronization source vouches for the clock, and
  whether the wall clock stepped back by more than a reporting interval between two boundaries.
  The file system is a parameter: the contents of a file, or \<^const>\<open>None\<close> when it cannot be read.
\<close>

datatype time_synchronization_source =
    AlwaysVerified
  | Unverified
  | SourceFile string

definition is_ascii_whitespace :: "char \<Rightarrow> bool" where
  "is_ascii_whitespace c = (c \<in> set [CHR '' '', CHR 0x09, CHR 0x0A, CHR 0x0C, CHR 0x0D])"

definition trim_ascii_whitespace :: "string \<Rightarrow> string" where
  "trim_ascii_whitespace s = rev (dropWhile is_ascii_whitespace (rev (dropWhile is_ascii_whitespace s)))"

definition file_contents_are_verified :: "string \<Rightarrow> bool" where
  "file_contents_are_verified contents = (trim_ascii_whitespace contents = ''verified'')"

definition source_is_verified :: "(string \<Rightarrow> string option) \<Rightarrow> time_synchronization_source \<Rightarrow> bool" where
  "source_is_verified read_to_string source =
     (case source of
        AlwaysVerified \<Rightarrow> True
      | Unverified \<Rightarrow> False
      | SourceFile path \<Rightarrow>
          (case read_to_string path of
             Some contents \<Rightarrow> file_contents_are_verified contents
           | None \<Rightarrow> False))"

datatype time_health_state =
    Unobserved
  | Verified
  | SynchronizationUnverified
  | MaterialClockRegression

fun is_degraded :: "time_health_state \<Rightarrow> bool" where
  "is_degraded Verified = False"
| "is_degraded _ = True"

fun time_health_as_str :: "time_health_state \<Rightarrow> string" where
  "time_health_as_str Unobserved = ''unobserved''"
| "time_health_as_str Verified = ''verified''"
| "time_health_as_str SynchronizationUnverified = ''synchronization_unverified''"
| "time_health_as_str MaterialClockRegression = ''material_clock_regression''"

record time_health_monitor =
  reporting_interval :: duration
  last_observed_wall_clock :: "system_time option"

definition new_monitor :: "duration \<Rightarrow> time_health_monitor" where
  "new_monitor interval = \<lparr>reporting_interval = interval, last_observed_wall_clock = None\<rparr>"

definition has_material_clock_regression :: "time_health_monitor \<Rightarrow> system_time \<Rightarrow> bool" where
  "has_material_clock_regression m observed =
     (case last_observed_wall_clock m of
        None \<Rightarrow> False
      | Some last_seen \<Rightarrow>
          if last_seen \<le> observed then False
          else reporting_interval m < last_seen - observed)"

definition observe_boundary ::
    "time_health_monitor \<Rightarrow> system_time \<Rightarrow> bool \<Rightarrow> time_health_state \<times> time_health_monitor" where
  "observe_boundary m observed synchronization_verified =
     (let state = (if observed < 0 \<or> \<not> synchronization_verified then SynchronizationUnverified
                   else if has_material_clock_regression m observed then MaterialClockRegression
                   else Verified)
      in (state, m\<lparr>last_observed_wall_clock := Some observed\<rparr>))"

section \<open>Sequences of boundaries\<close>

text \<open>The states a monitor reports for a sequence of boundaries.\<close>

fun observe_all :: "time_health_monitor \<Rightarrow> (system_time \<times> bool) list \<Rightarrow> time_health_state list" where
  "observe_all m [] = []"
| "observe_all m ((t, v) # bs) = (case observe_boundary m t v of (s, m') \<Rightarrow> s # observe_all m' bs)"

lemma observe_boundary_simps [simp]:
  "reporting_interval (snd (observe_boundary m t v)) = reporting_interval m"
  "last_observed_wall_clock (snd (observe_boundary m t v)) = Some t"
  by (simp_all add: observe_boundary_def Let_def)

lemma length_observe_all [simp]: "length (observe_all m bs) = length bs"
  by (induction m bs rule: observe_all.induct) (auto split: prod.splits)

lemma observe_all_Suc:
  assumes "Suc i < length bs"
  shows "observe_all m bs ! Suc i =
    fst (observe_boundary \<lparr>reporting_interval = reporting_interval m, last_observed_wall_clock = Some (fst (bs ! i))\<rparr>
           (fst (bs ! Suc i)) (snd (bs ! Suc i)))"
  using assms
proof (induction m bs arbitrary: i rule: observe_all.induct)
  case (2 m t v bs)
  let ?m = "snd (observe_boundary m t v)"
  have eq: "observe_all m ((t, v) # bs) = fst (observe_boundary m t v) # observe_all ?m bs"
    by (simp add: split_beta)
  show ?case
  proof (cases i)
    case 0
    then obtain u w bs' where bs: "bs = (u, w) # bs'" using 2(2) by (cases bs) auto
    show ?thesis
      by (simp add: eq 0 bs split_beta)
         (simp add: observe_boundary_def has_material_clock_regression_def Let_def)
  next
    case (Suc j)
    then show ?thesis using 2(1) [of "fst (observe_boundary m t v)" ?m j] 2(2) by (simp add: eq split_beta)
  qed
qed simp

section \<open>Properties\<close>

text \<open>C40. A boundary after the first is reported as verified exactly when its wall clock is not before the epoch,
  the source vouches for it, and the clock did not step back by more than the reporting interval since
  the previous boundary, whatever happened at earlier boundaries and whether or not the previous one
  was itself degraded; a material step back of a vouched clock is reported as such.\<close>

theorem time_health_reports:
  assumes "Suc i < length bs"
  shows "observe_all (new_monitor interval) bs ! Suc i =
    (let (previous, _) = bs ! i; (now, vouched) = bs ! Suc i
     in if now < 0 \<or> \<not> vouched then SynchronizationUnverified
        else if interval < previous - now \<and> now < previous then MaterialClockRegression
        else Verified)"
  unfolding observe_all_Suc [OF assms]
  by (auto simp: observe_boundary_def has_material_clock_regression_def new_monitor_def split_beta Let_def)

theorem time_health_reports_witness:
  "observe_all (new_monitor 20000000) [(100000000, True), (50000000, True)] ! Suc 0 = MaterialClockRegression"
  by (subst time_health_reports) simp_all

end
