(* ===== verification/Management_Api.thy ===== *)
theory Management_Api
  imports Management Scenario Endpoint Time_Health
begin

text \<open>
  What the server says on its management interface (\<^verbatim>\<open>src/server.rs\<close>, \<^verbatim>\<open>src/identity.rs\<close>): the values it
  serializes, computed from the endpoints and the scenario controller, the text of the metrics and
  the paging of the console's scenario records.  The codecs of third-party crates are collected in
  one record; how requests are served is in the theory of the server.
\<close>

section \<open>Runtime metadata\<close>

definition MAX_RUNTIME_DEPLOYMENT_LABEL_BYTES :: nat where [const_defs]: "MAX_RUNTIME_DEPLOYMENT_LABEL_BYTES = 128"
definition MAX_RUNTIME_IMAGE_REFERENCE_BYTES :: nat where [const_defs]: "MAX_RUNTIME_IMAGE_REFERENCE_BYTES = 255"
definition SHA256_HEX_BYTES :: nat where [const_defs]: "SHA256_HEX_BYTES = 64"
definition CONSOLE_LIFECYCLE_RECORDS_PER_PAGE :: nat where [const_defs]: "CONSOLE_LIFECYCLE_RECORDS_PER_PAGE = 48"

record runtime_identity =
  ri_image_ref :: string
  ri_profile_sha256 :: string
  ri_scenario_catalog_sha256 :: string

definition new_runtime_identity :: "(bytes \<Rightarrow> string) \<Rightarrow> string \<Rightarrow> bytes \<Rightarrow> bytes \<Rightarrow> runtime_identity" where
  "new_runtime_identity sha256_hex image_ref profile scenarios =
     \<lparr>ri_image_ref = image_ref, ri_profile_sha256 = sha256_hex profile, ri_scenario_catalog_sha256 = sha256_hex scenarios\<rparr>"

record runtime_metadata =
  rm_deployment_label :: string
  rm_runtime_identity :: runtime_identity

definition valid_runtime_text :: "string \<Rightarrow> nat \<Rightarrow> bool" where
  "valid_runtime_text value maximum_bytes =
     (value \<noteq> [] \<and> length value \<le> maximum_bytes \<and> \<not> list_ex is_ascii_control (str_bytes value))"

definition is_lowercase_sha256 :: "string \<Rightarrow> bool" where
  "is_lowercase_sha256 value = (length value = SHA256_HEX_BYTES \<and> list_all is_lowercase_hex (str_bytes value))"

definition new_runtime_metadata :: "string \<Rightarrow> runtime_identity \<Rightarrow> runtime_metadata option" where
  "new_runtime_metadata label identity =
     (if valid_runtime_text label MAX_RUNTIME_DEPLOYMENT_LABEL_BYTES
         \<and> valid_runtime_text (ri_image_ref identity) MAX_RUNTIME_IMAGE_REFERENCE_BYTES
         \<and> is_lowercase_sha256 (ri_profile_sha256 identity)
         \<and> is_lowercase_sha256 (ri_scenario_catalog_sha256 identity)
      then Some \<lparr>rm_deployment_label = label, rm_runtime_identity = identity\<rparr> else None)"

section \<open>Names\<close>

text \<open>
  The names of a compiled descriptor, decoded again.  The outer \<^const>\<open>None\<close> is a panic: an empty name
  field, bytes that are not UTF-8, a name that does not end in three digits.
\<close>

definition from_utf8 :: "bytes \<Rightarrow> string option" where
  "from_utf8 bs = (if utf8_decode (map unat bs) = None then None else Some (map (\<lambda>b. char_of (unat b)) bs))"

definition management_indexed_name :: "bytes \<Rightarrow> string option" where
  "management_indexed_name encoded =
     (case encoded of
        [] \<Rightarrow> None
      | n # value \<Rightarrow> if length value < unat n then None else from_utf8 (take (unat n) value))"

definition management_pdc_name :: "endpoint_descriptor \<Rightarrow> string option" where
  "management_pdc_name d = (if ep_pdc_name d = [] then Some [] else management_indexed_name (ep_pdc_name d))"

definition trim_end_spaces :: "string \<Rightarrow> string" where
  "trim_end_spaces s = rev (dropWhile (\<lambda>c. c = CHR '' '') (rev s))"

definition management_pmu_name :: "endpoint_descriptor \<Rightarrow> string option" where
  "management_pmu_name d =
     (case ep_wire_version d of
        V2 \<Rightarrow> do { metadata \<leftarrow> ep_v2 d; name \<leftarrow> from_utf8 (station_name metadata); Some (trim_end_spaces name) }
      | V3 \<Rightarrow> management_indexed_name (ep_pmu_name d))"

text \<open>\<^verbatim>\<open>split_at\<close> panics unless the position is at the start of a character or at the end.\<close>

definition is_char_boundary :: "nat \<Rightarrow> string \<Rightarrow> bool" where
  "is_char_boundary i s \<longleftrightarrow> i = length s \<or> i < length s \<and> \<not> continuation (of_char (s ! i))"

definition management_pmu_name_parts :: "endpoint_descriptor \<Rightarrow> (string \<times> string) option" where
  "management_pmu_name_parts d =
     do { name \<leftarrow> management_pmu_name d;
          let split_at = length name - 3;
          if length name < 3 \<or> \<not> is_char_boundary split_at name
             \<or> \<not> list_all is_ascii_digit (str_bytes (drop split_at name))
          then None else Some (take split_at name, drop split_at name) }"

definition management_pmu_name_prefix :: "endpoint_descriptor \<Rightarrow> string option" where
  "management_pmu_name_prefix d = map_option fst (management_pmu_name_parts d)"

section \<open>State of the fleet\<close>

record management_fleet_state =
  fs_pdc_name :: string
  fs_pmu_name_prefix :: string
  fs_wire_version :: u8
  fs_reporting_rate_hz :: u16
  fs_nominal_frequency_hz :: u16
  fs_first_stream_id :: u16
  fs_first_pmu_id :: u16
  fs_first_port :: u16

definition fleet_state :: "endpoint list \<Rightarrow> management_fleet_state option" where
  "fleet_state endpoints =
     (case endpoints of
        [] \<Rightarrow> None
      | first # _ \<Rightarrow>
          let d = en_descriptor first
          in do { pdc_name \<leftarrow> management_pdc_name d;
                  prefix \<leftarrow> management_pmu_name_prefix d;
                  Some \<lparr>fs_pdc_name = pdc_name, fs_pmu_name_prefix = prefix,
                        fs_wire_version = protocol_version (ep_wire_version d),
                        fs_reporting_rate_hz = ep_data_rate_hz d, fs_nominal_frequency_hz = ep_nominal_frequency_hz d,
                        fs_first_stream_id = ep_stream_id d, fs_first_pmu_id = ep_pmu_id d,
                        fs_first_port = sa_port (ep_address d)\<rparr> })"

record management_pdc_state =
  pd_connection_id :: u64
  pd_streaming :: bool

record management_endpoint_state =
  es_stream_id :: u16
  es_active_connections :: nat
  es_connections :: "management_pdc_state list"

definition active_connection_count :: "endpoint \<Rightarrow> nat" where
  "active_connection_count en = length (filter (\<lambda>c. c \<noteq> None) (en_connections en))"

definition endpoint_state :: "endpoint \<Rightarrow> management_endpoint_state" where
  "endpoint_state en =
     \<lparr>es_stream_id = ep_stream_id (en_descriptor en), es_active_connections = active_connection_count en,
      es_connections = map (\<lambda>c. \<lparr>pd_connection_id = cn_id c, pd_streaming = cn_streaming c\<rparr>)
        (List.map_filter (\<lambda>x. x) (en_connections en))\<rparr>"

section \<open>The catalog\<close>

datatype target_compatibility = EndpointCompatible | PdcCompatible

fun management_target_compatibility :: "scenario_kind \<Rightarrow> target_compatibility" where
  "management_target_compatibility DisconnectPdc = PdcCompatible"
| "management_target_compatibility _ = EndpointCompatible"

record management_catalog_scenario =
  ms_index :: nat
  ms_name :: string
  ms_kind :: scenario_kind
  ms_target_compatibility :: target_compatibility
  ms_lifecycle :: scenario_lifecycle
  ms_start_frame_offset :: u64
  ms_duration_frames :: "u64 option"
  ms_signal :: "signal_excursion option"

record catalog_response_body =
  mr_version :: u32
  mr_content_sha256 :: string
  mr_scenarios :: "management_catalog_scenario list"

definition catalog_scenarios :: "scenario_catalog \<Rightarrow> management_catalog_scenario list" where
  "catalog_scenarios cat = map (\<lambda>(index, s).
     \<lparr>ms_index = index, ms_name = sd_name s, ms_kind = sd_kind s,
      ms_target_compatibility = management_target_compatibility (sd_kind s), ms_lifecycle = sd_lifecycle s,
      ms_start_frame_offset = start_frame_offset s, ms_duration_frames = duration_frames s,
      ms_signal = sd_signal s\<rparr>) (enumerate 0 (sc_scenarios cat))"

section \<open>Pages of scenario records\<close>

record console_controller_state =
  ct_current_sample_index :: "u64 option"
  ct_prepared :: "prepared_snapshot list"
  ct_pending :: "pending_snapshot list"
  ct_active :: "active_snapshot list"
  ct_prepared_count :: nat
  ct_pending_count :: nat
  ct_active_count :: nat

text \<open>
  The lengths of vectors are natural numbers here, so the checked sum of the three counts always
  exists.
\<close>

definition management_console_lifecycle_page ::
    "controller_snapshot \<Rightarrow> nat \<Rightarrow> (console_controller_state \<times> nat option) option" where
  "management_console_lifecycle_page s offset =
     (let prepared_count = length (cs_prepared s); pending_count = length (cs_pending s); active_count = length (cs_active s);
          total_count = prepared_count + pending_count + active_count
      in if total_count < offset then None
         else
           let prepared = take CONSOLE_LIFECYCLE_RECORDS_PER_PAGE (drop (min offset prepared_count) (cs_prepared s));
               remaining = CONSOLE_LIFECYCLE_RECORDS_PER_PAGE - length prepared;
               pending = take remaining (drop (min (offset - prepared_count) pending_count) (cs_pending s));
               remaining = remaining - length pending;
               active = take remaining (drop (min (offset - (prepared_count + pending_count)) active_count) (cs_active s));
               page_record_count = length prepared + length pending + length active
           in Some (\<lparr>ct_current_sample_index = cs_current_sample_index s, ct_prepared = prepared, ct_pending = pending,
                     ct_active = active, ct_prepared_count = prepared_count, ct_pending_count = pending_count,
                     ct_active_count = active_count\<rparr>,
                    if offset + page_record_count < total_count then Some (offset + page_record_count) else None))"

section \<open>Metrics\<close>

definition replace_char :: "char \<Rightarrow> string \<Rightarrow> string \<Rightarrow> string" where
  "replace_char c by s = concat (map (\<lambda>x. if x = c then by else [x]) s)"

definition prometheus_label :: "string \<Rightarrow> string" where
  "prometheus_label value =
     replace_char (CHR 0x0a) [CHR 0x5c, CHR ''n''] (replace_char (CHR 0x22) [CHR 0x5c, CHR 0x22]
       (replace_char (CHR 0x5c) [CHR 0x5c, CHR 0x5c] value))"

definition line :: "string \<Rightarrow> string" where "line s = s @ [CHR 0x0a]"

definition quoted :: "string \<Rightarrow> string" where "quoted s = [CHR 0x22] @ s @ [CHR 0x22]"

definition show_bool :: "bool \<Rightarrow> string" where "show_bool b = (if b then ''1'' else ''0'')"

definition write_time_health_metrics :: "time_health_state \<Rightarrow> string" where
  "write_time_health_metrics current =
     concat (map (\<lambda>state. line (''c37_118_simulator_time_health_'' @ time_health_as_str state @ '' '' @ show_bool (state = current)))
       [Unobserved, Verified, SynchronizationUnverified, MaterialClockRegression])"

definition counter_line :: "string \<Rightarrow> u64 \<Rightarrow> string" where
  "counter_line name n = line (''c37_118_simulator_'' @ name @ '' '' @ show_nat (unat n))"

definition management_metrics ::
    "endpoint list \<Rightarrow> bool \<Rightarrow> time_health_state \<Rightarrow> server_stats \<Rightarrow> u64 option \<Rightarrow> runtime_metadata option \<Rightarrow> string" where
  "management_metrics endpoints ready health stats rejected metadata =
     line (''c37_118_simulator_ready '' @ show_bool ready)
   @ write_time_health_metrics health
   @ line (''c37_118_simulator_pdc_active '' @ show_nat (sum_list (map active_connection_count endpoints)))
   @ counter_line ''pdc_rejected_total'' (rejected_clients stats)
   @ counter_line ''pdc_slow_total'' (slow_clients stats)
   @ counter_line ''pdc_disconnected_total'' (closed_clients stats)
   @ counter_line ''sent_data_frames_total'' (sent_data_frames stats)
   @ counter_line ''skipped_ticks_total'' (skipped_ticks stats)
   @ (case rejected of None \<Rightarrow> [] | Some n \<Rightarrow> counter_line ''management_rejected_connections_total'' n)
   @ (case metadata of
        None \<Rightarrow> []
      | Some m \<Rightarrow> line (''c37_118_simulator_runtime_info{deployment_label='' @ quoted (prometheus_label (rm_deployment_label m))
          @ '',image_ref='' @ quoted (prometheus_label (ri_image_ref (rm_runtime_identity m)))
          @ '',profile_sha256='' @ quoted (ri_profile_sha256 (rm_runtime_identity m))
          @ '',scenario_catalog_sha256='' @ quoted (ri_scenario_catalog_sha256 (rm_runtime_identity m)) @ ''} 1''))
   @ concat (map (\<lambda>en. line (''c37_118_simulator_pdc_connections{stream_id=''
         @ quoted (show_nat (unat (ep_stream_id (en_descriptor en)))) @ ''} '' @ show_nat (active_connection_count en))) endpoints)"

section \<open>Values and codecs\<close>

record state_response_body =
  st_ready :: bool
  st_time_health :: time_health_state
  st_stats :: server_stats
  st_fleet :: management_fleet_state
  st_endpoints :: "management_endpoint_state list"
  st_runtime_metadata :: "runtime_metadata option"
  st_scenario_controller :: "controller_snapshot option"

record console_state_response_body =
  co_format :: string
  co_process_identity :: string
  co_controller_revision :: u64
  co_catalog_content_sha256 :: string
  co_ready :: bool
  co_time_health :: time_health_state
  co_stats :: server_stats
  co_fleet :: management_fleet_state
  co_endpoints :: "management_endpoint_state list"
  co_runtime_metadata :: "runtime_metadata option"
  co_scenario_controller :: console_controller_state
  co_next_cursor :: "string option"

datatype management_value =
    HealthValue string
  | ReadinessValue bool "runtime_metadata option"
  | CatalogValue catalog_response_body
  | StateValue state_response_body
  | ConsoleStateValue console_state_response_body
  | PreparedValue prepared_snapshot
  | PendingValue pending_snapshot

text \<open>The record that is logged for a scenario action.\<close>

record scenario_log =
  lg_timestamp_unix_ms :: int
  lg_deployment_label :: string
  lg_actor_label :: "string option"
  lg_action :: string
  lg_result :: management_value

text \<open>
  The codecs: the HTTP tokenizer, the JSON decoders, the JSON writer for the error envelope, for the
  values above, for log records and for a catalog (\<^const>\<open>None\<close> where \<^verbatim>\<open>to_vec\<close> fails), and SHA-256 in
  hexadecimal.
\<close>

record codec =
  ex_http :: "bytes \<Rightarrow> http_result"
  ex_json :: json_decoders
  ex_error :: "string \<Rightarrow> string \<Rightarrow> json_output"
  ex_value :: "management_value \<Rightarrow> json_output"
  ex_log :: "scenario_log \<Rightarrow> string option"
  ex_catalog :: "scenario_catalog \<Rightarrow> bytes option"
  ex_sha256_hex :: "bytes \<Rightarrow> string"

definition content_sha256 :: "codec \<Rightarrow> scenario_catalog \<Rightarrow> string option" where
  "content_sha256 ex cat = map_option (ex_sha256_hex ex) (ex_catalog ex cat)"

definition console_process_identity :: "codec \<Rightarrow> nat \<Rightarrow> system_time \<Rightarrow> u64 \<Rightarrow> string" where
  "console_process_identity ex process_id now sequence =
     ex_sha256_hex ex (str_bytes (show_nat process_id @ '':'' @ show_nat (if now < 0 then 0 else nat now) @ '':''
       @ show_nat (unat sequence)))"

end
