(* ===== verification/Management_Connection.thy ===== *)
theory Management_Connection
  imports Management_Api
begin

text \<open>
  The management listener and its connections (\<^verbatim>\<open>src/server.rs\<close>): up to eight connections, each with a
  buffer for one request and at most one response to send.  What the server answers to a request is
  not here but in the server's own theory.
\<close>

section \<open>Data\<close>

definition MANAGEMENT_WRITE_CHUNK_BYTES :: nat where [const_defs]: "MANAGEMENT_WRITE_CHUNK_BYTES = 8 * 1024"

record management_connection =
  mc_connection_id :: u64
  mc_token :: u64
  mc_stream :: socket
  mc_receive :: bytes
  mc_received :: nat
  mc_response :: "bytes option"
  mc_response_offset :: nat

record management_listener =
  ml_listener :: socket
  ml_connections :: "management_connection option list"
  ml_rejected_connections :: u64

datatype management_read_result =
    ReadIncomplete
  | ReadRequest management_request
  | ReadResponse bytes
  | ReadClosed

record 'w mctx =
  mx_listener :: management_listener
  mx_next_connection_id :: u64
  mx_world :: 'w

type_synonym ('w, 'a) management_action = "('w mctx, server_error, 'a) prog"

definition mx_world_op :: "('w \<Rightarrow> 'a \<times> 'w) \<Rightarrow> ('w, 'a) management_action" where
  "mx_world_op f = (\<lambda>c. case f (mx_world c) of (x, w) \<Rightarrow> Ok (x, c\<lparr>mx_world := w\<rparr>))"

text \<open>\<^verbatim>\<open>management.connections[slot_index]\<close> panics out of range; so does \<^verbatim>\<open>expect\<close> on an empty slot.\<close>

definition get_mslot :: "nat \<Rightarrow> ('w, management_connection option) management_action" where
  "get_mslot slot = bind_p (gets (\<lambda>c. ml_connections (mx_listener c))) (\<lambda>cs.
     expect (if slot < length cs then Some (cs ! slot) else None))"

definition get_mconnection :: "nat \<Rightarrow> ('w, management_connection) management_action" where
  "get_mconnection slot = bind_p (get_mslot slot) expect"

definition set_mslot :: "nat \<Rightarrow> management_connection option \<Rightarrow> ('w, unit) management_action" where
  "set_mslot slot x =
     modify (\<lambda>c. c\<lparr>mx_listener := (mx_listener c)\<lparr>ml_connections := (ml_connections (mx_listener c))[slot := x]\<rparr>\<rparr>)"

section \<open>Accepting\<close>

text \<open>Refusing a stream: it is dropped and counted.\<close>

definition reject_management :: "'w os \<Rightarrow> socket \<Rightarrow> ('w, unit option) management_action" where
  "reject_management os stream =
     bind_p (mx_world_op (\<lambda>w. ((), os_drop os stream w))) (\<lambda>_.
     bind_p (modify (\<lambda>c. c\<lparr>mx_listener := ml_rejected_connections_update (\<lambda>n. n + 1) (mx_listener c)\<rparr>)) (\<lambda>_.
     ret None))"

definition new_management_connection :: "u64 \<Rightarrow> u64 \<Rightarrow> socket \<Rightarrow> management_connection" where
  "new_management_connection connection_id token stream =
     \<lparr>mc_connection_id = connection_id, mc_token = token, mc_stream = stream,
      mc_receive = replicate MAX_REQUEST_BYTES 0, mc_received = 0, mc_response = None, mc_response_offset = 0\<rparr>"

definition find_free_management :: "management_connection option list \<Rightarrow> nat option" where
  "find_free_management cs = List.find (\<lambda>i. cs ! i = None) [0..<length cs]"

definition accept_management_round :: "'w os \<Rightarrow> ('w, unit option) management_action" where
  "accept_management_round os =
     bind_p (gets mx_listener) (\<lambda>management.
     bind_p (mx_world_op (os_accept os (ml_listener management))) (\<lambda>r. case r of
         Done stream \<Rightarrow>
           (case find_free_management (ml_connections management) of
              None \<Rightarrow> reject_management os stream
            | Some slot \<Rightarrow>
                bind_p (gets mx_next_connection_id) (\<lambda>connection_id.
                case checked_add connection_id 1 of
                  None \<Rightarrow> reject_management os stream
                | Some next_id \<Rightarrow>
                    (case management_connection_token (of_nat slot) connection_id of
                       Inl _ \<Rightarrow> reject_management os stream
                     | Inr token \<Rightarrow>
                         bind_p (mx_world_op (os_register os stream token)) (\<lambda>reg. case reg of
                             Done _ \<Rightarrow>
                               bind_p (modify (mx_next_connection_id_update (\<lambda>_. next_id))) (\<lambda>_.
                               bind_p (set_mslot slot (Some (new_management_connection connection_id token stream))) (\<lambda>_.
                               ret None))
                           | _ \<Rightarrow> reject_management os stream))))
       | WouldBlock \<Rightarrow> ret (Some ())
       | Failed m \<Rightarrow> raise (IoError m)))"

definition accept_management_connections :: "'w os \<Rightarrow> ('w, unit) management_action" where
  "accept_management_connections os = for_upto (unat MANAGEMENT_CONNECTION_LIMIT) (accept_management_round os)"

section \<open>Reading a request\<close>

text \<open>
  One round of the reading loop, on the connection and the world.  The loop ends with whether the
  peer has closed; an I/O error is a value, since the caller handles it.
\<close>

definition read_management_round ::
    "'w os \<Rightarrow> (management_connection \<times> 'w, server_error, (string + bool) option) prog" where
  "read_management_round os = (\<lambda>(c, w).
     if mc_received c = length (mc_receive c) then Ok (Some (Inr False), c, w)
     else if length (mc_receive c) < mc_received c then Panic
     else case os_read os (mc_stream c) (length (mc_receive c) - mc_received c) w of
         (Done data, w') \<Rightarrow>
           if data = [] then Ok (Some (Inr True), c, w')
           else Ok (None, c\<lparr>mc_receive := write_at (mc_received c) data (mc_receive c),
                           mc_received := mc_received c + length data\<rparr>, w')
       | (WouldBlock, w') \<Rightarrow> Ok (Some (Inr False), c, w')
       | (Failed e, w') \<Rightarrow> Ok (Some (Inl e), c, w'))"

text \<open>A response, or the generic one when it cannot be encoded; \<^const>\<open>None\<close> is the panic of \<^verbatim>\<open>empty_response\<close>.\<close>

definition management_response_or_internal ::
    "(string \<Rightarrow> string \<Rightarrow> json_output) \<Rightarrow> response_encode_error + bytes \<Rightarrow> bytes option" where
  "management_response_or_internal error_json response =
     (case response of
        Inr r \<Rightarrow> Some r
      | Inl _ \<Rightarrow>
          (case json_error error_json StatusInternalServerError ''response_encoding_failed''
                  ''management response encoding failed'' of
             Inr r \<Rightarrow> Some r
           | Inl _ \<Rightarrow> empty_response StatusInternalServerError))"

definition read_outcome :: "codec \<Rightarrow> bool \<Rightarrow> bytes \<Rightarrow> management_read_result option" where
  "read_outcome ex peer_closed input =
     (case parse (ex_http ex) (ex_json ex) input of
        Complete request \<Rightarrow> Some (ReadRequest request)
      | ParseIncomplete \<Rightarrow>
          if peer_closed then map_option ReadResponse
            (management_response_or_internal (ex_error ex) (parse_error_response (ex_error ex) MalformedRequest))
          else Some ReadIncomplete
      | ParseFailed e \<Rightarrow> map_option ReadResponse
            (management_response_or_internal (ex_error ex) (parse_error_response (ex_error ex) e)))"

definition read_management_connection ::
    "'w os \<Rightarrow> codec \<Rightarrow> (management_connection \<times> 'w, server_error, string + management_read_result) prog" where
  "read_management_connection os ex =
     bind_p (loop_p (read_management_round os)) (\<lambda>r. case r of
         Inl e \<Rightarrow> ret (Inl e)
       | Inr peer_closed \<Rightarrow>
           bind_p (gets fst) (\<lambda>c.
           if mc_received c = 0 \<and> peer_closed then ret (Inr ReadClosed)
           else bind_p (expect (if mc_received c \<le> length (mc_receive c)
                                then read_outcome ex peer_closed (take (mc_received c) (mc_receive c)) else None)) (\<lambda>result.
                ret (Inr result))))"

section \<open>Sending a response\<close>

definition queue_management_response :: "'w os \<Rightarrow> nat \<Rightarrow> management_connection \<Rightarrow> bytes \<Rightarrow> ('w, unit) management_action" where
  "queue_management_response os slot c response =
     (let c' = c\<lparr>mc_response := Some response, mc_response_offset := 0\<rparr>
      in bind_p (set_mslot slot (Some c')) (\<lambda>_.
         bind_p (mx_world_op (os_reregister os (mc_stream c') (mc_token c') WRITABLE)) io_try))"

text \<open>\<^verbatim>\<open>Ok(false)\<close> and an error have the same effect on the caller, which closes the connection.\<close>

definition flush_management_connection :: "'w os \<Rightarrow> nat \<Rightarrow> ('w, string + bool) management_action" where
  "flush_management_connection os slot =
     bind_p (get_mconnection slot) (\<lambda>c.
     case mc_response c of
       None \<Rightarrow> ret (Inr False)
     | Some response \<Rightarrow>
         let chunk_end = min (length response) (mc_response_offset c + MANAGEMENT_WRITE_CHUNK_BYTES);
             reregister = bind_p (mx_world_op (os_reregister os (mc_stream c) (mc_token c) WRITABLE)) (\<lambda>r. case r of
                 Done _ \<Rightarrow> ret (Inr True)
               | WouldBlock \<Rightarrow> ret (Inl ''would block'')
               | Failed m \<Rightarrow> ret (Inl m))
         in if chunk_end < mc_response_offset c then panic
            else bind_p (mx_world_op (os_write os (mc_stream c) (drop (mc_response_offset c) (take chunk_end response)))) (\<lambda>r.
                 case r of
                   Done written \<Rightarrow>
                     if written = 0 then ret (Inr False)
                     else let c' = c\<lparr>mc_response_offset := mc_response_offset c + written\<rparr>
                          in bind_p (set_mslot slot (Some c')) (\<lambda>_.
                             if mc_response_offset c' = length response then ret (Inr False) else reregister)
                 | WouldBlock \<Rightarrow> reregister
                 | Failed _ \<Rightarrow> ret (Inr False)))"

definition close_management_connection :: "'w os \<Rightarrow> nat \<Rightarrow> u64 \<Rightarrow> ('w, unit) management_action" where
  "close_management_connection os slot connection_id =
     bind_p (get_mslot slot) (\<lambda>opt. case opt of
         None \<Rightarrow> ret ()
       | Some c \<Rightarrow>
           if mc_connection_id c \<noteq> connection_id then ret ()
           else bind_p (set_mslot slot None) (\<lambda>_.
                bind_p (mx_world_op (os_deregister os (mc_stream c))) (\<lambda>r.
                bind_p (mx_world_op (\<lambda>w. ((), os_drop os (mc_stream c) w))) (\<lambda>_.
                io_try r))))"

end
