(* ===== verification/Server.thy ===== *)
theory Server
  imports Management_Connection Scenario Time_Health
begin

text \<open>
  The server (\<^verbatim>\<open>src/server.rs\<close>): binding the endpoints of a compiled profile and the management
  listener, dispatching the events of listeners and connections, answering management requests,
  expiring idle connections and emitting one data frame per endpoint and reporting boundary.  The
  system clock, the sockets and the poller are the operating system; the scenario controller and
  the time health monitor are the models of their own theories.
\<close>

section \<open>Data\<close>

record 'w server =
  sv_endpoints :: "endpoint list"
  sv_next_connection_id :: u64
  sv_scheduler :: scheduler
  sv_wall_clock :: wall_clock
  sv_seed :: u64
  sv_stats :: server_stats
  sv_controller :: "controller option"
  sv_time_health_monitor :: time_health_monitor
  sv_time_source :: time_synchronization_source
  sv_time_health :: time_health_state
  sv_management :: "management_listener option"
  sv_next_management_connection_id :: u64
  sv_ready :: bool
  sv_runtime_metadata :: "runtime_metadata option"
  sv_console_process_identity :: string
  sv_world :: 'w

type_synonym ('w, 'a) server_action = "('w server, server_error, 'a) prog"

definition default_stats :: server_stats where
  "default_stats = \<lparr>accepted_clients = 0, closed_clients = 0, rejected_clients = 0, malformed_commands = 0,
     unsupported_commands = 0, slow_clients = 0, sent_data_frames = 0, skipped_ticks = 0\<rparr>"

definition sv_world_op :: "('w \<Rightarrow> 'a \<times> 'w) \<Rightarrow> ('w, 'a) server_action" where
  "sv_world_op f = (\<lambda>s. case f (sv_world s) of (x, w) \<Rightarrow> Ok (x, s\<lparr>sv_world := w\<rparr>))"

text \<open>Running an endpoint operation on \<^verbatim>\<open>self.endpoints[index]\<close>, which panics out of range.\<close>

definition to_ctx :: "nat \<Rightarrow> 'w server \<Rightarrow> 'w ctx" where
  "to_ctx i s = \<lparr>cx_endpoint = sv_endpoints s ! i, cx_next_connection_id = sv_next_connection_id s,
     cx_stats = sv_stats s, cx_world = sv_world s\<rparr>"

definition from_ctx :: "nat \<Rightarrow> 'w ctx \<Rightarrow> 'w server \<Rightarrow> 'w server" where
  "from_ctx i c s = s\<lparr>sv_endpoints := (sv_endpoints s)[i := cx_endpoint c],
     sv_next_connection_id := cx_next_connection_id c, sv_stats := cx_stats c, sv_world := cx_world c\<rparr>"

definition on_endpoint :: "nat \<Rightarrow> ('w, 'a) action \<Rightarrow> ('w, 'a) server_action" where
  "on_endpoint i f = (\<lambda>s. if i < length (sv_endpoints s) then zoom (to_ctx i) (from_ctx i) f s else Panic)"

section \<open>Binding\<close>

text \<open>The static frames and the data buffer of an endpoint; \<^const>\<open>None\<close> is a panic of an encoder.\<close>

definition endpoint_frames_for :: "endpoint_descriptor \<Rightarrow> timestamp \<Rightarrow> (endpoint_frames \<times> data_frame) option" where
  "endpoint_frames_for d ts =
     (case ep_wire_version d of
        V2 \<Rightarrow> do { header \<leftarrow> encode_header_v2 d ts;
                  configuration_1 \<leftarrow> encode_configuration_1 d ts;
                  configuration_2 \<leftarrow> encode_configuration_2 d ts;
                  Some (FramesV2 header configuration_1 configuration_2,
                        DataV2 (replicate PERIODIC_DATA_FRAME_BYTES_V2 0)) }
      | V3 \<Rightarrow> do { capability \<leftarrow> encode_capability d ts;
                  stream_configuration \<leftarrow> encode_stream_configuration d ts;
                  Some (FramesV3 capability stream_configuration,
                        DataV3 (replicate PERIODIC_DATA_FRAME_BYTES_V3 0)) })"

text \<open>
  One round of the loop over the endpoints: the listener is bound and registered, then the frames
  are encoded.  While binding there is no server yet, so the state is the world alone.
\<close>

definition sys :: "('w \<Rightarrow> 'a \<times> 'w) \<Rightarrow> ('w, server_error, 'a) prog" where
  "sys f = (\<lambda>w. Ok (f w))"

definition bind_endpoint ::
    "'w os \<Rightarrow> limits \<Rightarrow> timestamp \<Rightarrow> nat \<Rightarrow> endpoint_descriptor \<Rightarrow> ('w, server_error, endpoint) prog" where
  "bind_endpoint os lims ts index d =
     bind_p (bind_p (sys (os_bind os (ep_address d))) io_try) (\<lambda>listener.
     bind_p (bind_p (sys (os_register os listener (listener_token (of_nat index)))) io_try) (\<lambda>_.
     bind_p (expect (endpoint_frames_for d ts)) (\<lambda>(frames, data_frame).
     ret \<lparr>en_descriptor = d, en_limits = lims, en_listener = listener, en_frames = frames,
          en_data_frame = data_frame, en_connections = replicate 2 None\<rparr>)))"

fun bind_endpoints ::
    "'w os \<Rightarrow> limits \<Rightarrow> timestamp \<Rightarrow> nat \<Rightarrow> endpoint_descriptor list \<Rightarrow> ('w, server_error, endpoint list) prog" where
  "bind_endpoints os lims ts index [] = ret []"
| "bind_endpoints os lims ts index (d # ds) =
     bind_p (bind_endpoint os lims ts index d) (\<lambda>en.
     bind_p (bind_endpoints os lims ts (Suc index) ds) (\<lambda>ens.
     ret (en # ens)))"

definition frames_valid :: "endpoint \<Rightarrow> bool" where
  "frames_valid en =
     (case (ep_wire_version (en_descriptor en), en_frames en) of
        (V2, FramesV2 header _ _) \<Rightarrow>
          (case parse_v2 header of
             Inl _ \<Rightarrow> False
           | Inr frame \<Rightarrow> version_v2 frame = V2_PROTOCOL_VERSION \<and> frame_type_v2 frame = FRAME_TYPE_HEADER_V2
               \<and> idcode_v2 frame = ep_stream_id (en_descriptor en))
      | (V3, FramesV3 capability _) \<Rightarrow>
          (case parse_v3 capability of
             Inl _ \<Rightarrow> False
           | Inr frame \<Rightarrow> version_v3 frame = V3_PROTOCOL_VERSION \<and> frame_type_v3 frame = FRAME_TYPE_CAPABILITY
               \<and> stream_id_v3 frame = ep_stream_id (en_descriptor en))
      | _ \<Rightarrow> False)"

definition selected_wire_frames_are_valid :: "endpoint list \<Rightarrow> bool" where
  "selected_wire_frames_are_valid endpoints = list_all frames_valid endpoints"

text \<open>The management listener, when one is configured.\<close>

definition bind_management :: "'w os \<Rightarrow> socket_addr option \<Rightarrow> ('w, server_error, management_listener option) prog" where
  "bind_management os config =
     (case config of
        None \<Rightarrow> ret None
      | Some address \<Rightarrow>
          bind_p (bind_p (sys (os_bind os address)) io_try) (\<lambda>listener.
          bind_p (bind_p (sys (os_register os listener MANAGEMENT_LISTENER_TOKEN)) io_try) (\<lambda>_.
          ret (Some \<lparr>ml_listener = listener,
                     ml_connections = replicate (unat MANAGEMENT_CONNECTION_LIMIT) None, ml_rejected_connections = 0\<rparr>))))"

definition new_console_process_identity :: "'w os \<Rightarrow> codec \<Rightarrow> ('w, server_error, string) prog" where
  "new_console_process_identity os ex =
     bind_p (sys (os_next_incarnation os)) (\<lambda>sequence.
     bind_p (sys (os_system_time os)) (\<lambda>now.
     bind_p (sys (os_process_id os)) (\<lambda>process_id.
     ret (console_process_identity ex process_id now sequence))))"

text \<open>
  The reporting interval is one second divided by the rate; the division fails for a rate of zero.
\<close>

definition bind_inner ::
    "'w os \<Rightarrow> codec \<Rightarrow> compiled_profile \<Rightarrow> controller option \<Rightarrow> time_synchronization_source \<Rightarrow> socket_addr option
      \<Rightarrow> ('w, server_error, 'w server) prog" where
  "bind_inner os ex profile controller source config =
     (case cp_endpoints profile of
        [] \<Rightarrow> raise NoEndpoints
      | first # _ \<Rightarrow>
          let rate = ep_data_rate_hz first; time_base = ep_time_base first
          in if list_ex (\<lambda>d. ep_data_rate_hz d \<noteq> rate \<or> ep_time_base d \<noteq> time_base) (cp_endpoints profile)
             then raise MixedRates
             else if rate = 0 then raise ZeroDataRate
             else
               bind_p (bind_p (sys (os_poll_new os)) io_try) (\<lambda>_.
               bind_p (sys (os_system_time os)) (\<lambda>system_now.
               bind_p (sys (os_now os)) (\<lambda>now.
               bind_p (lift_ok (aligned_start system_now now rate time_base)) (\<lambda>(clock, first_sample_at).
               bind_p (bind_endpoints os (cp_limits profile) (timestamp_for_sample clock 0) 0 (cp_endpoints profile)) (\<lambda>endpoints.
               bind_p (bind_management os config) (\<lambda>management.
               bind_p (new_console_process_identity os ex) (\<lambda>identity.
               bind_p (gets (\<lambda>w. w)) (\<lambda>w.
               ret \<lparr>sv_endpoints = endpoints, sv_next_connection_id = 1,
                    sv_scheduler = new_scheduler rate first_sample_at, sv_wall_clock = clock,
                    sv_seed = cp_seed profile, sv_stats = default_stats, sv_controller = controller,
                    sv_time_health_monitor = new_monitor (1000000000 div uint rate), sv_time_source = source,
                    sv_time_health = Unobserved, sv_management = management, sv_next_management_connection_id = 1,
                    sv_ready = selected_wire_frames_are_valid endpoints, sv_runtime_metadata = None,
                    sv_console_process_identity = identity, sv_world = w\<rparr>)))))))))"

definition bind_server :: "'w os \<Rightarrow> codec \<Rightarrow> compiled_profile \<Rightarrow> ('w, server_error, 'w server) prog" where
  "bind_server os ex profile = bind_inner os ex profile None AlwaysVerified None"

definition bind_with_scenarios ::
    "'w os \<Rightarrow> codec \<Rightarrow> compiled_profile \<Rightarrow> scenario_catalog \<Rightarrow> ('w, server_error, 'w server) prog" where
  "bind_with_scenarios os ex profile cat = bind_inner os ex profile (Some (new_controller cat)) AlwaysVerified None"

definition bind_with_runtime_time_health ::
    "'w os \<Rightarrow> codec \<Rightarrow> compiled_profile \<Rightarrow> scenario_catalog \<Rightarrow> time_synchronization_source
      \<Rightarrow> ('w, server_error, 'w server) prog" where
  "bind_with_runtime_time_health os ex profile cat source = bind_inner os ex profile (Some (new_controller cat)) source None"

definition bind_with_management ::
    "'w os \<Rightarrow> codec \<Rightarrow> compiled_profile \<Rightarrow> scenario_catalog \<Rightarrow> time_synchronization_source \<Rightarrow> socket_addr
      \<Rightarrow> ('w, server_error, 'w server) prog" where
  "bind_with_management os ex profile cat source address =
     bind_inner os ex profile (Some (new_controller cat)) source (Some address)"

text \<open>False when the metadata is not safe to serialize; then nothing changes.\<close>

definition configure_runtime_metadata :: "string \<Rightarrow> runtime_identity \<Rightarrow> ('w, bool) server_action" where
  "configure_runtime_metadata label identity =
     (case new_runtime_metadata label identity of
        None \<Rightarrow> ret False
      | Some metadata \<Rightarrow> bind_p (modify (\<lambda>s. s\<lparr>sv_runtime_metadata := Some metadata\<rparr>)) (\<lambda>_. ret True))"

section \<open>Events\<close>

definition dispatch_listener :: "'w os \<Rightarrow> nat \<Rightarrow> bool \<Rightarrow> ('w, unit) server_action" where
  "dispatch_listener os endpoint_index readable =
     bind_p (gets (\<lambda>s. length (sv_endpoints s))) (\<lambda>endpoint_count.
     if readable then on_endpoint endpoint_index (accept_connections os (of_nat endpoint_count) (of_nat endpoint_index))
     else ret ())"

text \<open>The event of a connection: stale identifiers are ignored, reading comes before writing.\<close>

definition connection_event :: "'w os \<Rightarrow> nat \<Rightarrow> u64 \<Rightarrow> bool \<Rightarrow> bool \<Rightarrow> ('w, unit) action" where
  "connection_event os slot connection_id readable writable =
     bind_p (get_slot slot) (\<lambda>opt.
     if (case opt of None \<Rightarrow> True | Some c \<Rightarrow> cn_id c \<noteq> connection_id) then ret ()
     else bind_p (if readable then read_connection os slot else ret True) (\<lambda>ok.
          if \<not> ok then close_connection os slot connection_id
          else bind_p (if writable then flush_connection os slot else ret True) (\<lambda>ok'.
               if \<not> ok' then close_connection os slot connection_id else ret ())))"

definition dispatch_connection :: "'w os \<Rightarrow> nat \<Rightarrow> nat \<Rightarrow> u64 \<Rightarrow> bool \<Rightarrow> bool \<Rightarrow> ('w, unit) server_action" where
  "dispatch_connection os endpoint_index slot connection_id readable writable =
     on_endpoint endpoint_index (connection_event os slot connection_id readable writable)"

section \<open>Deadlines\<close>

definition expire_slot :: "'w os \<Rightarrow> instant \<Rightarrow> nat \<Rightarrow> ('w, unit) action" where
  "expire_slot os now slot =
     bind_p (get_slot slot) (\<lambda>opt. case opt of
         None \<Rightarrow> ret ()
       | Some c \<Rightarrow> if deadline_expired c now then close_connection os slot (cn_id c) else ret ())"

definition expire_connections :: "'w os \<Rightarrow> instant \<Rightarrow> ('w, unit) server_action" where
  "expire_connections os now =
     bind_p (gets (\<lambda>s. length (sv_endpoints s))) (\<lambda>n.
     for_each [0..<n] (\<lambda>i. on_endpoint i (for_each [0..<2] (expire_slot os now))))"

section \<open>Data frames\<close>

text \<open>The connections a scenario disconnects: for each identifier the first slot that holds it.\<close>

definition disconnect_one :: "'w os \<Rightarrow> u64 \<Rightarrow> ('w, unit) action" where
  "disconnect_one os connection_id =
     bind_p (gets cx_endpoint) (\<lambda>en.
     case List.find (\<lambda>slot. case en_connections en ! slot of None \<Rightarrow> False | Some c \<Rightarrow> cn_id c = connection_id)
            [0..<length (en_connections en)] of
       None \<Rightarrow> ret ()
     | Some slot \<Rightarrow> close_connection os slot connection_id)"

definition disconnect_planned :: "'w os \<Rightarrow> frame_plan_type option \<Rightarrow> ('w, unit) action" where
  "disconnect_planned os plan =
     (case plan of None \<Rightarrow> ret () | Some p \<Rightarrow> for_each (disconnect_pdc_connection_ids p) (disconnect_one os))"

text \<open>A client that still has bytes to take when the next frame is due is too slow.\<close>

definition close_if_slow :: "'w os \<Rightarrow> nat \<Rightarrow> ('w, unit) action" where
  "close_if_slow os slot =
     bind_p (get_slot slot) (\<lambda>opt. case opt of
         None \<Rightarrow> ret ()
       | Some c \<Rightarrow>
           if cn_streaming c \<and> is_pending (cn_pending c)
           then bind_p (tally (slow_clients_update (\<lambda>n. n + 1))) (\<lambda>_. close_connection os slot (cn_id c))
           else ret ())"

definition encode_data ::
    "(f32 \<Rightarrow> f32) \<Rightarrow> u64 \<Rightarrow> u64 \<Rightarrow> timestamp \<Rightarrow> bool \<Rightarrow> frame_plan_type option \<Rightarrow> endpoint
      \<Rightarrow> ('s, server_error, data_frame) prog" where
  "encode_data sin32 seed sample_index ts force_degraded_time plan en =
     (let d = en_descriptor en;
          degraded = (case plan of None \<Rightarrow> force_degraded_time | Some p \<Rightarrow> force_degraded_time \<or> degraded_time p);
          excursion = (case plan of None \<Rightarrow> None | Some p \<Rightarrow> plan_signal p)
      in case (ep_wire_version d, en_data_frame en) of
           (V2, DataV2 frame) \<Rightarrow>
             bind_p (expect (encode_periodic_data_with_scenario_v2 sin32 d seed sample_index ts degraded excursion frame)) (\<lambda>out.
             ret (DataV2 out))
         | (V3, DataV3 frame) \<Rightarrow>
             ret (DataV3 (encode_periodic_data_with_scenario_v3 sin32 d seed sample_index ts degraded excursion frame))
         | _ \<Rightarrow> raise FrameStorageMismatch)"

definition send_data :: "'w os \<Rightarrow> nat \<Rightarrow> ('w, unit) action" where
  "send_data os slot =
     bind_p (get_slot slot) (\<lambda>opt. case opt of
         None \<Rightarrow> ret ()
       | Some c \<Rightarrow>
           if \<not> cn_streaming c then ret ()
           else let c' = c\<lparr>cn_pending := PendingData 0\<rparr>
                in bind_p (set_slot slot (Some c')) (\<lambda>_.
                   bind_p (reregister_connection os c' True) (\<lambda>_.
                   bind_p (flush_connection os slot) (\<lambda>ok.
                   if \<not> ok then close_connection os slot (cn_id c) else ret ()))))"

definition any_streaming :: "endpoint \<Rightarrow> bool" where
  "any_streaming en = list_ex (\<lambda>opt. case opt of None \<Rightarrow> False | Some c \<Rightarrow> cn_streaming c) (en_connections en)"

definition omits_data :: "frame_plan_type option \<Rightarrow> bool" where
  "omits_data plan = (case plan of None \<Rightarrow> False | Some p \<Rightarrow> omit_data p)"

definition emit_endpoint ::
    "'w os \<Rightarrow> (f32 \<Rightarrow> f32) \<Rightarrow> u64 \<Rightarrow> u64 \<Rightarrow> timestamp \<Rightarrow> bool \<Rightarrow> frame_plan_type option \<Rightarrow> ('w, unit) action" where
  "emit_endpoint os sin32 seed sample_index ts force_degraded_time plan =
     bind_p (for_each [0..<2] (close_if_slow os)) (\<lambda>_.
     bind_p (gets cx_endpoint) (\<lambda>en.
     if \<not> any_streaming en \<or> omits_data plan then ret ()
     else bind_p (encode_data sin32 seed sample_index ts force_degraded_time plan en) (\<lambda>frame.
          bind_p (modify (\<lambda>c. c\<lparr>cx_endpoint := (cx_endpoint c)\<lparr>en_data_frame := frame\<rparr>\<rparr>)) (\<lambda>_.
          for_each [0..<2] (send_data os)))))"

definition source_verified :: "'w os \<Rightarrow> time_synchronization_source \<Rightarrow> 'w \<Rightarrow> bool \<times> 'w" where
  "source_verified os source w =
     (case source of
        SourceFile path \<Rightarrow> (case os_read_to_string os path w of (r, w') \<Rightarrow> (source_is_verified (\<lambda>_. r) source, w'))
      | _ \<Rightarrow> (source_is_verified (\<lambda>_. None) source, w))"

definition observe_time :: "'w os \<Rightarrow> ('w, unit) server_action" where
  "observe_time os =
     bind_p (sv_world_op (os_system_time os)) (\<lambda>system_now.
     bind_p (gets sv_time_source) (\<lambda>source.
     bind_p (sv_world_op (source_verified os source)) (\<lambda>verified.
     modify (\<lambda>s. case observe_boundary (sv_time_health_monitor s) system_now verified of
                 (state, monitor) \<Rightarrow> s\<lparr>sv_time_health := state, sv_time_health_monitor := monitor\<rparr>))))"

definition advance_scenarios :: "u64 \<Rightarrow> ('w, unit) server_action" where
  "advance_scenarios sample_index =
     bind_p (gets sv_controller) (\<lambda>opt. case opt of
         None \<Rightarrow> ret ()
       | Some c \<Rightarrow>
           bind_p (expect (advance_boundary sample_index c)) (\<lambda>(r, c').
           bind_p (modify (\<lambda>s. s\<lparr>sv_controller := Some c'\<rparr>)) (\<lambda>_.
           case r of Inl _ \<Rightarrow> raise (BoundaryFailed sample_index) | Inr _ \<Rightarrow> ret ())))"

definition emit_data :: "'w os \<Rightarrow> (f32 \<Rightarrow> f32) \<Rightarrow> u64 \<Rightarrow> timestamp \<Rightarrow> ('w, unit) server_action" where
  "emit_data os sin32 sample_index ts =
     bind_p (observe_time os) (\<lambda>_.
     bind_p (gets (\<lambda>s. is_degraded (sv_time_health s))) (\<lambda>force_degraded_time.
     bind_p (advance_scenarios sample_index) (\<lambda>_.
     bind_p (gets (\<lambda>s. map (\<lambda>en. map_option (\<lambda>c. frame_plan c (ep_stream_id (en_descriptor en))) (sv_controller s))
                       (sv_endpoints s))) (\<lambda>frame_plans.
     bind_p (gets sv_seed) (\<lambda>seed.
     bind_p (for_each [0..<length frame_plans] (\<lambda>i. on_endpoint i (disconnect_planned os (frame_plans ! i)))) (\<lambda>_.
     for_each [0..<length frame_plans] (\<lambda>i.
       on_endpoint i (emit_endpoint os sin32 seed sample_index ts force_degraded_time (frame_plans ! i)))))))))"

text \<open>The last part of one round of \<^verbatim>\<open>run_until\<close>: a due sample is emitted with its timestamp.\<close>

definition emit_if_due :: "'w os \<Rightarrow> (f32 \<Rightarrow> f32) \<Rightarrow> ('w, unit) server_action" where
  "emit_if_due os sin32 =
     bind_p (sv_world_op (os_now os)) (\<lambda>now.
     bind_p (gets (\<lambda>s. take_due (sv_scheduler s) now (sv_stats s))) (\<lambda>(due, scheduler, stats).
     bind_p (modify (\<lambda>s. s\<lparr>sv_scheduler := scheduler, sv_stats := stats\<rparr>)) (\<lambda>_.
     case due of
       None \<Rightarrow> ret ()
     | Some sample_index \<Rightarrow>
         bind_p (gets (\<lambda>s. timestamp_for_sample (sv_wall_clock s) sample_index)) (\<lambda>ts.
         emit_data os sin32 sample_index ts))))"

end
