(* ===== verification/Endpoint_Inv.thy ===== *)
theory Endpoint_Inv
  imports Endpoint
begin

text \<open>
  The invariant of an endpoint and what its operations keep of it.  Every operation on a slot is
  shown to end without a panic, to fail only with an error of the environment, to leave the other
  slot and the identity of the connection alone, and to return false only when the caller has to
  close the connection.
\<close>

section \<open>The invariant\<close>

definition environment_error :: "server_error \<Rightarrow> bool" where
  "environment_error e = (case e of IoError _ \<Rightarrow> True | ClockBeforeEpoch \<Rightarrow> True | ErrorResponseSocRange \<Rightarrow> True | _ \<Rightarrow> False)"

definition frames_wf :: "endpoint \<Rightarrow> bool" where
  "frames_wf en =
     (case (ep_wire_version (en_descriptor en), en_frames en, en_data_frame en) of
        (V2, FramesV2 h c1 c2, DataV2 d) \<Rightarrow> h \<noteq> [] \<and> c1 \<noteq> [] \<and> c2 \<noteq> [] \<and> length d = PERIODIC_DATA_FRAME_BYTES_V2
      | (V3, FramesV3 cap sc, DataV3 d) \<Rightarrow> cap \<noteq> [] \<and> sc \<noteq> [] \<and> length d = PERIODIC_DATA_FRAME_BYTES_V3
      | _ \<Rightarrow> False)"

definition endpoint_static :: "endpoint \<Rightarrow> bool" where
  "endpoint_static en \<longleftrightarrow> frames_wf en \<and> length (en_connections en) = 2
     \<and> 18 \<le> command_frame_bytes (en_limits en) \<and> command_frame_bytes (en_limits en) \<le> MAX_COMMAND_FRAME_BYTES"

text \<open>The frame a connection is sending, with the part still to be sent.\<close>

definition sending :: "endpoint \<Rightarrow> connection \<Rightarrow> bytes option" where
  "sending en c = frame_of (en_frames en) (en_data_frame en) (cn_error_frame c) (cn_pending c)"

definition connection_wf :: "endpoint \<Rightarrow> connection \<Rightarrow> bool" where
  "connection_wf en c \<longleftrightarrow>
     buffer_wf (cn_receive c) \<and> rb_limit (cn_receive c) = command_frame_bytes (en_limits en)
   \<and> (case ep_wire_version (en_descriptor en) of
        V2 \<Rightarrow> cn_error_frame c = None
      | V3 \<Rightarrow> \<exists>f. cn_error_frame c = Some f \<and> length f = ERROR_RESPONSE_FRAME_BYTES)
   \<and> (is_pending (cn_pending c) \<longrightarrow> (\<exists>f. sending en c = Some f \<and> pending_offset (cn_pending c) < length f))
   \<and> (is_data (cn_pending c) \<longrightarrow> cn_streaming c)
   \<and> (cn_close_after_flush c \<longleftrightarrow> is_error (cn_pending c))
   \<and> (is_error (cn_pending c) \<longrightarrow> \<not> cn_streaming c)"

definition endpoint_inv :: "endpoint \<Rightarrow> bool" where
  "endpoint_inv en \<longleftrightarrow> endpoint_static en \<and> (\<forall>c. Some c \<in> set (en_connections en) \<longrightarrow> connection_wf en c)"

lemma static_update [simp]:
  "endpoint_static (en\<lparr>en_connections := cs\<rparr>) \<longleftrightarrow> endpoint_static en \<and> length cs = 2" if "length (en_connections en) = 2" for en cs
  using that by (auto simp: endpoint_static_def frames_wf_def)

lemma connection_wf_update [simp]: "connection_wf (en\<lparr>en_connections := cs\<rparr>) c = connection_wf en c"
  by (simp add: connection_wf_def sending_def)

lemma sending_update [simp]: "sending (en\<lparr>en_connections := cs\<rparr>) c = sending en c"
  by (simp add: sending_def)

lemma connection_wfD:
  assumes "connection_wf en c"
  shows "buffer_wf (cn_receive c)" "rb_limit (cn_receive c) = command_frame_bytes (en_limits en)"
    "cn_close_after_flush c \<longleftrightarrow> is_error (cn_pending c)" "is_data (cn_pending c) \<Longrightarrow> cn_streaming c"
    "is_error (cn_pending c) \<Longrightarrow> \<not> cn_streaming c"
  using assms by (simp_all add: connection_wf_def)

section \<open>Changing one slot\<close>

definition holds :: "nat \<Rightarrow> connection \<Rightarrow> 'w ctx \<Rightarrow> bool" where
  "holds slot c s \<longleftrightarrow> slot < length (en_connections (cx_endpoint s)) \<and> en_connections (cx_endpoint s) ! slot = Some c"

definition same_identity :: "connection \<Rightarrow> connection \<Rightarrow> bool" where
  "same_identity c c' \<longleftrightarrow> cn_id c' = cn_id c \<and> cn_token c' = cn_token c \<and> cn_stream c' = cn_stream c
     \<and> cn_accepted_at c' = cn_accepted_at c"

text \<open>From \<open>s\<close> to \<open>t\<close> only the connection in the slot changed, from \<open>c\<close> to \<open>c'\<close>, and no client came or went.\<close>

definition updated :: "nat \<Rightarrow> connection \<Rightarrow> 'w ctx \<Rightarrow> connection \<Rightarrow> 'w ctx \<Rightarrow> bool" where
  "updated slot c s c' t \<longleftrightarrow>
     cx_endpoint t = (cx_endpoint s)\<lparr>en_connections := (en_connections (cx_endpoint s))[slot := Some c']\<rparr>
   \<and> same_identity c c' \<and> cx_next_connection_id t = cx_next_connection_id s
   \<and> accepted_clients (cx_stats t) = accepted_clients (cx_stats s)
   \<and> closed_clients (cx_stats t) = closed_clients (cx_stats s)
   \<and> rejected_clients (cx_stats t) = rejected_clients (cx_stats s)"

lemma holds_update: "holds slot c s \<Longrightarrow> (en_connections (cx_endpoint s))[slot := Some c] = en_connections (cx_endpoint s)"
  by (simp add: holds_def list_update_same_conv)

lemma updated_refl: "holds slot c s \<Longrightarrow> updated slot c s c s"
  by (simp add: holds_update updated_def same_identity_def)

lemma updated_elsewhere [simp]:
  "updated slot c s c' (t\<lparr>cx_world := w\<rparr>) = updated slot c s c' t"
  "updated slot c s c' (t\<lparr>cx_stats := malformed_commands_update f (cx_stats t)\<rparr>) = updated slot c s c' t"
  "updated slot c s c' (t\<lparr>cx_stats := unsupported_commands_update f (cx_stats t)\<rparr>) = updated slot c s c' t"
  "updated slot c s c' (t\<lparr>cx_stats := slow_clients_update f (cx_stats t)\<rparr>) = updated slot c s c' t"
  "updated slot c s c' (t\<lparr>cx_stats := sent_data_frames_update f (cx_stats t)\<rparr>) = updated slot c s c' t"
  by (simp_all add: updated_def)

lemma updated_set:
  "holds slot c s \<Longrightarrow> same_identity c c' \<Longrightarrow>
     updated slot c s c' (s\<lparr>cx_endpoint := (cx_endpoint s)\<lparr>en_connections := (en_connections (cx_endpoint s))[slot := Some c']\<rparr>\<rparr>)"
  by (simp add: updated_def)

lemma updated_trans: "updated slot c s c' t \<Longrightarrow> updated slot c' t c'' u \<Longrightarrow> updated slot c s c'' u"
  by (auto simp: updated_def same_identity_def)

lemma updated_holds: "updated slot c s c' t \<Longrightarrow> holds slot c s \<Longrightarrow> holds slot c' t"
  by (auto simp: holds_def updated_def)

text \<open>What the operations on a slot start from.\<close>

definition serving :: "nat \<Rightarrow> connection \<Rightarrow> 'w ctx \<Rightarrow> bool" where
  "serving slot c s \<longleftrightarrow> holds slot c s \<and> endpoint_static (cx_endpoint s) \<and> connection_wf (cx_endpoint s) c"

lemma updated_wf:
  "updated slot c s c' t \<Longrightarrow> holds slot c s \<Longrightarrow> connection_wf (cx_endpoint t) x = connection_wf (cx_endpoint s) x"
  by (simp add: updated_def)

lemma updated_serving:
  assumes "serving slot c s" "updated slot c s c' t" "connection_wf (cx_endpoint s) c'"
  shows "serving slot c' t"
  using assms updated_holds [OF assms(2)]
  by (auto simp: serving_def updated_def endpoint_static_def frames_wf_def)

lemma serving_holds: "serving slot c s \<Longrightarrow> holds slot c s"
  by (simp add: serving_def)

lemma holds_world [simp]:
  "holds slot c (s\<lparr>cx_world := w\<rparr>) = holds slot c s" "holds slot c (s\<lparr>cx_stats := st\<rparr>) = holds slot c s"
  by (simp_all add: holds_def)

section \<open>Weakest preconditions of the primitives\<close>

lemma wp_world [wp_simps]: "wp (world f) Q E = (\<lambda>s. case f (cx_world s) of (x, w) \<Rightarrow> Q x (s\<lparr>cx_world := w\<rparr>))"
  by (simp add: wp_def world_def fun_eq_iff split: prod.splits)

lemma wp_io_try [wp_simps]:
  "wp (io_try r) Q E = (\<lambda>s. case r of Done x \<Rightarrow> Q x s | WouldBlock \<Rightarrow> E (IoError ''would block'') | Failed m \<Rightarrow> E (IoError m))"
  by (simp add: io_try_def fun_eq_iff split: io.splits)

lemma wp_get_slot: "wp (get_slot slot) Q E = (\<lambda>s. \<exists>x. slot_of (cx_endpoint s) slot = Some x \<and> Q x s)"
  by (simp add: get_slot_def wp_simps)

lemma wp_get_connection:
  "wp (get_connection slot) Q E = (\<lambda>s. \<exists>c. slot_of (cx_endpoint s) slot = Some (Some c) \<and> Q c s)"
  by (auto simp: get_connection_def wp_simps wp_get_slot fun_eq_iff)

lemma wp_slot_at:
  assumes "holds slot c s"
  shows "wp (get_slot slot) Q E s = Q (Some c) s" "wp (get_connection slot) Q' E s = Q' c s"
  using assms by (simp_all add: wp_get_slot wp_get_connection slot_of_def holds_def)

lemma wp_set_slot [wp_simps]:
  "wp (set_slot slot x) Q E = (\<lambda>s.
     Q () (s\<lparr>cx_endpoint := (cx_endpoint s)\<lparr>en_connections := (en_connections (cx_endpoint s))[slot := x]\<rparr>\<rparr>))"
  by (simp add: set_slot_def)

lemma wp_tally [wp_simps]: "wp (tally f) Q E = (\<lambda>s. Q () (s\<lparr>cx_stats := f (cx_stats s)\<rparr>))"
  by (simp add: tally_def)

lemma environment_error_io [simp]: "environment_error (IoError m)"
  by (simp add: environment_error_def)

lemma response_timestamp_error: "response_timestamp now tb = Inl e \<Longrightarrow> environment_error e"
  by (auto simp: response_timestamp_def bind_ok_def ok_or_def fail_if_def environment_error_def
      split: sum.splits option.splits if_splits)

lemma wp_reregister: 
  assumes "\<And>w. Q () (s\<lparr>cx_world := w\<rparr>)"
  shows "wp (reregister_connection os c b) Q environment_error s"
  using assms by (auto simp: reregister_connection_def Let_def wp_simps split: prod.splits io.splits)

section \<open>Commands\<close>

lemma command_effect_wf:
  assumes "command_effect (ep_wire_version (en_descriptor en)) command c = Some c'"
    and "connection_wf en c" and "frames_wf en" and "\<not> is_pending (cn_pending c)"
  shows "connection_wf en c'" "same_identity c c'" "cn_receive c' = cn_receive c"
proof -
  have none: "cn_pending c = PendingNone" using assms(4) by (cases "cn_pending c") auto
  show "connection_wf en c'"
    using assms none
    by (cases "(ep_wire_version (en_descriptor en), command, c)" rule: command_effect.cases)
       (auto simp: connection_wf_def frames_wf_def sending_def split: endpoint_frames.splits data_frame.splits wire_version.splits)
  show "same_identity c c'" "cn_receive c' = cn_receive c"
    using assms(1)
    by (cases "(ep_wire_version (en_descriptor en), command, c)" rule: command_effect.cases;
        auto simp: same_identity_def)+
qed

lemma wp_handle_command:
  assumes sv: "serving slot c s" and np: "\<not> is_pending (cn_pending c)"
  shows "wp (handle_command os slot command)
      (\<lambda>ok t. \<exists>c'. updated slot c s c' t \<and> cn_receive c' = cn_receive c \<and>
         (ok \<longrightarrow> connection_wf (cx_endpoint s) c' \<and>
            command_effect (ep_wire_version (en_descriptor (cx_endpoint s))) command c = Some c'))
      environment_error s"
proof -
  note at = wp_slot_at [OF serving_holds [OF sv]]
  show ?thesis
  proof (cases "command_effect (ep_wire_version (en_descriptor (cx_endpoint s))) command c")
    case None
    then show ?thesis
      using sv np by (auto simp: handle_command_def wp_simps at serving_def intro!: exI [of _ c] updated_refl)
  next
    case (Some c')
    have wf: "connection_wf (cx_endpoint s) c" "frames_wf (cx_endpoint s)"
      using sv by (simp_all add: serving_def endpoint_static_def)
    show ?thesis
      using np Some command_effect_wf [OF Some wf np]
      by (auto simp: handle_command_def wp_simps at updated_def intro!: wp_reregister)
  qed
qed

lemma wp_queue_error_response:
  assumes sv: "serving slot c s" and v3: "ep_wire_version (en_descriptor (cx_endpoint s)) = V3"
  shows "wp (queue_error_response os slot sid code)
      (\<lambda>_ t. \<exists>c'. updated slot c s c' t \<and> connection_wf (cx_endpoint s) c' \<and> cn_pending c' = PendingError 0
         \<and> cn_receive c' = cn_receive c
         \<and> (\<exists>ts. cn_error_frame c' = Some (encode_error_response sid code ts (the (cn_error_frame c))))) environment_error s"
proof -
  obtain f where f: "cn_error_frame c = Some f" "length f = ERROR_RESPONSE_FRAME_BYTES"
    using sv v3 by (auto simp: serving_def connection_wf_def)
  define c' where "c' ts = c\<lparr>cn_error_frame := Some (encode_error_response sid code ts f),
      cn_pending := PendingError 0, cn_streaming := False, cn_close_after_flush := True\<rparr>" for ts
  have len: "length (encode_error_response sid code ts f) = ERROR_RESPONSE_FRAME_BYTES" for ts
    using encode_error_response_eq [of f sid code ts] f(2) by (simp add: ERROR_RESPONSE_FRAME_BYTES_def)
  have wf: "connection_wf (cx_endpoint s) (c' ts)" for ts
    using sv v3 len [of ts]
    by (auto simp: serving_def connection_wf_def c'_def sending_def ERROR_RESPONSE_FRAME_BYTES_def)
  have "same_identity c (c' ts)" for ts by (simp add: same_identity_def c'_def)
  then have up: "updated slot c s (c' ts) (s\<lparr>cx_endpoint := (cx_endpoint s)\<lparr>en_connections :=
      (en_connections (cx_endpoint s))[slot := Some (c' ts)]\<rparr>\<rparr>)" for ts
    by (simp add: updated_def)
  have at: "holds slot c (s\<lparr>cx_world := w\<rparr>)" for w using sv by (simp add: serving_def)
  have c': "cn_pending (c' ts) = PendingError 0" "cn_receive (c' ts) = cn_receive c"
    "cn_error_frame (c' ts) = Some (encode_error_response sid code ts f)" for ts
    by (simp_all add: c'_def)
  show ?thesis
    unfolding queue_error_response_def Let_def
    using f wf c'
    by (auto simp: wp_simps wp_slot_at [OF at] c'_def [symmetric] lift_ok_def
        intro!: wp_reregister up exI [of _ "c' _"] dest: response_timestamp_error split: prod.splits sum.splits)
qed

lemma wp_refuse_command:
  assumes "serving slot c s" and "wv = ep_wire_version (en_descriptor (cx_endpoint s))"
  shows "wp (refuse_command os slot wv idcode code)
      (\<lambda>r t. \<exists>c'. updated slot c s c' t \<and> cn_receive c' = cn_receive c \<and>
         (if wv = V3 then r = Some True \<and> connection_wf (cx_endpoint s) c' \<and> cn_pending c' = PendingError 0
            \<and> (\<exists>ts. cn_error_frame c' = Some (encode_error_response idcode code ts (the (cn_error_frame c))))
          else r = Some False)) environment_error s"
proof (cases wv)
  case V2
  then show ?thesis using assms by (auto simp: refuse_command_def serving_def intro: updated_refl)
next
  case V3
  with assms have "ep_wire_version (en_descriptor (cx_endpoint s)) = V3" by simp
  from wp_queue_error_response [OF assms(1) this, of os idcode code] V3 show ?thesis
    unfolding refuse_command_def by simp (erule wp_mono, blast)
qed

text \<open>What one round of command processing does to the connection in its slot.\<close>

definition round_result :: "nat \<Rightarrow> connection \<Rightarrow> 'w ctx \<Rightarrow> bool option \<Rightarrow> 'w ctx \<Rightarrow> bool" where
  "round_result slot c s r t \<longleftrightarrow> (\<exists>c'. updated slot c s c' t \<and>
     (case r of
        None \<Rightarrow> connection_wf (cx_endpoint s) c' \<and> rb_length (cn_receive c') < rb_length (cn_receive c)
      | Some True \<Rightarrow> connection_wf (cx_endpoint s) c'
      | Some False \<Rightarrow> True))"

lemma connection_wf_receive:
  "connection_wf en c \<Longrightarrow> buffer_wf rb \<Longrightarrow> rb_limit rb = rb_limit (cn_receive c) \<Longrightarrow> connection_wf en (c\<lparr>cn_receive := rb\<rparr>)"
  by (auto simp: connection_wf_def sending_def split: wire_version.splits)

lemma connection_wf_valid_command:
  "connection_wf en c \<Longrightarrow> connection_wf en (record_valid_command now c)"
  by (auto simp: connection_wf_def sending_def record_valid_command_def split: wire_version.splits)

lemma record_valid_command_simps [simp]:
  "same_identity c (record_valid_command now c)" "cn_receive (record_valid_command now c) = cn_receive c"
  "cn_pending (record_valid_command now c) = cn_pending c"
  by (simp_all add: same_identity_def record_valid_command_def)

lemma wp_process_round:
  assumes sv: "serving slot c s"
  shows "wp (process_round os slot) (round_result slot c s) environment_error s"
proof (cases "is_pending (cn_pending c) \<or> cn_close_after_flush c")
  case True
  then show ?thesis
    using sv by (auto simp: process_round_def wp_simps wp_slot_at [OF serving_holds [OF sv]] round_result_def serving_def
        intro: updated_refl)
next
  case False
  let ?wv = "ep_wire_version (en_descriptor (cx_endpoint s))" and ?id = "ep_stream_id (en_descriptor (cx_endpoint s))"
  have wf: "connection_wf (cx_endpoint s) c" "holds slot c s" using sv by (simp_all add: serving_def)
  note at = wp_slot_at [OF wf(2)]
  obtain req rb where nc: "next_command ?wv (cn_receive c) = Some (req, rb)" "buffer_wf rb"
    "rb_limit rb = rb_limit (cn_receive c)"
    using next_command_refines [OF connection_wfD(1) [OF wf(1)]] by metis
  let ?c1 = "c\<lparr>cn_receive := rb\<rparr>"
  define s1 where "s1 = s\<lparr>cx_endpoint := (cx_endpoint s)\<lparr>en_connections := (en_connections (cx_endpoint s))[slot := Some ?c1]\<rparr>\<rparr>"
  have up: "updated slot c s ?c1 s1"
    unfolding s1_def by (rule updated_set [OF wf(2)]) (simp add: same_identity_def)
  have wf1: "connection_wf (cx_endpoint s) ?c1" using connection_wf_receive wf(1) nc(2,3) by blast
  have sv1: "serving slot ?c1 s1" by (rule updated_serving [OF sv up wf1])
  have en1: "en_descriptor (cx_endpoint s1) = en_descriptor (cx_endpoint s)" "connection_wf (cx_endpoint s1) = connection_wf (cx_endpoint s)"
    "cx_stats s1 = cx_stats s" by (simp_all add: s1_def fun_eq_iff)
  have refuse: "wp (refuse_command os slot ?wv i code) (round_result slot c s) environment_error (s1\<lparr>cx_stats := st\<rparr>)"
    if "updated slot c s ?c1 (s1\<lparr>cx_stats := st\<rparr>)" for i code st
  proof -
    have "serving slot ?c1 (s1\<lparr>cx_stats := st\<rparr>)" using sv1 by (simp add: serving_def)
    from wp_refuse_command [OF this, of ?wv] show ?thesis
      by (rule wp_mono) (use that en1 in \<open>auto simp: round_result_def intro: updated_trans split: if_splits\<close>)
  qed
  show ?thesis
  proof (cases req)
    case (Inl m)
    have "wp (refuse_command os slot ?wv (case mc_idcode m of Some i \<Rightarrow> i | None \<Rightarrow> ?id) RejectedCommand)
        (round_result slot c s) environment_error (s1\<lparr>cx_stats := malformed_commands_update (\<lambda>n. n + 1) (cx_stats s1)\<rparr>)"
      by (rule refuse) (use up in simp)
    then show ?thesis
      using False nc(1) Inl sv by (simp add: process_round_def wp_simps at en1(3) flip: s1_def)
  next
    case (Inr cmd)
    show ?thesis
    proof (cases cmd)
      case None
      then show ?thesis
        using False nc(1) Inr sv up wf1 by (auto simp: process_round_def wp_simps at round_result_def simp flip: s1_def)
    next
      case (Some command)
      note consumed = next_command_consumes(1) [OF connection_wfD(1) [OF wf(1)], of ?wv command rb]
      show ?thesis
      proof (cases command)
        case (Rejected i wv')
        have "wv' = ?wv"
          using nc(1) Inr Some Rejected
          by (auto simp: next_command_def decode_command_def Let_def bind_ok_def split: if_splits sum.splits wire_version.splits)
        moreover have "wp (refuse_command os slot ?wv i RejectedCommand)
            (round_result slot c s) environment_error (s1\<lparr>cx_stats := unsupported_commands_update (\<lambda>n. n + 1) (cx_stats s1)\<rparr>)"
          by (rule refuse) (use up in simp)
        ultimately show ?thesis
          using False nc(1) Inr Some Rejected sv by (simp add: process_round_def wp_simps at en1(3) flip: s1_def)
      next
        case (Accepted request)
        show ?thesis
        proof (cases "bc_idcode request = ?id")
          case id: False
          have "wp (refuse_command os slot ?wv (bc_idcode request) WrongStreamOrPmu)
              (round_result slot c s) environment_error (s1\<lparr>cx_stats := malformed_commands_update (\<lambda>n. n + 1) (cx_stats s1)\<rparr>)"
            by (rule refuse) (use up in simp)
          then show ?thesis
            using False id nc(1) Inr Some Accepted sv by (simp add: process_round_def wp_simps at en1(3) flip: s1_def)
        next
          case id: True
          have "wp (handle_command os slot (bc_command request))
              (\<lambda>ok t. round_result slot c s (if ok then None else Some False) t) environment_error
              (s1\<lparr>cx_world := w, cx_endpoint := (cx_endpoint s1)\<lparr>en_connections :=
                 (en_connections (cx_endpoint s1))[slot := Some (record_valid_command now ?c1)]\<rparr>\<rparr>)"
            (is "wp _ _ _ ?s2") for now w
          proof -
            have up2: "updated slot ?c1 s1 (record_valid_command now ?c1) ?s2"
              by (simp add: updated_def)
            have "serving slot (record_valid_command now ?c1) ?s2"
              using updated_serving [OF sv1 up2] wf1 en1 by (simp add: connection_wf_valid_command)
            moreover have "\<not> is_pending (cn_pending (record_valid_command now ?c1))" using False by simp
            ultimately show ?thesis
              by (rule wp_mono [OF wp_handle_command])
                 (use consumed nc(1) Inr Some en1 in
                   \<open>auto simp: round_result_def dest!: updated_trans [OF updated_trans [OF up up2]]\<close>)
          qed
          then show ?thesis
            using False id nc(1) Inr Some Accepted sv sv1
            by (simp add: process_round_def wp_simps at wp_slot_at [OF serving_holds [OF sv1]] flip: s1_def split: prod.splits)
        qed
      qed
    qed
  qed
qed


text \<open>A slot operation: the connection is kept, and well-formed unless the caller is told to close it.\<close>

definition kept :: "nat \<Rightarrow> connection \<Rightarrow> 'w ctx \<Rightarrow> bool \<Rightarrow> 'w ctx \<Rightarrow> bool" where
  "kept slot c s ok t \<longleftrightarrow> (\<exists>c'. updated slot c s c' t \<and> (ok \<longrightarrow> connection_wf (cx_endpoint s) c'))"

lemma kept_refl: "serving slot c s \<Longrightarrow> kept slot c s ok s"
  by (auto simp: kept_def serving_def intro: updated_refl)

lemma kept_trans:
  assumes "updated slot c s c' t" "kept slot c' t ok u" "holds slot c s"
  shows "kept slot c s ok u"
  using assms updated_trans updated_wf unfolding kept_def by blast

definition buffered :: "nat \<Rightarrow> 'w ctx \<Rightarrow> nat" where
  "buffered slot s = (case en_connections (cx_endpoint s) ! slot of None \<Rightarrow> 0 | Some c \<Rightarrow> rb_length (cn_receive c))"

lemma buffered_holds: "holds slot c s \<Longrightarrow> buffered slot s = rb_length (cn_receive c)"
  by (simp add: holds_def buffered_def)

lemma wp_process_buffered_commands:
  assumes sv: "serving slot c s"
  shows "wp (process_buffered_commands os slot) (kept slot c s) environment_error s"
  unfolding process_buffered_commands_def
proof (rule wp_loop [where I = "kept slot c s True" and m = "buffered slot"])
  show "kept slot c s True s" by (rule kept_refl [OF sv])
  fix t assume "kept slot c s True t"
  then obtain c1 where c1: "updated slot c s c1 t" "connection_wf (cx_endpoint s) c1"
    by (auto simp: kept_def)
  have sv1: "serving slot c1 t" by (rule updated_serving [OF sv c1])
  have h: "holds slot c s" "holds slot c1 t" using sv sv1 by (simp_all add: serving_def)
  have round: "(case r of None \<Rightarrow> kept slot c s True u \<and> buffered slot u < buffered slot t | Some x \<Rightarrow> kept slot c s x u)"
    if r: "round_result slot c1 t r u" for r u
  proof -
    obtain c2 where c2: "updated slot c1 t c2 u"
      "case r of None \<Rightarrow> connection_wf (cx_endpoint t) c2 \<and> rb_length (cn_receive c2) < rb_length (cn_receive c1)
       | Some True \<Rightarrow> connection_wf (cx_endpoint t) c2 | Some False \<Rightarrow> True"
      using r by (auto simp: round_result_def)
    have "updated slot c s c2 u" by (rule updated_trans [OF c1(1) c2(1)])
    moreover have "buffered slot u = rb_length (cn_receive c2)" "buffered slot t = rb_length (cn_receive c1)"
      using buffered_holds updated_holds [OF c2(1) h(2)] h(2) by blast+
    ultimately show ?thesis
      using c2(2) updated_wf [OF c1(1) h(1), of c2] by (auto simp: kept_def split: option.splits bool.splits)
  qed
  show "wp (process_round os slot) (\<lambda>r u. case r of
      None \<Rightarrow> kept slot c s True u \<and> buffered slot u < buffered slot t | Some x \<Rightarrow> kept slot c s x u) environment_error t"
    by (rule wp_mono [OF wp_process_round [OF sv1]]) (rule round)
qed

section \<open>Reading and writing\<close>

lemma wp_read_connection:
  assumes io: "io_bounded os" and sv: "serving slot c s"
  shows "wp (read_connection os slot) (kept slot c s) environment_error s"
proof (cases "cn_close_after_flush c")
  case True
  then show ?thesis
    using sv by (simp add: read_connection_def wp_slot_at [OF serving_holds [OF sv]] kept_refl)
next
  case False
  have wf: "connection_wf (cx_endpoint s) c" "holds slot c s" using sv by (simp_all add: serving_def)
  let ?u = "\<lambda>rb w. s\<lparr>cx_endpoint := (cx_endpoint s)\<lparr>en_connections :=
      (en_connections (cx_endpoint s))[slot := Some (c\<lparr>cn_receive := rb\<rparr>)]\<rparr>, cx_world := w\<rparr>"
  have up: "updated slot c s (c\<lparr>cn_receive := rb\<rparr>) (?u rb w)" for rb w
    by (simp add: updated_def same_identity_def)
  have process: "wp (process_buffered_commands os slot) (\<lambda>ok t. kept slot c s ok t \<and> (\<exists>c'. holds slot c' t)) environment_error (?u rb w)"
    if "buffer_wf rb" "rb_limit rb = rb_limit (cn_receive c)" for rb w
  proof -
    have "serving slot (c\<lparr>cn_receive := rb\<rparr>) (?u rb w)"
      by (rule updated_serving [OF sv up]) (rule connection_wf_receive [OF wf(1) that])
    then show ?thesis
    proof (rule wp_mono [OF wp_process_buffered_commands])
      fix ok t assume k: "kept slot (c\<lparr>cn_receive := rb\<rparr>) (?u rb w) ok t"
      then show "kept slot c s ok t \<and> (\<exists>c'. holds slot c' t)"
        using kept_trans [OF up _ wf(2)] updated_holds [OF _ updated_holds [OF up wf(2)]] unfolding kept_def by blast
    qed
  qed
  have after: "wp (after_read os slot r) (kept slot c s) environment_error (?u rb w)"
    if "buffer_wf rb" "rb_limit rb = rb_limit (cn_receive c)" for r rb w
  proof -
    have closing: "kept slot c s False t" if "kept slot c s ok t" for ok t using that by (auto simp: kept_def)
    have down: "kept slot c s False (?u rb w)"
      "kept slot c s False (?u rb w\<lparr>cx_stats := malformed_commands_update (\<lambda>n. n + 1) (cx_stats (?u rb w))\<rparr>)"
      using up [of rb w] by (simp_all add: kept_def updated_def) blast+
    show ?thesis
    proof (cases r)
      case (Inl m)
      then show ?thesis using down by (simp add: after_read_def wp_simps)
    next
      case (Inr result)
      show ?thesis
      proof (cases "result = Closed")
        case True
        then show ?thesis using Inr down(1) by (simp add: after_read_def)
      next
        case False
        have "wp (process_buffered_commands os slot) (\<lambda>ok. wp (if \<not> ok then ret False else if result = Open then ret True
            else bind_p (get_slot slot) (\<lambda>opt. case opt of None \<Rightarrow> ret False
               | Some c \<Rightarrow> ret (cn_close_after_flush c \<and> is_pending (cn_pending c)))) (kept slot c s) environment_error)
            environment_error (?u rb w)"
          by (rule wp_mono [OF process [OF that]]) (use closing in \<open>auto simp: wp_slot_at kept_def\<close>)
        then show ?thesis using False unfolding after_read_def Inr by (simp del: wp_if)
      qed
    qed
  qed
  show ?thesis
    using False unfolding read_connection_def
    by (simp add: wp_slot_at [OF wf(2)] wp_zoom)
       (rule wp_mono [OF wp_read_from [OF io connection_wfD(1) [OF wf(1)]]], use after in auto)
qed

text \<open>The bytes of the current frame that are still to be sent.\<close>

definition remaining :: "endpoint \<Rightarrow> connection \<Rightarrow> bytes" where
  "remaining en c = (case sending en c of None \<Rightarrow> [] | Some f \<Rightarrow> drop (pending_offset (cn_pending c)) f)"

lemma with_offset_simps [simp]:
  "is_pending (with_offset p k) = is_pending p" "is_data (with_offset p k) = is_data p"
  "is_error (with_offset p k) = is_error p" "frame_of fs d e (with_offset p k) = frame_of fs d e p"
  "is_pending p \<Longrightarrow> pending_offset (with_offset p k) = k"
  by (cases p; cases fs; simp)+

lemma connection_wf_offset:
  assumes "connection_wf en c" "k < length (remaining en c)"
  shows "connection_wf en (c\<lparr>cn_pending := with_offset (cn_pending c) (pending_offset (cn_pending c) + k)\<rparr>)"
  using assms by (auto simp: connection_wf_def sending_def remaining_def split: wire_version.splits)

lemma connection_wf_done:
  assumes "connection_wf en c" "\<not> cn_close_after_flush c"
  shows "connection_wf en (c\<lparr>cn_pending := PendingNone\<rparr>)"
  using assms by (auto simp: connection_wf_def sending_def split: wire_version.splits)

lemma wp_finish_frame:
  assumes sv: "serving slot c s"
  shows "wp (finish_frame os slot p) (kept slot c s) environment_error s"
proof -
  let ?c1 = "c\<lparr>cn_pending := PendingNone\<rparr>"
  have h: "holds slot c s" using sv by (simp add: serving_def)
  have count: "updated slot c s c (s\<lparr>cx_stats := st\<rparr>)" "holds slot c (s\<lparr>cx_stats := st\<rparr>)"
    if "st = cx_stats s \<or> st = sent_data_frames_update (\<lambda>n. n + 1) (cx_stats s)" for st
    using that h updated_refl [OF h] by auto
  have main: "wp (bind_p (get_connection slot) (\<lambda>c.
     bind_p (set_slot slot (Some (c\<lparr>cn_pending := PendingNone\<rparr>))) (\<lambda>_.
     if cn_close_after_flush c then ret False
     else bind_p (process_buffered_commands os slot) (\<lambda>ok.
          if \<not> ok then ret False
          else bind_p (get_connection slot) (\<lambda>c'.
               if is_pending (cn_pending c') then ret True
               else bind_p (reregister_connection os c' False) (\<lambda>_. ret True)))))) (kept slot c s) environment_error (s\<lparr>cx_stats := st\<rparr>)"
    if st: "st = cx_stats s \<or> st = sent_data_frames_update (\<lambda>n. n + 1) (cx_stats s)" for st
  proof -
    define s1 where "s1 = s\<lparr>cx_stats := st, cx_endpoint := (cx_endpoint s)\<lparr>en_connections :=
        (en_connections (cx_endpoint s))[slot := Some ?c1]\<rparr>\<rparr>"
    have up: "updated slot c s ?c1 s1"
      using st by (auto simp: s1_def updated_def same_identity_def)
    show ?thesis
    proof (cases "cn_close_after_flush c")
      case True
      then show ?thesis
        using up by (auto simp: wp_simps wp_slot_at [OF count(2) [OF st]] kept_def simp flip: s1_def)
    next
      case False
      have "serving slot ?c1 s1"
        by (rule updated_serving [OF sv up]) (use sv False in \<open>simp add: serving_def connection_wf_done\<close>)
      note go = wp_process_buffered_commands [OF this, of os]
      have "wp (process_buffered_commands os slot) (\<lambda>ok. wp (if \<not> ok then ret False
            else bind_p (get_connection slot) (\<lambda>c'. if is_pending (cn_pending c') then ret True
               else bind_p (reregister_connection os c' False) (\<lambda>_. ret True))) (kept slot c s) environment_error)
          environment_error s1"
      proof (rule wp_mono [OF go])
        fix ok t assume "kept slot ?c1 s1 ok t"
        then obtain c2 where c2: "updated slot ?c1 s1 c2 t" "ok \<longrightarrow> connection_wf (cx_endpoint s1) c2"
          by (auto simp: kept_def)
        have "kept slot c s ok t" using kept_trans [OF up _ h] c2 by (auto simp: kept_def)
        moreover have "holds slot c2 t" by (rule updated_holds [OF c2(1) updated_holds [OF up h]])
        moreover have "kept slot c s ok (t\<lparr>cx_world := w\<rparr>)" for w using \<open>kept slot c s ok t\<close> by (simp add: kept_def)
        ultimately show "wp (if \<not> ok then ret False
            else bind_p (get_connection slot) (\<lambda>c'. if is_pending (cn_pending c') then ret True
               else bind_p (reregister_connection os c' False) (\<lambda>_. ret True))) (kept slot c s) environment_error t"
          by (auto simp: wp_slot_at intro!: wp_reregister)
      qed
      then show ?thesis
        using False by (simp add: wp_simps wp_slot_at [OF count(2) [OF st]] flip: s1_def)
    qed
  qed
  show ?thesis
    unfolding finish_frame_def
    using main [of "cx_stats s"] main [of "sent_data_frames_update (\<lambda>n. n + 1) (cx_stats s)"]
    by (simp add: wp_tally)
qed

text \<open>
  Flushing: after a partial write the connection keeps exactly the unsent rest of the frame; after a
  write of nothing, or a failed one, the caller is told to close the connection.
\<close>

lemma flush_idle:
  assumes "holds slot c s" "\<not> is_pending (cn_pending c)"
  shows "wp (flush_connection os slot) Q E s = Q True s"
  using assms by (simp add: flush_connection_def wp_slot_at Let_def)

lemma flush_pending:
  assumes sv: "serving slot c s" and p: "is_pending (cn_pending c)"
  shows "wp (flush_connection os slot) Q E s =
     (case os_write os (cn_stream c) (remaining (cx_endpoint s) c) (cx_world s) of (r, w) \<Rightarrow>
        wp (case r of
              Done written \<Rightarrow>
                if written = 0 then ret False
                else if written = length (remaining (cx_endpoint s) c) then finish_frame os slot (cn_pending c)
                else bind_p (set_slot slot (Some (c\<lparr>cn_pending := with_offset (cn_pending c) (pending_offset (cn_pending c) + written)\<rparr>))) (\<lambda>_.
                     bind_p (reregister_connection os c True) (\<lambda>_. ret True))
            | WouldBlock \<Rightarrow> bind_p (reregister_connection os c True) (\<lambda>_. ret True)
            | Failed _ \<Rightarrow> ret False) Q E (s\<lparr>cx_world := w\<rparr>))"
proof -
  obtain f where f: "sending (cx_endpoint s) c = Some f" "pending_offset (cn_pending c) < length f"
    using sv p by (auto simp: serving_def connection_wf_def)
  then have "slice_from (pending_offset (cn_pending c)) f = Some (remaining (cx_endpoint s) c)"
    by (simp add: slice_from_def remaining_def)
  then show ?thesis
    using sv p f(1)
    by (simp add: flush_connection_def wp_slot_at [OF serving_holds [OF sv]] Let_def wp_simps sending_def split: prod.splits io.splits)
qed

lemma wp_flush_connection:
  assumes io: "io_bounded os" and sv: "serving slot c s"
  shows "wp (flush_connection os slot) (kept slot c s) environment_error s"
proof (cases "is_pending (cn_pending c)")
  case False
  then show ?thesis using kept_refl [OF sv] flush_idle [OF serving_holds [OF sv]] by simp
next
  case True
  obtain r w where wr: "os_write os (cn_stream c) (remaining (cx_endpoint s) c) (cx_world s) = (r, w)" by force
  have sv1: "serving slot c (s\<lparr>cx_world := w\<rparr>)" using sv by (simp add: serving_def)
  have k: "kept slot c s ok (s\<lparr>cx_world := w\<rparr>)" for ok w using kept_refl [OF sv] by (simp add: kept_def)
  have world: "kept slot c s = kept slot c (s\<lparr>cx_world := w\<rparr>)" by (simp add: kept_def updated_def fun_eq_iff)
  show ?thesis
  proof (cases r)
    case (Done n)
    have le: "n \<le> length (remaining (cx_endpoint s) c)" using io_bounded_write [OF io, of "cn_stream c"] wr Done by metis
    have fin: "wp (finish_frame os slot (cn_pending c)) (kept slot c s) environment_error (s\<lparr>cx_world := w\<rparr>)"
      unfolding world by (rule wp_finish_frame [OF sv1])
    have part: "kept slot c s True (s\<lparr>cx_endpoint := (cx_endpoint s)\<lparr>en_connections := (en_connections (cx_endpoint s))[slot :=
        Some (c\<lparr>cn_pending := with_offset (cn_pending c) (pending_offset (cn_pending c) + n)\<rparr>)]\<rparr>, cx_world := w'\<rparr>)"
      if "n < length (remaining (cx_endpoint s) c)" for w'
      unfolding kept_def
      by (rule exI [of _ "c\<lparr>cn_pending := with_offset (cn_pending c) (pending_offset (cn_pending c) + n)\<rparr>"])
         (use that sv in \<open>simp add: serving_def connection_wf_offset updated_def same_identity_def\<close>)
    show ?thesis
      using Done wr le k fin part True by (auto simp: flush_pending [OF sv] wp_simps intro!: wp_reregister)
  qed (use wr k True in \<open>auto simp: flush_pending [OF sv] intro!: wp_reregister\<close>)
qed


section \<open>Whole-endpoint operations\<close>

definition live :: "endpoint \<Rightarrow> nat" where
  "live en = length (filter (\<lambda>x. x \<noteq> None) (en_connections en))"

text \<open>
  What an operation on an endpoint may do without accepting anyone: the static parts stay, a slot
  is emptied or keeps its connection, and every emptied slot is counted as a closed client.
\<close>

definition evolves :: "'w ctx \<Rightarrow> 'w ctx \<Rightarrow> bool" where
  "evolves s t \<longleftrightarrow>
     en_descriptor (cx_endpoint t) = en_descriptor (cx_endpoint s)
   \<and> en_limits (cx_endpoint t) = en_limits (cx_endpoint s)
   \<and> en_listener (cx_endpoint t) = en_listener (cx_endpoint s)
   \<and> en_frames (cx_endpoint t) = en_frames (cx_endpoint s)
   \<and> length (en_connections (cx_endpoint t)) = length (en_connections (cx_endpoint s))
   \<and> cx_next_connection_id t = cx_next_connection_id s
   \<and> accepted_clients (cx_stats t) = accepted_clients (cx_stats s)
   \<and> rejected_clients (cx_stats t) = rejected_clients (cx_stats s)
   \<and> closed_clients (cx_stats t) + of_nat (live (cx_endpoint t)) = closed_clients (cx_stats s) + of_nat (live (cx_endpoint s))
   \<and> (\<forall>slot c'. holds slot c' t \<longrightarrow> (\<exists>c. holds slot c s \<and> same_identity c c'))"

lemma evolves_refl: "evolves s s"
  by (auto simp: evolves_def same_identity_def)

lemma evolves_trans: "evolves s t \<Longrightarrow> evolves t u \<Longrightarrow> evolves s u"
  unfolding evolves_def same_identity_def by (metis (no_types, lifting))

lemma live_update_Some:
  "slot < length cs \<Longrightarrow> cs ! slot = Some c \<Longrightarrow> live (en\<lparr>en_connections := cs[slot := Some c']\<rparr>) = live (en\<lparr>en_connections := cs\<rparr>)"
  unfolding live_def
  by (simp add: upd_conv_take_nth_drop id_take_nth_drop [of slot cs, symmetric])
     (subst (3) id_take_nth_drop [of slot cs], simp_all)

lemma live_update_None:
  "slot < length cs \<Longrightarrow> cs ! slot = Some c \<Longrightarrow>
     live (en\<lparr>en_connections := cs\<rparr>) = Suc (live (en\<lparr>en_connections := cs[slot := None]\<rparr>))"
  unfolding live_def
  by (simp add: upd_conv_take_nth_drop) (subst id_take_nth_drop [of slot cs], simp_all)

lemma updated_evolves:
  assumes "updated slot c s c' t" "holds slot c s"
  shows "evolves s t"
proof -
  let ?cs = "en_connections (cx_endpoint s)"
  have e: "cx_endpoint t = (cx_endpoint s)\<lparr>en_connections := ?cs[slot := Some c']\<rparr>" "slot < length ?cs" "?cs ! slot = Some c"
    "same_identity c c'"
    using assms by (simp_all add: updated_def holds_def)
  have "live (cx_endpoint t) = live (cx_endpoint s)"
    using live_update_Some [OF e(2,3), where en = "cx_endpoint s" and c' = c'] by (simp add: e(1))
  moreover have "\<exists>x. holds k x s \<and> same_identity x y" if "holds k y t" for k y
    using that e assms(2) by (cases "k = slot") (auto simp: holds_def same_identity_def)
  ultimately show ?thesis using assms(1) by (simp add: evolves_def updated_def)
qed

lemma endpoint_inv_update:
  assumes "endpoint_inv en" "slot < 2" "case x of None \<Rightarrow> True | Some c \<Rightarrow> connection_wf en c"
  shows "endpoint_inv (en\<lparr>en_connections := (en_connections en)[slot := x]\<rparr>)"
  using assms set_update_subset_insert [of "en_connections en" slot x]
  by (auto simp: endpoint_inv_def endpoint_static_def frames_wf_def)

lemma inv_serving: "endpoint_inv (cx_endpoint s) \<Longrightarrow> holds slot c s \<Longrightarrow> serving slot c s"
  by (metis endpoint_inv_def holds_def nth_mem serving_def)

lemma holds_less: "endpoint_inv (cx_endpoint s) \<Longrightarrow> holds slot c s \<Longrightarrow> slot < 2"
  by (simp add: endpoint_inv_def endpoint_static_def holds_def)

lemma kept_True_inv:
  assumes "kept slot c s True t" "endpoint_inv (cx_endpoint s)" "holds slot c s"
  shows "endpoint_inv (cx_endpoint t)"
  using assms holds_less [OF assms(2,3)] endpoint_inv_update [OF assms(2)]
  by (force simp: kept_def updated_def)

lemma kept_evolves: "kept slot c s ok t \<Longrightarrow> holds slot c s \<Longrightarrow> evolves s t"
  by (auto simp: kept_def intro: updated_evolves)

text \<open>The other slot is not touched.\<close>

lemma kept_other: "kept slot c s ok t \<Longrightarrow> k \<noteq> slot \<Longrightarrow> en_connections (cx_endpoint t) ! k = en_connections (cx_endpoint s) ! k"
  by (auto simp: kept_def updated_def)

subsection \<open>Closing\<close>

definition closed_at :: "nat \<Rightarrow> 'w ctx \<Rightarrow> 'w ctx \<Rightarrow> bool" where
  "closed_at slot s t \<longleftrightarrow>
     cx_endpoint t = (cx_endpoint s)\<lparr>en_connections := (en_connections (cx_endpoint s))[slot := None]\<rparr>
   \<and> cx_stats t = closed_clients_update (\<lambda>n. n + 1) (cx_stats s) \<and> cx_next_connection_id t = cx_next_connection_id s"

lemma wp_close_connection:
  assumes "holds slot c s"
  shows "wp (close_connection os slot (cn_id c)) (\<lambda>_. closed_at slot s) environment_error s"
  using assms by (auto simp: close_connection_def wp_slot_at wp_simps closed_at_def split: prod.splits io.splits)

lemma close_other_id:
  assumes "slot < length (en_connections (cx_endpoint s))" "\<And>c. holds slot c s \<Longrightarrow> cn_id c \<noteq> i"
  shows "close_connection os slot i s = Ok ((), s)"
  using assms by (auto simp: close_connection_def get_slot_def slot_of_def holds_def prog_defs split: option.splits)

lemma closed_at_evolves:
  assumes "closed_at slot s t" "holds slot c s"
  shows "evolves s t"
proof -
  let ?cs = "en_connections (cx_endpoint s)"
  have e: "cx_endpoint t = (cx_endpoint s)\<lparr>en_connections := ?cs[slot := None]\<rparr>" "slot < length ?cs" "?cs ! slot = Some c"
    using assms by (simp_all add: closed_at_def holds_def)
  have "live (cx_endpoint s) = Suc (live (cx_endpoint t))"
    using live_update_None [OF e(2,3), where en = "cx_endpoint s"] by (simp add: e(1))
  moreover have "\<exists>x. holds k x s \<and> same_identity x y" if "holds k y t" for k y
    using that e by (cases "k = slot") (auto simp: holds_def same_identity_def)
  ultimately show ?thesis using assms(1) by (simp add: evolves_def closed_at_def)
qed

lemma closed_at_inv: "closed_at slot s t \<Longrightarrow> endpoint_inv (cx_endpoint s) \<Longrightarrow> slot < 2 \<Longrightarrow> endpoint_inv (cx_endpoint t)"
  using endpoint_inv_update [of "cx_endpoint s" slot None] by (simp add: closed_at_def)

text \<open>An operation that may ask for the connection to be closed, followed by closing it.\<close>

definition close_unless :: "'w os \<Rightarrow> nat \<Rightarrow> u64 \<Rightarrow> bool \<Rightarrow> ('w, unit) action" where
  "close_unless os slot i ok = (if ok then ret () else close_connection os slot i)"

lemma wp_close_unless:
  assumes inv: "endpoint_inv (cx_endpoint s)" and h: "holds slot c s" and k: "kept slot c s ok t"
  shows "wp (close_unless os slot (cn_id c) ok)
      (\<lambda>_ u. evolves s u \<and> endpoint_inv (cx_endpoint u)
         \<and> (\<forall>k. k \<noteq> slot \<longrightarrow> en_connections (cx_endpoint u) ! k = en_connections (cx_endpoint s) ! k)) environment_error t"
proof -
  obtain c' where c': "updated slot c s c' t" "ok \<longrightarrow> connection_wf (cx_endpoint s) c'" using k by (auto simp: kept_def)
  have h': "holds slot c' t" "cn_id c' = cn_id c"
    using updated_holds [OF c'(1) h] c'(1) by (simp_all add: updated_def same_identity_def)
  have e: "evolves s t" by (rule kept_evolves [OF k h])
  note other = kept_other [OF k]
  show ?thesis
  proof (cases ok)
    case True
    then show ?thesis using kept_True_inv [OF _ inv h] k e other by (simp add: close_unless_def)
  next
    case False
    have "wp (close_connection os slot (cn_id c)) (\<lambda>_. closed_at slot t) environment_error t"
      using wp_close_connection [OF h'(1), of os] h'(2) by simp
    then show ?thesis
      unfolding close_unless_def using False
    proof (simp, elim wp_mono)
      fix u assume cl: "closed_at slot t u"
      have "evolves s u" by (rule evolves_trans [OF e closed_at_evolves [OF cl h'(1)]])
      moreover have "cx_endpoint u = (cx_endpoint s)\<lparr>en_connections := (en_connections (cx_endpoint s))[slot := None]\<rparr>"
        using cl c'(1) by (simp add: closed_at_def updated_def)
      then have "endpoint_inv (cx_endpoint u)"
        using endpoint_inv_update [OF inv holds_less [OF inv h], of None] by simp
      ultimately show "evolves s u \<and> endpoint_inv (cx_endpoint u)
          \<and> (\<forall>k. k \<noteq> slot \<longrightarrow> en_connections (cx_endpoint u) ! k = en_connections (cx_endpoint s) ! k)"
        using other cl by (simp add: closed_at_def)
    qed
  qed
qed

end
