(* ===== verification/Accept_Inv.thy ===== *)
theory Accept_Inv
  imports Endpoint_Inv
begin

text \<open>
  Accepting clients: the loop ends when the queue of waiting clients is finite, fills free slots
  with fresh identifiers and leaves the connections that are there alone.
\<close>

section \<open>The queue of waiting clients\<close>

text \<open>
  \<open>backlog os m\<close>: \<open>m\<close> counts the clients that wait; accepting one takes it from the queue, and the
  other calls the loop makes do not add any.
\<close>

definition backlog :: "'w os \<Rightarrow> ('w \<Rightarrow> nat) \<Rightarrow> bool" where
  "backlog os m \<longleftrightarrow>
     (\<forall>l w x w'. os_accept os l w = (Done x, w') \<longrightarrow> m w' < m w)
   \<and> (\<forall>s w. m (os_drop os s w) \<le> m w) \<and> (\<forall>w. m (snd (os_now os w)) \<le> m w)
   \<and> (\<forall>s w. m (snd (os_set_nodelay os s w)) \<le> m w)
   \<and> (\<forall>s n w. m (snd (os_set_recv_buffer_size os s n w)) \<le> m w)
   \<and> (\<forall>s n w. m (snd (os_set_send_buffer_size os s n w)) \<le> m w)
   \<and> (\<forall>s t w. m (snd (os_register os s t w)) \<le> m w)"

lemma backlogD:
  assumes "backlog os m"
  shows "os_accept os l w = (Done x, w') \<Longrightarrow> m w' < m w" "m (os_drop os s w) \<le> m w"
    "os_now os w = (t, w') \<Longrightarrow> m w' \<le> m w" "os_set_nodelay os s w = (r, w') \<Longrightarrow> m w' \<le> m w"
    "os_set_recv_buffer_size os s n w = (r, w') \<Longrightarrow> m w' \<le> m w"
    "os_set_send_buffer_size os s n w = (r, w') \<Longrightarrow> m w' \<le> m w"
    "os_register os s k w = (r, w') \<Longrightarrow> m w' \<le> m w"
  using assms unfolding backlog_def by (metis snd_conv)+

lemma configure_stream_backlog:
  assumes "backlog os m" "configure_stream os limits token stream w = (ok, w')"
  shows "m w' \<le> m w"
proof -
  note b = backlogD [OF assms(1)]
  have d: "m (os_drop os stream v) \<le> k" if "m v \<le> k" for v k using b(2) [of stream v] that by simp
  obtain r1 w1 where 1: "os_set_nodelay os stream w = (r1, w1)" by force
  obtain r2 w2 where 2: "os_set_recv_buffer_size os stream (receive_buffer_bytes limits) w1 = (r2, w2)" by force
  obtain r3 w3 where 3: "os_set_send_buffer_size os stream (send_buffer_bytes limits) w2 = (r3, w3)" by force
  obtain r4 w4 where 4: "os_register os stream token w3 = (r4, w4)" by force
  have le: "m w1 \<le> m w" "m w2 \<le> m w" "m w3 \<le> m w" "m w4 \<le> m w"
    using b(4) [OF 1] b(5) [OF 2] b(6) [OF 3] b(7) [OF 4] by linarith+
  then show ?thesis
    using assms(2) 1 2 3 4 d by (auto simp: configure_stream_def split: io.splits)
qed

section \<open>One client\<close>

definition admits :: "u64 \<Rightarrow> u64 \<Rightarrow> 'w ctx \<Rightarrow> 'w ctx \<Rightarrow> bool" where
  "admits n e s t \<longleftrightarrow>
     (\<exists>cs. cx_endpoint t = (cx_endpoint s)\<lparr>en_connections := cs\<rparr>)
   \<and> unat (cx_next_connection_id s) \<le> unat (cx_next_connection_id t)
   \<and> closed_clients (cx_stats t) = closed_clients (cx_stats s)
   \<and> accepted_clients (cx_stats t) + of_nat (live (cx_endpoint s)) = accepted_clients (cx_stats s) + of_nat (live (cx_endpoint t))
   \<and> (\<forall>slot c. holds slot c s \<longrightarrow> holds slot c t)
   \<and> (\<forall>slot c. holds slot c t \<longrightarrow> holds slot c s \<or>
        (cx_next_connection_id s \<le> cn_id c \<and> cn_id c < cx_next_connection_id t
         \<and> connection_token n e (of_nat slot) (cn_id c) = Inr (cn_token c)))
   \<and> (\<forall>slot slot' c c'. holds slot c t \<and> holds slot' c' t \<and> cn_id c = cn_id c' \<and> cx_next_connection_id s \<le> cn_id c
        \<longrightarrow> slot = slot')"

lemma telescope:
  fixes a_t :: "'a::ab_group_add"
  assumes "a_t + l_s = a_s + l_t" "a_u + l_t = a_t + l_u"
  shows "a_u + l_s = a_s + l_u"
proof -
  have "(a_u + l_s) + l_t = (a_u + l_t) + l_s" by (simp only: ac_simps)
  also have "\<dots> = (a_t + l_s) + l_u" by (simp only: assms(2) ac_simps)
  also have "\<dots> = (a_s + l_u) + l_t" by (simp only: assms(1) ac_simps)
  finally show ?thesis by simp
qed

lemma admits_refl: "(\<And>slot c. holds slot c s \<Longrightarrow> cn_id c < cx_next_connection_id s) \<Longrightarrow> admits n e s s"
  unfolding admits_def by (auto intro: exI [of _ "en_connections (cx_endpoint s)"] simp: not_le [symmetric])

lemma admits_trans:
  assumes "admits n e s t" "admits n e t u"
  shows "admits n e s u"
proof -
  note 1 = assms(1) [unfolded admits_def] and 2 = assms(2) [unfolded admits_def]
  have next_le: "cx_next_connection_id s \<le> cx_next_connection_id t" "cx_next_connection_id t \<le> cx_next_connection_id u"
    using 1 2 by (simp_all add: word_le_nat_alt)
  have unique: "slot = slot'" if h: "holds slot c u" "holds slot' c' u" "cn_id c = cn_id c'" "cx_next_connection_id s \<le> cn_id c"
    for slot slot' c c'
  proof (cases "cx_next_connection_id t \<le> cn_id c")
    case True
    then show ?thesis using 2 h by blast
  next
    case False
    then have "holds slot c t" "holds slot' c' t" using 2 h by (metis)+
    then show ?thesis using 1 h by blast
  qed
  have fresh: "holds slot c s \<or> (cx_next_connection_id s \<le> cn_id c \<and> cn_id c < cx_next_connection_id u
      \<and> connection_token n e (of_nat slot) (cn_id c) = Inr (cn_token c))" if "holds slot c u" for slot c
  proof (cases "holds slot c t")
    case True
    then have "holds slot c s \<or> (cx_next_connection_id s \<le> cn_id c \<and> cn_id c < cx_next_connection_id t
        \<and> connection_token n e (of_nat slot) (cn_id c) = Inr (cn_token c))" using 1 by blast
    then show ?thesis using order_less_le_trans [OF _ next_le(2)] by blast
  next
    case False
    then have "cx_next_connection_id t \<le> cn_id c \<and> cn_id c < cx_next_connection_id u
        \<and> connection_token n e (of_nat slot) (cn_id c) = Inr (cn_token c)" using 2 that by blast
    then show ?thesis using order_trans [OF next_le(1)] by blast
  qed
  have acc: "accepted_clients (cx_stats u) + of_nat (live (cx_endpoint s)) = accepted_clients (cx_stats s) + of_nat (live (cx_endpoint u))"
    by (rule telescope [of "accepted_clients (cx_stats t)" _ _ "of_nat (live (cx_endpoint t))"]) (use 1 2 in simp_all)
  show ?thesis
    unfolding admits_def
  proof (intro conjI allI impI; (elim conjE)?)
    show "\<exists>cs. cx_endpoint u = (cx_endpoint s)\<lparr>en_connections := cs\<rparr>" using 1 2 by force
    show "unat (cx_next_connection_id s) \<le> unat (cx_next_connection_id u)"
      "closed_clients (cx_stats u) = closed_clients (cx_stats s)" using 1 2 by simp_all
    show "holds slot c u" if "holds slot c s" for slot c using that 1 2 by blast
  qed (fact acc fresh unique)+
qed

lemma live_insert:
  "slot < length cs \<Longrightarrow> cs ! slot = None \<Longrightarrow>
     live (en\<lparr>en_connections := cs[slot := Some c]\<rparr>) = Suc (live (en\<lparr>en_connections := cs\<rparr>))"
  unfolding live_def
  by (simp add: upd_conv_take_nth_drop) (subst (3) id_take_nth_drop [of slot cs], simp_all)

lemma find_free_Some:
  assumes "find_free cs = Some slot"
  shows "slot < length cs" "cs ! slot = None"
  using assms by (auto simp: find_free_def find_Some_iff)

lemma new_connection_wf:
  assumes "endpoint_static en"
  shows "connection_wf en (new_connection now i token stream (command_frame_bytes (en_limits en)) (ep_wire_version (en_descriptor en)))"
  using assms new_receive_buffer_wf
  by (auto simp: connection_wf_def new_connection_def endpoint_static_def sending_def new_receive_buffer_def split: wire_version.splits)

lemma admits_new:
  assumes inv: "endpoint_inv (cx_endpoint s)" and old: "\<And>slot c. holds slot c s \<Longrightarrow> cn_id c < cx_next_connection_id s"
    and slot: "find_free (en_connections (cx_endpoint s)) = Some slot"
    and next_id: "checked_add (cx_next_connection_id s) 1 = Some next_id"
    and token: "connection_token n e (of_nat slot) (cx_next_connection_id s) = Inr token"
    and c: "c = new_connection now (cx_next_connection_id s) token stream (command_frame_bytes (en_limits (cx_endpoint s)))
      (ep_wire_version (en_descriptor (cx_endpoint s)))"
    and t: "cx_endpoint t = (cx_endpoint s)\<lparr>en_connections := (en_connections (cx_endpoint s))[slot := Some c]\<rparr>"
      "cx_next_connection_id t = next_id" "cx_stats t = accepted_clients_update (\<lambda>k. k + 1) (cx_stats s)"
  shows "admits n e s t" "endpoint_inv (cx_endpoint t)" "\<And>slot c. holds slot c t \<Longrightarrow> cn_id c < cx_next_connection_id t"
proof -
  note free = find_free_Some [OF slot]
  have nx: "unat next_id = unat (cx_next_connection_id s) + 1" using next_id by (simp add: checked_add_Some_iff)
  then have lt: "cx_next_connection_id s < next_id" by (simp add: word_less_nat_alt)
  have id: "cn_id c = cx_next_connection_id s" "cn_token c = token" by (simp_all add: c new_connection_def)
  have h: "holds k x t \<longleftrightarrow> (if k = slot then x = c else holds k x s)" for k x
    using free(1) by (auto simp: holds_def t)
  have none: "\<not> holds slot x s" for x using free(2) by (simp add: holds_def)
  have live: "live (cx_endpoint t) = Suc (live (cx_endpoint s))"
    using live_insert [OF free, where en = "cx_endpoint s" and c = c] by (simp add: t)
  show bound: "\<And>slot c. holds slot c t \<Longrightarrow> cn_id c < cx_next_connection_id t"
    using h id lt order_less_trans [OF old lt] by (auto simp: t split: if_splits)
  have mono: "unat (cx_next_connection_id s) \<le> unat (cx_next_connection_id t)" using nx by (simp add: t)
  have static: "\<exists>cs. cx_endpoint t = (cx_endpoint s)\<lparr>en_connections := cs\<rparr>" by (auto simp: t)
  have unique: "k = k'" if "holds k x t" "holds k' y t" "cn_id x = cn_id y" "cx_next_connection_id s \<le> cn_id x" for k k' x y
    using that h old by (metis id(1) not_le)
  have stay: "holds k x t" if "holds k x s" for k x using that h none by auto
  have fresh: "holds k x s \<or> (cx_next_connection_id s \<le> cn_id x \<and> cn_id x < cx_next_connection_id t
      \<and> connection_token n e (of_nat k) (cn_id x) = Inr (cn_token x))" if "holds k x t" for k x
    using that h id token bound [OF that] by (cases "k = slot") auto
  have stats: "closed_clients (cx_stats t) = closed_clients (cx_stats s)"
    "accepted_clients (cx_stats t) + of_nat (live (cx_endpoint s)) = accepted_clients (cx_stats s) + of_nat (live (cx_endpoint t))"
    using live by (simp_all add: t(3))
  show "admits n e s t"
    unfolding admits_def
    by (intro conjI allI impI; (elim conjE)?) (fact static mono stats stay fresh unique)+
  have slot2: "slot < 2" using free(1) inv by (simp add: endpoint_inv_def endpoint_static_def)
  have "connection_wf (cx_endpoint s) c" unfolding c by (rule new_connection_wf) (use inv in \<open>simp add: endpoint_inv_def\<close>)
  then show "endpoint_inv (cx_endpoint t)"
    using endpoint_inv_update [OF inv slot2, of "Some c"] by (simp add: t)
qed

section \<open>The loop\<close>

text \<open>What an endpoint and the identifiers in it promise to the accepting loop.\<close>

definition accepting :: "'w ctx \<Rightarrow> bool" where
  "accepting s \<longleftrightarrow> endpoint_inv (cx_endpoint s) \<and> (\<forall>slot c. holds slot c s \<longrightarrow> cn_id c < cx_next_connection_id s)"

lemma wp_reject_client:
  assumes "accepting s"
  shows "wp (reject_client os stream) (\<lambda>r t. admits n e s t \<and> accepting t \<and> r = None \<and> cx_world t = os_drop os stream (cx_world s)) E s"
  using assms admits_refl [of s n e]
  by (auto simp: reject_client_def wp_simps accepting_def admits_def holds_def)

lemma wp_accept_round:
  assumes b: "backlog os m" and acc: "accepting s"
  shows "wp (accept_round os n e)
      (\<lambda>r t. admits n e s t \<and> accepting t \<and> (r = None \<longrightarrow> m (cx_world t) < m (cx_world s))) environment_error s"
proof -
  note bl = backlogD [OF b]
  have world: "admits n e s = admits n e (s\<lparr>cx_world := w\<rparr>)" "accepting (s\<lparr>cx_world := w\<rparr>)" for w
    using acc by (auto simp: admits_def accepting_def fun_eq_iff)
  have same: "admits n e s (s\<lparr>cx_world := w\<rparr>)" for w
    using admits_refl [of s n e] acc by (auto simp: accepting_def admits_def holds_def)
  obtain r w where a: "os_accept os (en_listener (cx_endpoint s)) (cx_world s) = (r, w)" by force
  show ?thesis
  proof (cases r)
    case (Done stream)
    have less: "m w < m (cx_world s)" using bl(1) a Done by blast
    have reject: "wp (reject_client os stream)
        (\<lambda>r t. admits n e s t \<and> accepting t \<and> (r = None \<longrightarrow> m (cx_world t) < m (cx_world s))) environment_error (s\<lparr>cx_world := w\<rparr>)"
      unfolding world(1) [of w]
      by (rule wp_mono [OF wp_reject_client [OF world(2)]]) (use less bl(2) [of stream w] in auto)
    have place: "admits n e s t" "accepting t" "m (cx_world t) < m (cx_world s)"
      if slot: "find_free (en_connections (cx_endpoint s)) = Some slot"
        and next_id: "checked_add (cx_next_connection_id s) 1 = Some next_id"
        and token: "connection_token n e (of_nat slot) (cx_next_connection_id s) = Inr token"
        and "configure_stream os (en_limits (cx_endpoint s)) token stream w = (ok, w1)" "os_now os w1 = (now, cx_world t)"
        and t: "cx_endpoint t = (cx_endpoint s)\<lparr>en_connections := (en_connections (cx_endpoint s))[slot :=
            Some (new_connection now (cx_next_connection_id s) token stream (command_frame_bytes (en_limits (cx_endpoint s)))
              (ep_wire_version (en_descriptor (cx_endpoint s))))]\<rparr>"
          "cx_next_connection_id t = next_id" "cx_stats t = accepted_clients_update (\<lambda>k. k + 1) (cx_stats s)"
      for slot next_id token ok w1 now t
    proof -
      show "m (cx_world t) < m (cx_world s)"
        using less bl(3) [OF that(5)] configure_stream_backlog [OF b that(4)] by simp
      have "endpoint_inv (cx_endpoint s)" "\<And>slot c. holds slot c s \<Longrightarrow> cn_id c < cx_next_connection_id s"
        using acc by (auto simp: accepting_def)
      from admits_new [OF this slot next_id token refl t] show "admits n e s t" "accepting t"
        by (auto simp: accepting_def)
    qed
    have refused: "admits n e s (s\<lparr>cx_world := w1, cx_stats := rejected_clients_update f (cx_stats s)\<rparr>)
        \<and> accepting (s\<lparr>cx_world := w1, cx_stats := rejected_clients_update f (cx_stats s)\<rparr>)" for w1 f
      using same [of w1] acc by (auto simp: admits_def accepting_def holds_def)
    have conf: "m w1 < m (cx_world s)" if "configure_stream os lim token stream w = (ok, w1)" for ok w1 token lim
      using less configure_stream_backlog [OF b that] by simp
    have later: "m w2 < m (cx_world s)"
      if "configure_stream os lim token stream w = (ok, w1)" "os_now os w1 = (now, w2)" for ok w1 w2 now token lim
      using conf [OF that(1)] bl(3) [OF that(2)] by simp
    show ?thesis
      using a Done reject refused conf later
      by (auto simp: accept_round_def wp_simps intro: place split: option.splits sum.splits prod.splits)
  qed (use a same acc world in \<open>auto simp: accept_round_def wp_simps\<close>)
qed

lemma wp_accept_connections:
  assumes "backlog os m" "accepting s"
  shows "wp (accept_connections os n e) (\<lambda>_ t. admits n e s t \<and> accepting t) environment_error s"
  unfolding accept_connections_def
proof (rule wp_loop [where I = "\<lambda>t. admits n e s t \<and> accepting t" and m = "\<lambda>t. m (cx_world t)"])
  show "admits n e s s \<and> accepting s" using assms(2) admits_refl by (auto simp: accepting_def)
  fix t assume t: "admits n e s t \<and> accepting t"
  show "wp (accept_round os n e) (\<lambda>r u. case r of None \<Rightarrow> (admits n e s u \<and> accepting u) \<and> m (cx_world u) < m (cx_world t)
      | Some x \<Rightarrow> admits n e s u \<and> accepting u) environment_error t"
    by (rule wp_mono [OF wp_accept_round [OF assms(1)]])
       (use t admits_trans in \<open>auto split: option.splits\<close>)
qed

end
