(* ===== verification/Config_Props.thy ===== *)
theory Config_Props
  imports Config
begin

text \<open>
  The properties of profile compilation, with two profiles shipped with the simulator as their
  concrete instances.
\<close>

section \<open>When compilation succeeds\<close>

lemma digit_char_byte:
  assumes "d < 10"
  shows "is_printable_ascii (of_char (digit_char d))" "\<not> is_ascii_control (of_char (digit_char d))"
proof -
  have "list_all (\<lambda>d. is_printable_ascii (of_char (digit_char d)) \<and> \<not> is_ascii_control (of_char (digit_char d))) [0..<10]"
    by code_simp
  then show "is_printable_ascii (of_char (digit_char d))" "\<not> is_ascii_control (of_char (digit_char d))"
    using assms by (simp_all add: list_all_iff)
qed

lemma show_nat_digits: "\<forall>c \<in> set (show_nat n). \<exists>d<10. c = digit_char d"
proof (induction n rule: show_nat.induct)
  case (1 n)
  have "\<exists>d<10. digit_char (n mod 10) = digit_char d" by (rule exI [of _ "n mod 10"]) simp
  with 1 show ?case by (subst show_nat.simps) (auto split: if_splits)
qed

lemma show_nat_03_digits: "\<forall>c \<in> set (show_nat_03 n). \<exists>d<10. c = digit_char d"
proof -
  have "\<exists>d<10. digit_char 0 = digit_char d" by (rule exI [of _ 0]) simp
  moreover have "CHR ''0'' = digit_char 0" by code_simp
  ultimately show ?thesis using show_nat_digits [of n] by (auto simp: show_nat_03_def Let_def)
qed

lemma show_nat_03_bytes:
  "list_all is_printable_ascii (str_bytes (show_nat_03 n))"
  "\<not> list_ex is_ascii_control (str_bytes (show_nat_03 n))"
  using show_nat_03_digits [of n] digit_char_byte
  by (fastforce simp: str_bytes_def list_all_iff list_ex_iff)+

lemma encoded_name_suffix:
  assumes "m < 1000" "n < 1000"
  shows "is_ok (encoded_name (prefix @ show_nat_03 m) fld) \<longleftrightarrow> is_ok (encoded_name (prefix @ show_nat_03 n) fld)"
proof -
  have "show_nat_03 m \<noteq> []" "show_nat_03 n \<noteq> []"
    using length_show_nat_03 [OF assms(1)] length_show_nat_03 [OF assms(2)] by force+
  then show ?thesis
    using assms show_nat_03_bytes(2) [of m] show_nat_03_bytes(2) [of n]
    by (auto simp: encoded_name_def str_bytes_def length_show_nat_03 is_ok_def)
qed

lemma v2_fixed_ascii_suffix:
  assumes "n < 1000"
  shows "is_ok (v2_fixed_ascii (prefix @ show_nat_03 n) fld) \<longleftrightarrow>
    length prefix \<le> 13 \<and> list_all is_printable_ascii (str_bytes prefix)"
proof -
  have "show_nat_03 n \<noteq> []" using length_show_nat_03 [OF assms] by force
  then show ?thesis
    using show_nat_03_bytes(1) [of n] assms
    by (auto simp: v2_fixed_ascii_def str_bytes_def length_show_nat_03 is_ok_def const_defs)
qed

lemma compile_endpoints_ok:
  "(\<And>i. i \<in> set is \<Longrightarrow> \<exists>ep. body i = Some (Inr ep)) \<Longrightarrow> \<exists>eps. compile_endpoints body is = Some (Inr eps)"
proof (induction "is")
  case (Cons i "is")
  then obtain ep eps where "body i = Some (Inr ep)" "compile_endpoints body is = Some (Inr eps)" by fastforce
  then show ?case by simp
qed simp

lemma compile_endpoints_fail:
  "i \<in> set is \<Longrightarrow> \<nexists>ep. body i = Some (Inr ep) \<Longrightarrow> \<nexists>eps. compile_endpoints body is = Some (Inr eps)"
  by (auto dest!: compile_endpoints_Inr simp: list_all2_conv_all_nth in_set_conv_nth)

lemma is_ok_iff: "is_ok r \<longleftrightarrow> (\<exists>x. r = Inr x)"
  by (cases r) auto

lemma compile_endpoint_ok_iff:
  assumes pre: "compile_prefix p = Inr (wv, pdc, names, v2_names, v2_units)" and i: "i < fl_count (pr_fleet p)"
  shows "(\<exists>ep. compile_endpoint p wv pdc names v2_names v2_units i = Some (Inr ep)) \<longleftrightarrow>
    (wv = V2 \<longrightarrow> length (pmu_name_prefix (pr_fleet p)) \<le> 13
       \<and> list_all is_printable_ascii (str_bytes (pmu_name_prefix (pr_fleet p))))"
proof -
  note c = compile_prefix_Inr [OF pre]
  note f = validate_fleet_Inr [OF c(2)] and l = validate_limits_Inr [OF c(1)]
  have small: "fl_count (pr_fleet p) \<le> 150" using f(2) l(1) by (simp add: MAX_LOGICAL_PMUS_def)
  obtain off :: u16 where off: "try_from i = Some off" "unat off = i"
    using i small by (auto simp: try_from_def unsigned_of_nat take_bit_nat_eq_self)
  have add: "\<exists>v. checked_add a off = Some v" if "unat a + (fl_count (pr_fleet p) - 1) < 65536" for a :: u16
    using that i off(2) by (simp add: checked_add_def)
  obtain port sid pid where ids: "checked_add (first_listen_port (pr_fleet p)) off = Some port"
      "checked_add (first_stream_id (pr_fleet p)) off = Some sid" "checked_add (first_pmu_id (pr_fleet p)) off = Some pid"
    using add [of "first_listen_port (pr_fleet p)"] add [of "first_stream_id (pr_fleet p)"]
      add [of "first_pmu_id (pr_fleet p)"] c(3,6,8) by force
  show ?thesis
  proof (cases wv)
    case V2
    obtain ns us where "v2_names = Some ns" "v2_units = Some us" using c(11) [OF V2] by blast
    moreover have "is_ok (v2_fixed_ascii (pmu_name_prefix (pr_fleet p) @ show_nat_03 (i + 1)) ''fleet.pmu_name_prefix'')
       \<longleftrightarrow> length (pmu_name_prefix (pr_fleet p)) \<le> 13 \<and> list_all is_printable_ascii (str_bytes (pmu_name_prefix (pr_fleet p)))"
      using i small by (intro v2_fixed_ascii_suffix) simp
    ultimately show ?thesis
      by (auto simp: compile_endpoint_def Let_def off(1) ids V2 is_ok_def split: sum.splits)
  next
    case V3
    have "is_ok (encoded_name (pmu_name_prefix (pr_fleet p) @ show_nat_03 (fl_count (pr_fleet p))) ''fleet.pmu_name_prefix'')"
      using c(2) by (auto simp: validate_fleet_def)
    then have "is_ok (encoded_name (pmu_name_prefix (pr_fleet p) @ show_nat_03 (i + 1)) ''fleet.pmu_name_prefix'')"
      using encoded_name_suffix [of "fl_count (pr_fleet p)" "i + 1"] i small by auto
    then show ?thesis
      by (auto simp: compile_endpoint_def Let_def off(1) ids V3 is_ok_def split: sum.splits)
  qed
qed

lemma compile_profile_ok_iff:
  "(\<exists>cp. compile_profile p = Some (Inr cp)) \<longleftrightarrow>
     is_ok (compile_prefix p) \<and>
     (fl_protocol_version (pr_fleet p) = 2 \<longrightarrow> length (pmu_name_prefix (pr_fleet p)) \<le> 13
       \<and> list_all is_printable_ascii (str_bytes (pmu_name_prefix (pr_fleet p))))"
proof (cases "compile_prefix p")
  case (Inl e)
  then show ?thesis by (simp add: compile_profile_def)
next
  case (Inr q)
  obtain wv pdc names v2_names v2_units where q: "q = (wv, pdc, names, v2_names, v2_units)"
    by (cases q)
  note pre = Inr [unfolded q]
  note f = validate_fleet_Inr [OF compile_prefix_Inr(2) [OF pre]]
  have wv: "wv = V2 \<longleftrightarrow> fl_protocol_version (pr_fleet p) = 2"
    using f(3) by (cases wv) (simp_all add: const_defs)
  let ?body = "compile_endpoint p wv pdc names v2_names v2_units" and ?n = "fl_count (pr_fleet p)"
  have "(\<exists>cp. compile_profile p = Some (Inr cp)) \<longleftrightarrow> (\<exists>eps. compile_endpoints ?body [0..<?n] = Some (Inr eps))"
    by (auto simp: compile_profile_def pre split: option.splits sum.splits)
  also have "\<dots> \<longleftrightarrow> (\<forall>i<?n. \<exists>ep. ?body i = Some (Inr ep))"
    using compile_endpoints_ok [of "[0..<?n]" ?body] compile_endpoints_fail [of _ "[0..<?n]" ?body] by auto
  also have "\<dots> \<longleftrightarrow> (wv = V2 \<longrightarrow> length (pmu_name_prefix (pr_fleet p)) \<le> 13
       \<and> list_all is_printable_ascii (str_bytes (pmu_name_prefix (pr_fleet p))))"
    using compile_endpoint_ok_iff [OF pre] f(1) by (metis less_le_trans zero_less_one)
  finally show ?thesis by (simp add: wv Inr)
qed

section \<open>Shipped profiles\<close>

definition shipped_fleet :: fleet where
  "shipped_fleet =
     \<lparr>fl_count = 3, bind_address = IpV4 0, first_listen_port = 4712, first_stream_id = 1001, first_pmu_id = 1001,
      fl_pdc_name = ''WAMA'', pmu_name_prefix = ''WAMA-PMU-'', fl_protocol_version = 2,
      v2_good_stat_pmu_ids = [1001, 1002], fl_data_rate_hz = 50, fl_time_base = 1000000,
      fl_nominal_frequency_hz = 50,
      phasors = \<lparr>voltage_magnitude = f32_lit 230000, voltage_variation = f32_lit 400,
                 voltage_class = f32_lit 400000, voltage_scale = f32_lit 10,
                 current_magnitude = f32_lit 500, current_variation = f32_lit 1.5, current_scale = f32_lit 1\<rparr>,
      frequency_deviation_hz = \<lparr>nominal = f32_lit 0.01, variation = f32_lit 0.002\<rparr>,
      rocof_hz_per_s = \<lparr>nominal = f32_lit 0, variation = f32_lit 0.001\<rparr>\<rparr>"

text \<open>\<^verbatim>\<open>profiles/three-pmu-v2.yaml\<close> and \<^verbatim>\<open>profiles/one-pmu.yaml\<close> (version 3).\<close>

definition three_pmu_v2 :: profile where
  "three_pmu_v2 =
     \<lparr>pr_seed = 20260821,
      pr_limits = \<lparr>max_logical_pmus = 100, max_clients_per_endpoint = 2, max_command_frame_bytes = 4096,
                   requested_socket_receive_buffer_bytes = 4096, requested_socket_send_buffer_bytes = 4096\<rparr>,
      pr_fleet = shipped_fleet\<rparr>"

definition one_pmu :: profile where
  "one_pmu = three_pmu_v2\<lparr>pr_fleet := shipped_fleet\<lparr>fl_count := 1, fl_protocol_version := 3, v2_good_stat_pmu_ids := []\<rparr>\<rparr>"

definition compiled :: "profile \<Rightarrow> compiled_profile" where
  "compiled p = (case compile_profile p of Some (Inr cp) \<Rightarrow> cp
     | _ \<Rightarrow> \<lparr>cp_seed = 0, cp_limits = \<lparr>command_frame_bytes = 0, receive_buffer_bytes = 0, send_buffer_bytes = 0\<rparr>, cp_endpoints = []\<rparr>)"

text \<open>The floating-point checks are evaluated once; the rest of the validation is rewriting.\<close>

lemma shipped_phasors: "validate_phasors (phasors shipped_fleet) = Inr ()"
  by code_simp

lemma shipped_signals: "validate_signals (frequency_deviation_hz shipped_fleet) (rocof_hz_per_s shipped_fleet) = Inr ()"
  by code_simp

lemma shipped_phunits: "\<exists>us. v2_phunits (phasors shipped_fleet) = Inr us"
proof -
  have "is_ok (v2_phunits (phasors shipped_fleet))" by code_simp
  then show ?thesis by (simp add: is_ok_iff)
qed

lemma shipped_names:
  "is_ok (encoded_name (fl_pdc_name shipped_fleet) ''fleet.pdc_name'')"
  "is_ok (encoded_name (pmu_name_prefix shipped_fleet @ show_nat_03 3) ''fleet.pmu_name_prefix'')"
  "is_ok (encoded_name (pmu_name_prefix shipped_fleet @ show_nat_03 1) ''fleet.pmu_name_prefix'')"
  "is_ok standard_v2_channel_names"
  by code_simp+

lemma shipped_prefixes: "is_ok (compile_prefix three_pmu_v2)" "is_ok (compile_prefix one_pmu)"
proof -
  have fields: "fl_count shipped_fleet = 3" "first_listen_port shipped_fleet = 4712" "first_stream_id shipped_fleet = 1001"
    "first_pmu_id shipped_fleet = 1001" "fl_protocol_version shipped_fleet = 2" "v2_good_stat_pmu_ids shipped_fleet = [1001, 1002]"
    "fl_data_rate_hz shipped_fleet = 50" "fl_time_base shipped_fleet = 1000000" "fl_nominal_frequency_hz shipped_fleet = 50"
    by (simp_all add: shipped_fleet_def)
  note names = shipped_names [unfolded is_ok_iff]
  note defs = compile_prefix_def Let_def is_ok_iff validate_limits_def validate_fleet_def wire_version_try_from_def
    final_identifier_def validate_v2_good_stat_pmu_ids_def try_from_def checked_add_def const_defs
  show "is_ok (compile_prefix three_pmu_v2)"
    using names shipped_phunits
    by (auto simp: defs three_pmu_v2_def fields shipped_phasors shipped_signals)
  show "is_ok (compile_prefix one_pmu)"
    using names
    by (auto simp: defs one_pmu_def three_pmu_v2_def fields shipped_phasors shipped_signals standard_channel_names_eq)
qed

lemma shipped_prefix_name:
  "length (pmu_name_prefix (pr_fleet three_pmu_v2)) \<le> 13"
  "list_all is_printable_ascii (str_bytes (pmu_name_prefix (pr_fleet three_pmu_v2)))"
  by code_simp+

lemma shipped_compile:
  "compile_profile three_pmu_v2 = Some (Inr (compiled three_pmu_v2))"
  "compile_profile one_pmu = Some (Inr (compiled one_pmu))"
proof -
  have "\<exists>cp. compile_profile three_pmu_v2 = Some (Inr cp)" "\<exists>cp. compile_profile one_pmu = Some (Inr cp)"
    using compile_profile_ok_iff shipped_prefixes shipped_prefix_name
    by (auto simp: one_pmu_def)
  then show "compile_profile three_pmu_v2 = Some (Inr (compiled three_pmu_v2))"
    "compile_profile one_pmu = Some (Inr (compiled one_pmu))"
    by (auto simp: compiled_def)
qed

lemma compiled_wire_version:
  assumes "compile_profile p = Some (Inr cp)" "i < length (cp_endpoints cp)"
  shows "endpoint_wf (cp_endpoints cp ! i)"
    and "protocol_version (ep_wire_version (cp_endpoints cp ! i)) = fl_protocol_version (pr_fleet p)"
proof -
  show wf: "endpoint_wf (cp_endpoints cp ! i)"
    using compile_profile_wf [OF assms(1)] assms(2) by (simp add: profile_wf_def list_all_length)
  from assms(1) obtain wv pdc names v2_names v2_units
    where "length (cp_endpoints cp) = fl_count (pr_fleet p)"
      and "\<And>i. i < fl_count (pr_fleet p) \<Longrightarrow>
             compile_endpoint p wv pdc names v2_names v2_units i = Some (Inr (cp_endpoints cp ! i))"
    by (elim compile_profile_Inr) blast
  then have "compile_endpoint p wv pdc names v2_names v2_units i = Some (Inr (cp_endpoints cp ! i))"
    using assms(2) by simp
  then have "ep_protocol_version (cp_endpoints cp ! i) = fl_protocol_version (pr_fleet p)"
    by (rule compile_endpoint_Inr(6))
  then show "protocol_version (ep_wire_version (cp_endpoints cp ! i)) = fl_protocol_version (pr_fleet p)"
    using wf by (simp add: endpoint_wf_def)
qed

text \<open>The first endpoint of each shipped profile.\<close>

definition endpoint_v2 :: endpoint_descriptor where
  "endpoint_v2 = cp_endpoints (compiled three_pmu_v2) ! 0"

definition endpoint_v3 :: endpoint_descriptor where
  "endpoint_v3 = cp_endpoints (compiled one_pmu) ! 0"

lemma shipped_endpoints:
  "endpoint_wf endpoint_v2" "ep_wire_version endpoint_v2 = V2"
  "endpoint_wf endpoint_v3" "ep_wire_version endpoint_v3 = V3"
proof -
  have len: "0 < length (cp_endpoints (compiled three_pmu_v2))" "0 < length (cp_endpoints (compiled one_pmu))"
    using compile_profile_wf [OF shipped_compile(1)] compile_profile_wf [OF shipped_compile(2)]
    by (auto simp: profile_wf_def)
  show "endpoint_wf endpoint_v2" "endpoint_wf endpoint_v3"
    unfolding endpoint_v2_def endpoint_v3_def
    using compiled_wire_version(1) [OF shipped_compile(1) len(1)] compiled_wire_version(1) [OF shipped_compile(2) len(2)]
    by simp_all
  have "protocol_version (ep_wire_version endpoint_v2) = 2" "protocol_version (ep_wire_version endpoint_v3) = 3"
    unfolding endpoint_v2_def endpoint_v3_def
    using compiled_wire_version(2) [OF shipped_compile(1) len(1)] compiled_wire_version(2) [OF shipped_compile(2) len(2)]
    by (simp_all add: one_pmu_def three_pmu_v2_def shipped_fleet_def)
  then show "ep_wire_version endpoint_v2 = V2" "ep_wire_version endpoint_v3 = V3"
    by (cases "ep_wire_version endpoint_v2"; cases "ep_wire_version endpoint_v3"; simp add: const_defs)+
qed

section \<open>Properties\<close>

text \<open>C2. A profile that compiles yields between 1 and 150 endpoints, numbered from 0, all of one wire version
  and one time base.  Every endpoint has identifiers from 1 to 65534, a nonzero port, a 50 Hz rate
  that divides its 24-bit time base, length-prefixed names without control characters, and either
  complete version-2 metadata (16-byte names, six PHUNITs with a scale) or version-3 names and a
  UUID; listener ports, stream and PMU identifiers count up from the first ones without wrapping.\<close>

theorem compile_profile_correct:
  assumes "compile_profile p = Some (Inr cp)"
  shows "profile_wf cp \<and> length (cp_endpoints cp) = fl_count (pr_fleet p)
    \<and> (\<forall>i < length (cp_endpoints cp).
      unat (sa_port (ep_address (cp_endpoints cp ! i))) = unat (first_listen_port (pr_fleet p)) + i
      \<and> unat (ep_stream_id (cp_endpoints cp ! i)) = unat (first_stream_id (pr_fleet p)) + i
      \<and> unat (ep_pmu_id (cp_endpoints cp ! i)) = unat (first_pmu_id (pr_fleet p)) + i)"
  using compile_profile_wf [OF assms] compile_profile_identifiers [OF assms] assms
  by (auto elim: compile_profile_Inr)

theorem compile_profile_correct_witness:
  "profile_wf (compiled three_pmu_v2) \<and> unat (ep_stream_id (cp_endpoints (compiled three_pmu_v2) ! 2)) = 1003"
proof -
  have "length (cp_endpoints (compiled three_pmu_v2)) = 3" "first_stream_id (pr_fleet three_pmu_v2) = 1001"
    using compile_profile_correct [OF shipped_compile(1)] by (simp_all add: three_pmu_v2_def shipped_fleet_def)
  then show ?thesis
    using compile_profile_correct [OF shipped_compile(1)] by simp
qed

text \<open>Compilation never panics: the two \<^verbatim>\<open>expect\<close>s on version-2 metadata are unreachable, so every profile
  yields a compiled profile or a configuration error.\<close>

theorem compile_profile_never_panics: "compile_profile p \<noteq> None"
  by (rule compile_profile_no_panic)

text \<open>C26. Compilation succeeds exactly when the checks before the endpoint loop pass and, for version 2, the PMU
  name prefix is printable ASCII of at most 13 bytes, which leaves room for the three digits in the
  16-byte name field.  For version 3 the loop adds no failure.\<close>

theorem compile_profile_succeeds_iff:
  "(\<exists>cp. compile_profile p = Some (Inr cp)) \<longleftrightarrow>
     is_ok (compile_prefix p) \<and>
     (fl_protocol_version (pr_fleet p) \<noteq> 2
      \<or> length (pmu_name_prefix (pr_fleet p)) \<le> 13
        \<and> list_all is_printable_ascii (str_bytes (pmu_name_prefix (pr_fleet p))))"
  using compile_profile_ok_iff [of p] by auto

theorem compile_profile_succeeds_iff_witness: "\<exists>cp. compile_profile three_pmu_v2 = Some (Inr cp)"
  unfolding compile_profile_succeeds_iff using shipped_prefixes shipped_prefix_name by simp

end
