(* ===== verification/Wire_Props.thy ===== *)
theory Wire_Props
  imports Wire_V3 Config_Props
begin

text \<open>
  The properties of the two wire modules: what the encoders produce for a compiled endpoint, that the
  parsers accept it and read the fields back, and that corrupted frames and frames of the other
  version are refused.
\<close>

section \<open>Lengths\<close>

lemma length_concat_const: "list_all (\<lambda>x. length x = n) xs \<Longrightarrow> length (concat xs) = n * length xs"
  by (induction xs) simp_all

lemma length_concat_bound: "list_all (\<lambda>x. length x \<le> n) xs \<Longrightarrow> length (concat xs) \<le> n * length xs"
  by (induction xs) simp_all

lemma indexed_name_length: "indexed_name_wf bs \<Longrightarrow> length bs \<le> 256"
proof -
  assume "indexed_name_wf bs"
  then have "unat (hd bs) = length (tl bs)" by (simp add: indexed_name_wf_def)
  moreover have "unat (hd bs) < 256" using unsigned_less [of "hd bs", where ?'a = nat] by simp
  ultimately show ?thesis by (cases bs) simp_all
qed

lemma length_configuration_body_v2:
  assumes "v2_metadata_wf m"
  shows "length (configuration_body_v2 ep m) = 158"
proof -
  have "length (concat (v2_channel_names m)) = 96"
    using assms length_concat_const [of 16 "v2_channel_names m"]
    by (simp add: v2_metadata_wf_def fixed_name_wf_def const_defs list_all_iff)
  moreover have "length (concat (map u32_to_be (phunits m))) = 24"
    using assms length_concat_const [of 4 "map u32_to_be (phunits m)"]
    by (simp add: v2_metadata_wf_def const_defs list_all_iff)
  moreover have "length (station_name m) = 16"
    using assms by (simp add: v2_metadata_wf_def fixed_name_wf_def const_defs)
  ultimately show ?thesis by (simp add: configuration_body_v2_def)
qed

lemma length_configuration_body_v3:
  assumes "v3_names_wf ep" "indexed_name_wf (ep_pdc_name ep)"
  shows "length (configuration_body_v3 ep) \<le> 2752"
proof -
  have "length (concat (ep_channel_names ep)) \<le> 2048"
    using assms(1) length_concat_bound [of 256 "ep_channel_names ep"] indexed_name_length
    by (simp add: v3_names_wf_def list_all_iff)
  moreover have "length (ep_pdc_name ep) \<le> 256" "length (ep_pmu_name ep) \<le> 256" "length (ep_global_pmu_id ep) = 16"
    using assms indexed_name_length by (simp_all add: v3_names_wf_def uuid_v4_shaped_def)
  ultimately show ?thesis
    by (simp add: configuration_body_v3_def upt_phasors)
qed

lemma endpoint_wf_v2:
  assumes "endpoint_wf ep" "ep_wire_version ep = V2"
  obtains m where "ep_v2 ep = Some m" "v2_metadata_wf m"
  using assms by (auto simp: endpoint_wf_def split: option.splits)

lemma endpoint_wf_v3:
  assumes "endpoint_wf ep" "ep_wire_version ep = V3"
  shows "v3_names_wf ep" "indexed_name_wf (ep_pdc_name ep)"
  using assms by (auto simp: endpoint_wf_def)

section \<open>Properties\<close>

text \<open>C25. Version 2: every command frame the encoder produces is an 18-byte frame that the bounded parser
  accepts at its exact size and that decodes to the same identifier and command.\<close>

theorem command_roundtrip_v2:
  "\<exists>f. encode_command_v2 i c ts = Some f \<and> length f = 18 \<and> parse_with_limit_v2 f 18 = Inr f
     \<and> parse_command_v2 f = Inr \<lparr>req_idcode = i, req_command_v2 = c\<rparr>"
  by (rule encode_command_v2_roundtrip)

text \<open>Version 3: the same round trip for its commands.\<close>

theorem command_roundtrip_v3:
  "\<exists>f. encode_command_v3 i c ts = Some f \<and> length f = 18 \<and> parse_with_limit_v3 f 18 = Inr f
     \<and> parse_command_v3 f = Inr \<lparr>req_stream_id = i, req_command_v3 = c\<rparr>"
  by (rule encode_command_v3_roundtrip)

text \<open>C13. Replacing any single byte of a frame that the version-2 parser accepts gives bytes that it rejects,
  whatever size limit is used.\<close>

theorem corrupted_frame_rejected_v2:
  assumes "parse_with_limit_v2 bs limit = Inr f" and "i < length bs" and "b \<noteq> bs ! i"
  shows "\<exists>e. parse_with_limit_v2 (bs[i := b]) limit' = Inl e"
  by (rule v2.corruption_rejected [OF assms])

theorem corrupted_frame_rejected_v2_witness:
  "\<exists>f e. encode_command_v2 7 StartV2 \<lparr>soc = 0, fracsec = 0\<rparr> = Some f \<and> parse_v2 (f[0 := 0xab]) = Inl e"
proof -
  obtain f where f: "encode_command_v2 7 StartV2 \<lparr>soc = 0, fracsec = 0\<rparr> = Some f" "length f = 18"
    "parse_with_limit_v2 f 18 = Inr f"
    using encode_command_v2_roundtrip by blast
  then have "f ! 0 = SYNC_BYTE" by (simp add: v2.parse_ok)
  then have "0xab \<noteq> f ! 0" by (simp add: SYNC_BYTE_def)
  then show ?thesis
    using corrupted_frame_rejected_v2 [OF f(3), of 0 "0xab" 65535] f by (auto simp: parse_v2_def)
qed

text \<open>The same for the version-3 parser.\<close>

theorem corrupted_frame_rejected_v3:
  assumes "parse_with_limit_v3 bs limit = Inr f" and "i < length bs" and "b \<noteq> bs ! i"
  shows "\<exists>e. parse_with_limit_v3 (bs[i := b]) limit' = Inl e"
  by (rule v3.corruption_rejected [OF assms])

theorem corrupted_frame_rejected_v3_witness:
  "\<exists>f e. encode_command_v3 7 StartV3 \<lparr>soc = 0, fracsec = 0\<rparr> = Some f \<and> parse_v3 (f[0 := 0xab]) = Inl e"
proof -
  obtain f where f: "encode_command_v3 7 StartV3 \<lparr>soc = 0, fracsec = 0\<rparr> = Some f" "length f = 18"
    "parse_with_limit_v3 f 18 = Inr f"
    using encode_command_v3_roundtrip by blast
  then have "f ! 0 = SYNC_BYTE" by (simp add: v3.parse_ok)
  then have "0xab \<noteq> f ! 0" by (simp add: SYNC_BYTE_def)
  then show ?thesis
    using corrupted_frame_rejected_v3 [OF f(3), of 0 "0xab" 65535] f by (auto simp: parse_v3_def)
qed

text \<open>The versions do not mix: a version-2 parser refuses every frame of the version-3 encoder, whose frame
  types all have the top bit set, as a bad synchronisation word, and a version-2 command that the
  version-3 parser accepts is refused by the version-3 command decoder.\<close>

theorem versions_do_not_mix:
  "(encode_frame_v3 ty i ts body = Some f
      \<and> ty \<in> {FRAME_TYPE_PERIODIC_DATA_V3, FRAME_TYPE_CAPABILITY, FRAME_TYPE_STREAM_CONFIGURATION,
            FRAME_TYPE_COMMAND_V3, FRAME_TYPE_ERROR_RESPONSE} \<longrightarrow>
      parse_with_limit_v2 f limit = Inl BadSync)
    \<and> (encode_command_v2 i c ts = Some g \<longrightarrow> parse_command_v3 g = Inl UnsupportedVersion)"
proof (intro conjI impI; (elim conjE)?)
  assume f: "encode_frame_v3 ty i ts body = Some f" and ty: "ty \<in> {FRAME_TYPE_PERIODIC_DATA_V3,
    FRAME_TYPE_CAPABILITY, FRAME_TYPE_STREAM_CONFIGURATION, FRAME_TYPE_COMMAND_V3, FRAME_TYPE_ERROR_RESPONSE}"
  have "f = frame_bytes V3_PROTOCOL_VERSION 0 ty i ts body" using f by (simp add: v3.encode_eq split: if_splits)
  moreover have "(push_bit 4 ty OR V3_PROTOCOL_VERSION) AND 0x80 \<noteq> 0"
    using ty by (auto simp: const_defs)
  ultimately show "parse_with_limit_v2 f limit = Inl BadSync"
    by (simp add: parse_with_limit_v2_def frame_fields MIN_FRAME_BYTES_def FRAME_HEADER_BYTES_def FRAME_CHECKSUM_BYTES_def)
next
  assume "encode_command_v2 i c ts = Some g"
  then have "g = frame_bytes 2 0x0f 4 i ts (u16_to_be (command_code_v2 c))"
    by (simp add: encode_command_v2_def v2.encode_eq const_defs)
  then show "parse_command_v3 g = Inl UnsupportedVersion"
    by (simp add: parse_command_v3_def version_v3_def frame_fields V3_PROTOCOL_VERSION_def)
qed

theorem versions_do_not_mix_witness:
  "\<exists>f. encode_command_v3 7 StopV3 \<lparr>soc = 0, fracsec = 0\<rparr> = Some f \<and> parse_v2 f = Inl BadSync"
proof -
  obtain f where "encode_command_v3 7 StopV3 \<lparr>soc = 0, fracsec = 0\<rparr> = Some f"
    using encode_command_v3_roundtrip by blast
  then show ?thesis
    using versions_do_not_mix [of FRAME_TYPE_COMMAND_V3] by (auto simp: encode_command_v3_def parse_v2_def)
qed

text \<open>For every endpoint of a compiled version-2 profile the header, CFG-1 and CFG-2 encoders return: a
  32-byte header frame and two 174-byte configuration frames that the parser accepts and that carry
  the endpoint's stream identifier, the time of the request and the configuration body.\<close>

theorem configuration_frames_v2:
  assumes "endpoint_wf ep" and "ep_wire_version ep = V2" and "unat (fracsec ts) < 2 ^ 24"
    and "encoder \<in> {(encode_configuration_1, 2), (encode_configuration_2, 3)}"
  shows "\<exists>m f. ep_v2 ep = Some m \<and> fst encoder ep ts = Some f \<and> length f = 174 \<and> parse_v2 f = Inr f
      \<and> frame_type_v2 f = snd encoder \<and> version_v2 f = 2 \<and> idcode_v2 f = ep_stream_id ep
      \<and> timestamp_v2 f = ts \<and> body_v2 f = configuration_body_v2 ep m
      \<and> (\<exists>h. encode_header_v2 ep ts = Some h \<and> length h = 32 \<and> parse_v2 h = Inr h
        \<and> frame_type_v2 h = FRAME_TYPE_HEADER_V2 \<and> body_v2 h = station_name m)"
proof -
  obtain m where m: "ep_v2 ep = Some m" "v2_metadata_wf m" using endpoint_wf_v2 assms(1,2) by blast
  have len: "length (configuration_body_v2 ep m) = 158" "length (station_name m) = 16"
    using length_configuration_body_v2 m(2) by (simp_all add: v2_metadata_wf_def fixed_name_wf_def const_defs)
  let ?f = "\<lambda>ty body. frame_bytes V2_PROTOCOL_VERSION MESSAGE_TIME_QUALITY_UNKNOWN ty (ep_stream_id ep) ts body"
  have p: "parse_v2 (?f ty body) = Inr (?f ty body)"
    if "length body \<le> 158" "(push_bit 4 ty OR 2) AND 0x80 = 0" for ty body
    using v2.parse_encode [of body 65535 ty "ep_stream_id ep" ts] that
    by (simp add: v2.encode_eq parse_v2_def V2_PROTOCOL_VERSION_def)
  note acc = frame_accessors_v2(1-3) frame_accessors_v2(5) frame_accessors_v2(6) [OF assms(3)]
  have "\<exists>h. encode_header_v2 ep ts = Some h \<and> length h = 32 \<and> parse_v2 h = Inr h
      \<and> frame_type_v2 h = FRAME_TYPE_HEADER_V2 \<and> body_v2 h = station_name m"
    using m len by (simp add: encode_header_v2_def v2.encode_eq p acc FRAME_TYPE_HEADER_V2_def)
  then show ?thesis
    using assms(4) m len
    by (auto simp: encode_configuration_1_def encode_configuration_2_def encode_configuration_v2_def
        v2.encode_eq p acc FRAME_TYPE_CONFIGURATION_1_V2_def FRAME_TYPE_CONFIGURATION_2_V2_def)
qed

text \<open>For every endpoint of a compiled version-3 profile the capability and stream-configuration encoders
  return a frame of at most 2768 bytes, so the size assertion of the encoder cannot fail; the parser
  accepts the frame and reads back the stream identifier, the time and the configuration body.\<close>

theorem configuration_frames_v3:
  assumes "endpoint_wf ep" and "ep_wire_version ep = V3" and "unat (fracsec ts) < 2 ^ 24"
    and "encoder \<in> {(encode_capability, 0xa), (encode_stream_configuration, 0xb)}"
  shows "\<exists>f. fst encoder ep ts = Some f \<and> length f \<le> 2768 \<and> parse_v3 f = Inr f
      \<and> frame_type_v3 f = snd encoder \<and> version_v3 f = 3 \<and> stream_id_v3 f = ep_stream_id ep
      \<and> timestamp_v3 f = ts \<and> body_v3 f = configuration_body_v3 ep"
proof -
  have len: "length (configuration_body_v3 ep) \<le> 2752"
    using length_configuration_body_v3 endpoint_wf_v3 assms(1,2) by blast
  let ?f = "\<lambda>ty. frame_bytes V3_PROTOCOL_VERSION 0 ty (ep_stream_id ep) ts (configuration_body_v3 ep)"
  have p: "parse_v3 (?f ty) = Inr (?f ty)" for ty
    using v3.parse_encode [of "configuration_body_v3 ep" 65535 ty "ep_stream_id ep" ts] len
    by (simp add: v3.encode_eq parse_v3_def)
  show ?thesis
    using assms(4) len
    by (auto simp: encode_capability_def encode_stream_configuration_def encode_configuration_v3_def
        v3.encode_eq p frame_accessors_v3(1-4) frame_accessors_v3(5) [OF assms(3)]
        FRAME_TYPE_CAPABILITY_def FRAME_TYPE_STREAM_CONFIGURATION_def)
qed

theorem configuration_frames_v2_witness:
  "\<exists>f. encode_configuration_2 endpoint_v2 \<lparr>soc = 1, fracsec = 20000\<rparr> = Some f \<and> length f = 174"
proof -
  have "unat (fracsec \<lparr>soc = 1, fracsec = 20000\<rparr>) < 2 ^ 24" by simp
  from configuration_frames_v2(1) [OF shipped_endpoints(1,2) this, of "(encode_configuration_2, 3)"]
  show ?thesis by auto
qed

theorem configuration_frames_v3_witness:
  "\<exists>f. encode_capability endpoint_v3 \<lparr>soc = 1, fracsec = 20000\<rparr> = Some f \<and> length f \<le> 2768"
proof -
  have "unat (fracsec \<lparr>soc = 1, fracsec = 20000\<rparr>) < 2 ^ 24" by simp
  from configuration_frames_v3 [OF shipped_endpoints(3,4) this, of "(encode_capability, 0xa)"]
  show ?thesis by auto
qed

text \<open>C14. The version-2 data encoder returns for every compiled endpoint, whatever the sine function, the scenario
  effects and the previous contents of the 46-byte buffer: the buffer then holds a frame that the
  parser accepts, with the endpoint's stream identifier and the sample's time, and its body is STAT
  (zero exactly when the PMU is configured good and time is not degraded), six phasors with the
  phase angles 0, -20944 and 20944, frequency and ROCOF.\<close>

theorem periodic_frame_v2:
  assumes "endpoint_wf ep" and "ep_wire_version ep = V2" and "length out = 46" and "unat (fracsec ts) < 2 ^ 24"
  shows "\<exists>m f. ep_v2 ep = Some m
      \<and> encode_periodic_data_with_scenario_v2 sin32 ep seed i ts degraded x out = Some f
      \<and> length f = 46 \<and> parse_v2 f = Inr f \<and> frame_type_v2 f = 0 \<and> version_v2 f = 2
      \<and> idcode_v2 f = ep_stream_id ep \<and> timestamp_v2 f = ts
      \<and> body_v2 f = concat (map u16_to_be (data_words_v2 sin32 ep m seed i degraded x))
      \<and> (data_words_v2 sin32 ep m seed i degraded x ! 0 = 0 \<longleftrightarrow> good_stat m \<and> \<not> degraded)
      \<and> map (\<lambda>k. data_words_v2 sin32 ep m seed i degraded x ! (2 + 2 * k)) [0..<6]
          = [0, - 20944, 20944, 0, - 20944, 20944]"
proof -
  obtain m where m: "ep_v2 ep = Some m" "v2_metadata_wf m" using endpoint_wf_v2 assms(1,2) by blast
  let ?ws = "data_words_v2 sin32 ep m seed i degraded x"
  let ?f = "frame_bytes V2_PROTOCOL_VERSION MESSAGE_TIME_QUALITY_UNKNOWN FRAME_TYPE_PERIODIC_DATA_V2
      (ep_stream_id ep) ts (concat (map u16_to_be ?ws))"
  have enc: "encode_periodic_data_with_scenario_v2 sin32 ep seed i ts degraded x out = Some ?f"
    using assms(3) m by (intro encode_periodic_data_v2_eq) (simp_all add: v2_metadata_wf_def PERIODIC_DATA_FRAME_BYTES_V2_def)
  have len: "length (concat (map u16_to_be ?ws)) = 30" by (simp add: length_words length_data_words_v2)
  have p: "parse_v2 ?f = Inr ?f"
    using v2.parse_encode [of "concat (map u16_to_be ?ws)" 65535 FRAME_TYPE_PERIODIC_DATA_V2 "ep_stream_id ep" ts] len
    by (simp add: v2.encode_eq parse_v2_def const_defs)
  have angles: "fixed_angle (phase_angle 0) = 0" "fixed_angle (phase_angle 1) = - 20944" "fixed_angle (phase_angle 2) = 20944"
    "fixed_angle (phase_angle 3) = 0" "fixed_angle (phase_angle 4) = - 20944" "fixed_angle (phase_angle 5) = 20944"
    by code_simp+
  have "map (\<lambda>k. ?ws ! (2 + 2 * k)) [0..<6] = [0, - 20944, 20944, 0, - 20944, 20944]"
    by (simp add: data_words_v2_def upt_rec angles [simplified])
  moreover have "?ws ! 0 = 0 \<longleftrightarrow> good_stat m \<and> \<not> degraded"
    by (simp add: data_words_v2_def stat_v2_def const_defs)
  ultimately show ?thesis
    using enc m(1) len p
    by (simp add: frame_accessors_v2(1-3) frame_accessors_v2(5) frame_accessors_v2(6) [OF assms(4)]
        FRAME_TYPE_PERIODIC_DATA_V2_def)
qed

theorem periodic_frame_v2_witness:
  "\<exists>f. encode_periodic_data_with_scenario_v2 (\<lambda>_. 0) endpoint_v2 1 2 \<lparr>soc = 1, fracsec = 20000\<rparr> False None (replicate 46 0) = Some f
     \<and> parse_v2 f = Inr f"
proof -
  have "unat (fracsec \<lparr>soc = 1, fracsec = 20000\<rparr>) < 2 ^ 24" "length (replicate 46 (0 :: u8)) = 46" by simp_all
  from periodic_frame_v2 [OF shipped_endpoints(1,2) this(2,1)]
  show ?thesis by blast
qed

text \<open>The version-3 data and error-response encoders fill their 48- and 20-byte buffers with frames that the
  parser accepts and that read back the stream identifier and the time; the data body starts with the
  fixed synchronisation-uncertain STAT and the unknown time quality, and forced time degradation does
  not change it.\<close>

theorem periodic_frame_v3:
  assumes "length out = 48" and "length err = 20" and "unat (fracsec ts) < 2 ^ 24"
  shows "(\<exists>f. encode_periodic_data_with_scenario_v3 sin32 ep seed i ts degraded x out = f
      \<and> length f = 48 \<and> parse_v3 f = Inr f \<and> frame_type_v3 f = 8 \<and> version_v3 f = 3
      \<and> stream_id_v3 f = ep_stream_id ep \<and> timestamp_v3 f = ts
      \<and> body_v3 f = concat (map u16_to_be (data_words_v3 sin32 ep seed i x))
      \<and> take 4 (body_v3 f) = [0x20, 0, 0x7f, 0xff])
    \<and> (\<exists>f. encode_error_response sid code ts err = f \<and> length f = 20 \<and> parse_v3 f = Inr f
      \<and> frame_type_v3 f = 0xf \<and> stream_id_v3 f = sid \<and> timestamp_v3 f = ts
      \<and> body_v3 f = u16_to_be (error_code code) @ [0, 0])"
proof -
  let ?ws = "data_words_v3 sin32 ep seed i x"
  let ?f = "frame_bytes V3_PROTOCOL_VERSION 0 FRAME_TYPE_PERIODIC_DATA_V3 (ep_stream_id ep) ts (concat (map u16_to_be ?ws))"
  have "encode_periodic_data_with_scenario_v3 sin32 ep seed i ts degraded x out = ?f"
    using assms(1) by (intro encode_periodic_data_v3_eq) (simp add: PERIODIC_DATA_FRAME_BYTES_V3_def)
  moreover have len: "length (concat (map u16_to_be ?ws)) = 32" by (simp add: length_words length_data_words_v3)
  moreover have "parse_v3 ?f = Inr ?f"
    using v3.parse_encode [of "concat (map u16_to_be ?ws)" 65535 FRAME_TYPE_PERIODIC_DATA_V3 "ep_stream_id ep" ts] len
    by (simp add: v3.encode_eq parse_v3_def)
  moreover have "take 4 (concat (map u16_to_be ?ws)) = [0x20, 0, 0x7f, 0xff]"
    by (simp add: data_words_v3_def u16_to_be_def STAT_FLAG_SYNC_UNCERTAIN_def TIME_QUALITY_UNKNOWN_def)
  ultimately have data: "\<exists>f. encode_periodic_data_with_scenario_v3 sin32 ep seed i ts degraded x out = f
      \<and> length f = 48 \<and> parse_v3 f = Inr f \<and> frame_type_v3 f = 8 \<and> version_v3 f = 3
      \<and> stream_id_v3 f = ep_stream_id ep \<and> timestamp_v3 f = ts
      \<and> body_v3 f = concat (map u16_to_be (data_words_v3 sin32 ep seed i x))
      \<and> take 4 (body_v3 f) = [0x20, 0, 0x7f, 0xff]"
    using assms(3) by (simp add: frame_accessors_v3 FRAME_TYPE_PERIODIC_DATA_V3_def)
  let ?b = "u16_to_be (error_code code) @ u16_to_be 0"
  let ?g = "frame_bytes V3_PROTOCOL_VERSION 0 FRAME_TYPE_ERROR_RESPONSE sid ts ?b"
  have "encode_error_response sid code ts err = ?g"
    using assms(2) by (intro encode_error_response_eq) (simp add: ERROR_RESPONSE_FRAME_BYTES_def)
  moreover have "parse_v3 ?g = Inr ?g"
    using v3.parse_encode [of ?b 65535 FRAME_TYPE_ERROR_RESPONSE sid ts] by (simp add: v3.encode_eq parse_v3_def)
  ultimately have "\<exists>f. encode_error_response sid code ts err = f \<and> length f = 20 \<and> parse_v3 f = Inr f
      \<and> frame_type_v3 f = 0xf \<and> stream_id_v3 f = sid \<and> timestamp_v3 f = ts
      \<and> body_v3 f = u16_to_be (error_code code) @ [0, 0]"
    using assms(3) by (simp add: frame_accessors_v3 FRAME_TYPE_ERROR_RESPONSE_def u16_to_be_def [of 0])
  with data show ?thesis by (rule conjI)
qed

theorem periodic_frame_v3_witness:
  "parse_v3 (encode_error_response 7 WrongStreamOrPmu \<lparr>soc = 1, fracsec = 20000\<rparr> (replicate 20 0))
     = Inr (encode_error_response 7 WrongStreamOrPmu \<lparr>soc = 1, fracsec = 20000\<rparr> (replicate 20 0))"
proof -
  have "unat (fracsec \<lparr>soc = 1, fracsec = 20000\<rparr>) < 2 ^ 24" "length (replicate 48 (0 :: u8)) = 48"
    "length (replicate 20 (0 :: u8)) = 20" by simp_all
  from conjunct2 [OF periodic_frame_v3 [OF this(2,3,1), where sid = 7 and code = WrongStreamOrPmu]] show ?thesis by auto
qed

text \<open>
  The range check of a profile divides by the configured scale; a version-2 frame divides by the scale
  that the PHUNIT word can express, a multiple of \<open>10 ^ -5\<close>.  A small scale is rounded so far that a
  magnitude that passes the check saturates in the frame.
\<close>

lemma rounded_scale_saturates:
  "validate_fixed_magnitude_range name (f32_lit 0.9) (f32_lit 0) (f32_lit 0.000014) = Inr ()"
  "v2_phunit (f32_lit 0.000014) False fld = Inr 1"
  "fixed_magnitude (f32_lit 0.9) (f32_lit 0.000014) = 64286"
  "fixed_magnitude (f32_lit 0.9) (phunit_scale 1) = 65535"
  by code_simp+

end
