(* ===== verification/Emission_Inv.thy ===== *)
theory Emission_Inv
  imports Server Accept_Inv Wire_Props
begin

text \<open>
  What the server does to one endpoint in a round: handling an event of a connection, expiring
  idle connections, disconnecting by scenario, and emitting a data frame.  Each keeps the invariant
  of the endpoint and accounts for every connection it closes.
\<close>

section \<open>Steps of an endpoint\<close>

definition advances :: "'w ctx \<Rightarrow> 'w ctx \<Rightarrow> bool" where
  "advances s t \<longleftrightarrow> evolves s t \<and> endpoint_inv (cx_endpoint t)"

lemma advances_refl: "endpoint_inv (cx_endpoint s) \<Longrightarrow> advances s s"
  by (simp add: advances_def evolves_refl)

lemma advances_trans: "advances s t \<Longrightarrow> advances t u \<Longrightarrow> advances s u"
  by (auto simp: advances_def intro: evolves_trans)

lemma advances_inv: "advances s t \<Longrightarrow> endpoint_inv (cx_endpoint t)"
  by (simp add: advances_def)

lemma evolves_holds:
  assumes "evolves s t" "holds k c' t"
  obtains c where "holds k c s" "same_identity c c'"
  using assms unfolding evolves_def by blast

lemma slot_cases:
  assumes "endpoint_inv (cx_endpoint s)" "slot < 2"
  obtains "slot_of (cx_endpoint s) slot = Some None" | c where "holds slot c s" "serving slot c s"
  using assms inv_serving [OF assms(1), of slot]
  by (cases "en_connections (cx_endpoint s) ! slot") (auto simp: slot_of_def holds_def endpoint_inv_def endpoint_static_def)

lemma wp_empty_slot: "slot_of (cx_endpoint s) slot = Some None \<Longrightarrow> wp (get_slot slot) Q E s = Q None s"
  by (simp add: wp_get_slot)

lemma inv_tally: "endpoint_inv (cx_endpoint (s\<lparr>cx_stats := st\<rparr>)) = endpoint_inv (cx_endpoint s)"
  by simp

text \<open>Closing a connection that is there.\<close>

lemma wp_close_advances:
  assumes "endpoint_inv (cx_endpoint s)" "holds slot c s"
  shows "wp (close_connection os slot (cn_id c)) (\<lambda>_ t. advances s t \<and> closed_at slot s t) environment_error s"
proof (rule wp_mono [OF wp_close_connection [OF assms(2)]])
  fix t assume c: "closed_at slot s t"
  show "advances s t \<and> closed_at slot s t"
    unfolding advances_def
    using closed_at_evolves [OF c assms(2)] closed_at_inv [OF c assms(1) holds_less [OF assms]] c by simp
qed

lemma closed_at_holds: "closed_at slot s t \<Longrightarrow> holds k x t \<longleftrightarrow> k \<noteq> slot \<and> holds k x s"
  by (cases "k = slot") (auto simp: closed_at_def holds_def)

section \<open>Events and deadlines\<close>

lemma close_unless_eq: "(if \<not> ok then close_connection os slot i else ret ()) = close_unless os slot i ok"
  by (simp add: close_unless_def)

lemma close_unless_frame:
  assumes "holds slot c s"
  shows "wp (close_unless os slot i ok) (\<lambda>_ t. en_data_frame (cx_endpoint t) = en_data_frame (cx_endpoint s)) environment_error s"
  using assms by (auto simp: close_unless_def close_connection_def wp_slot_at wp_simps split: prod.splits io.splits)

lemma wp_connection_event:
  assumes io: "io_bounded os" and inv: "endpoint_inv (cx_endpoint s)" and slot: "slot < 2"
  shows "wp (connection_event os slot i readable writable) (\<lambda>_. advances s) environment_error s"
proof (rule slot_cases [OF inv slot])
  assume "slot_of (cx_endpoint s) slot = Some None"
  then show ?thesis using inv by (simp add: connection_event_def wp_empty_slot advances_refl)
next
  fix c assume h: "holds slot c s" and sv: "serving slot c s"
  show ?thesis
  proof (cases "cn_id c = i")
    case False
    then show ?thesis using inv by (simp add: connection_event_def wp_slot_at [OF h] advances_refl)
  next
    case id: True
    have close: "wp (close_unless os slot i ok) (\<lambda>_. advances s) environment_error t" if "kept slot c s ok t" for ok t
      by (rule wp_mono [OF wp_close_unless [OF inv h that, unfolded id]]) (simp add: advances_def)
    have flushed: "wp (if writable then flush_connection os slot else ret True)
        (\<lambda>ok'. wp (close_unless os slot i ok') (\<lambda>_. advances s) environment_error) environment_error t"
      if k: "kept slot c s True t" for t
    proof (cases writable)
      case True
      obtain c' where c': "updated slot c s c' t" "connection_wf (cx_endpoint s) c'" using k by (auto simp: kept_def)
      have "wp (flush_connection os slot) (kept slot c' t) environment_error t"
        by (rule wp_flush_connection [OF io updated_serving [OF sv c']])
      then have "wp (flush_connection os slot)
          (\<lambda>ok'. wp (close_unless os slot i ok') (\<lambda>_. advances s) environment_error) environment_error t"
        by (rule wp_mono) (rule close, rule kept_trans [OF c'(1) _ h])
      then show ?thesis using True by simp
    next
      case False
      then show ?thesis using close [OF k] by simp
    qed
    have after: "wp (if \<not> ok then close_connection os slot i
          else bind_p (if writable then flush_connection os slot else ret True) (\<lambda>ok'.
               if \<not> ok' then close_connection os slot i else ret ())) (\<lambda>_. advances s) environment_error t"
      if k: "kept slot c s ok t" for ok t
      using flushed [of t] close [OF k] k unfolding close_unless_eq
      by (cases ok) (simp_all del: wp_if add: close_unless_def [of _ _ _ False])
    have "wp (if readable then read_connection os slot else ret True)
        (\<lambda>ok. wp (if \<not> ok then close_connection os slot i
          else bind_p (if writable then flush_connection os slot else ret True) (\<lambda>ok'.
               if \<not> ok' then close_connection os slot i else ret ())) (\<lambda>_. advances s) environment_error) environment_error s"
    proof (cases readable)
      case True
      have "wp (read_connection os slot) (\<lambda>ok. wp (if \<not> ok then close_connection os slot i
          else bind_p (if writable then flush_connection os slot else ret True) (\<lambda>ok'.
               if \<not> ok' then close_connection os slot i else ret ())) (\<lambda>_. advances s) environment_error) environment_error s"
        by (rule wp_mono [OF wp_read_connection [OF io sv]]) (rule after)
      then show ?thesis using True by (simp del: wp_if)
    next
      case False
      then show ?thesis using after [OF kept_refl [OF sv, of True]] by (simp del: wp_if)
    qed
    then show ?thesis
      unfolding connection_event_def using id by (simp del: wp_if add: wp_slot_at [OF h])
  qed
qed

text \<open>An event whose identifier is not the one in the slot does nothing at all.\<close>

lemma stale_event:
  assumes "slot < length (en_connections (cx_endpoint s))" "\<And>c. holds slot c s \<Longrightarrow> cn_id c \<noteq> i"
  shows "connection_event os slot i readable writable s = Ok ((), s)"
  using assms by (auto simp: connection_event_def get_slot_def slot_of_def holds_def prog_defs split: option.splits)

text \<open>
  An operation that goes over both slots and closes the connections that satisfy \<open>P\<close>: exactly
  those are gone afterwards, and nothing else changed.
\<close>

definition purges :: "(connection \<Rightarrow> bool) \<Rightarrow> nat set \<Rightarrow> 'w ctx \<Rightarrow> 'w ctx \<Rightarrow> bool" where
  "purges P slots s t \<longleftrightarrow> advances s t \<and> en_data_frame (cx_endpoint t) = en_data_frame (cx_endpoint s)
     \<and> (\<forall>k c. holds k c t \<longleftrightarrow> holds k c s \<and> (k \<in> slots \<longrightarrow> \<not> P c))"

lemma closes_purges:
  assumes "closed_at slot s t" "advances s t" "holds slot c s" "P c"
  shows "purges P {slot} s t"
proof -
  have "x = c" if "holds slot x s" for x using that assms(3) by (simp add: holds_def)
  then have "holds k x t \<longleftrightarrow> holds k x s \<and> (k \<in> {slot} \<longrightarrow> \<not> P x)" for k x
    using closed_at_holds [OF assms(1), of k x] assms(4) by auto
  moreover have "en_data_frame (cx_endpoint t) = en_data_frame (cx_endpoint s)" using assms(1) by (simp add: closed_at_def)
  ultimately show ?thesis using assms(2) by (simp add: purges_def)
qed

lemma purges_none:
  assumes "endpoint_inv (cx_endpoint s)" "\<And>c. holds slot c s \<Longrightarrow> \<not> P c"
  shows "purges P {slot} s s"
  using assms advances_refl by (auto simp: purges_def)

lemma purges_trans: "purges P A s t \<Longrightarrow> purges P B t u \<Longrightarrow> purges P (A \<union> B) s u"
  by (auto simp: purges_def intro: advances_trans)

lemma wp_purge_slots:
  assumes inv: "endpoint_inv (cx_endpoint s)"
    and slot: "\<And>k t. k < 2 \<Longrightarrow> endpoint_inv (cx_endpoint t) \<Longrightarrow> wp (f k) (\<lambda>_. purges P {k} t) environment_error t"
  shows "wp (for_each [0..<2] f) (\<lambda>_. purges P UNIV s) environment_error s"
proof -
  have "wp (for_each [0..<2] f) (\<lambda>_. purges P {..<2} s) environment_error s"
  proof (rule wp_for_upt [where I = "\<lambda>i. purges P {..<i} s"])
    show "purges P {..<0} s s" using advances_refl [OF inv] by (simp add: purges_def)
    fix i t assume i: "i < 2" and t: "purges P {..<i} s t"
    have "advances s t" using t by (simp add: purges_def)
    then have "endpoint_inv (cx_endpoint t)" by (rule advances_inv)
    from slot [OF i this] show "wp (f i) (\<lambda>_. purges P {..<Suc i} s) environment_error t"
    proof (rule wp_mono)
      fix u assume "purges P {i} t u"
      moreover have "{..<i} \<union> {i} = {..<Suc i}" by auto
      ultimately show "purges P {..<Suc i} s u" using purges_trans [OF t] by metis
    qed
  qed
  moreover have "purges P UNIV s t" if "purges P {..<2} s t" for t
    using that inv unfolding purges_def by (auto simp: holds_def endpoint_inv_def endpoint_static_def)
  ultimately show ?thesis by (auto elim: wp_mono)
qed

lemma wp_expire_slots:
  fixes s :: "'w ctx"
  assumes inv: "endpoint_inv (cx_endpoint s)"
  shows "wp (for_each [0..<2] (expire_slot os now)) (\<lambda>_. purges (\<lambda>c. deadline_expired c now) UNIV s) environment_error s"
proof (rule wp_purge_slots [OF inv])
  fix slot :: nat and t :: "'w ctx"
  assume slot: "slot < 2" and inv: "endpoint_inv (cx_endpoint t)"
  show "wp (expire_slot os now slot) (\<lambda>_. purges (\<lambda>c. deadline_expired c now) {slot} t) environment_error t"
  proof (rule slot_cases [OF inv slot])
    assume e: "slot_of (cx_endpoint t) slot = Some None"
    have "purges (\<lambda>c. deadline_expired c now) {slot} t t"
      by (rule purges_none [OF inv]) (use e in \<open>auto simp: slot_of_def holds_def split: if_splits\<close>)
    then show ?thesis using e by (simp add: expire_slot_def wp_empty_slot)
  next
    fix c assume h: "holds slot c t"
    have only: "x = c" if "holds slot x t" for x using that h by (simp add: holds_def)
    have "wp (close_connection os slot (cn_id c)) (\<lambda>_. purges (\<lambda>c. deadline_expired c now) {slot} t) environment_error t"
      if "deadline_expired c now"
      by (rule wp_mono [OF wp_close_advances [OF inv h]]) (elim conjE, rule closes_purges, assumption+, rule h, rule that)
    then show ?thesis
      using purges_none [OF inv, of slot "\<lambda>c. deadline_expired c now"] only by (auto simp: expire_slot_def wp_slot_at [OF h])
  qed
qed

section \<open>Emission\<close>

lemma wp_disconnect_one:
  assumes inv: "endpoint_inv (cx_endpoint s)"
  shows "wp (disconnect_one os i)
      (\<lambda>_ t. advances s t \<and> en_data_frame (cx_endpoint t) = en_data_frame (cx_endpoint s)
         \<and> (\<forall>k c. holds k c t \<longrightarrow> holds k c s) \<and> (\<forall>k c. holds k c s \<and> cn_id c \<noteq> i \<longrightarrow> holds k c t)) environment_error s"
proof -
  let ?cs = "en_connections (cx_endpoint s)"
  let ?p = "\<lambda>slot. case ?cs ! slot of None \<Rightarrow> False | Some c \<Rightarrow> cn_id c = i"
  show ?thesis
  proof (cases "List.find ?p [0..<length ?cs]")
    case None
    then show ?thesis using advances_refl [OF inv] by (simp add: disconnect_one_def)
  next
    case (Some slot)
    then have "slot < length ?cs" "?p slot" by (auto simp: find_Some_iff)
    then obtain c where h: "holds slot c s" and id: "cn_id c = i" by (auto simp: holds_def split: option.splits)
    have only: "x = c" if "holds slot x s" for x using that h by (simp add: holds_def)
    have frame: "en_data_frame (cx_endpoint t) = en_data_frame (cx_endpoint s)" if "closed_at slot s t" for t
      using that by (simp add: closed_at_def)
    have "wp (close_connection os slot i)
      (\<lambda>_ t. advances s t \<and> en_data_frame (cx_endpoint t) = en_data_frame (cx_endpoint s)
         \<and> (\<forall>k c. holds k c t \<longrightarrow> holds k c s) \<and> (\<forall>k c. holds k c s \<and> cn_id c \<noteq> i \<longrightarrow> holds k c t)) environment_error s"
      by (rule wp_mono [OF wp_close_advances [OF inv h, unfolded id]])
         (use only id frame in \<open>auto simp: closed_at_holds\<close>)
    then show ?thesis using Some by (simp add: disconnect_one_def)
  qed
qed

lemma wp_disconnect_planned:
  assumes inv: "endpoint_inv (cx_endpoint s)"
  shows "wp (disconnect_planned os plan)
      (\<lambda>_ t. advances s t \<and> (\<forall>k c. holds k c t \<longrightarrow> holds k c s)
         \<and> (\<forall>k c. holds k c s \<and> (\<forall>p. plan = Some p \<longrightarrow> cn_id c \<notin> set (disconnect_pdc_connection_ids p)) \<longrightarrow> holds k c t))
      environment_error s"
proof (cases plan)
  case None
  then show ?thesis using advances_refl [OF inv] by (simp add: disconnect_planned_def)
next
  case (Some p)
  let ?I = "\<lambda>t. advances s t \<and> (\<forall>k c. holds k c t \<longrightarrow> holds k c s)
      \<and> (\<forall>k c. holds k c s \<and> cn_id c \<notin> set (disconnect_pdc_connection_ids p) \<longrightarrow> holds k c t)"
  have "wp (for_each (disconnect_pdc_connection_ids p) (disconnect_one os)) (\<lambda>_. ?I) environment_error s"
  proof (rule wp_for_each)
    show "?I s" using advances_refl [OF inv] by simp
    fix i t assume i: "i \<in> set (disconnect_pdc_connection_ids p)" and t: "?I t"
    have "endpoint_inv (cx_endpoint t)" using t advances_inv by blast
    from wp_disconnect_one [OF this] show "wp (disconnect_one os i) (\<lambda>_. ?I) environment_error t"
    proof (rule wp_mono)
      fix u assume u: "advances t u \<and> en_data_frame (cx_endpoint u) = en_data_frame (cx_endpoint t)
         \<and> (\<forall>k c. holds k c u \<longrightarrow> holds k c t) \<and> (\<forall>k c. holds k c t \<and> cn_id c \<noteq> i \<longrightarrow> holds k c u)"
      have "advances s u" using t u advances_trans by blast
      moreover have "holds k c s" if "holds k c u" for k c using that t u by blast
      moreover have "holds k c u" if "holds k c s" "cn_id c \<notin> set (disconnect_pdc_connection_ids p)" for k c
        using that t u i by metis
      ultimately show "?I u" by blast
    qed
  qed
  then show ?thesis using Some by (simp add: disconnect_planned_def)
qed

text \<open>Slow clients: those that stream and still have a frame to take.\<close>

definition slow :: "connection \<Rightarrow> bool" where
  "slow c \<longleftrightarrow> cn_streaming c \<and> is_pending (cn_pending c)"

lemma advances_tally:
  "advances (s\<lparr>cx_stats := slow_clients_update f (cx_stats s)\<rparr>) t = advances s t"
  by (simp add: advances_def evolves_def holds_def)

lemma wp_close_slow:
  fixes s :: "'w ctx"
  assumes inv: "endpoint_inv (cx_endpoint s)"
  shows "wp (for_each [0..<2] (close_if_slow os)) (\<lambda>_. purges slow UNIV s) environment_error s"
proof (rule wp_purge_slots [OF inv])
  fix slot :: nat and t :: "'w ctx"
  assume slot: "slot < 2" and inv: "endpoint_inv (cx_endpoint t)"
  show "wp (close_if_slow os slot) (\<lambda>_. purges slow {slot} t) environment_error t"
  proof (rule slot_cases [OF inv slot])
    assume e: "slot_of (cx_endpoint t) slot = Some None"
    have "purges slow {slot} t t"
      by (rule purges_none [OF inv]) (use e in \<open>auto simp: slot_of_def holds_def split: if_splits\<close>)
    then show ?thesis using e by (simp add: close_if_slow_def wp_empty_slot)
  next
    fix c assume h: "holds slot c t"
    have only: "x = c" if "holds slot x t" for x using that h by (simp add: holds_def)
    let ?t = "t\<lparr>cx_stats := slow_clients_update (\<lambda>n. n + 1) (cx_stats t)\<rparr>"
    have h': "holds slot c ?t" "endpoint_inv (cx_endpoint ?t)" using h inv by simp_all
    have eq: "purges slow {slot} ?t = purges slow {slot} t"
      by (simp add: purges_def advances_tally fun_eq_iff)
    have "wp (close_connection os slot (cn_id c)) (\<lambda>_. purges slow {slot} t) environment_error ?t" if "slow c"
      by (rule wp_mono [OF wp_close_advances [OF h'(2,1)]]) (elim conjE, fold eq, rule closes_purges, assumption+, rule h'(1), rule that)
    then show ?thesis
      using purges_none [OF inv, of slot slow] only
      by (auto simp: close_if_slow_def wp_slot_at [OF h] slow_def wp_tally)
  qed
qed

text \<open>
  The data frame of a sample as a function of the endpoint's descriptor alone: the previous contents
  of the buffer do not matter.
\<close>

definition sample_frame ::
    "(f32 \<Rightarrow> f32) \<Rightarrow> u64 \<Rightarrow> u64 \<Rightarrow> timestamp \<Rightarrow> bool \<Rightarrow> frame_plan_type option \<Rightarrow> endpoint_descriptor \<Rightarrow> data_frame" where
  "sample_frame sin32 seed i ts degraded plan d =
     (let degraded' = (case plan of None \<Rightarrow> degraded | Some p \<Rightarrow> degraded \<or> degraded_time p);
          excursion = (case plan of None \<Rightarrow> None | Some p \<Rightarrow> plan_signal p)
      in case ep_wire_version d of
           V2 \<Rightarrow> DataV2 (frame_bytes V2_PROTOCOL_VERSION MESSAGE_TIME_QUALITY_UNKNOWN FRAME_TYPE_PERIODIC_DATA_V2
                   (ep_stream_id d) ts (concat (map u16_to_be (data_words_v2 sin32 d (the (ep_v2 d)) seed i degraded' excursion))))
         | V3 \<Rightarrow> DataV3 (frame_bytes V3_PROTOCOL_VERSION 0 FRAME_TYPE_PERIODIC_DATA_V3
                   (ep_stream_id d) ts (concat (map u16_to_be (data_words_v3 sin32 d seed i excursion)))))"

lemma encode_data_ok:
  assumes wf: "endpoint_wf (en_descriptor en)" and fr: "frames_wf en"
  shows "encode_data sin32 seed i ts degraded plan en = ret (sample_frame sin32 seed i ts degraded plan (en_descriptor en))" (is ?A)
    and "frames_wf (en\<lparr>en_data_frame := sample_frame sin32 seed i ts degraded plan (en_descriptor en)\<rparr>)" (is ?B)
proof -
  have "?A \<and> ?B"
  proof (cases "ep_wire_version (en_descriptor en)")
    case V2
    then obtain h c1 c2 d where fs: "en_frames en = FramesV2 h c1 c2" "en_data_frame en = DataV2 d"
        "length d = PERIODIC_DATA_FRAME_BYTES_V2" "h \<noteq> []" "c1 \<noteq> []" "c2 \<noteq> []"
      using fr by (auto simp: frames_wf_def split: endpoint_frames.splits data_frame.splits)
    obtain m where m: "ep_v2 (en_descriptor en) = Some m" "v2_metadata_wf m" using endpoint_wf_v2 wf V2 by blast
    have ph: "length (phunits m) = PHASOR_COUNT" using m(2) by (simp add: v2_metadata_wf_def)
    show ?thesis
      using V2 fs m(1)
      by (simp add: encode_data_def sample_frame_def frames_wf_def Let_def length_words length_data_words_v2
          PERIODIC_DATA_FRAME_BYTES_V2_def encode_periodic_data_v2_eq [OF fs(3) m(1) ph])
  next
    case V3
    then obtain cap sc d where fs: "en_frames en = FramesV3 cap sc" "en_data_frame en = DataV3 d"
        "length d = PERIODIC_DATA_FRAME_BYTES_V3" "cap \<noteq> []" "sc \<noteq> []"
      using fr by (auto simp: frames_wf_def split: endpoint_frames.splits data_frame.splits)
    show ?thesis
      using V3 fs
      by (simp add: encode_data_def sample_frame_def frames_wf_def Let_def length_words length_data_words_v3
          PERIODIC_DATA_FRAME_BYTES_V3_def encode_periodic_data_v3_eq [OF fs(3)])
  qed
  then show ?A ?B by simp_all
qed

text \<open>
  Sending the new frame to one slot: an idle streaming connection starts the shared frame at its
  beginning; nothing else is touched.
\<close>

lemma data_pending_wf:
  assumes "connection_wf en c" "frames_wf en" "cn_streaming c" "\<not> is_pending (cn_pending c)"
  shows "connection_wf en (c\<lparr>cn_pending := PendingData 0\<rparr>)"
proof -
  have "\<not> is_error (cn_pending c)" using assms(4) by (cases "cn_pending c") simp_all
  moreover have "0 < length (data_frame_bytes (en_data_frame en))"
    using assms(2)
    by (cases "en_frames en"; cases "en_data_frame en"; cases "ep_wire_version (en_descriptor en)")
       (auto simp: frames_wf_def const_defs PERIODIC_DATA_FRAME_BYTES_V2_def PERIODIC_DATA_FRAME_BYTES_V3_def)
  ultimately show ?thesis
    using assms by (cases "en_frames en") (auto simp: connection_wf_def sending_def split: wire_version.splits)
qed

definition sent_to :: "nat set \<Rightarrow> 'w ctx \<Rightarrow> 'w ctx \<Rightarrow> bool" where
  "sent_to slots s t \<longleftrightarrow> advances s t \<and> en_data_frame (cx_endpoint t) = en_data_frame (cx_endpoint s)
     \<and> (\<forall>k c. k \<notin> slots \<longrightarrow> holds k c t = holds k c s)
     \<and> (\<forall>k c. holds k c s \<and> \<not> cn_streaming c \<longrightarrow> holds k c t)"

lemma sent_to_refl: "endpoint_inv (cx_endpoint s) \<Longrightarrow> sent_to A s s"
  by (simp add: sent_to_def advances_refl)

lemma sent_to_trans: "sent_to A s t \<Longrightarrow> sent_to B t u \<Longrightarrow> sent_to (A \<union> B) s u"
  by (auto simp: sent_to_def intro: advances_trans)

lemma sent_to_world: "endpoint_inv (cx_endpoint s) \<Longrightarrow> sent_to A s (s\<lparr>cx_world := w\<rparr>)"
  by (simp add: sent_to_def advances_def evolves_def holds_def) (auto simp: same_identity_def)

lemma wp_send_data:
  fixes s :: "'w ctx"
  assumes io: "io_bounded os" and inv: "endpoint_inv (cx_endpoint s)" and slot: "slot < 2"
    and idle: "\<And>c. holds slot c s \<Longrightarrow> \<not> slow c"
  shows "wp (send_data os slot) (\<lambda>_. sent_to {slot} s) environment_error s"
proof (rule slot_cases [OF inv slot])
  assume "slot_of (cx_endpoint s) slot = Some None"
  then show ?thesis using sent_to_refl [OF inv] by (simp add: send_data_def wp_empty_slot)
next
  fix c assume h: "holds slot c s" and sv: "serving slot c s"
  show ?thesis
  proof (cases "cn_streaming c")
    case False
    then show ?thesis using sent_to_refl [OF inv] by (simp add: send_data_def wp_slot_at [OF h])
  next
    case True
    let ?c = "c\<lparr>cn_pending := PendingData 0\<rparr>"
    let ?s = "s\<lparr>cx_endpoint := (cx_endpoint s)\<lparr>en_connections := (en_connections (cx_endpoint s))[slot := Some ?c]\<rparr>\<rparr>"
    have wf: "connection_wf (cx_endpoint s) ?c"
      by (rule data_pending_wf) (use sv True idle [OF h] in \<open>auto simp: serving_def endpoint_static_def slow_def\<close>)
    have up: "updated slot c s ?c (?s\<lparr>cx_world := w\<rparr>)" for w
      using updated_set [OF h, of ?c] by (simp add: same_identity_def)
    have sv': "serving slot ?c (?s\<lparr>cx_world := w\<rparr>)" for w by (rule updated_serving [OF sv up wf])
    have close: "wp (close_unless os slot (cn_id c) ok) (\<lambda>_. sent_to {slot} s) environment_error t"
      if k: "kept slot ?c (?s\<lparr>cx_world := w\<rparr>) ok t" for ok t w
    proof -
      obtain c2 where c2: "updated slot c s c2 t" using kept_trans [OF up k h] by (auto simp: kept_def)
      show ?thesis
      proof (rule wp_mono [OF wp_conj [OF wp_close_unless [OF inv h kept_trans [OF up k h]]
          close_unless_frame [OF updated_holds [OF c2 h]]]])
      fix u
      assume u: "(evolves s u \<and> endpoint_inv (cx_endpoint u)
         \<and> (\<forall>k. k \<noteq> slot \<longrightarrow> en_connections (cx_endpoint u) ! k = en_connections (cx_endpoint s) ! k))
         \<and> en_data_frame (cx_endpoint u) = en_data_frame (cx_endpoint t)"
      have "en_data_frame (cx_endpoint t) = en_data_frame (cx_endpoint s)"
        using kept_trans [OF up k h] by (auto simp: kept_def updated_def)
      moreover have "length (en_connections (cx_endpoint u)) = length (en_connections (cx_endpoint s))"
        using u by (simp add: evolves_def)
      moreover have "k \<noteq> slot" if "holds k x s" "\<not> cn_streaming x" for k x
        using that h True by (auto simp: holds_def)
      ultimately show "sent_to {slot} s u"
        using u unfolding sent_to_def advances_def by (auto simp: holds_def)
      qed
    qed
    have "wp (flush_connection os slot) (\<lambda>ok. wp (close_unless os slot (cn_id c) ok) (\<lambda>_. sent_to {slot} s) environment_error)
        environment_error (?s\<lparr>cx_world := w\<rparr>)" for w
      by (rule wp_mono [OF wp_flush_connection [OF io sv']]) (rule close)
    then show ?thesis
      using True by (auto simp: send_data_def wp_slot_at [OF h] wp_simps Let_def close_unless_eq simp del: wp_if intro!: wp_reregister)
  qed
qed

text \<open>
  One endpoint at a reporting boundary.  The clients that are still taking an earlier frame are
  closed before the shared frame is overwritten; the clients that do not stream are left alone.
\<close>

definition sends_data :: "frame_plan_type option \<Rightarrow> 'w ctx \<Rightarrow> bool" where
  "sends_data plan s \<longleftrightarrow> \<not> omits_data plan \<and> (\<exists>k c. holds k c s \<and> cn_streaming c \<and> \<not> is_pending (cn_pending c))"

definition emitted :: "frame_plan_type option \<Rightarrow> data_frame \<Rightarrow> 'w ctx \<Rightarrow> 'w ctx \<Rightarrow> bool" where
  "emitted plan f s t \<longleftrightarrow> advances s t
     \<and> en_data_frame (cx_endpoint t) = (if sends_data plan s then f else en_data_frame (cx_endpoint s))
     \<and> (\<forall>k c. holds k c s \<and> \<not> cn_streaming c \<longrightarrow> holds k c t)
     \<and> (\<forall>k c'. holds k c' t \<longrightarrow> (\<exists>c. holds k c s \<and> same_identity c c' \<and> \<not> slow c))"

lemma any_streaming_holds: "any_streaming (cx_endpoint s) \<longleftrightarrow> (\<exists>k c. holds k c s \<and> cn_streaming c)"
proof
  assume "any_streaming (cx_endpoint s)"
  then obtain x where "x \<in> set (en_connections (cx_endpoint s))" "case x of None \<Rightarrow> False | Some c \<Rightarrow> cn_streaming c"
    by (auto simp: any_streaming_def list_ex_iff)
  then show "\<exists>k c. holds k c s \<and> cn_streaming c" by (auto simp: in_set_conv_nth holds_def split: option.splits)
next
  assume "\<exists>k c. holds k c s \<and> cn_streaming c"
  then obtain k c where "holds k c s" "cn_streaming c" by blast
  then show "any_streaming (cx_endpoint s)"
    unfolding any_streaming_def list_ex_iff by (intro bexI [of _ "Some c"]) (auto simp: holds_def in_set_conv_nth)
qed

lemma purges_slow_sends:
  assumes "purges slow UNIV s t"
  shows "any_streaming (cx_endpoint t) \<and> \<not> omits_data plan \<longleftrightarrow> sends_data plan s"
  using assms by (auto simp: any_streaming_holds sends_data_def purges_def slow_def)

lemma new_frame_inv:
  assumes inv: "endpoint_inv en" and wf: "frames_wf (en\<lparr>en_data_frame := f\<rparr>)"
    and idle: "\<And>c. Some c \<in> set (en_connections en) \<Longrightarrow> \<not> slow c"
  shows "endpoint_inv (en\<lparr>en_data_frame := f\<rparr>)"
proof -
  have "connection_wf (en\<lparr>en_data_frame := f\<rparr>) c" if c: "Some c \<in> set (en_connections en)" for c
  proof -
    have w: "connection_wf en c" using inv c by (simp add: endpoint_inv_def)
    then have "\<not> is_data (cn_pending c)"
      using idle [OF c] by (cases "cn_pending c") (auto simp: connection_wf_def slow_def)
    then have "sending (en\<lparr>en_data_frame := f\<rparr>) c = sending en c"
      by (cases "cn_pending c"; cases "en_frames en") (simp_all add: sending_def)
    then show ?thesis using w by (simp add: connection_wf_def)
  qed
  then show ?thesis using inv wf by (simp add: endpoint_inv_def endpoint_static_def)
qed

text \<open>Once the slow clients are gone the shared data frame can be overwritten.\<close>

lemma closed_new_frame:
  assumes p: "purges slow UNIV s t" and fr: "frames_wf ((cx_endpoint s)\<lparr>en_data_frame := f\<rparr>)"
  shows "endpoint_inv ((cx_endpoint t)\<lparr>en_data_frame := f\<rparr>)"
proof (rule new_frame_inv)
  have adv: "advances s t" using p by (simp add: purges_def)
  show "endpoint_inv (cx_endpoint t)" by (rule advances_inv [OF adv])
  show "frames_wf ((cx_endpoint t)\<lparr>en_data_frame := f\<rparr>)"
    using fr adv by (simp add: frames_wf_def advances_def evolves_def)
  show "\<not> slow c" if "Some c \<in> set (en_connections (cx_endpoint t))" for c
    using that p by (auto simp: in_set_conv_nth purges_def holds_def)
qed

lemma wp_emit_endpoint:
  fixes s :: "'w ctx"
  assumes io: "io_bounded os" and inv: "endpoint_inv (cx_endpoint s)" and wf: "endpoint_wf (en_descriptor (cx_endpoint s))"
    and f_def: "f = sample_frame sin32 seed i ts degraded plan (en_descriptor (cx_endpoint s))"
  shows "wp (emit_endpoint os sin32 seed i ts degraded plan) (\<lambda>_. emitted plan f s) environment_error s"
proof -
  have fr: "frames_wf ((cx_endpoint s)\<lparr>en_data_frame := f\<rparr>)"
    unfolding f_def using encode_data_ok(2) [OF wf] inv by (simp add: endpoint_inv_def endpoint_static_def)
  have keep: "emitted plan f s t" if p: "purges slow UNIV s t" and n: "\<not> sends_data plan s" for t
    using p n by (auto simp: emitted_def purges_def slow_def same_identity_def)
  have send: "wp (for_each [0..<2] (send_data os)) (\<lambda>_. emitted plan f s) environment_error
      (t\<lparr>cx_endpoint := (cx_endpoint t)\<lparr>en_data_frame := f\<rparr>\<rparr>)"
    if p: "purges slow UNIV s t" and n: "sends_data plan s" for t
  proof -
    let ?t = "t\<lparr>cx_endpoint := (cx_endpoint t)\<lparr>en_data_frame := f\<rparr>\<rparr>"
    have idle: "\<not> slow c" if "holds k c ?t" for k c using that p by (auto simp: purges_def holds_def)
    have adv: "advances s t" using p by (simp add: purges_def)
    have same: "holds k c ?t = holds k c t" for k c by (simp add: holds_def)
    have inv': "endpoint_inv (cx_endpoint ?t)" using closed_new_frame [OF p fr] by simp
    have adv': "advances s ?t"
      using adv inv' by (simp add: advances_def evolves_def same live_def)
    have "wp (for_each [0..<2] (send_data os)) (\<lambda>_. sent_to {..<2} ?t) environment_error ?t"
    proof (rule wp_for_upt [where I = "\<lambda>n. sent_to {..<n} ?t"])
      show "sent_to {..<0} ?t ?t" by (rule sent_to_refl [OF inv'])
      fix k u assume k: "k < 2" and u: "sent_to {..<k} ?t u"
      have "endpoint_inv (cx_endpoint u)" using u by (simp add: sent_to_def advances_def)
      moreover have "\<not> slow c" if "holds k c u" for c
        using that u idle unfolding sent_to_def by blast
      ultimately have "wp (send_data os k) (\<lambda>_. sent_to {k} u) environment_error u"
        by (rule wp_send_data [OF io _ k])
      then show "wp (send_data os k) (\<lambda>_. sent_to {..<Suc k} ?t) environment_error u"
      proof (rule wp_mono)
        fix v assume "sent_to {k} u v"
        moreover have "{..<k} \<union> {k} = {..<Suc k}" by auto
        ultimately show "sent_to {..<Suc k} ?t v" using sent_to_trans [OF u] by metis
      qed
    qed
    then show ?thesis
    proof (rule wp_mono)
      fix u assume u: "sent_to {..<2} ?t u"
      have "advances s u" using u adv' by (auto simp: sent_to_def intro: advances_trans)
      moreover have "en_data_frame (cx_endpoint u) = f" using u by (simp add: sent_to_def)
      moreover have "holds k c u" if "holds k c s" "\<not> cn_streaming c" for k c
        using that u p same by (auto simp: sent_to_def purges_def slow_def)
      moreover have "\<exists>c. holds k c s \<and> same_identity c c' \<and> \<not> slow c" if h: "holds k c' u" for k c'
      proof -
        have "evolves ?t u" using u by (simp add: sent_to_def advances_def)
        then obtain c where "holds k c ?t" "same_identity c c'" using h by (rule evolves_holds)
        then show ?thesis using idle p same by (auto simp: purges_def)
      qed
      ultimately show "emitted plan f s u" using n by (simp add: emitted_def)
    qed
  qed
  have "wp (for_each [0..<2] (close_if_slow os)) (\<lambda>_ t. wp (if \<not> any_streaming (cx_endpoint t) \<or> omits_data plan then ret ()
     else bind_p (encode_data sin32 seed i ts degraded plan (cx_endpoint t)) (\<lambda>frame.
          bind_p (modify (\<lambda>c. c\<lparr>cx_endpoint := (cx_endpoint c)\<lparr>en_data_frame := frame\<rparr>\<rparr>)) (\<lambda>_.
          for_each [0..<2] (send_data os)))) (\<lambda>_. emitted plan f s) environment_error t) environment_error s"
  proof (rule wp_mono [OF wp_close_slow [OF inv]])
    fix t assume p: "purges slow UNIV s t"
    have "frames_wf (cx_endpoint t)" "en_descriptor (cx_endpoint t) = en_descriptor (cx_endpoint s)"
      using p by (simp_all add: purges_def advances_def evolves_def endpoint_inv_def endpoint_static_def)
    then have "encode_data sin32 seed i ts degraded plan (cx_endpoint t) = (ret f :: ('w, data_frame) action)"
      using encode_data_ok(1) [of "cx_endpoint t"] wf unfolding f_def by simp
    then show "wp (if \<not> any_streaming (cx_endpoint t) \<or> omits_data plan then ret ()
     else bind_p (encode_data sin32 seed i ts degraded plan (cx_endpoint t)) (\<lambda>frame.
          bind_p (modify (\<lambda>c. c\<lparr>cx_endpoint := (cx_endpoint c)\<lparr>en_data_frame := frame\<rparr>\<rparr>)) (\<lambda>_.
          for_each [0..<2] (send_data os)))) (\<lambda>_. emitted plan f s) environment_error t"
      using keep [OF p] send [OF p] purges_slow_sends [OF p, of plan] by (auto simp del: for_each.simps upt_Suc)
  qed
  then show ?thesis unfolding emit_endpoint_def by (simp del: wp_if)
qed

end
