(* ===== verification/Delivery.thy ===== *)
theory Delivery
  imports Emission_Inv
begin

text \<open>
  What the clients of an endpoint get at a reporting boundary.  The bytes a socket has taken are an
  observer of the world; the operations that do not write leave it alone, and sending the data frame adds
  a front part of the frame to the socket of every idle streaming client.
\<close>

section \<open>Computations that leave an observer of the state alone\<close>

definition quiet :: "('s \<Rightarrow> 'b) \<Rightarrow> ('s, 'e, 'a) prog \<Rightarrow> bool" where
  "quiet obs f \<longleftrightarrow> (\<forall>s x t. f s = Ok (x, t) \<longrightarrow> obs t = obs s)"

lemma wp_quiet: "quiet obs f \<Longrightarrow> wp f Q E s \<Longrightarrow> wp f (\<lambda>x t. Q x t \<and> obs t = obs s) E s"
  by (auto simp: quiet_def wp_def split: res.splits)

named_theorems quiet_rules \<open>computations that leave the observer alone\<close>

lemma quiet_combinators [quiet_rules]:
  "quiet obs (ret x)" "quiet obs (raise e)" "quiet obs panic" "quiet obs (gets h)"
  "quiet obs (expect opt)" "quiet obs (lift_ok r)"
  by (auto simp: quiet_def prog_defs split: option.splits sum.splits)

lemma quiet_modify [quiet_rules]: "(\<And>s. obs (k s) = obs s) \<Longrightarrow> quiet obs (modify k)"
  by (auto simp: quiet_def prog_defs)

lemma quiet_bind [quiet_rules]: "quiet obs f \<Longrightarrow> (\<And>x. quiet obs (g x)) \<Longrightarrow> quiet obs (bind_p f g)"
  by (auto simp: quiet_def bind_p_def split: res.splits)

lemma quiet_cases [quiet_rules]:
  "(b \<Longrightarrow> quiet obs f) \<Longrightarrow> (\<not> b \<Longrightarrow> quiet obs g) \<Longrightarrow> quiet obs (if b then f else g)"
  "quiet obs f \<Longrightarrow> (\<And>x. quiet obs (h x)) \<Longrightarrow> quiet obs (case opt of None \<Rightarrow> f | Some x \<Rightarrow> h x)"
  "(\<And>x. quiet obs (f' x)) \<Longrightarrow> (\<And>y. quiet obs (g' y)) \<Longrightarrow> quiet obs (case r of Inl x \<Rightarrow> f' x | Inr y \<Rightarrow> g' y)"
  "(\<And>x y. quiet obs (p' x y)) \<Longrightarrow> quiet obs (case p of (x, y) \<Rightarrow> p' x y)"
  "(\<And>x. quiet obs (d x)) \<Longrightarrow> quiet obs f \<Longrightarrow> (\<And>m. quiet obs (e m)) \<Longrightarrow>
     quiet obs (case i of Done x \<Rightarrow> d x | WouldBlock \<Rightarrow> f | Failed m \<Rightarrow> e m)"
  "(\<And>q. quiet obs (a q)) \<Longrightarrow> (\<And>i wv. quiet obs (j i wv)) \<Longrightarrow>
     quiet obs (case c of Accepted q \<Rightarrow> a q | Rejected i wv \<Rightarrow> j i wv)"
  by (simp_all split: option.split sum.split prod.split io.split received_command.split)

lemma quiet_for_each [quiet_rules]: "(\<And>x. quiet obs (f x)) \<Longrightarrow> quiet obs (for_each xs f)"
  by (induction xs) (auto intro: quiet_rules)

lemma quiet_loop [quiet_rules]:
  fixes body :: "('s, 'e, 'a option) prog"
  assumes "quiet obs body"
  shows "quiet obs (loop_p body)"
  unfolding quiet_def
proof (intro allI impI)
  fix s x t assume "loop_p body s = Ok (x, t)"
  then have w: "while_option continues (next_round body) (body s) = Some (Ok (Some x, t))"
    by (auto simp: loop_p_def loop_result_def split: option.splits res.splits)
  define P where "P r \<longleftrightarrow> (\<forall>y u. r = Ok (y, u) \<longrightarrow> obs u = obs s)" for r :: "('e, 'a option \<times> 's) res"
  have "P (next_round body r)" if "P r" "continues r" for r
  proof -
    obtain u where "r = Ok (None, u)" using \<open>continues r\<close> by (auto simp: continues_def split: res.splits option.splits)
    then show ?thesis using \<open>P r\<close> assms unfolding P_def quiet_def by (simp add: next_round_def)
  qed
  moreover have "P (body s)" using assms by (simp add: P_def quiet_def)
  ultimately have "P (Ok (Some x, t))" using while_option_rule [where P = P, OF _ w] by blast
  then show "obs t = obs s" by (simp add: P_def)
qed

section \<open>The bytes a socket has taken\<close>

text \<open>
  \<open>sent w x\<close> is all that has been written to the socket \<open>x\<close>.  \<^verbatim>\<open>Write::write\<close> returns how many bytes of its slice it
  took; nothing else adds to a socket.
\<close>

definition transmits :: "'w os \<Rightarrow> ('w \<Rightarrow> socket \<Rightarrow> bytes) \<Rightarrow> bool" where
  "transmits os sent \<longleftrightarrow>
     (\<forall>x bs w r w'. os_write os x bs w = (r, w') \<longrightarrow>
        sent w' = (case r of Done n \<Rightarrow> (sent w)(x := sent w x @ take n bs) | _ \<Rightarrow> sent w))
   \<and> (\<forall>x t i w. sent (snd (os_reregister os x t i w)) = sent w) \<and> (\<forall>x w. sent (snd (os_deregister os x w)) = sent w)
   \<and> (\<forall>x w. sent (os_drop os x w) = sent w)
   \<and> (\<forall>w. sent (snd (os_now os w)) = sent w) \<and> (\<forall>w. sent (snd (os_system_time os w)) = sent w)"

abbreviation taken :: "('w \<Rightarrow> socket \<Rightarrow> bytes) \<Rightarrow> 'w ctx \<Rightarrow> socket \<Rightarrow> bytes" where
  "taken sent s \<equiv> sent (cx_world s)"

lemma quiet_slots [quiet_rules]:
  "quiet (taken sent) (get_slot slot)" "quiet (taken sent) (get_connection slot)" "quiet (taken sent) (set_slot slot x)"
  "quiet (taken sent) (tally f)" "quiet obs (io_try r)"
  by (auto simp: get_slot_def get_connection_def set_slot_def tally_def io_try_def intro!: quiet_rules)

lemma quiet_world: "(\<And>w. sent (snd (f w)) = sent w) \<Longrightarrow> quiet (taken sent) (world f)"
  by (auto simp: quiet_def world_def split: prod.splits) (metis snd_conv)

lemma quiet_os:
  assumes "transmits os sent"
  shows "quiet (taken sent) (world (os_reregister os x t i))" "quiet (taken sent) (world (os_deregister os x))"
    "quiet (taken sent) (world (\<lambda>w. ((), os_drop os x w)))" "quiet (taken sent) (world (os_now os))"
    "quiet (taken sent) (world (os_system_time os))"
  using assms by (auto simp: transmits_def intro!: quiet_world)

lemma quiet_reregister: "transmits os sent \<Longrightarrow> quiet (taken sent) (reregister_connection os c b)"
  unfolding reregister_connection_def Let_def by (intro quiet_rules quiet_os)

lemma quiet_close: "transmits os sent \<Longrightarrow> quiet (taken sent) (close_connection os slot i)"
  unfolding close_connection_def by (intro quiet_rules quiet_os)

lemma quiet_close_if_slow: "transmits os sent \<Longrightarrow> quiet (taken sent) (close_if_slow os slot)"
  unfolding close_if_slow_def by (intro quiet_rules quiet_close)

lemma quiet_handle_command: "transmits os sent \<Longrightarrow> quiet (taken sent) (handle_command os slot command)"
  unfolding handle_command_def by (intro quiet_rules quiet_reregister)

lemma quiet_refuse: "transmits os sent \<Longrightarrow> quiet (taken sent) (refuse_command os slot wv i code)"
  unfolding refuse_command_def queue_error_response_def Let_def by (intro quiet_rules quiet_reregister quiet_os)

lemma quiet_process: "transmits os sent \<Longrightarrow> quiet (taken sent) (process_buffered_commands os slot)"
  unfolding process_buffered_commands_def process_round_def
  by (intro quiet_rules quiet_handle_command quiet_refuse quiet_os)

lemma quiet_finish: "transmits os sent \<Longrightarrow> quiet (taken sent) (finish_frame os slot p)"
  unfolding finish_frame_def by (intro quiet_rules quiet_process quiet_reregister)

section \<open>Delivery of a data frame\<close>

text \<open>
  What becomes of a data frame \<open>f\<close> for the idle streaming connection \<open>c\<close>: its socket takes the first \<open>k\<close> bytes.
  After some of them the connection stays and keeps the rest as its pending frame; after all of them it
  stays and is idle again, unless a command was waiting in its buffer.  Nothing is taken only when the
  write took nothing: a socket that would block keeps the whole frame, any other is given up.
\<close>

definition delivered :: "'w os \<Rightarrow> ('w \<Rightarrow> socket \<Rightarrow> bytes) \<Rightarrow> bytes \<Rightarrow> nat \<Rightarrow> connection \<Rightarrow> 'w ctx \<Rightarrow> 'w ctx \<Rightarrow> bool" where
  "delivered os sent f slot c s t \<longleftrightarrow> (\<exists>k \<le> length f.
     taken sent t (cn_stream c) = taken sent s (cn_stream c) @ take k f
   \<and> (0 < k \<and> k < length f \<longrightarrow> holds slot (c\<lparr>cn_pending := PendingData k\<rparr>) t)
   \<and> (k = length f \<and> next_command (ep_wire_version (en_descriptor (cx_endpoint s))) (cn_receive c) = Some (Inr None, cn_receive c)
        \<longrightarrow> holds slot (c\<lparr>cn_pending := PendingNone\<rparr>) t)
   \<and> (k = 0 \<longrightarrow> (\<exists>w r w'. os_write os (cn_stream c) f w = (r, w') \<and>
        (case r of
           Done n \<Rightarrow> n = 0 \<and> (\<forall>c'. \<not> holds slot c' t)
         | WouldBlock \<Rightarrow> holds slot (c\<lparr>cn_pending := PendingData 0\<rparr>) t
         | Failed _ \<Rightarrow> \<forall>c'. \<not> holds slot c' t))))"

text \<open>A complete frame on a connection without a waiting command leaves it idle.\<close>

lemma process_waiting:
  assumes "serving slot c s" "\<not> is_pending (cn_pending c)" "\<not> cn_close_after_flush c"
    and "next_command (ep_wire_version (en_descriptor (cx_endpoint s))) (cn_receive c) = Some (Inr None, cn_receive c)"
  shows "process_buffered_commands os slot s = Ok (True, s)"
proof -
  have h: "slot_of (cx_endpoint s) slot = Some (Some c)" "(en_connections (cx_endpoint s))[slot := Some c] = en_connections (cx_endpoint s)"
    using serving_holds [OF assms(1)] holds_update by (simp_all add: holds_def slot_of_def)
  have "c\<lparr>cn_receive := cn_receive c\<rparr> = c" by simp
  then have "process_round os slot s = Ok (Some True, s)"
    using assms(2-4) h by (simp add: process_round_def prog_defs get_slot_def set_slot_def)
  then show ?thesis unfolding process_buffered_commands_def by (subst loop_p_unfold) simp
qed

lemma wp_finish_data:
  assumes sv: "serving slot c s" and idle: "\<not> cn_close_after_flush c"
    and wait: "next_command (ep_wire_version (en_descriptor (cx_endpoint s))) (cn_receive c) = Some (Inr None, cn_receive c)"
  shows "wp (finish_frame os slot p) (\<lambda>ok t. ok \<and> holds slot (c\<lparr>cn_pending := PendingNone\<rparr>) t) environment_error s"
proof -
  let ?c = "c\<lparr>cn_pending := PendingNone\<rparr>"
  let ?t = "\<lambda>st. s\<lparr>cx_stats := st, cx_endpoint := (cx_endpoint s)\<lparr>en_connections := (en_connections (cx_endpoint s))[slot := Some ?c]\<rparr>\<rparr>"
  have h: "holds slot c s" using sv by (simp add: serving_def)
  have h1: "holds slot c (s\<lparr>cx_stats := st\<rparr>)" for st using h by simp
  have ht: "holds slot ?c (?t st)" for st using h by (simp add: holds_def)
  have sv': "serving slot ?c (?t st)" for st
    using sv ht idle by (auto simp: serving_def connection_wf_done endpoint_static_def frames_wf_def)
  have go: "process_buffered_commands os slot (?t st) = Ok (True, ?t st)" for st
    by (rule process_waiting [OF sv']) (use idle wait in simp_all)
  have "wp (bind_p (get_connection slot) (\<lambda>c.
     bind_p (set_slot slot (Some (c\<lparr>cn_pending := PendingNone\<rparr>))) (\<lambda>_.
     if cn_close_after_flush c then ret False
     else bind_p (process_buffered_commands os slot) (\<lambda>ok.
          if \<not> ok then ret False
          else bind_p (get_connection slot) (\<lambda>c'.
               if is_pending (cn_pending c') then ret True
               else bind_p (reregister_connection os c' False) (\<lambda>_. ret True))))))
     (\<lambda>ok t. ok \<and> holds slot ?c t) environment_error (s\<lparr>cx_stats := st\<rparr>)" for st
    using idle go [of st] ht [of st]
    by (simp add: wp_slot_at [OF h1] wp_simps wp_def [of "process_buffered_commands os slot"])
       (auto simp: wp_slot_at intro!: wp_reregister)
  from this [of "cx_stats s"] this show ?thesis
    unfolding finish_frame_def by (simp add: wp_tally)
qed

text \<open>The first write of a data frame, and what the flush makes of it.\<close>

definition flushed ::
    "'w os \<Rightarrow> ('w \<Rightarrow> socket \<Rightarrow> bytes) \<Rightarrow> bytes \<Rightarrow> nat \<Rightarrow> connection \<Rightarrow> 'w ctx \<Rightarrow> bool \<Rightarrow> 'w ctx \<Rightarrow> bool" where
  "flushed os sent f slot c s ok t \<longleftrightarrow> (\<exists>k \<le> length f.
     taken sent t = (taken sent s)(cn_stream c := taken sent s (cn_stream c) @ take k f)
   \<and> (0 < k \<and> k < length f \<longrightarrow> ok \<and> holds slot (c\<lparr>cn_pending := PendingData k\<rparr>) t)
   \<and> (k = length f \<and> next_command (ep_wire_version (en_descriptor (cx_endpoint s))) (cn_receive c) = Some (Inr None, cn_receive c)
        \<longrightarrow> ok \<and> holds slot (c\<lparr>cn_pending := PendingNone\<rparr>) t)
   \<and> (k = 0 \<longrightarrow> (\<exists>w r w'. os_write os (cn_stream c) f w = (r, w') \<and>
        (case r of
           Done n \<Rightarrow> n = 0 \<and> \<not> ok
         | WouldBlock \<Rightarrow> ok \<and> holds slot (c\<lparr>cn_pending := PendingData 0\<rparr>) t
         | Failed _ \<Rightarrow> \<not> ok))))"

lemma wp_flush_data:
  fixes s :: "'w ctx"
  assumes tr: "transmits os sent" and io: "io_bounded os"
    and sv: "serving slot (c\<lparr>cn_pending := PendingData 0\<rparr>) s" and f: "f = data_frame_bytes (en_data_frame (cx_endpoint s))"
  shows "wp (flush_connection os slot) (flushed os sent f slot c s) environment_error s"
proof -
  let ?c = "c\<lparr>cn_pending := PendingData 0\<rparr>"
  have h: "holds slot ?c s" using sv by (simp add: serving_def)
  have wf: "connection_wf (cx_endpoint s) ?c" using sv by (simp add: serving_def)
  have sending: "sending (cx_endpoint s) ?c = Some f" by (cases "en_frames (cx_endpoint s)") (simp_all add: sending_def f)
  then have rest: "remaining (cx_endpoint s) ?c = f" and ne: "0 < length f" and stays: "\<not> cn_close_after_flush c"
    using wf by (simp_all add: remaining_def connection_wf_def)
  obtain r w where wr: "os_write os (cn_stream c) f (cx_world s) = (r, w)" by force
  have sent: "sent w = (case r of Done n \<Rightarrow> (taken sent s)(cn_stream c := taken sent s (cn_stream c) @ take n f) | _ \<Rightarrow> taken sent s)"
    using tr wr unfolding transmits_def by blast
  have same: "(taken sent s)(x := taken sent s x) = taken sent s" for x by simp
  have rereg: "wp (reregister_connection os y b) (\<lambda>_. Q) environment_error t"
    if "\<And>w'. sent w' = taken sent t \<Longrightarrow> Q (t\<lparr>cx_world := w'\<rparr>)" for y b Q t
  proof -
    have "wp (reregister_connection os y b) (\<lambda>_ u. (\<exists>w'. u = t\<lparr>cx_world := w'\<rparr>) \<and> taken sent u = taken sent t) environment_error t"
      by (rule wp_quiet [OF quiet_reregister [OF tr]]) (rule wp_reregister, blast)
    then show ?thesis by (rule wp_mono) (use that in auto)
  qed
  have zero: "flushed os sent f slot c s ok t" if "taken sent t = taken sent s"
      "case r of Done n \<Rightarrow> n = 0 \<and> \<not> ok | WouldBlock \<Rightarrow> ok \<and> holds slot ?c t | Failed _ \<Rightarrow> \<not> ok" for ok t
  proof -
    have "\<exists>w r w'. os_write os (cn_stream c) f w = (r, w') \<and>
        (case r of Done n \<Rightarrow> n = 0 \<and> \<not> ok | WouldBlock \<Rightarrow> ok \<and> holds slot ?c t | Failed _ \<Rightarrow> \<not> ok)"
      using wr that(2) by blast
    then show ?thesis unfolding flushed_def using that(1) ne by (intro exI [of _ 0]) simp
  qed
  let ?s = "s\<lparr>cx_world := w\<rparr>"
  have sv': "serving slot ?c ?s" using sv by (simp add: serving_def)
  have "wp (case r of
          Done written \<Rightarrow>
            if written = 0 then ret False
            else if written = length f then finish_frame os slot (PendingData 0)
            else bind_p (set_slot slot (Some (c\<lparr>cn_pending := PendingData written\<rparr>))) (\<lambda>_.
                 bind_p (reregister_connection os ?c True) (\<lambda>_. ret True))
        | WouldBlock \<Rightarrow> bind_p (reregister_connection os ?c True) (\<lambda>_. ret True)
        | Failed _ \<Rightarrow> ret False) (flushed os sent f slot c s) environment_error ?s"
  proof (cases r)
    case (Done n)
    have le: "n \<le> length f" using io_bounded_write [OF io] wr Done by blast
    consider (none) "n = 0" | (some) "0 < n" "n < length f" | (all) "n = length f" using le by linarith
    then show ?thesis
    proof cases
      case none
      then show ?thesis
        using Done sent by (simp add: zero)
    next
      case some
      let ?d = "c\<lparr>cn_pending := PendingData n\<rparr>"
      let ?t = "?s\<lparr>cx_endpoint := (cx_endpoint s)\<lparr>en_connections := (en_connections (cx_endpoint s))[slot := Some ?d]\<rparr>\<rparr>"
      have "flushed os sent f slot c s True (?t\<lparr>cx_world := w'\<rparr>)" if "sent w' = taken sent ?t" for w'
        using that some Done sent h by (auto simp: flushed_def holds_def intro!: exI [of _ n])
      then show ?thesis using Done some by (simp add: wp_simps) (rule rereg, simp)
    next
      case all
      have fin: "flushed os sent f slot c s ok t"
        if "taken sent t = taken sent ?s"
          "next_command (ep_wire_version (en_descriptor (cx_endpoint s))) (cn_receive c) = Some (Inr None, cn_receive c) \<Longrightarrow>
             ok \<and> holds slot (c\<lparr>cn_pending := PendingNone\<rparr>) t" for ok t
        using that Done all sent ne by (auto simp: flushed_def intro!: exI [of _ n])
      have kept: "wp (finish_frame os slot (PendingData 0)) (\<lambda>ok t. kept slot ?c ?s ok t \<and> taken sent t = taken sent ?s) environment_error ?s"
        by (rule wp_quiet [OF quiet_finish [OF tr] wp_finish_frame [OF sv']])
      have "wp (finish_frame os slot (PendingData 0)) (flushed os sent f slot c s) environment_error ?s"
      proof (cases "next_command (ep_wire_version (en_descriptor (cx_endpoint s))) (cn_receive c) = Some (Inr None, cn_receive c)")
        case True
        then have "wp (finish_frame os slot (PendingData 0)) (\<lambda>ok t. ok \<and> holds slot (?c\<lparr>cn_pending := PendingNone\<rparr>) t) environment_error ?s"
          by (intro wp_finish_data [OF sv']) (simp_all add: stays)
        from wp_conj [OF kept this] show ?thesis by (rule wp_mono) (rule fin, simp_all)
      next
        case False
        from kept show ?thesis by (rule wp_mono) (rule fin, use False in simp_all)
      qed
      then show ?thesis using Done all ne by simp
    qed
  next
    case WouldBlock
    have "flushed os sent f slot c s True (?s\<lparr>cx_world := w'\<rparr>)" if "sent w' = taken sent ?s" for w'
      using that WouldBlock sent h by (intro zero) simp_all
    then show ?thesis using WouldBlock by simp (rule rereg, simp)
  next
    case (Failed m)
    then show ?thesis using sent by (simp add: zero)
  qed
  moreover have "is_pending (cn_pending ?c)" "cn_stream ?c = cn_stream c" "cn_pending ?c = PendingData 0"
      "with_offset (PendingData 0) (pending_offset (PendingData 0) + n) = PendingData n"
      "?c\<lparr>cn_pending := p\<rparr> = c\<lparr>cn_pending := p\<rparr>" for n p
    by simp_all
  ultimately show ?thesis by (simp only: flush_pending [OF sv] rest wr prod.case)
qed

text \<open>Sending the frame of the endpoint to one of its idle streaming connections.\<close>

lemma wp_send_delivers:
  fixes s :: "'w ctx"
  assumes tr: "transmits os sent" and io: "io_bounded os" and inv: "endpoint_inv (cx_endpoint s)"
    and h: "holds slot c s" and c: "cn_streaming c" "\<not> is_pending (cn_pending c)"
    and f: "f = data_frame_bytes (en_data_frame (cx_endpoint s))"
  shows "wp (send_data os slot) (\<lambda>_ t. delivered os sent f slot c s t
      \<and> (\<forall>x. x \<noteq> cn_stream c \<longrightarrow> taken sent t x = taken sent s x)) environment_error s"
proof -
  let ?c = "c\<lparr>cn_pending := PendingData 0\<rparr>"
  let ?s = "\<lambda>w. s\<lparr>cx_endpoint := (cx_endpoint s)\<lparr>en_connections := (en_connections (cx_endpoint s))[slot := Some ?c]\<rparr>, cx_world := w\<rparr>"
  have sv: "serving slot c s" by (rule inv_serving [OF inv h])
  have wf: "connection_wf (cx_endpoint s) ?c"
    by (rule data_pending_wf) (use sv c in \<open>auto simp: serving_def endpoint_static_def\<close>)
  have up: "updated slot c s ?c (?s w)" for w by (simp add: updated_def same_identity_def)
  have sv': "serving slot ?c (?s w)" for w by (rule updated_serving [OF sv up wf])
  have result: "delivered os sent f slot c s u \<and> (\<forall>x. x \<noteq> cn_stream c \<longrightarrow> taken sent u x = taken sent s x)"
    if fl: "flushed os sent f slot c (?s w) ok t" and w: "sent w = taken sent s" and u: "taken sent u = taken sent t"
      "if ok then u = t else closed_at slot t u" for w ok t u
  proof -
    have gone: "\<forall>c'. \<not> holds slot c' u" if "\<not> ok" using u(2) that by (simp add: closed_at_holds)
    have here: "u = t" if ok using u(2) that by simp
    obtain k where k: "k \<le> length f" "taken sent t = (taken sent s)(cn_stream c := taken sent s (cn_stream c) @ take k f)"
      "0 < k \<and> k < length f \<longrightarrow> ok \<and> holds slot (c\<lparr>cn_pending := PendingData k\<rparr>) t"
      "k = length f \<and> next_command (ep_wire_version (en_descriptor (cx_endpoint s))) (cn_receive c) = Some (Inr None, cn_receive c)
        \<longrightarrow> ok \<and> holds slot (c\<lparr>cn_pending := PendingNone\<rparr>) t"
      "k = 0 \<longrightarrow> (\<exists>w r w'. os_write os (cn_stream c) f w = (r, w') \<and>
        (case r of Done n \<Rightarrow> n = 0 \<and> \<not> ok | WouldBlock \<Rightarrow> ok \<and> holds slot ?c t | Failed _ \<Rightarrow> \<not> ok))"
      using fl w unfolding flushed_def by auto
    have zero: "\<exists>w r w'. os_write os (cn_stream c) f w = (r, w') \<and>
        (case r of Done n \<Rightarrow> n = 0 \<and> (\<forall>c'. \<not> holds slot c' u) | WouldBlock \<Rightarrow> holds slot ?c u | Failed _ \<Rightarrow> \<forall>c'. \<not> holds slot c' u)"
      if "k = 0"
    proof -
      obtain w r w' where wr: "os_write os (cn_stream c) f w = (r, w')"
        "case r of Done n \<Rightarrow> n = 0 \<and> \<not> ok | WouldBlock \<Rightarrow> ok \<and> holds slot ?c t | Failed _ \<Rightarrow> \<not> ok"
        using k(5) \<open>k = 0\<close> by blast
      then show ?thesis using gone here by (intro exI [of _ w] exI [of _ r] exI [of _ w']) (cases r; simp)
    qed
    have "delivered os sent f slot c s u"
      unfolding delivered_def
    proof (intro exI [of _ k] conjI impI)
      show "k \<le> length f" by (rule k(1))
      show "taken sent u (cn_stream c) = taken sent s (cn_stream c) @ take k f" using u(1) k(2) by simp
      show "holds slot (c\<lparr>cn_pending := PendingData k\<rparr>) u" if "0 < k \<and> k < length f" using k(3) that here by blast
      show "holds slot (c\<lparr>cn_pending := PendingNone\<rparr>) u"
        if "k = length f \<and> next_command (ep_wire_version (en_descriptor (cx_endpoint s))) (cn_receive c) = Some (Inr None, cn_receive c)"
        using k(4) that here by blast
    qed (rule zero)
    moreover have "taken sent u x = taken sent s x" if "x \<noteq> cn_stream c" for x using that k(2) u(1) by simp
    ultimately show ?thesis by blast
  qed
  have close: "wp (if \<not> ok then close_connection os slot (cn_id c) else ret ())
      (\<lambda>_ u. taken sent u = taken sent t \<and> (if ok then u = t else closed_at slot t u)) environment_error t"
    if "kept slot ?c (?s w) ok t" for w ok t
  proof -
    obtain c2 where "updated slot ?c (?s w) c2 t" using \<open>kept slot ?c (?s w) ok t\<close> by (auto simp: kept_def)
    then have h2: "holds slot c2 t" and id: "cn_id c2 = cn_id c"
      using updated_holds serving_holds [OF sv'] by (blast, simp add: updated_def same_identity_def)
    have gone: "wp (close_connection os slot (cn_id c)) (\<lambda>_ u. closed_at slot t u \<and> taken sent u = taken sent t) environment_error t"
      by (rule wp_quiet [OF quiet_close [OF tr] wp_close_connection [OF h2, unfolded id]])
    show ?thesis
    proof (cases ok)
      case False
      then show ?thesis using gone by simp (erule wp_mono, simp)
    qed simp
  qed
  have flush: "wp (flush_connection os slot) (\<lambda>ok. wp (if \<not> ok then close_connection os slot (cn_id c) else ret ())
      (\<lambda>_ u. delivered os sent f slot c s u \<and> (\<forall>x. x \<noteq> cn_stream c \<longrightarrow> taken sent u x = taken sent s x)) environment_error)
      environment_error (?s w)" if w: "sent w = taken sent s" for w
  proof -
    have "f = data_frame_bytes (en_data_frame (cx_endpoint (?s w)))" by (simp add: f)
    from wp_conj [OF wp_flush_data [OF tr io sv' this] wp_flush_connection [OF io sv']] show ?thesis
    proof (rule wp_mono)
      fix ok t assume a: "flushed os sent f slot c (?s w) ok t \<and> kept slot ?c (?s w) ok t"
      show "wp (if \<not> ok then close_connection os slot (cn_id c) else ret ())
          (\<lambda>_ u. delivered os sent f slot c s u \<and> (\<forall>x. x \<noteq> cn_stream c \<longrightarrow> taken sent u x = taken sent s x)) environment_error t"
        by (rule wp_mono [OF close [OF conjunct2 [OF a]]]) (use result [OF conjunct1 [OF a] w] in blast)
    qed
  qed
  have "wp (reregister_connection os ?c True) (\<lambda>_ u. (\<exists>w'. u = ?s w') \<and> taken sent u = taken sent (?s (cx_world s))) environment_error
      (?s (cx_world s))"
    by (rule wp_quiet [OF quiet_reregister [OF tr]]) (rule wp_reregister, auto)
  then have "wp (reregister_connection os ?c True) (\<lambda>_. wp (flush_connection os slot) (\<lambda>ok. wp (if \<not> ok then close_connection os slot (cn_id c) else ret ())
      (\<lambda>_ u. delivered os sent f slot c s u \<and> (\<forall>x. x \<noteq> cn_stream c \<longrightarrow> taken sent u x = taken sent s x)) environment_error)
      environment_error) environment_error (?s (cx_world s))"
    by (rule wp_mono) (use flush in auto)
  then show ?thesis using c(1) by (simp add: send_data_def wp_slot_at [OF h] wp_set_slot Let_def del: wp_if)
qed

text \<open>Over both slots: every idle streaming client gets the frame, and nobody else a byte.\<close>

lemma delivered_cong:
  assumes "delivered os sent f slot c u v"
    and "taken sent s (cn_stream c) = taken sent u (cn_stream c)" "en_descriptor (cx_endpoint s) = en_descriptor (cx_endpoint u)"
    and "taken sent t (cn_stream c) = taken sent v (cn_stream c)" "\<And>x. holds slot x t = holds slot x v"
  shows "delivered os sent f slot c s t"
  using assms(1) unfolding delivered_def assms(2-5) .

definition gets_frame :: "nat set \<Rightarrow> nat \<Rightarrow> connection \<Rightarrow> 'w ctx \<Rightarrow> bool" where
  "gets_frame slots slot c s \<longleftrightarrow> slot \<in> slots \<and> holds slot c s \<and> cn_streaming c \<and> \<not> is_pending (cn_pending c)"

definition distributed :: "'w os \<Rightarrow> ('w \<Rightarrow> socket \<Rightarrow> bytes) \<Rightarrow> bytes \<Rightarrow> nat set \<Rightarrow> 'w ctx \<Rightarrow> 'w ctx \<Rightarrow> bool" where
  "distributed os sent f slots s t \<longleftrightarrow>
     (\<forall>slot c. gets_frame slots slot c s \<longrightarrow> delivered os sent f slot c s t)
   \<and> (\<forall>x. (\<forall>slot c. gets_frame slots slot c s \<longrightarrow> cn_stream c \<noteq> x) \<longrightarrow> taken sent t x = taken sent s x)"

lemma wp_send_slot:
  fixes s :: "'w ctx"
  assumes tr: "transmits os sent" and io: "io_bounded os" and inv: "endpoint_inv (cx_endpoint s)" and slot: "slot < 2"
    and idle: "\<And>c. holds slot c s \<Longrightarrow> \<not> slow c"
    and f: "f = data_frame_bytes (en_data_frame (cx_endpoint s))"
  shows "wp (send_data os slot) (\<lambda>_ t. distributed os sent f {slot} s t) environment_error s"
proof (rule slot_cases [OF inv slot])
  assume e: "slot_of (cx_endpoint s) slot = Some None"
  have "distributed os sent f {slot} s s"
    using e by (auto simp: distributed_def gets_frame_def slot_of_def holds_def split: if_splits)
  then show ?thesis using e by (simp add: send_data_def wp_empty_slot)
next
  fix c assume h: "holds slot c s"
  have only: "x = c" if "holds slot x s" for x using that h by (simp add: holds_def)
  show ?thesis
  proof (cases "cn_streaming c")
    case False
    then have "distributed os sent f {slot} s s" using only by (auto simp: distributed_def gets_frame_def)
    then show ?thesis using False by (simp add: send_data_def wp_slot_at [OF h])
  next
    case True
    have free: "\<not> is_pending (cn_pending c)" using True idle [OF h] by (simp add: slow_def)
    have mine: "gets_frame {slot} i x s \<longleftrightarrow> i = slot \<and> x = c" for i x
      using h only True free unfolding gets_frame_def by blast
    have "distributed os sent f {slot} s t"
      if "delivered os sent f slot c s t \<and> (\<forall>x. x \<noteq> cn_stream c \<longrightarrow> taken sent t x = taken sent s x)" for t
      using that unfolding distributed_def mine by simp
    then show ?thesis by (rule wp_mono [OF wp_send_delivers [OF tr io inv h True free f]])
  qed
qed

lemma distributed_step:
  assumes d: "distributed os sent f {..<k} s u" and e: "distributed os sent f {k} u v"
    and u: "sent_to {..<k} s u" and v: "sent_to {k} u v"
    and sockets: "\<And>i c j c'. holds i c s \<Longrightarrow> holds j c' s \<Longrightarrow> cn_stream c = cn_stream c' \<Longrightarrow> i = j"
  shows "distributed os sent f {..<Suc k} s v"
proof -
  have here: "holds k c u = holds k c s" for c using u by (simp add: sent_to_def)
  have there: "holds i c v = holds i c u" if "i < k" for i c using v that by (simp add: sent_to_def)
  have same: "en_descriptor (cx_endpoint u) = en_descriptor (cx_endpoint s)" using u by (simp add: sent_to_def advances_def evolves_def)
  have before: "taken sent u x = taken sent s x" if "\<And>i c. gets_frame {..<k} i c s \<Longrightarrow> cn_stream c \<noteq> x" for x
    using d that by (auto simp: distributed_def)
  have after: "taken sent v x = taken sent u x" if "\<And>c. gets_frame {k} k c u \<Longrightarrow> cn_stream c \<noteq> x" for x
    using e that by (auto simp: distributed_def gets_frame_def)
  have now: "gets_frame {k} k c u = gets_frame {k} k c s" for c by (simp add: gets_frame_def here)
  have "delivered os sent f i c s v" if g: "gets_frame {..<Suc k} i c s" for i c
  proof (cases "i = k")
    case True
    have gk: "gets_frame {k} k c s" using g True by (simp add: gets_frame_def)
    then have "delivered os sent f k c u v" using e now by (auto simp: distributed_def)
    moreover have "taken sent u (cn_stream c) = taken sent s (cn_stream c)"
      by (rule before) (use sockets gk in \<open>auto simp: gets_frame_def\<close>)
    ultimately show ?thesis using True same by (auto intro: delivered_cong)
  next
    case False
    then have gi: "gets_frame {..<k} i c s" using g by (auto simp: gets_frame_def)
    then have "delivered os sent f i c s u" using d by (auto simp: distributed_def)
    moreover have "taken sent v (cn_stream c) = taken sent u (cn_stream c)"
      by (rule after) (use sockets gi False now in \<open>auto simp: gets_frame_def\<close>)
    moreover have "i < k" using gi by (simp add: gets_frame_def)
    ultimately show ?thesis using there by (auto intro: delivered_cong)
  qed
  moreover have "taken sent v x = taken sent s x" if x: "\<And>i c. gets_frame {..<Suc k} i c s \<Longrightarrow> cn_stream c \<noteq> x" for x
  proof -
    have "taken sent v x = taken sent u x" by (rule after) (use x now in \<open>auto simp: gets_frame_def\<close>)
    moreover have "cn_stream c \<noteq> x" if "gets_frame {..<k} i c s" for i c
      by (rule x [of i]) (use that in \<open>simp add: gets_frame_def\<close>)
    then have "taken sent u x = taken sent s x" by (rule before)
    ultimately show ?thesis by simp
  qed
  ultimately show ?thesis unfolding distributed_def by blast
qed

lemma wp_send_all:
  fixes s :: "'w ctx"
  assumes tr: "transmits os sent" and io: "io_bounded os" and inv: "endpoint_inv (cx_endpoint s)"
    and idle: "\<And>k c. holds k c s \<Longrightarrow> \<not> slow c"
    and sockets: "\<And>i c j c'. holds i c s \<Longrightarrow> holds j c' s \<Longrightarrow> cn_stream c = cn_stream c' \<Longrightarrow> i = j"
    and f: "f = data_frame_bytes (en_data_frame (cx_endpoint s))"
  shows "wp (for_each [0..<2] (send_data os)) (\<lambda>_ t. sent_to {..<2} s t \<and> distributed os sent f {..<2} s t) environment_error s"
proof (rule wp_for_upt [where I = "\<lambda>n t. sent_to {..<n} s t \<and> distributed os sent f {..<n} s t"])
  show "sent_to {..<0} s s \<and> distributed os sent f {..<0} s s"
    using sent_to_refl [OF inv] by (simp add: distributed_def gets_frame_def)
  fix k and u :: "'w ctx" assume k: "k < 2" and u: "sent_to {..<k} s u \<and> distributed os sent f {..<k} s u"
  have inv': "endpoint_inv (cx_endpoint u)" and f': "f = data_frame_bytes (en_data_frame (cx_endpoint u))"
    using u f by (simp_all add: sent_to_def advances_def)
  have idle': "\<not> slow c" if "holds k c u" for c using that u idle unfolding sent_to_def by blast
  show "wp (send_data os k) (\<lambda>_ t. sent_to {..<Suc k} s t \<and> distributed os sent f {..<Suc k} s t) environment_error u"
  proof (rule wp_mono [OF wp_conj [OF wp_send_data [OF io inv' k idle'] wp_send_slot [OF tr io inv' k idle' f']]], assumption, assumption)
    fix v assume v: "sent_to {k} u v \<and> distributed os sent f {k} u v"
    have "{..<k} \<union> {k} = {..<Suc k}" by auto
    then have "sent_to {..<Suc k} s v" using sent_to_trans u v by metis
    moreover have "distributed os sent f {..<Suc k} s v"
      by (rule distributed_step [where u = u]) (use u v sockets in blast)+
    ultimately show "sent_to {..<Suc k} s v \<and> distributed os sent f {..<Suc k} s v" by simp
  qed
qed

text \<open>
  The endpoint at a reporting boundary: closing the slow clients writes nothing; then, unless the scenario
  omits data, the frame of the sample goes to every client that streamed and was idle.
\<close>

lemma wp_emit_delivers:
  fixes s :: "'w ctx"
  assumes tr: "transmits os sent" and io: "io_bounded os" and inv: "endpoint_inv (cx_endpoint s)"
    and wf: "endpoint_wf (en_descriptor (cx_endpoint s))"
    and sockets: "\<And>i c j c'. holds i c s \<Longrightarrow> holds j c' s \<Longrightarrow> cn_stream c = cn_stream c' \<Longrightarrow> i = j"
    and f: "f = sample_frame sin32 seed i ts degraded plan (en_descriptor (cx_endpoint s))"
  shows "wp (emit_endpoint os sin32 seed i ts degraded plan)
      (\<lambda>_ t. distributed os sent (data_frame_bytes f) (if omits_data plan then {} else {..<2}) s t) environment_error s"
proof -
  let ?Q = "distributed os sent (data_frame_bytes f) (if omits_data plan then {} else {..<2}) s"
  let ?rest = "\<lambda>t. if \<not> any_streaming (cx_endpoint t) \<or> omits_data plan then ret ()
     else bind_p (encode_data sin32 seed i ts degraded plan (cx_endpoint t)) (\<lambda>frame.
          bind_p (modify (\<lambda>c. c\<lparr>cx_endpoint := (cx_endpoint c)\<lparr>en_data_frame := frame\<rparr>\<rparr>)) (\<lambda>_.
          for_each [0..<2] (send_data os)))"
  have fr: "frames_wf ((cx_endpoint s)\<lparr>en_data_frame := f\<rparr>)"
    unfolding f using encode_data_ok(2) [OF wf] inv by (simp add: endpoint_inv_def endpoint_static_def)
  have quiet: "quiet (taken sent) (for_each [0..<2] (close_if_slow os))"
    by (intro quiet_for_each quiet_close_if_slow tr)
  have keep: "?Q t" if p: "purges slow UNIV s t" and w: "taken sent t = taken sent s"
      and n: "\<not> (any_streaming (cx_endpoint t) \<and> \<not> omits_data plan)" for t
  proof -
    have "\<not> sends_data plan s" using n purges_slow_sends [OF p, of plan] by blast
    then have "\<not> gets_frame (if omits_data plan then {} else {..<2}) slot c s" for slot c
      by (auto simp: sends_data_def gets_frame_def split: if_splits)
    then show ?thesis using w by (simp add: distributed_def)
  qed
  have send: "wp (for_each [0..<2] (send_data os)) (\<lambda>_. ?Q) environment_error (t\<lparr>cx_endpoint := (cx_endpoint t)\<lparr>en_data_frame := f\<rparr>\<rparr>)"
    if p: "purges slow UNIV s t" and w: "taken sent t = taken sent s" and n: "\<not> omits_data plan" for t
  proof -
    let ?t = "t\<lparr>cx_endpoint := (cx_endpoint t)\<lparr>en_data_frame := f\<rparr>\<rparr>"
    have held: "holds k c ?t \<longleftrightarrow> holds k c s \<and> \<not> slow c" for k c using p by (simp add: purges_def holds_def)
    have same: "en_descriptor (cx_endpoint ?t) = en_descriptor (cx_endpoint s)" using p by (simp add: purges_def advances_def evolves_def)
    have get: "gets_frame A k c ?t = gets_frame A k c s" for A k c
      using held by (auto simp: gets_frame_def slow_def)
    have "wp (for_each [0..<2] (send_data os)) (\<lambda>_ u. sent_to {..<2} ?t u \<and> distributed os sent (data_frame_bytes f) {..<2} ?t u)
        environment_error ?t"
    proof (rule wp_send_all [OF tr io])
      show "endpoint_inv (cx_endpoint ?t)" using closed_new_frame [OF p fr] by simp
      show "k = j" if "holds k c ?t" "holds j c' ?t" "cn_stream c = cn_stream c'" for k c j c'
        using that sockets held by blast
    qed (use held in simp_all)
    then show ?thesis
    proof (rule wp_mono)
      fix u assume "sent_to {..<2} ?t u \<and> distributed os sent (data_frame_bytes f) {..<2} ?t u"
      then have d: "distributed os sent (data_frame_bytes f) {..<2} ?t u" by simp
      have "delivered os sent (data_frame_bytes f) k c s u" if "gets_frame {..<2} k c s" for k c
        by (rule delivered_cong [where u = ?t and v = u]) (use d that w same in \<open>simp_all add: distributed_def get\<close>)
      then show "?Q u" using d w n unfolding distributed_def get by simp
    qed
  qed
  have "wp (for_each [0..<2] (close_if_slow os)) (\<lambda>_ t. wp (?rest t) (\<lambda>_. ?Q) environment_error t) environment_error s"
  proof (rule wp_mono [OF wp_quiet [OF quiet wp_close_slow [OF inv]]])
    fix t assume pw: "purges slow UNIV s t \<and> taken sent t = taken sent s"
    then have p: "purges slow UNIV s t" and w: "taken sent t = taken sent s" by simp_all
    have "frames_wf (cx_endpoint t)" "en_descriptor (cx_endpoint t) = en_descriptor (cx_endpoint s)"
      using p by (simp_all add: purges_def advances_def evolves_def endpoint_inv_def endpoint_static_def)
    then have enc: "encode_data sin32 seed i ts degraded plan (cx_endpoint t) = (ret f :: ('w, data_frame) action)"
      using encode_data_ok(1) [of "cx_endpoint t"] wf unfolding f by simp
    show "wp (?rest t) (\<lambda>_. ?Q) environment_error t"
    proof (cases "any_streaming (cx_endpoint t) \<and> \<not> omits_data plan")
      case True
      then show ?thesis using send [OF p w] by (simp add: enc del: for_each.simps upt_Suc)
    next
      case False
      have "?rest t = ret ()" using False by (simp only: if_True de_Morgan_conj not_not simp_thms)
      then show ?thesis using keep [OF p w False] by simp
    qed
  qed
  then show ?thesis unfolding emit_endpoint_def by (simp del: wp_if)
qed

lemma distributedD:
  assumes "distributed os sent f (if omits_data plan then {} else {..<2}) s t" and inv: "endpoint_inv (cx_endpoint s)"
  shows "\<not> omits_data plan \<longrightarrow> (\<forall>slot c. holds slot c s \<and> cn_streaming c \<and> \<not> is_pending (cn_pending c) \<longrightarrow> delivered os sent f slot c s t)"
    and "\<forall>x. omits_data plan \<or> (\<forall>slot c. holds slot c s \<and> cn_streaming c \<and> \<not> is_pending (cn_pending c) \<longrightarrow> cn_stream c \<noteq> x)
      \<longrightarrow> taken sent t x = taken sent s x"
proof -
  have "slot < 2" if "holds slot c s" for slot c by (rule holds_less [OF inv that])
  then have get: "gets_frame (if omits_data plan then {} else {..<2}) slot c s \<longleftrightarrow>
      \<not> omits_data plan \<and> holds slot c s \<and> cn_streaming c \<and> \<not> is_pending (cn_pending c)" for slot c
    by (auto simp: gets_frame_def)
  show "\<not> omits_data plan \<longrightarrow> (\<forall>slot c. holds slot c s \<and> cn_streaming c \<and> \<not> is_pending (cn_pending c) \<longrightarrow> delivered os sent f slot c s t)"
    using assms(1) unfolding distributed_def get by blast
  show "\<forall>x. omits_data plan \<or> (\<forall>slot c. holds slot c s \<and> cn_streaming c \<and> \<not> is_pending (cn_pending c) \<longrightarrow> cn_stream c \<noteq> x)
      \<longrightarrow> taken sent t x = taken sent s x"
    using assms(1) unfolding distributed_def get by blast
qed

text \<open>The frame of a sample is never empty.\<close>

lemma sample_frame_nonempty: "0 < length (data_frame_bytes (sample_frame sin32 seed i ts degraded plan d))"
  by (simp add: sample_frame_def Let_def del: length_greater_0_conv split: wire_version.splits)

end
