(* ===== verification/Management_Server.thy ===== *)
theory Management_Server
  imports Server
begin

text \<open>
  The server's management side and its main loop (\<^verbatim>\<open>src/server.rs\<close>): serving the connections of the
  management listener, answering a request from the state of the server, dispatching the events of
  a poll and running until a deadline.
\<close>

section \<open>The management listener\<close>

text \<open>Running an operation on \<^verbatim>\<open>self.management\<close>, which panics where the source has an \<^verbatim>\<open>expect\<close>.\<close>

definition to_mctx :: "management_listener \<Rightarrow> 'w server \<Rightarrow> 'w mctx" where
  "to_mctx l s = \<lparr>mx_listener = l, mx_next_connection_id = sv_next_management_connection_id s, mx_world = sv_world s\<rparr>"

definition from_mctx :: "'w mctx \<Rightarrow> 'w server \<Rightarrow> 'w server" where
  "from_mctx c s = s\<lparr>sv_management := Some (mx_listener c),
     sv_next_management_connection_id := mx_next_connection_id c, sv_world := mx_world c\<rparr>"

definition on_management :: "('w, 'a) management_action \<Rightarrow> ('w, 'a) server_action" where
  "on_management f = (\<lambda>s. case sv_management s of None \<Rightarrow> Panic | Some l \<Rightarrow> zoom (to_mctx l) from_mctx f s)"

text \<open>\<^verbatim>\<open>if let Some(management) = self.management.as_mut()\<close>.\<close>

definition if_management :: "('w, unit) management_action \<Rightarrow> ('w, unit) server_action" where
  "if_management f = bind_p (gets sv_management) (\<lambda>opt. case opt of None \<Rightarrow> ret () | Some _ \<Rightarrow> on_management f)"

definition dispatch_management_listener :: "'w os \<Rightarrow> bool \<Rightarrow> ('w, unit) server_action" where
  "dispatch_management_listener os readable =
     (if readable then if_management (accept_management_connections os) else ret ())"

section \<open>Responses\<close>

definition respond :: "codec \<Rightarrow> response_encode_error + bytes \<Rightarrow> ('w, bytes) server_action" where
  "respond ex response = expect (management_response_or_internal (ex_error ex) response)"

definition management_error_response :: "codec \<Rightarrow> status_code \<Rightarrow> string \<Rightarrow> string \<Rightarrow> ('w, bytes) server_action" where
  "management_error_response ex status code message = respond ex (json_error (ex_error ex) status code message)"

definition scenario_controller_unavailable_response :: "codec \<Rightarrow> ('w, bytes) server_action" where
  "scenario_controller_unavailable_response ex =
     management_error_response ex StatusServiceUnavailable ''scenario_controller_unavailable''
       ''scenario controller is not enabled''"

definition scenario_request_rejected_response :: "codec \<Rightarrow> ('w, bytes) server_action" where
  "scenario_request_rejected_response ex =
     management_error_response ex StatusBadRequest ''scenario_request_rejected'' ''scenario request could not be applied''"

definition invalid_token_response :: "codec \<Rightarrow> ('w, bytes) server_action" where
  "invalid_token_response ex =
     management_error_response ex StatusBadRequest ''invalid_token'' ''token must be greater than zero''"

definition management_metrics_response :: "codec \<Rightarrow> ('w, bytes) server_action" where
  "management_metrics_response ex =
     bind_p (gets (\<lambda>s. management_metrics (sv_endpoints s) (sv_ready s) (sv_time_health s) (sv_stats s)
               (map_option ml_rejected_connections (sv_management s)) (sv_runtime_metadata s))) (\<lambda>metrics.
     respond ex (prometheus_text StatusOk (str_bytes metrics)))"

definition management_catalog_response :: "codec \<Rightarrow> ('w, bytes) server_action" where
  "management_catalog_response ex =
     bind_p (gets sv_controller) (\<lambda>opt. case opt of
         None \<Rightarrow> scenario_controller_unavailable_response ex
       | Some c \<Rightarrow>
           bind_p (expect (content_sha256 ex (catalog c))) (\<lambda>sha256.
           respond ex (json_success StatusOk (ex_value ex (CatalogValue
             \<lparr>mr_version = sc_version (catalog c), mr_content_sha256 = sha256,
              mr_scenarios = catalog_scenarios (catalog c)\<rparr>)))))"

text \<open>An operation of the controller, at the time of the call.\<close>

definition on_controller :: "'w os \<Rightarrow> (instant \<Rightarrow> controller \<Rightarrow> ('a \<times> controller) option) \<Rightarrow> ('w, 'a) server_action" where
  "on_controller os f =
     bind_p (gets sv_controller) (\<lambda>opt.
     bind_p (expect opt) (\<lambda>c.
     bind_p (sv_world_op (os_now os)) (\<lambda>now.
     bind_p (expect (f now c)) (\<lambda>(r, c').
     bind_p (modify (\<lambda>s. s\<lparr>sv_controller := Some c'\<rparr>)) (\<lambda>_. ret r)))))"

definition state_value :: "'w server \<Rightarrow> management_fleet_state \<Rightarrow> controller_snapshot option \<Rightarrow> management_value" where
  "state_value s fleet snap = StateValue
     \<lparr>st_ready = sv_ready s, st_time_health = sv_time_health s, st_stats = sv_stats s, st_fleet = fleet,
      st_endpoints = map endpoint_state (sv_endpoints s), st_runtime_metadata = sv_runtime_metadata s,
      st_scenario_controller = snap\<rparr>"

definition management_state_response :: "'w os \<Rightarrow> codec \<Rightarrow> ('w, bytes) server_action" where
  "management_state_response os ex =
     bind_p (gets sv_controller) (\<lambda>opt.
     bind_p (case opt of None \<Rightarrow> ret None
             | Some _ \<Rightarrow> bind_p (on_controller os snapshot) (\<lambda>snap. ret (Some snap))) (\<lambda>snap.
     bind_p (gets (\<lambda>s. s)) (\<lambda>s.
     bind_p (expect (fleet_state (sv_endpoints s))) (\<lambda>fleet.
     case json_success StatusOk (ex_value ex (state_value s fleet snap)) of
       Inl (ResponseBodyTooLarge _ _) \<Rightarrow>
         management_error_response ex StatusNotAcceptable ''legacy_state_response_too_large''
           ''legacy state response exceeds the 64 KiB limit; request GET /v1/state?format=console-v1 for the full lossless paged representation''
     | r \<Rightarrow> respond ex r))))"

definition console_value ::
    "'w server \<Rightarrow> management_fleet_state \<Rightarrow> u64 \<Rightarrow> string \<Rightarrow> console_controller_state \<Rightarrow> string option \<Rightarrow> management_value" where
  "console_value s fleet controller_revision sha256 page next_cursor = ConsoleStateValue
     \<lparr>co_format = ''console-v1'', co_process_identity = sv_console_process_identity s,
      co_controller_revision = controller_revision, co_catalog_content_sha256 = sha256, co_ready = sv_ready s,
      co_time_health = sv_time_health s, co_stats = sv_stats s, co_fleet = fleet,
      co_endpoints = map endpoint_state (sv_endpoints s), co_runtime_metadata = sv_runtime_metadata s,
      co_scenario_controller = page, co_next_cursor = next_cursor\<rparr>"

definition stale_cursor :: "console_state_cursor option \<Rightarrow> string \<Rightarrow> u64 \<Rightarrow> bool" where
  "stale_cursor cursor identity controller_revision =
     (case cursor of
        None \<Rightarrow> False
      | Some c \<Rightarrow> cc_process_identity c \<noteq> identity \<or> cc_controller_revision c \<noteq> controller_revision)"

definition cursor_offset :: "console_state_cursor option \<Rightarrow> nat" where
  "cursor_offset cursor = (case cursor of None \<Rightarrow> 0 | Some c \<Rightarrow> unat (cc_offset c))"

definition page_is_empty :: "console_controller_state \<Rightarrow> bool" where
  "page_is_empty page = (ct_prepared page = [] \<and> ct_pending page = [] \<and> ct_active page = [])"

definition outside_cursor_response :: "codec \<Rightarrow> ('w, bytes) server_action" where
  "outside_cursor_response ex =
     management_error_response ex StatusBadRequest ''invalid_console_cursor'' ''console cursor is outside the current state''"

definition management_console_state_response ::
    "'w os \<Rightarrow> codec \<Rightarrow> console_state_cursor option \<Rightarrow> ('w, bytes) server_action" where
  "management_console_state_response os ex cursor =
     bind_p (gets sv_controller) (\<lambda>opt. case opt of
         None \<Rightarrow> scenario_controller_unavailable_response ex
       | Some _ \<Rightarrow>
           bind_p (on_controller os snapshot) (\<lambda>snap.
           bind_p (gets sv_controller) (\<lambda>opt.
           bind_p (expect opt) (\<lambda>c.
           bind_p (expect (content_sha256 ex (catalog c))) (\<lambda>sha256.
           bind_p (gets (\<lambda>s. s)) (\<lambda>s.
           if stale_cursor cursor (sv_console_process_identity s) (revision c)
           then management_error_response ex StatusBadRequest ''stale_console_cursor''
                  ''console state changed; reload is required''
           else case management_console_lifecycle_page snap (cursor_offset cursor) of
                  None \<Rightarrow> outside_cursor_response ex
                | Some (page, next_offset) \<Rightarrow>
                    if cursor \<noteq> None \<and> page_is_empty page then outside_cursor_response ex
                    else bind_p (expect (fleet_state (sv_endpoints s))) (\<lambda>fleet.
                         respond ex (json_success StatusOk (ex_value ex (console_value s fleet (revision c) sha256 page
                           (map_option (\<lambda>n. console_cursor (sv_console_process_identity s) (revision c) (of_nat n))
                              next_offset)))))))))))"

section \<open>Scenario requests\<close>

definition scenario_target_from_management :: "management_target \<Rightarrow> scenario_target" where
  "scenario_target_from_management t =
     (case mt_connection_id t of
        Some connection_id \<Rightarrow> Pdc (mt_stream_id t) connection_id
      | None \<Rightarrow> Endpoint (mt_stream_id t))"

definition is_live :: "endpoint list \<Rightarrow> u16 \<Rightarrow> u64 \<Rightarrow> bool" where
  "is_live endpoints stream_id connection_id =
     list_ex (\<lambda>en. ep_stream_id (en_descriptor en) = stream_id
       \<and> list_ex (\<lambda>x. case x of None \<Rightarrow> False | Some c \<Rightarrow> cn_id c = connection_id) (en_connections en)) endpoints"

definition scenario_target_is_admitted :: "endpoint list \<Rightarrow> controller option \<Rightarrow> scenario_target \<Rightarrow> bool \<Rightarrow> bool" where
  "scenario_target_is_admitted endpoints controller target allows_disconnected_active_pdc =
     (case target of
        Endpoint stream_id \<Rightarrow> list_ex (\<lambda>en. ep_stream_id (en_descriptor en) = stream_id) endpoints
      | Pdc stream_id connection_id \<Rightarrow>
          is_live endpoints stream_id connection_id
          \<or> allows_disconnected_active_pdc
            \<and> (case controller of None \<Rightarrow> False | Some c \<Rightarrow> has_active_target c target))"

definition log_scenario_action :: "'w os \<Rightarrow> codec \<Rightarrow> string \<Rightarrow> string option \<Rightarrow> management_value \<Rightarrow> ('w, unit) server_action" where
  "log_scenario_action os ex action actor_label result =
     bind_p (gets sv_runtime_metadata) (\<lambda>opt. case opt of
         None \<Rightarrow> ret ()
       | Some metadata \<Rightarrow>
           bind_p (sv_world_op (os_system_time os)) (\<lambda>now.
           case ex_log ex \<lparr>lg_timestamp_unix_ms = (if now < 0 then 0 else now div 1000000),
                  lg_deployment_label = rm_deployment_label metadata, lg_actor_label = actor_label,
                  lg_action = action, lg_result = result\<rparr> of
             None \<Rightarrow> ret ()
           | Some text \<Rightarrow> sv_world_op (\<lambda>w. ((), os_eprintln os text w))))"

text \<open>A controller operation whose result is logged and returned, or refused.\<close>

definition apply_scenario ::
    "'w os \<Rightarrow> codec \<Rightarrow> string \<Rightarrow> string option \<Rightarrow> (instant \<Rightarrow> controller \<Rightarrow> 'a outcome) \<Rightarrow> ('a \<Rightarrow> management_value)
      \<Rightarrow> ('w, bytes) server_action" where
  "apply_scenario os ex action actor_label f to_value =
     bind_p (on_controller os f) (\<lambda>r. case r of
         Inl _ \<Rightarrow> scenario_request_rejected_response ex
       | Inr snap \<Rightarrow>
           bind_p (log_scenario_action os ex action actor_label (to_value snap)) (\<lambda>_.
           respond ex (json_success StatusAccepted (ex_value ex (to_value snap)))))"

definition prepare_scenario ::
    "'w os \<Rightarrow> codec \<Rightarrow> string \<Rightarrow> scenario_target \<Rightarrow> bool \<Rightarrow> string option \<Rightarrow> (instant \<Rightarrow> controller \<Rightarrow> prepared_snapshot outcome)
      \<Rightarrow> ('w, bytes) server_action" where
  "prepare_scenario os ex action target allows_disconnected actor_label f =
     bind_p (gets (\<lambda>s. s)) (\<lambda>s.
     if sv_controller s = None then scenario_controller_unavailable_response ex
     else if \<not> scenario_target_is_admitted (sv_endpoints s) (sv_controller s) target allows_disconnected
     then scenario_request_rejected_response ex
     else apply_scenario os ex action actor_label f PreparedValue)"

definition token_scenario ::
    "'w os \<Rightarrow> codec \<Rightarrow> string \<Rightarrow> u64 \<Rightarrow> string option \<Rightarrow> (activation_token \<Rightarrow> instant \<Rightarrow> controller \<Rightarrow> 'a outcome)
      \<Rightarrow> ('a \<Rightarrow> management_value) \<Rightarrow> ('w, bytes) server_action" where
  "token_scenario os ex action raw_token actor_label f to_value =
     (case activation_token_from_value raw_token of
        None \<Rightarrow> invalid_token_response ex
      | Some token \<Rightarrow>
          bind_p (gets sv_controller) (\<lambda>opt.
          if opt = None then scenario_controller_unavailable_response ex
          else if \<not> is_ok (validate_actor_label actor_label) then scenario_request_rejected_response ex
          else apply_scenario os ex action actor_label (f token) to_value))"

fun management_request_response :: "'w os \<Rightarrow> codec \<Rightarrow> management_request \<Rightarrow> ('w, bytes) server_action" where
  "management_request_response os ex RequestHealthz =
     respond ex (json_success StatusOk (ex_value ex (HealthValue ''ok'')))"
| "management_request_response os ex RequestReadyz =
     bind_p (gets (\<lambda>s. (sv_ready s, sv_runtime_metadata s))) (\<lambda>(ready, metadata).
     respond ex (json_success (if ready then StatusOk else StatusServiceUnavailable)
       (ex_value ex (ReadinessValue ready metadata))))"
| "management_request_response os ex RequestMetrics = management_metrics_response ex"
| "management_request_response os ex RequestCatalog = management_catalog_response ex"
| "management_request_response os ex RequestState = management_state_response os ex"
| "management_request_response os ex (RequestConsoleState cursor) = management_console_state_response os ex cursor"
| "management_request_response os ex (RequestPrepare request) =
     (let target = scenario_target_from_management (rq_target request)
      in prepare_scenario os ex ''prepare'' target False (rq_actor_label request)
           (prepare_activation target (rq_scenario_name request) (rq_actor_label request)))"
| "management_request_response os ex (RequestConfirm request) =
     token_scenario os ex ''confirm'' (cf_token request) (cf_actor_label request) confirm PendingValue"
| "management_request_response os ex (RequestClear request) =
     (let target = scenario_target_from_management (cl_target request)
      in prepare_scenario os ex ''clear'' target True (cl_actor_label request)
           (prepare_clear target (cl_actor_label request)))"
| "management_request_response os ex (RequestCancel request) =
     token_scenario os ex ''cancel'' (ca_token request) (ca_actor_label request) cancel PreparedValue"

section \<open>Events of a management connection\<close>

definition current_management_connection :: "'w server \<Rightarrow> nat \<Rightarrow> u64 \<Rightarrow> bool" where
  "current_management_connection s slot connection_id =
     (case sv_management s of
        None \<Rightarrow> False
      | Some l \<Rightarrow> slot < length (ml_connections l)
          \<and> (case ml_connections l ! slot of None \<Rightarrow> False | Some c \<Rightarrow> mc_connection_id c = connection_id))"

text \<open>Reading works on the connection in its slot and on the world.\<close>

definition read_management_slot :: "'w os \<Rightarrow> codec \<Rightarrow> nat \<Rightarrow> management_connection \<Rightarrow> ('w, string + management_read_result) server_action" where
  "read_management_slot os ex slot c =
     zoom (\<lambda>s. (c, sv_world s))
       (\<lambda>(c', w) s. s\<lparr>sv_management := map_option (\<lambda>l. l\<lparr>ml_connections := (ml_connections l)[slot := Some c']\<rparr>) (sv_management s),
          sv_world := w\<rparr>)
       (read_management_connection os ex)"

definition queue_response_if_current :: "'w os \<Rightarrow> nat \<Rightarrow> u64 \<Rightarrow> bytes \<Rightarrow> ('w, unit) server_action" where
  "queue_response_if_current os slot connection_id response =
     on_management (bind_p (get_mslot slot) (\<lambda>opt. case opt of
         None \<Rightarrow> ret ()
       | Some c \<Rightarrow> if mc_connection_id c \<noteq> connection_id then ret () else queue_management_response os slot c response))"

text \<open>The readable half of the event; the result says whether the connection is still to be served.\<close>

definition management_readable :: "'w os \<Rightarrow> codec \<Rightarrow> nat \<Rightarrow> u64 \<Rightarrow> ('w, bool) server_action" where
  "management_readable os ex slot connection_id =
     bind_p (on_management (get_mconnection slot)) (\<lambda>c.
     if mc_response c \<noteq> None then ret True
     else bind_p (read_management_slot os ex slot c) (\<lambda>result. case result of
            Inr (ReadRequest request) \<Rightarrow>
              bind_p (management_request_response os ex request) (\<lambda>response.
              bind_p (queue_response_if_current os slot connection_id response) (\<lambda>_. ret True))
          | Inr (ReadResponse response) \<Rightarrow>
              bind_p (queue_response_if_current os slot connection_id response) (\<lambda>_. ret True)
          | Inr ReadIncomplete \<Rightarrow> ret True
          | _ \<Rightarrow> bind_p (if_management (close_management_connection os slot connection_id)) (\<lambda>_. ret False)))"

definition dispatch_management_connection ::
    "'w os \<Rightarrow> codec \<Rightarrow> nat \<Rightarrow> u64 \<Rightarrow> bool \<Rightarrow> bool \<Rightarrow> ('w, unit) server_action" where
  "dispatch_management_connection os ex slot connection_id readable writable =
     bind_p (gets (\<lambda>s. current_management_connection s slot connection_id)) (\<lambda>is_current.
     if \<not> is_current then ret ()
     else bind_p (if readable then management_readable os ex slot connection_id else ret True) (\<lambda>go_on.
          if \<not> go_on \<or> \<not> writable then ret ()
          else bind_p (on_management (flush_management_connection os slot)) (\<lambda>keep_open.
               if keep_open \<noteq> Inr True then if_management (close_management_connection os slot connection_id)
               else ret ())))"

section \<open>The main loop\<close>

definition EVENTS_CAPACITY :: nat where [const_defs]: "EVENTS_CAPACITY = 512"

definition dispatch_event :: "'w os \<Rightarrow> codec \<Rightarrow> nat \<Rightarrow> u64 \<times> bool \<times> bool \<Rightarrow> ('w, unit) server_action" where
  "dispatch_event os ex endpoint_count event =
     (case event of (token, readable, writable) \<Rightarrow>
        (case event_target token (of_nat endpoint_count) of
           Some (ListenerTarget endpoint_index) \<Rightarrow> dispatch_listener os (unat endpoint_index) readable
         | Some (ConnectionTarget endpoint_index slot_index connection_id) \<Rightarrow>
             dispatch_connection os (unat endpoint_index) (unat slot_index) connection_id readable writable
         | Some ManagementListenerTarget \<Rightarrow> dispatch_management_listener os readable
         | Some (ManagementConnectionTarget slot_index connection_id) \<Rightarrow>
             dispatch_management_connection os ex (unat slot_index) connection_id readable writable
         | None \<Rightarrow> ret ()))"

definition dispatch_events :: "'w os \<Rightarrow> codec \<Rightarrow> (u64 \<times> bool \<times> bool) list \<Rightarrow> ('w, unit) server_action" where
  "dispatch_events os ex events =
     bind_p (gets (\<lambda>s. length (sv_endpoints s))) (\<lambda>endpoint_count.
     for_each (take EVENTS_CAPACITY events) (dispatch_event os ex endpoint_count))"

text \<open>One round; it ends the loop with the statistics when the deadline has passed.\<close>

definition run_round ::
    "'w os \<Rightarrow> codec \<Rightarrow> (f32 \<Rightarrow> f32) \<Rightarrow> instant option \<Rightarrow> ('w, server_stats option) server_action" where
  "run_round os ex sin32 deadline =
     bind_p (sv_world_op (os_now os)) (\<lambda>now.
     if (case deadline of None \<Rightarrow> False | Some e \<Rightarrow> e \<le> now) then bind_p (gets sv_stats) (\<lambda>stats. ret (Some stats))
     else bind_p (gets (\<lambda>s. scheduler_timeout (sv_scheduler s) now)) (\<lambda>timeout.
          let timeout = (case deadline of None \<Rightarrow> timeout | Some e \<Rightarrow> min timeout (saturating_duration_since e now))
          in bind_p (bind_p (sv_world_op (os_poll os timeout)) io_try) (\<lambda>events.
             bind_p (dispatch_events os ex events) (\<lambda>_.
             bind_p (sv_world_op (os_now os)) (\<lambda>now.
             bind_p (expire_connections os now) (\<lambda>_.
             bind_p (emit_if_due os sin32) (\<lambda>_.
             ret None)))))))"

definition run_until :: "'w os \<Rightarrow> codec \<Rightarrow> (f32 \<Rightarrow> f32) \<Rightarrow> instant option \<Rightarrow> ('w, server_stats) server_action" where
  "run_until os ex sin32 deadline = loop_p (run_round os ex sin32 deadline)"

text \<open>\<^verbatim>\<open>run\<close> never reaches its end without an error; \<^verbatim>\<open>run_for\<close> adds the duration to the current instant.\<close>

definition run_server :: "'w os \<Rightarrow> codec \<Rightarrow> (f32 \<Rightarrow> f32) \<Rightarrow> ('w, unit) server_action" where
  "run_server os ex sin32 = bind_p (run_until os ex sin32 None) (\<lambda>_. ret ())"

definition run_for :: "'w os \<Rightarrow> codec \<Rightarrow> (f32 \<Rightarrow> f32) \<Rightarrow> duration \<Rightarrow> ('w, server_stats) server_action" where
  "run_for os ex sin32 duration =
     bind_p (sv_world_op (os_now os)) (\<lambda>now.
     bind_p (expect (instant_checked_add now duration)) (\<lambda>deadline.
     run_until os ex sin32 (Some deadline)))"

end
