(* ===== verification/Management_Props.thy ===== *)
theory Management_Props
  imports Management
begin

text \<open>
  Facts about the management parser and encoder: decimal numbers and tokens, cursors, what a complete
  request looks like, and the bounded writer.
\<close>

section \<open>Decimal numbers\<close>

definition digit_value :: "u8 \<Rightarrow> nat" where
  "digit_value b = unat b - 48"

definition decimal_value :: "nat \<Rightarrow> bytes \<Rightarrow> nat" where
  "decimal_value = foldl (\<lambda>n b. n * 10 + digit_value b)"

lemma decimal_value_simps [simp]:
  "decimal_value n [] = n" "decimal_value n (b # bs) = decimal_value (n * 10 + digit_value b) bs"
  "decimal_value n (bs @ [b]) = decimal_value n bs * 10 + digit_value b"
  by (simp_all add: decimal_value_def)

lemma decimal_value_grows: "n \<le> decimal_value n bs"
proof (induction bs arbitrary: n)
  case (Cons b bs)
  have "n \<le> n * 10 + digit_value b" by simp
  also have "\<dots> \<le> decimal_value (n * 10 + digit_value b) bs" by (rule Cons)
  finally show ?case by simp
qed simp

lemma digit_unat: "is_ascii_digit b \<Longrightarrow> 48 \<le> unat b \<and> unat b \<le> 57"
  by (simp add: is_ascii_digit_def word_le_nat_alt)

lemma digit_word: "is_ascii_digit b \<Longrightarrow> unat (ucast (b - 0x30) :: u64) = digit_value b"
proof -
  assume d: "is_ascii_digit b"
  then have "(0x30 :: u8) \<le> b" by (simp add: is_ascii_digit_def)
  then have "unat (b - 0x30) = unat b - 48" by (simp add: unat_sub)
  moreover have "unat b - 48 < 2 ^ 64" using unsigned_less [of b, where ?'a = nat] by simp
  ultimately show ?thesis by (simp add: digit_value_def unsigned_ucast_eq take_bit_nat_eq_self)
qed

lemma fold_decimal_value:
  assumes "list_all is_ascii_digit bs"
  shows "fold_decimal n bs = (if decimal_value (unat n) bs < 2 ^ 64 then Some (of_nat (decimal_value (unat n) bs)) else None)"
  using assms
proof (induction bs arbitrary: n)
  case (Cons b bs)
  let ?v = "unat n * 10 + digit_value b"
  have d: "unat (ucast (b - 0x30) :: u64) = digit_value b" using Cons.prems digit_word by simp
  show ?case
  proof (cases "?v < 2 ^ 64")
    case True
    have m: "checked_mul n 10 = Some (n * 10)" "unat (n * 10) = unat n * 10"
      using True unat_mult_fits [of n 10] by (simp_all add: checked_mul_def)
    have a: "checked_add (n * 10) (ucast (b - 0x30)) = Some (n * 10 + ucast (b - 0x30))"
      "unat (n * 10 + ucast (b - 0x30)) = ?v"
      using True unat_add_fits [of "n * 10" "ucast (b - 0x30)"] by (simp_all add: checked_add_def m(2) d)
    show ?thesis using Cons.IH Cons.prems m(1) a by simp
  next
    case False
    then have "\<not> decimal_value ?v bs < 2 ^ 64" using decimal_value_grows [of ?v bs] by simp
    moreover have "fold_decimal n (b # bs) = None"
    proof (cases "unat n * 10 < 2 ^ 64")
      case True
      then have m: "checked_mul n 10 = Some (n * 10)" "unat (n * 10) = unat n * 10"
        using unat_mult_fits [of n 10] by (simp_all add: checked_mul_def)
      then show ?thesis using False by (simp add: checked_add_def d)
    qed (simp add: checked_mul_def)
    ultimately show ?thesis by simp
  qed
qed (use unsigned_less [where 'b = 64 and ?'a = nat] in simp)

text \<open>Printing gives digits without a leading zero, and every such text is printed.\<close>

lemma str_bytes_append [simp]: "str_bytes (a @ b) = str_bytes a @ str_bytes b"
  by (simp add: str_bytes_def)

lemma unat_of_char: "unat (of_char c :: u8) = of_char c"
proof -
  have "(of_char c :: u8) = of_nat (of_char c)" by (rule of_nat_of_char [symmetric])
  moreover have "(of_char c :: nat) < 2 ^ LENGTH(8)" using nat_of_char_less_256 [of c] by simp
  ultimately show ?thesis by (simp only: unsigned_of_nat take_bit_nat_eq_self of_nat_id)
qed

lemma unat_digit_char: "d < 10 \<Longrightarrow> unat (of_char (digit_char d) :: u8) = 48 + d"
  by (simp add: unat_of_char digit_char_def)

lemma digit_char_digit:
  assumes "d < 10"
  shows "is_ascii_digit (of_char (digit_char d))" "digit_value (of_char (digit_char d)) = d"
  using assms by (simp_all add: is_ascii_digit_def word_le_nat_alt digit_value_def unat_digit_char)

lemma str_bytes_show_nat:
  "str_bytes (show_nat n) =
     (if n < 10 then [of_char (digit_char n)] else str_bytes (show_nat (n div 10)) @ [of_char (digit_char (n mod 10))])"
  by (subst show_nat.simps) (simp add: str_bytes_def)

lemma show_nat_bytes: "list_all is_ascii_digit (str_bytes (show_nat n))"
proof (induction n rule: show_nat.induct)
  case (1 n)
  then show ?case by (subst str_bytes_show_nat) (simp add: digit_char_digit)
qed

lemma show_nat_nonempty: "show_nat n \<noteq> []"
  by (subst show_nat.simps) simp

lemma decimal_value_show: "decimal_value 0 (str_bytes (show_nat n)) = n"
proof (induction n rule: show_nat.induct)
  case (1 n)
  then show ?case by (subst str_bytes_show_nat) (simp add: digit_char_digit(2))
qed

text \<open>Conversely, digits that do not start with zero are the print of their value.\<close>

lemma digit_of_byte:
  assumes "is_ascii_digit (of_char c)"
  shows "c = digit_char (digit_value (of_char c))" "digit_value (of_char c) < 10"
proof -
  have r: "48 \<le> (of_char c :: nat)" "(of_char c :: nat) \<le> 57"
    using digit_unat [OF assms] by (simp_all add: unat_of_char)
  then show "digit_value (of_char c) < 10" by (simp add: digit_value_def unat_of_char)
  show "c = digit_char (digit_value (of_char c))"
    using r by (simp add: digit_value_def unat_of_char digit_char_def)
qed

lemma digit_char_zero: "digit_char 0 = CHR ''0''"
  by (simp add: digit_char_def char_of_eq_iff)

lemma canonical_digits:
  assumes "list_all is_ascii_digit (str_bytes s)" "s \<noteq> []" "hd s \<noteq> CHR ''0''"
  shows "show_nat (decimal_value 0 (str_bytes s)) = s \<and> 0 < decimal_value 0 (str_bytes s)"
  using assms
proof (induction s rule: rev_induct)
  case (snoc c cs)
  have c: "c = digit_char (digit_value (of_char c))" "digit_value (of_char c) < 10"
    using digit_of_byte [of c] snoc.prems(1) by (simp_all add: str_bytes_def)
  show ?case
  proof (cases "cs = []")
    case True
    have "digit_value (of_char c) \<noteq> 0"
      using snoc.prems(3) True c(1) by (metis append_Nil digit_char_zero list.sel(1))
    then show ?thesis using True c by (simp add: str_bytes_def show_nat.simps)
  next
    case False
    let ?v = "decimal_value 0 (str_bytes cs)"
    have IH: "show_nat ?v = cs" "0 < ?v" using snoc False by auto
    have "str_bytes (cs @ [c]) = str_bytes cs @ [of_char c]" by (simp add: str_bytes_def)
    then have v: "decimal_value 0 (str_bytes (cs @ [c])) = ?v * 10 + digit_value (of_char c)" by simp
    have "show_nat (?v * 10 + digit_value (of_char c)) = show_nat ?v @ [digit_char (digit_value (of_char c))]"
      using IH(2) c(2) by (subst show_nat.simps) simp
    then show ?thesis using v IH c(1) by simp
  qed
qed simp

lemma show_nat_hd: "0 < n \<Longrightarrow> hd (show_nat n) \<noteq> CHR ''0''"
proof (induction n rule: show_nat.induct)
  case (1 n)
  show ?case
  proof (cases "n < 10")
    case True
    then have "of_char (digit_char n) = 48 + n" by (simp add: digit_char_def)
    moreover have "of_char (CHR ''0'') = (48 :: nat)" by simp
    ultimately have "digit_char n \<noteq> CHR ''0''" using 1(2) by (metis add_cancel_left_right less_irrefl)
    then show ?thesis using True by (subst show_nat.simps) simp
  next
    case False
    then have "hd (show_nat (n div 10)) \<noteq> CHR ''0''" by (intro 1) simp_all
    then show ?thesis using False show_nat_nonempty by (subst show_nat.simps) simp
  qed
qed

lemma parse_decimal_show: "parse_decimal_u64 (show_nat (unat n)) = Inr n"
  using show_nat_bytes [of "unat n"] show_nat_nonempty [of "unat n"] unsigned_less [of n, where ?'a = nat]
  by (simp add: parse_decimal_u64_def fold_decimal_value decimal_value_show)

section \<open>Tokens\<close>

lemma str_bytes_hd: "s \<noteq> [] \<Longrightarrow> str_bytes s = of_char (hd s) # str_bytes (tl s)"
  by (cases s) (simp_all add: str_bytes_def)

lemma first_digit:
  assumes "is_ascii_digit (of_char c)"
  shows "(0x31 :: u8) \<le> of_char c \<longleftrightarrow> c \<noteq> CHR ''0''"
proof -
  have "(of_char c :: nat) \<noteq> 48 \<longleftrightarrow> c \<noteq> CHR ''0''" using of_char_eq_iff [of c "CHR ''0''", where 'a = nat] by simp
  then show ?thesis using digit_unat [OF assms] by (auto simp: word_le_nat_alt unat_of_char)
qed

text \<open>C36. A token text is accepted exactly when it is the decimal print of a nonzero 64-bit number, which is
  then its value: no sign, leading zero, blank or overflow gets through, and every token that the
  controller hands out can be sent back as text.\<close>

theorem canonical_token_iff:
  "parse_canonical_decimal_token s = Some v \<longleftrightarrow> v \<noteq> 0 \<and> s = show_nat (unat v)"
proof
  assume v: "parse_canonical_decimal_token s = Some v"
  then have ne: "s \<noteq> []" by (auto simp: parse_canonical_decimal_token_def str_bytes_def)
  then have d: "list_all is_ascii_digit (str_bytes s)" "(0x31 :: u8) \<le> of_char (hd s)"
    and f: "fold_decimal 0 (str_bytes s) = Some v"
    using v by (auto simp: parse_canonical_decimal_token_def str_bytes_hd split: if_splits)
  have "hd s \<noteq> CHR ''0''" using first_digit [of "hd s"] d ne by (simp add: str_bytes_hd)
  from canonical_digits [OF d(1) ne this] show "v \<noteq> 0 \<and> s = show_nat (unat v)"
    using f by (auto simp: fold_decimal_value [OF d(1)] unsigned_of_nat take_bit_nat_eq_self word_unat_eq_iff split: if_splits)
next
  assume v: "v \<noteq> 0 \<and> s = show_nat (unat v)"
  then have pos: "0 < unat v" by (simp add: unat_gt_0)
  have ne: "s \<noteq> []" and d: "list_all is_ascii_digit (str_bytes s)" using v show_nat_bytes show_nat_nonempty by auto
  have h: "is_ascii_digit (of_char (hd s))" using d str_bytes_hd [OF ne] by simp
  have "(0x31 :: u8) \<le> of_char (hd s)" using first_digit [OF h] show_nat_hd [OF pos] v by simp
  moreover have "of_char (hd s) \<le> (0x39 :: u8)" using h by (simp add: is_ascii_digit_def)
  moreover have "fold_decimal 0 (str_bytes s) = Some v"
    using v d unsigned_less [of v, where ?'a = nat] by (simp add: fold_decimal_value decimal_value_show)
  ultimately show "parse_canonical_decimal_token s = Some v"
    using d str_bytes_hd [OF ne] by (simp add: parse_canonical_decimal_token_def)
qed

section \<open>Cursors\<close>

lemma split_on_nonempty: "split_on d s \<noteq> []"
  by (induction s) (auto split: list.splits)

lemma split_on_hit: "d \<notin> set a \<Longrightarrow> split_on d (a @ d # b) = a # split_on d b"
  using split_on_nonempty [of d b] by (induction a) (auto split: list.splits)

lemma split_on_miss: "d \<notin> set a \<Longrightarrow> split_on d a = [a]"
  by (induction a) auto

lemma split_once_hit: "d \<notin> set a \<Longrightarrow> split_once d (a @ d # b) = Some (a, b)"
  by (induction a) auto

lemma digits_exclude:
  assumes "list_all P (str_bytes s)" "\<not> P (of_char c)"
  shows "c \<notin> set s"
  using assms by (auto simp: str_bytes_def list_all_iff)

lemma show_nat_excludes: "\<not> is_ascii_digit (of_char c) \<Longrightarrow> c \<notin> set (show_nat n)"
  using digits_exclude [OF show_nat_bytes] .

lemma cursor_excludes:
  assumes "list_all is_lowercase_hex (str_bytes i)" "c \<in> {CHR ''?'', CHR ''&''}"
  shows "c \<notin> set (console_cursor i r k)"
proof -
  have n: "\<not> is_ascii_digit (of_char c)" "\<not> is_lowercase_hex (of_char c)" "c \<noteq> CHR '':''"
    using assms(2) by (auto simp: is_ascii_digit_def is_lowercase_hex_def is_ascii_lowercase_def)
  then show ?thesis
    using digits_exclude [OF assms(1) n(2)] show_nat_excludes [OF n(1)] by (simp add: console_cursor_def)
qed

lemma parse_cursor:
  assumes "length i = 64" "list_all is_lowercase_hex (str_bytes i)"
  shows "parse_console_cursor (console_cursor i r k) =
    Inr \<lparr>cc_process_identity = i, cc_controller_revision = r, cc_offset = k\<rparr>"
proof -
  have n: "\<not> is_ascii_digit (of_char CHR '':'')" "\<not> is_lowercase_hex (of_char CHR '':'')"
    by (simp_all add: is_ascii_digit_def is_lowercase_hex_def is_ascii_lowercase_def)
  have "split_on (CHR '':'') (console_cursor i r k) = [i, show_nat (unat r), show_nat (unat k)]"
    using split_on_hit [OF digits_exclude [OF assms(2) n(2)], of "show_nat (unat r) @ CHR '':'' # show_nat (unat k)"]
      split_on_hit [OF show_nat_excludes [OF n(1), of "unat r"], of "show_nat (unat k)"]
      split_on_miss [OF show_nat_excludes [OF n(1), of "unat k"]]
    by (simp add: console_cursor_def)
  then show ?thesis using assms by (simp add: parse_console_cursor_def parse_decimal_show)
qed

text \<open>C37. The cursor of a page leads back to the page: a request for the console state with the cursor the
  server printed, for any process identity of 64 lower-case hexadecimal digits, is routed to exactly
  the identity, revision and offset it was printed from.\<close>

theorem console_cursor_roundtrip:
  assumes "length i = 64" and "list_all is_lowercase_hex (str_bytes i)"
  shows "route_for (Some ''GET'') (Some (''/v1/state?format=console-v1&cursor='' @ console_cursor i r k)) =
    Inr (RouteConsoleState (Some \<lparr>cc_process_identity = i, cc_controller_revision = r, cc_offset = k\<rparr>))"
proof -
  define c where "c = console_cursor i r k"
  define q where "q = ''format=console-v1&cursor='' @ c"
  have c: "CHR ''?'' \<notin> set c" "CHR ''&'' \<notin> set c"
    unfolding c_def using cursor_excludes [OF assms(2)] by blast+
  have "split_on (CHR ''&'') q = [''format=console-v1'', ''cursor='' @ c]"
    using split_on_hit [of "CHR ''&''" "''format=console-v1''" "''cursor='' @ c"]
      split_on_miss [of "CHR ''&''" "''cursor='' @ c"] c(2)
    by (simp add: q_def del: split_on.simps)
  moreover have "split_once (CHR ''='') (''cursor='' @ c) = Some (''cursor'', c)"
    using split_once_hit [of "CHR ''=''" "''cursor''" c] by simp
  moreover have "split_once (CHR ''='') ''format=console-v1'' = Some (''format'', ''console-v1'')" by simp
  moreover have "parse_console_cursor c = Inr \<lparr>cc_process_identity = i, cc_controller_revision = r, cc_offset = k\<rparr>"
    unfolding c_def by (rule parse_cursor [OF assms])
  moreover have "q \<noteq> []" by (simp add: q_def)
  ultimately have route: "parse_console_state_route q =
      Inr (RouteConsoleState (Some \<lparr>cc_process_identity = i, cc_controller_revision = r, cc_offset = k\<rparr>))"
    by (simp add: parse_console_state_route_def)
  have t: "''/v1/state?format=console-v1&cursor='' @ c = ''/v1/state'' @ CHR ''?'' # q" by (simp add: q_def)
  have once: "split_once (CHR ''?'') (''/v1/state'' @ CHR ''?'' # q) = Some (''/v1/state'', q)"
    by (rule split_once_hit) simp
  have path: "map_of path_routes ''/v1/state'' = Some (GetMethod, RouteState)" by (simp add: path_routes_def)
  have "CHR ''?'' \<notin> set q" using c(1) by (simp add: q_def)
  then show ?thesis
    unfolding c_def [symmetric] t route_for_def by (simp only: ok_or_simps bind_ok_simps once option.case prod.case if_False path)
      (simp add: route)
qed

theorem console_cursor_roundtrip_witness:
  "route_for (Some ''GET'') (Some (''/v1/state?format=console-v1&cursor='' @ console_cursor (replicate 64 (CHR ''a'')) 7 48)) =
    Inr (RouteConsoleState (Some \<lparr>cc_process_identity = replicate 64 (CHR ''a''), cc_controller_revision = 7, cc_offset = 48\<rparr>))"
  by (rule console_cursor_roundtrip)
     (simp_all add: str_bytes_def is_lowercase_hex_def is_ascii_lowercase_def list_all_iff)

section \<open>Complete requests\<close>

definition named :: "string \<Rightarrow> (string \<times> bytes) list \<Rightarrow> bytes list" where
  "named name headers = map snd (filter (\<lambda>h. eq_ignore_ascii_case (fst h) name) headers)"

lemma named_simps [simp]:
  "named n [] = []" "named n (h # hs) = (if eq_ignore_ascii_case (fst h) n then [snd h] else []) @ named n hs"
  by (simp_all add: named_def)

lemma names_differ:
  "eq_ignore_ascii_case n ''content-length'' \<Longrightarrow> \<not> eq_ignore_ascii_case n ''host''"
  "eq_ignore_ascii_case n ''content-length'' \<Longrightarrow> \<not> eq_ignore_ascii_case n ''content-type''"
  by (simp_all add: eq_ignore_ascii_case_def ascii_lower_def Let_def)

text \<open>What a run over the headers has established.\<close>

definition framed :: "(string \<times> bytes) list \<Rightarrow> request_framing \<times> nat \<Rightarrow> bool" where
  "framed hs seen \<longleftrightarrow>
     length (named ''host'' hs) = snd seen \<and> named ''transfer-encoding'' hs = []
   \<and> (case rf_content_length (fst seen) of
        None \<Rightarrow> named ''content-length'' hs = []
      | Some n \<Rightarrow> \<exists>v. named ''content-length'' hs = [v] \<and> parse_content_length v = Inr n)
   \<and> named ''content-type'' hs = (case rf_content_type (fst seen) of None \<Rightarrow> [] | Some t \<Rightarrow> [t])"

lemma named_append: "named n (hs @ hs') = named n hs @ named n hs'"
  by (simp add: named_def)

lemma inspect_headerD:
  assumes "inspect_header (name, value) (f, k) = Inr (f', k')"
  shows "k' = k + (if eq_ignore_ascii_case name ''host'' then 1 else 0)"
    and "\<not> eq_ignore_ascii_case name ''transfer-encoding''"
    and "if eq_ignore_ascii_case name ''content-length''
      then rf_content_length f = None \<and> (\<exists>n. parse_content_length value = Inr n \<and> rf_content_length f' = Some n)
      else rf_content_length f' = rf_content_length f"
    and "if eq_ignore_ascii_case name ''content-type''
      then rf_content_type f = None \<and> rf_content_type f' = Some value
      else rf_content_type f' = rf_content_type f"
proof -
  obtain k1 f1 f2 where s:
      "(if eq_ignore_ascii_case name ''host''
        then if is_valid_host (trim_leading_http_whitespace value) then Inr (k + 1) else Inl InvalidHost
        else Inr k) = Inr k1"
      "\<not> eq_ignore_ascii_case name ''transfer-encoding''"
      "(if eq_ignore_ascii_case name ''content-length''
        then if rf_content_length f \<noteq> None then Inl DuplicateContentLength
             else bind_ok (parse_content_length value) (\<lambda>n. Inr (f\<lparr>rf_content_length := Some n\<rparr>))
        else Inr f) = Inr f1"
      "(if eq_ignore_ascii_case name ''content-type''
        then if rf_content_type f1 \<noteq> None then Inl DuplicateContentType
             else Inr (f1\<lparr>rf_content_type := Some value\<rparr>)
        else Inr f1) = Inr f2" "f' = f2" "k' = k1"
    using assms unfolding inspect_header_def Let_def prod.case bind_ok_Inr_iff fail_if_Inr_iff by blast
  show "k' = k + (if eq_ignore_ascii_case name ''host'' then 1 else 0)" using s(1,6) by (simp split: if_splits)
  show "\<not> eq_ignore_ascii_case name ''transfer-encoding''" by (fact s(2))
  have f1: "rf_content_type f1 = rf_content_type f" using s(3) by (auto split: if_splits)
  have f2: "rf_content_length f2 = rf_content_length f1" using s(4) by (auto split: if_splits)
  show "if eq_ignore_ascii_case name ''content-length''
      then rf_content_length f = None \<and> (\<exists>n. parse_content_length value = Inr n \<and> rf_content_length f' = Some n)
      else rf_content_length f' = rf_content_length f"
    using s(3,5) f2 by (auto split: if_splits)
  show "if eq_ignore_ascii_case name ''content-type''
      then rf_content_type f = None \<and> rf_content_type f' = Some value
      else rf_content_type f' = rf_content_type f"
    using s(4,5) f1 by (auto split: if_splits)
qed

lemma inspect_header_framed:
  assumes "inspect_header h seen = Inr seen'" "framed hs seen"
  shows "framed (hs @ [h]) seen'"
proof -
  obtain name val f k f' k' where eq: "h = (name, val)" "seen = (f, k)" "seen' = (f', k')"
    by (metis surj_pair)
  note D = inspect_headerD [OF assms(1) [unfolded eq]]
  note F = assms(2) [unfolded eq framed_def fst_conv snd_conv]
  have "length (named ''host'' (hs @ [h])) = k'" using F D(1) by (simp add: eq named_append)
  moreover have "named ''transfer-encoding'' (hs @ [h]) = []" using F D(2) by (simp add: eq named_append)
  moreover have "case rf_content_length f' of
        None \<Rightarrow> named ''content-length'' (hs @ [h]) = []
      | Some n \<Rightarrow> \<exists>v. named ''content-length'' (hs @ [h]) = [v] \<and> parse_content_length v = Inr n"
    using F D(3) by (cases "eq_ignore_ascii_case name ''content-length''") (auto simp: eq named_append split: option.splits)
  moreover have "named ''content-type'' (hs @ [h]) = (case rf_content_type f' of None \<Rightarrow> [] | Some t \<Rightarrow> [t])"
    using F D(4) by (cases "eq_ignore_ascii_case name ''content-type''") (auto simp: eq named_append)
  ultimately show ?thesis by (simp add: framed_def eq(3))
qed

lemma inspect_all_framed: "inspect_all hs seen = Inr seen' \<Longrightarrow> framed hs0 seen \<Longrightarrow> framed (hs0 @ hs) seen'"
proof (induction hs arbitrary: seen hs0)
  case (Cons h hs)
  then obtain s where s: "inspect_header h seen = Inr s" "inspect_all hs s = Inr seen'" by auto
  from Cons.IH [OF s(2) inspect_header_framed [OF s(1) Cons.prems(2)]] show ?case by simp
qed simp

lemma inspect_headers_framed: "inspect_headers hs = Inr f \<Longrightarrow> framed hs (f, 1)"
proof -
  assume "inspect_headers hs = Inr f"
  then have "inspect_all hs (\<lparr>rf_content_length = None, rf_content_type = None\<rparr>, 0) = Inr (f, 1)"
    by (auto simp: inspect_headers_def split: prod.splits)
  from inspect_all_framed [OF this, of "[]"] show ?thesis by (simp add: framed_def)
qed

text \<open>C32. A request is complete only if nothing about its extent is in doubt: it fits the 8192-byte buffer, is
  HTTP/1.1 with exactly one host header and no transfer encoding, carries at most one content length,
  which is then its body length, has a body only where the route takes one (and must announce it
  there), and ends exactly where the input ends, so no byte of a second request is swallowed.\<close>

theorem complete_request:
  assumes "parse http json input = Complete r"
  shows "\<exists>header_end request route n. http input = HttpComplete header_end request
    \<and> hr_version request = Some 1 \<and> route_for (hr_method request) (hr_path request) = Inr route
    \<and> length input = unat header_end + n \<and> length input \<le> 8192
    \<and> length (named ''host'' (hr_headers request)) = 1 \<and> named ''transfer-encoding'' (hr_headers request) = []
    \<and> (named ''content-length'' (hr_headers request) = [] \<and> n = 0 \<and> \<not> requires_json_body route
       \<or> (\<exists>v m. named ''content-length'' (hr_headers request) = [v] \<and> parse_content_length v = Inr m \<and> n = unat m
            \<and> (requires_json_body route \<or> n = 0)))
    \<and> parse_route json route (drop (unat header_end) input) = Complete r"
proof -
  obtain header_end request where h: "http input = HttpComplete header_end request"
    using assms by (auto simp: parse_def incomplete_or_at_limit_def split: if_splits http_result.splits)
  obtain route m where p: "parse_head request = Inr (route, m)"
    using assms h by (auto simp: parse_def incomplete_or_at_limit_def split: if_splits sum.splits)
  obtain request_end where e: "checked_add header_end m = Some request_end"
    using assms h p by (auto simp: parse_def split: if_splits option.splits)
  have len: "length input = unat header_end + unat m" "length input \<le> 8192"
    and body: "parse_route json route (drop (unat header_end) input) = Complete r"
    using assms h p e checked_add_Some_iff [of header_end m request_end]
    by (auto simp: parse_def incomplete_or_at_limit_def const_defs split: if_splits)
  obtain framing where f: "hr_version request = Some 1" "inspect_headers (hr_headers request) = Inr framing"
      "route_for (hr_method request) (hr_path request) = Inr route" "announced_body route framing = Inr m"
    using p by (auto simp: parse_head_def)
  note fr = inspect_headers_framed [OF f(2)]
  have "named ''content-length'' (hr_headers request) = [] \<and> m = 0 \<and> \<not> requires_json_body route
      \<or> (\<exists>v. named ''content-length'' (hr_headers request) = [v] \<and> parse_content_length v = Inr m
            \<and> (requires_json_body route \<or> m = 0))"
    using fr f(4) by (auto simp: framed_def announced_body_def split: option.splits if_splits)
  then have "named ''content-length'' (hr_headers request) = [] \<and> unat m = 0 \<and> \<not> requires_json_body route
       \<or> (\<exists>v m'. named ''content-length'' (hr_headers request) = [v] \<and> parse_content_length v = Inr m' \<and> unat m = unat m'
            \<and> (requires_json_body route \<or> unat m = 0))"
    by auto
  moreover have "length (named ''host'' (hr_headers request)) = 1 \<and> named ''transfer-encoding'' (hr_headers request) = []"
    using fr by (simp add: framed_def)
  ultimately show ?thesis using h f(1,3) len body by blast
qed

text \<open>A tokenizer that knows one request: a confirmation with a two-byte body after a three-byte head.\<close>

definition sample_request :: http_request where
  "sample_request = \<lparr>hr_method = Some ''POST'', hr_path = Some ''/v1/scenarios/confirm'', hr_version = Some 1,
     hr_headers = [(''Host'', [0x61]), (''Content-Length'', [0x32])]\<rparr>"

definition sample_http :: "bytes \<Rightarrow> http_result" where
  "sample_http input = HttpComplete 3 sample_request"

definition sample_json :: json_decoders where
  "sample_json = \<lparr>decode_prepare = (\<lambda>_. None), decode_clear = (\<lambda>_. None),
     decode_token = (\<lambda>body. if body = [1, 2] then Some \<lparr>tb_token = JsonNumber ''907'', tb_actor_label = None\<rparr> else None)\<rparr>"

lemma sample_head: "parse_head sample_request = Inr (RouteConfirm, 2)"
proof -
  have "inspect_headers (hr_headers sample_request) = Inr \<lparr>rf_content_length = Some 2, rf_content_type = None\<rparr>"
    by (simp add: inspect_headers_def inspect_header_def sample_request_def eq_ignore_ascii_case_def ascii_lower_def
        is_valid_host_def trim_leading_http_whitespace_def is_ascii_whitespace_byte_def is_ascii_control_def
        parse_content_length_def is_ascii_digit_def checked_mul_def checked_add_def char_of_eq_iff)
  moreover have "route_for (hr_method sample_request) (hr_path sample_request) = Inr RouteConfirm"
    by (simp add: route_for_def path_routes_def sample_request_def)
  moreover have "hr_version sample_request = Some 1" by (simp add: sample_request_def)
  ultimately show ?thesis by (simp add: parse_head_def announced_body_def requires_json_body_def const_defs)
qed

lemma sample_token_body: "parse_confirm sample_json [1, 2] = Complete (RequestConfirm \<lparr>cf_token = 907, cf_actor_label = None\<rparr>)"
  by code_simp

theorem complete_request_witness:
  "parse sample_http sample_json [7, 7, 7, 1, 2] = Complete (RequestConfirm \<lparr>cf_token = 907, cf_actor_label = None\<rparr>)
   \<and> named ''transfer-encoding'' (hr_headers sample_request) = []
   \<and> (\<exists>v m. named ''content-length'' (hr_headers sample_request) = [v] \<and> parse_content_length v = Inr m)"
proof -
  have p: "parse sample_http sample_json [7, 7, 7, 1, 2] = Complete (RequestConfirm \<lparr>cf_token = 907, cf_actor_label = None\<rparr>)"
    using sample_head by (simp add: parse_def sample_http_def const_defs checked_add_def sample_token_body)
  have "requires_json_body RouteConfirm" "route_for (hr_method sample_request) (hr_path sample_request) = Inr RouteConfirm"
    using sample_head by (auto simp: parse_head_def requires_json_body_def)
  with complete_request [OF p] p show ?thesis by (auto simp: sample_http_def)
qed

text \<open>A full buffer is never taken for an incomplete request.\<close>

lemma parse_full: "length input = MAX_REQUEST_BYTES \<Longrightarrow> parse http json input \<noteq> ParseIncomplete"
proof -
  assume len: "length input = MAX_REQUEST_BYTES"
  have "parse_route json route body \<noteq> ParseIncomplete" for route body
    by (cases route) (simp_all add: parse_prepare_def parse_confirm_def parse_clear_def parse_cancel_def
        split: option.splits sum.splits)
  then show ?thesis
    using len by (auto simp: parse_def incomplete_or_at_limit_def split: http_result.splits sum.splits option.splits)
qed

section \<open>The bounded writer\<close>

lemma to_writer_bounded:
  assumes "length (bw_body wr) \<le> bw_maximum wr"
  shows "(length (bw_body wr @ concat bs) \<le> bw_maximum wr \<longrightarrow> to_writer (bs, ok) wr = (ok, wr\<lparr>bw_body := bw_body wr @ concat bs\<rparr>))
    \<and> (bw_maximum wr < length (bw_body wr @ concat bs) \<longrightarrow> (\<exists>wr'. to_writer (bs, ok) wr = (False, wr') \<and> bw_exceeded wr'))"
  using assms
proof (induction bs arbitrary: wr)
  case (Cons b bs)
  show ?case
  proof (cases "length (bw_body wr) + length b \<le> bw_maximum wr")
    case True
    then show ?thesis using Cons.IH [of "wr\<lparr>bw_body := bw_body wr @ b\<rparr>"] by (auto simp: bounded_write_def)
  next
    case False
    then have "bw_maximum wr - length (bw_body wr) < length b" using Cons.prems by linarith
    then show ?thesis using False by (simp add: bounded_write_def)
  qed
qed simp

text \<open>C35. JSON responses are bounded: whatever buffers the serializer writes, the response is sent exactly when
  they come to at most 64 KiB in total and serialization succeeds, and then its body is their
  concatenation, announced with its exact length; otherwise the size error or the serializer's
  error is reported and nothing is sent in part.\<close>

theorem json_response_bounded:
  "json_response status (buffers, ok) extra =
     (let limit = (if status = StatusNoContent then 0 else 65536); body = concat buffers
      in if limit < length body
         then Inl (if status = StatusNoContent then NoContentBody 1 else ResponseBodyTooLarge 65537 65536)
         else if \<not> ok then Inl JsonEncodeError
         else Inr (str_bytes (status_line status)
           @ (if status = StatusNoContent then []
              else str_bytes (''Content-Type: '' @ JSON_CONTENT_TYPE @ crlf @ ''Content-Length: '' @ show_nat (length body) @ crlf))
           @ append_static_headers extra @ str_bytes (''Connection: close'' @ crlf @ crlf) @ body))"
proof -
  let ?limit = "if status = StatusNoContent then 0 else 65536 :: nat"
  let ?wr = "\<lparr>bw_body = [], bw_maximum = ?limit, bw_exceeded = False\<rparr>"
  have w: "length (concat buffers) \<le> ?limit \<Longrightarrow> to_writer (buffers, ok) ?wr = (ok, ?wr\<lparr>bw_body := concat buffers\<rparr>)"
    "?limit < length (concat buffers) \<Longrightarrow> \<exists>wr'. to_writer (buffers, ok) ?wr = (False, wr') \<and> bw_exceeded wr'"
    using to_writer_bounded [of ?wr buffers ok] by (simp_all del: length_concat)
  have new: "new_bounded_json_writer (if status = StatusNoContent then 0 else MAX_RESPONSE_BODY_BYTES) = ?wr"
    by (simp add: new_bounded_json_writer_def const_defs)
  show ?thesis
  proof (cases "?limit < length (concat buffers)")
    case True
    from w(2) [OF this] obtain wr' where wr': "to_writer (buffers, ok) ?wr = (False, wr')" "bw_exceeded wr'" by blast
    then have "json_response status (buffers, ok) extra =
        Inl (if status = StatusNoContent then NoContentBody 1 else ResponseBodyTooLarge 65537 65536)"
      unfolding json_response_def Let_def new by (simp add: const_defs)
    with True show ?thesis unfolding Let_def by (simp only: if_True)
  next
    case False
    then have wr': "to_writer (buffers, ok) ?wr = (ok, ?wr\<lparr>bw_body := concat buffers\<rparr>)" using w(1) by linarith
    have r: "json_response status (buffers, ok) extra = (if ok then encode_response status JSON_CONTENT_TYPE (concat buffers) extra
        else Inl JsonEncodeError)"
      unfolding json_response_def Let_def new wr' by (cases ok) simp_all
    show ?thesis
      unfolding r using False by (cases ok; cases "status = StatusNoContent")
        (simp_all add: Let_def encode_response_def const_defs del: length_concat)
  qed
qed

end
