(* ===== verification/Management_Inv.thy ===== *)
theory Management_Inv
  imports Management_Connection Management_Props Endpoint_Inv
begin

text \<open>
  The invariant of the management listener: eight slots, each connection with its buffer within
  bounds, its response not yet sent completely, an identifier given out earlier and the token made
  from it.  Every operation keeps it, ends, does not panic and fails only with an I/O error.
\<close>

section \<open>The invariant\<close>

definition mconnection_wf :: "management_connection \<Rightarrow> bool" where
  "mconnection_wf c \<longleftrightarrow> length (mc_receive c) = MAX_REQUEST_BYTES \<and> mc_received c \<le> MAX_REQUEST_BYTES
     \<and> (\<forall>r. mc_response c = Some r \<longrightarrow> mc_response_offset c < length r)"

definition mheld :: "nat \<Rightarrow> management_connection \<Rightarrow> management_listener \<Rightarrow> bool" where
  "mheld slot c l \<longleftrightarrow> slot < length (ml_connections l) \<and> ml_connections l ! slot = Some c"

definition mlistener_inv :: "management_listener \<Rightarrow> u64 \<Rightarrow> bool" where
  "mlistener_inv l next \<longleftrightarrow> length (ml_connections l) = 8 \<and> next \<noteq> 0
     \<and> (\<forall>slot c. mheld slot c l \<longrightarrow> mconnection_wf c \<and> 0 < mc_connection_id c \<and> mc_connection_id c < next
          \<and> management_connection_token (of_nat slot) (mc_connection_id c) = Inr (mc_token c))"

abbreviation mctx_inv :: "'w mctx \<Rightarrow> bool" where
  "mctx_inv s \<equiv> mlistener_inv (mx_listener s) (mx_next_connection_id s)"

abbreviation mholds :: "nat \<Rightarrow> management_connection \<Rightarrow> 'w mctx \<Rightarrow> bool" where
  "mholds slot c s \<equiv> mheld slot c (mx_listener s)"

lemma mheld_update:
  "mheld k x (l\<lparr>ml_connections := (ml_connections l)[slot := y]\<rparr>) \<longleftrightarrow>
     (if k = slot then slot < length (ml_connections l) \<and> y = Some x else mheld k x l)"
  by (auto simp: mheld_def)

lemma mheld_counter [simp]: "mheld k x (ml_rejected_connections_update f l) = mheld k x l"
  by (simp add: mheld_def)

lemma mlistener_inv_counter [simp]: "mlistener_inv (ml_rejected_connections_update f l) n = mlistener_inv l n"
  by (simp add: mlistener_inv_def)

definition same_mconnection :: "management_connection \<Rightarrow> management_connection \<Rightarrow> bool" where
  "same_mconnection c c' \<longleftrightarrow> mc_connection_id c' = mc_connection_id c \<and> mc_token c' = mc_token c \<and> mc_stream c' = mc_stream c"

lemma mlistener_inv_update:
  assumes "mlistener_inv l n" "mheld slot c l" "mconnection_wf c'" "same_mconnection c c'"
  shows "mlistener_inv (l\<lparr>ml_connections := (ml_connections l)[slot := Some c']\<rparr>) n"
  using assms by (auto simp: mlistener_inv_def mheld_update same_mconnection_def)

lemma mlistener_inv_close:
  "mlistener_inv l n \<Longrightarrow> mlistener_inv (l\<lparr>ml_connections := (ml_connections l)[slot := None]\<rparr>) n"
  by (auto simp: mlistener_inv_def mheld_update)

section \<open>Weakest preconditions of the primitives\<close>

lemma wp_mx_world [wp_simps]:
  "wp (mx_world_op f) Q E = (\<lambda>s. case f (mx_world s) of (x, w) \<Rightarrow> Q x (s\<lparr>mx_world := w\<rparr>))"
  by (simp add: wp_def mx_world_op_def fun_eq_iff split: prod.splits)

lemma wp_get_mslot:
  "wp (get_mslot slot) Q E = (\<lambda>s. slot < length (ml_connections (mx_listener s)) \<and> Q (ml_connections (mx_listener s) ! slot) s)"
  by (auto simp: get_mslot_def wp_simps fun_eq_iff)

lemma wp_get_mconnection: "wp (get_mconnection slot) Q E = (\<lambda>s. \<exists>c. mholds slot c s \<and> Q c s)"
  by (auto simp: get_mconnection_def wp_get_mslot wp_simps mheld_def fun_eq_iff)

lemma wp_set_mslot [wp_simps]:
  "wp (set_mslot slot x) Q E = (\<lambda>s. Q () (s\<lparr>mx_listener := (mx_listener s)\<lparr>ml_connections := (ml_connections (mx_listener s))[slot := x]\<rparr>\<rparr>))"
  by (simp add: set_mslot_def)

section \<open>Accepting\<close>

text \<open>Accepting leaves the connections that are there alone and may add new ones.\<close>

definition madmits :: "'w mctx \<Rightarrow> 'w mctx \<Rightarrow> bool" where
  "madmits s t \<longleftrightarrow> mctx_inv t \<and> mx_next_connection_id s \<le> mx_next_connection_id t
     \<and> (\<forall>slot c. mholds slot c s \<longrightarrow> mholds slot c t)
     \<and> (\<forall>slot c. mholds slot c t \<longrightarrow> mholds slot c s \<or> mx_next_connection_id s \<le> mc_connection_id c)"

lemma madmits_trans: "madmits s t \<Longrightarrow> madmits t u \<Longrightarrow> madmits s u"
  unfolding madmits_def by (meson order_trans)

lemma wp_reject_management:
  "mctx_inv s \<Longrightarrow> madmits s0 s \<Longrightarrow> wp (reject_management os stream) (\<lambda>_. madmits s0) E s"
  by (simp add: reject_management_def wp_simps madmits_def)

lemma find_free_management_Some:
  "find_free_management cs = Some slot \<Longrightarrow> slot < length cs \<and> cs ! slot = None"
  by (auto simp: find_free_management_def find_Some_iff)

lemma madmits_new:
  assumes inv: "mctx_inv s" and slot: "find_free_management (ml_connections (mx_listener s)) = Some slot"
    and next_id: "checked_add (mx_next_connection_id s) 1 = Some next_id"
    and token: "management_connection_token (of_nat slot) (mx_next_connection_id s) = Inr token"
    and t: "mx_next_connection_id t = next_id"
      "mx_listener t = (mx_listener s)\<lparr>ml_connections := (ml_connections (mx_listener s))[slot :=
         Some (new_management_connection (mx_next_connection_id s) token stream)]\<rparr>"
  shows "madmits s t"
proof -
  let ?c = "new_management_connection (mx_next_connection_id s) token stream"
  note free = find_free_management_Some [OF slot]
  have nx: "unat next_id = unat (mx_next_connection_id s) + 1" using next_id by (simp add: checked_add_Some_iff)
  have nz: "next_id \<noteq> 0" using nx by (metis Suc_eq_plus1 nat.distinct(1) unsigned_0)
  have lt: "mx_next_connection_id s < next_id" using nx by (simp add: word_less_nat_alt)
  have c: "mc_connection_id ?c = mx_next_connection_id s" "mc_token ?c = token" "mconnection_wf ?c"
    by (simp_all add: new_management_connection_def mconnection_wf_def)
  have pos: "0 < mx_next_connection_id s" using inv by (simp add: mlistener_inv_def word_neq_0_conv)
  have h: "mholds k x t \<longleftrightarrow> (if k = slot then x = ?c else mholds k x s)" for k x
    using free by (auto simp: t mheld_update)
  have none: "\<not> mholds slot x s" for x using free by (simp add: mheld_def)
  have old: "mconnection_wf x \<and> 0 < mc_connection_id x \<and> mc_connection_id x < next_id
      \<and> management_connection_token (of_nat k) (mc_connection_id x) = Inr (mc_token x)" if "mholds k x s" for k x
  proof -
    have x: "mconnection_wf x \<and> 0 < mc_connection_id x \<and> mc_connection_id x < mx_next_connection_id s
      \<and> management_connection_token (of_nat k) (mc_connection_id x) = Inr (mc_token x)"
      using that inv unfolding mlistener_inv_def by blast
    then have "mc_connection_id x < next_id" using order_less_trans lt by blast
    with x show ?thesis by simp
  qed
  have "mctx_inv t"
    unfolding mlistener_inv_def using h old c lt nz pos token inv
    by (auto simp: t(1) mlistener_inv_def) (simp add: t(2))
  then show ?thesis
    unfolding madmits_def using h none c lt by (auto simp: t(1))
qed

lemma wp_accept_management_round:
  assumes "mctx_inv s"
  shows "wp (accept_management_round os) (\<lambda>_. madmits s) environment_error s"
proof -
  have world: "madmits s (s\<lparr>mx_world := w\<rparr>)" for w using assms by (simp add: madmits_def)
  have new: "madmits s t"
    if "find_free_management (ml_connections (mx_listener s)) = Some slot"
      "checked_add (mx_next_connection_id s) 1 = Some next_id"
      "management_connection_token (of_nat slot) (mx_next_connection_id s) = Inr token"
      "mx_next_connection_id t = next_id"
      "mx_listener t = (mx_listener s)\<lparr>ml_connections := (ml_connections (mx_listener s))[slot :=
         Some (new_management_connection (mx_next_connection_id s) token stream)]\<rparr>"
    for slot next_id token t stream by (rule madmits_new [OF assms that])
  show ?thesis
    using world assms
    by (auto simp: accept_management_round_def wp_simps split: prod.splits io.splits option.splits sum.splits
        intro: new wp_reject_management)
qed

lemma wp_accept_management_connections:
  assumes "mctx_inv s"
  shows "wp (accept_management_connections os) (\<lambda>_. madmits s) environment_error s"
  unfolding accept_management_connections_def
proof (rule wp_for_upto)
  show "madmits s s" using assms by (simp add: madmits_def)
  fix t assume t: "madmits s t"
  then have "mctx_inv t" by (simp add: madmits_def)
  from wp_accept_management_round [OF this] show "wp (accept_management_round os) (\<lambda>_. madmits s) environment_error t"
    by (rule wp_mono) (rule madmits_trans [OF t])
qed

section \<open>Reading\<close>

lemma empty_response_Some: "empty_response status \<noteq> None"
  by (simp add: empty_response_def encode_response_def split: sum.splits)

lemma encoded_nonempty: "encode_response status content_type body extra = Inr r \<Longrightarrow> r \<noteq> []"
  by (auto simp: encode_response_def str_bytes_def crlf_def split: if_splits)

text \<open>There is always a response, and it is never empty.\<close>

lemma response_or_internal:
  assumes "\<And>r. response = Inr r \<Longrightarrow> r \<noteq> []"
  obtains r where "management_response_or_internal error_json response = Some r" "r \<noteq> []"
proof -
  have json: "json_error error_json status code message = Inr r \<Longrightarrow> r \<noteq> []" for status code message r
    by (auto simp: json_error_def json_response_def Let_def dest: encoded_nonempty split: prod.splits bool.splits if_splits)
  obtain e where e: "empty_response StatusInternalServerError = Some e" using empty_response_Some by blast
  then have "e \<noteq> []" by (auto simp: empty_response_def dest: encoded_nonempty split: sum.splits)
  then show thesis
    using assms json e that
    by (cases response; cases "json_error error_json StatusInternalServerError ''response_encoding_failed''
        ''management response encoding failed''")
       (fastforce simp: management_response_or_internal_def)+
qed

lemma json_response_nonempty: "json_response status output extra = Inr r \<Longrightarrow> r \<noteq> []"
  by (auto simp: json_response_def Let_def dest: encoded_nonempty split: prod.splits bool.splits if_splits)

definition result_wf :: "management_read_result \<Rightarrow> bool" where
  "result_wf r = (case r of ReadResponse bs \<Rightarrow> bs \<noteq> [] | _ \<Rightarrow> True)"

lemma read_outcome_total:
  obtains r where "read_outcome ex peer_closed input = Some r" "result_wf r"
proof -
  have bad: "\<exists>r. management_response_or_internal (ex_error ex) (parse_error_response (ex_error ex) e) = Some r \<and> r \<noteq> []" for e
    by (rule response_or_internal [of "parse_error_response (ex_error ex) e" "ex_error ex"])
       (auto simp: parse_error_response_def dest: json_response_nonempty)
  show thesis
  proof (cases "parse (ex_http ex) (ex_json ex) input")
    case (Complete request)
    then show thesis by (intro that [of "ReadRequest request"]) (simp_all add: read_outcome_def result_wf_def)
  next
    case ParseIncomplete
    obtain r where "management_response_or_internal (ex_error ex) (parse_error_response (ex_error ex) MalformedRequest) = Some r" "r \<noteq> []"
      using bad by blast
    then show thesis
      using ParseIncomplete that [of "if peer_closed then ReadResponse r else ReadIncomplete"]
      by (simp add: read_outcome_def result_wf_def split: if_splits)
  next
    case (ParseFailed e)
    obtain r where "management_response_or_internal (ex_error ex) (parse_error_response (ex_error ex) e) = Some r" "r \<noteq> []"
      using bad by blast
    then show thesis
      using ParseFailed by (intro that [of "ReadResponse r"]) (simp_all add: read_outcome_def result_wf_def)
  qed
qed

text \<open>
  Reading: only the buffer of the connection changes, and the result is what the parser says of the
  bytes received so far.
\<close>

definition received_more :: "management_connection \<Rightarrow> management_connection \<Rightarrow> bool" where
  "received_more c c' \<longleftrightarrow> (\<exists>bs n. c' = c\<lparr>mc_receive := bs, mc_received := n\<rparr> \<and> length bs = MAX_REQUEST_BYTES \<and> n \<le> MAX_REQUEST_BYTES
     \<and> mc_received c \<le> n \<and> take (mc_received c) bs = take (mc_received c) (mc_receive c))"

lemma received_more_refl: "mconnection_wf c \<Longrightarrow> received_more c c"
  by (auto simp: received_more_def mconnection_wf_def intro!: exI [of _ "mc_receive c"] exI [of _ "mc_received c"])

lemma received_more_wf: "received_more c c' \<Longrightarrow> mconnection_wf c \<Longrightarrow> mconnection_wf c' \<and> same_mconnection c c'
    \<and> mc_response c' = mc_response c"
  by (auto simp: received_more_def mconnection_wf_def same_mconnection_def)

lemma wp_read_management_loop:
  fixes w :: 'w
  assumes io: "io_bounded os" and wf: "mconnection_wf c"
  shows "wp (loop_p (read_management_round os))
     (\<lambda>r (c', w'). received_more c c' \<and> (r = Inr True \<longrightarrow> mc_received c' < MAX_REQUEST_BYTES)) E (c, w)"
proof (rule wp_loop [where I = "\<lambda>(c', w'). received_more c c'" and m = "\<lambda>(c', w'). MAX_REQUEST_BYTES - mc_received c'"])
  show "case (c, w) of (c', w') \<Rightarrow> received_more c c'" using received_more_refl [OF wf] by simp
next
  fix t :: "management_connection \<times> 'w"
  assume t: "case t of (c', w') \<Rightarrow> received_more c c'"
  obtain c1 w1 where eq: "t = (c1, w1)" by force
  have r: "received_more c c1" using t eq by simp
  then obtain bs n where c1: "c1 = c\<lparr>mc_receive := bs, mc_received := n\<rparr>" "length bs = MAX_REQUEST_BYTES" "n \<le> MAX_REQUEST_BYTES"
      "mc_received c \<le> n" "take (mc_received c) bs = take (mc_received c) (mc_receive c)"
    by (auto simp: received_more_def)
  have step: "received_more c (c1\<lparr>mc_receive := write_at n data bs, mc_received := n + length data\<rparr>)"
    if "n + length data \<le> MAX_REQUEST_BYTES" for data
    unfolding received_more_def
    by (rule exI [of _ "write_at n data bs"], rule exI [of _ "n + length data"])
       (use that c1 in \<open>auto simp: write_at_def min_def\<close>)
  obtain r w2 where rd: "os_read os (mc_stream c) (MAX_REQUEST_BYTES - n) w1 = (r, w2)" by force
  have le: "n + length data \<le> MAX_REQUEST_BYTES" if "r = Done data" for data
    using io_bounded_read [OF io, of "mc_stream c"] rd that c1(3) by fastforce
  have less: "MAX_REQUEST_BYTES - (n + length data) < MAX_REQUEST_BYTES - n"
    if "data \<noteq> []" "n + length data \<le> MAX_REQUEST_BYTES" for data :: bytes
    using that by (cases data) auto
  show "wp (read_management_round os) (\<lambda>x u. case x of
        None \<Rightarrow> (case u of (c', w') \<Rightarrow> received_more c c')
          \<and> (case u of (c', w') \<Rightarrow> MAX_REQUEST_BYTES - mc_received c') < (case t of (c', w') \<Rightarrow> MAX_REQUEST_BYTES - mc_received c')
      | Some y \<Rightarrow> (case u of (c', w') \<Rightarrow> received_more c c' \<and> (y = Inr True \<longrightarrow> mc_received c' < MAX_REQUEST_BYTES))) E t"
    using c1(2,3) rd le step r less
    by (cases r) (auto simp: eq wp_def read_management_round_def c1(1))
qed

lemma wp_read_management_connection:
  fixes w :: 'w
  assumes io: "io_bounded os" and wf: "mconnection_wf c"
  shows "wp (read_management_connection os ex)
     (\<lambda>r (c', w'). received_more c c' \<and> (case r of Inl _ \<Rightarrow> True | Inr res \<Rightarrow> result_wf res
        \<and> (res = ReadIncomplete \<longrightarrow> mc_received c' < MAX_REQUEST_BYTES))) E (c, w)"
proof -
  have after: "wp (case r of Inl e \<Rightarrow> ret (Inl e) | Inr peer_closed \<Rightarrow>
           bind_p (gets fst) (\<lambda>c.
           if mc_received c = 0 \<and> peer_closed then ret (Inr ReadClosed)
           else bind_p (expect (if mc_received c \<le> length (mc_receive c)
                                then read_outcome ex peer_closed (take (mc_received c) (mc_receive c)) else None)) (\<lambda>result.
                ret (Inr result))))
     (\<lambda>r (c', w'). received_more c c' \<and> (case r of Inl _ \<Rightarrow> True | Inr res \<Rightarrow> result_wf res
        \<and> (res = ReadIncomplete \<longrightarrow> mc_received c' < MAX_REQUEST_BYTES))) E t"
    if t: "case t of (c', w') \<Rightarrow> received_more c c' \<and> (r = Inr True \<longrightarrow> mc_received c' < MAX_REQUEST_BYTES)"
    for r :: "string + bool" and t :: "management_connection \<times> 'w"
  proof -
    obtain c1 w1 where eq: "t = (c1, w1)" by force
    have m: "received_more c c1" using t eq by simp
    have wf1: "length (mc_receive c1) = MAX_REQUEST_BYTES" "mc_received c1 \<le> MAX_REQUEST_BYTES"
      using received_more_wf [OF m wf] by (simp_all add: mconnection_wf_def)
    show ?thesis
    proof (cases r)
      case (Inr b)
      obtain res where res: "read_outcome ex b (take (mc_received c1) (mc_receive c1)) = Some res" "result_wf res"
        by (rule read_outcome_total)
      have "mc_received c1 \<noteq> MAX_REQUEST_BYTES" if "res = ReadIncomplete"
      proof
        assume full: "mc_received c1 = MAX_REQUEST_BYTES"
        have "parse (ex_http ex) (ex_json ex) (take (mc_received c1) (mc_receive c1)) \<noteq> ParseIncomplete"
          by (rule parse_full) (use full wf1 in simp)
        then show False using res(1) that
          by (auto simp: read_outcome_def split: parse_outcome.splits)
      qed
      then show ?thesis using Inr res m wf1 eq by (auto simp: wp_simps result_wf_def)
    qed (use m eq in simp)
  qed
  have "wp (loop_p (read_management_round os))
     (\<lambda>r. wp (case r of Inl e \<Rightarrow> ret (Inl e) | Inr peer_closed \<Rightarrow>
           bind_p (gets fst) (\<lambda>c.
           if mc_received c = 0 \<and> peer_closed then ret (Inr ReadClosed)
           else bind_p (expect (if mc_received c \<le> length (mc_receive c)
                                then read_outcome ex peer_closed (take (mc_received c) (mc_receive c)) else None)) (\<lambda>result.
                ret (Inr result))))
     (\<lambda>r (c', w'). received_more c c' \<and> (case r of Inl _ \<Rightarrow> True | Inr res \<Rightarrow> result_wf res
        \<and> (res = ReadIncomplete \<longrightarrow> mc_received c' < MAX_REQUEST_BYTES))) E) E (c, w)"
    by (rule wp_mono [OF wp_read_management_loop [OF io wf]]) (rule after)
  then show ?thesis unfolding read_management_connection_def by (simp only: wp_bind)
qed

section \<open>Responses\<close>

text \<open>From \<open>s\<close> to \<open>t\<close> only the connection in the slot changed, from \<open>c\<close> to \<open>c'\<close>.\<close>

definition mupdated :: "nat \<Rightarrow> 'w mctx \<Rightarrow> management_connection \<Rightarrow> 'w mctx \<Rightarrow> bool" where
  "mupdated slot s c' t \<longleftrightarrow>
     mx_listener t = (mx_listener s)\<lparr>ml_connections := (ml_connections (mx_listener s))[slot := Some c']\<rparr>
   \<and> mx_next_connection_id t = mx_next_connection_id s"

lemma mheld_same: "mheld slot c l \<Longrightarrow> l\<lparr>ml_connections := (ml_connections l)[slot := Some c]\<rparr> = l"
  by (simp add: mheld_def list_update_same_conv)

lemma mupdated_refl: "mholds slot c s \<Longrightarrow> mupdated slot s c (s\<lparr>mx_world := w\<rparr>)"
  by (simp add: mupdated_def mheld_same)

lemma mupdated_inv:
  assumes "mupdated slot s c' t" "mctx_inv s" "mholds slot c s" "mconnection_wf c'" "same_mconnection c c'"
  shows "mctx_inv t"
  using assms mlistener_inv_update by (simp add: mupdated_def)

lemma mupdated_holds: "mupdated slot s c' t \<Longrightarrow> mholds slot c s \<Longrightarrow> mholds slot c' t"
  by (simp add: mupdated_def mheld_def)

lemma wp_queue_management_response:
  assumes "mholds slot c s"
  shows "wp (queue_management_response os slot c response)
     (\<lambda>_. mupdated slot s (c\<lparr>mc_response := Some response, mc_response_offset := 0\<rparr>)) environment_error s"
  by (auto simp: queue_management_response_def Let_def wp_simps mupdated_def split: prod.splits io.splits)

text \<open>The bytes of the response that are still to be sent.\<close>

definition remaining_response :: "management_connection \<Rightarrow> bytes" where
  "remaining_response c = (case mc_response c of None \<Rightarrow> [] | Some r \<Rightarrow> drop (mc_response_offset c) r)"

text \<open>
  A flush offers the next chunk of the response to the socket, once.  It reports that there is more
  to do only if the socket took part of the chunk or none, and then the rest is what is left to send.
\<close>

lemma wp_flush_management_connection:
  assumes io: "io_bounded os" and h: "mholds slot c s" and wf: "mconnection_wf c"
  defines "chunk \<equiv> take MANAGEMENT_WRITE_CHUNK_BYTES (remaining_response c)"
  shows "wp (flush_management_connection os slot)
     (\<lambda>r t. \<exists>c' k. mupdated slot s c' t \<and> same_mconnection c c' \<and> mc_response c' = mc_response c
        \<and> mc_receive c' = mc_receive c \<and> mc_received c' = mc_received c
        \<and> remaining_response c' = drop k (remaining_response c)
        \<and> (mc_response c = None \<longrightarrow> k = 0) \<and> (mc_response c \<noteq> None \<longrightarrow> (let (res, _) = os_write os (mc_stream c) chunk (mx_world s)
            in k = (case res of Done n \<Rightarrow> n | _ \<Rightarrow> 0)))
        \<and> (r = Inr True \<longrightarrow> mconnection_wf c' \<and> remaining_response c' \<noteq> [])) environment_error s"
proof (cases "mc_response c")
  case None
  have "mupdated slot s c s" using mupdated_refl [OF h, of "mx_world s"] by simp
  then show ?thesis
    using None h by (auto simp: flush_management_connection_def wp_get_mconnection same_mconnection_def mheld_def
        intro!: exI [of _ c] exI [of _ "0 :: nat"])
next
  case (Some response)
  let ?off = "mc_response_offset c"
  have off: "?off < length response" using wf Some by (simp add: mconnection_wf_def)
  have slice: "drop ?off (take (min (length response) (?off + MANAGEMENT_WRITE_CHUNK_BYTES)) response) = chunk"
    by (simp add: chunk_def remaining_response_def Some drop_take min_def)
  have rem: "remaining_response c = drop ?off response" by (simp add: remaining_response_def Some)
  obtain res w where wr: "os_write os (mc_stream c) chunk (mx_world s) = (res, w)" by force
  have only: "mholds slot x s \<Longrightarrow> x = c" for x using h by (simp add: mheld_def)
  define Q where "Q = (\<lambda>(r :: string + bool) t. \<exists>c' k. mupdated slot s c' t \<and> same_mconnection c c' \<and> mc_response c' = mc_response c
        \<and> mc_receive c' = mc_receive c \<and> mc_received c' = mc_received c
        \<and> remaining_response c' = drop k (remaining_response c)
        \<and> k = (case res of Done n \<Rightarrow> n | _ \<Rightarrow> 0)
        \<and> (r = Inr True \<longrightarrow> mconnection_wf c' \<and> remaining_response c' \<noteq> []))"
  have stay: "Q r (s\<lparr>mx_world := w'\<rparr>)" if "res = Done 0 \<or> (\<forall>n. res \<noteq> Done n)" for r w'
    using mupdated_refl [OF h, of w'] that wf off rem
    by (auto simp: Q_def same_mconnection_def split: io.splits intro!: exI [of _ c])
  have moved: "Q r t"
    if n: "res = Done n" and t: "mx_listener t = (mx_listener s)\<lparr>ml_connections := (ml_connections (mx_listener s))[slot :=
        Some (c\<lparr>mc_response_offset := ?off + n\<rparr>)]\<rparr>" "mx_next_connection_id t = mx_next_connection_id s"
      and more: "?off + n \<noteq> length response \<or> r \<noteq> Inr True" for r t n
  proof -
    have "n \<le> length chunk" using io_bounded_write [OF io, of "mc_stream c"] wr n by metis
    then have "n \<le> length response - ?off" by (simp add: chunk_def rem)
    then have le: "?off + n \<le> length response" using off by linarith
    let ?c = "c\<lparr>mc_response_offset := ?off + n\<rparr>"
    have "remaining_response ?c = drop n (remaining_response c)" by (simp add: remaining_response_def Some add.commute)
    moreover have "mconnection_wf ?c \<and> remaining_response ?c \<noteq> []" if "r = Inr True"
      using wf that more le Some by (simp add: mconnection_wf_def remaining_response_def)
    ultimately show ?thesis
      using n t unfolding Q_def by (intro exI [of _ ?c] exI [of _ n]) (simp add: mupdated_def same_mconnection_def)
  qed
  define reregister where "reregister = bind_p (mx_world_op (os_reregister os (mc_stream c) (mc_token c) WRITABLE)) (\<lambda>r. case r of
      Done _ \<Rightarrow> ret (Inr True :: string + bool) | WouldBlock \<Rightarrow> ret (Inl ''would block'') | Failed m \<Rightarrow> ret (Inl m))"
  have rereg: "wp reregister Q environment_error u" if "\<And>r w'. Q r (u\<lparr>mx_world := w'\<rparr>)" for u
    unfolding reregister_def using that by (auto simp: wp_simps split: prod.splits io.splits)
  have flush: "wp (flush_management_connection os slot) Q environment_error s =
      wp (case res of
            Done written \<Rightarrow>
              if written = 0 then ret (Inr False)
              else bind_p (set_mslot slot (Some (c\<lparr>mc_response_offset := ?off + written\<rparr>))) (\<lambda>_.
                   if ?off + written = length response then ret (Inr False) else reregister)
          | WouldBlock \<Rightarrow> reregister
          | Failed _ \<Rightarrow> ret (Inr False)) Q environment_error (s\<lparr>mx_world := w\<rparr>)"
  proof -
    have "\<not> min (length response) (?off + MANAGEMENT_WRITE_CHUNK_BYTES) < ?off" using off by simp
    moreover have "(\<exists>x. mholds slot x s \<and> P x) = P c" for P using h only by blast
    ultimately show ?thesis
      using Some wr
      by (cases res) (simp_all add: flush_management_connection_def wp_get_mconnection Let_def slice wp_mx_world reregister_def [symmetric])
  qed
  have "wp (flush_management_connection os slot) Q environment_error s"
    unfolding flush
  proof (cases res)
    case (Done n)
    then show "wp (case res of
            Done written \<Rightarrow>
              if written = 0 then ret (Inr False)
              else bind_p (set_mslot slot (Some (c\<lparr>mc_response_offset := ?off + written\<rparr>))) (\<lambda>_.
                   if ?off + written = length response then ret (Inr False) else reregister)
          | WouldBlock \<Rightarrow> reregister
          | Failed _ \<Rightarrow> ret (Inr False)) Q environment_error (s\<lparr>mx_world := w\<rparr>)"
      using stay [of "Inr False" w]
      by (auto simp: wp_set_mslot intro!: rereg moved [OF Done])
  qed (use stay in \<open>auto intro!: rereg\<close>)
  then show ?thesis unfolding Q_def using Some wr by simp
qed

lemma wp_close_management_connection:
  assumes "mctx_inv s" "slot < 8"
  shows "wp (close_management_connection os slot i)
     (\<lambda>_ t. mctx_inv t \<and> mx_next_connection_id t = mx_next_connection_id s
        \<and> (\<forall>k c. mholds k c t \<longleftrightarrow> mholds k c s \<and> \<not> (k = slot \<and> mc_connection_id c = i))) environment_error s"
  using assms mlistener_inv_close [OF assms(1)]
  by (auto simp: close_management_connection_def wp_get_mslot wp_simps mheld_update split: prod.splits io.splits option.splits)
     (auto simp: mlistener_inv_def mheld_def)

end
