(* ===== verification/Scenario_Inv.thy ===== *)
theory Scenario_Inv
  imports Scenario
begin

text \<open>
  Correctness of the scenario catalog and controller: the invariant of the controller and its
  preservation by every operation, absence of panics, single use of tokens, the meaning of the
  revision counter, and the window of boundaries in which a scenario takes effect.
\<close>

section \<open>Compiled catalogs\<close>

definition scenario_wf :: "scenario_definition \<Rightarrow> bool" where
  "scenario_wf s =
     (is_ok (validate_name (sd_name s))
      \<and> (case duration_frames s of None \<Rightarrow> sd_lifecycle s = Sustained | Some n \<Rightarrow> sd_lifecycle s = Transient \<and> 0 < n)
      \<and> (sd_kind s = SignalExcursion \<longleftrightarrow> sd_signal s \<noteq> None))"

definition catalog_wf :: "scenario_catalog \<Rightarrow> bool" where
  "catalog_wf cat =
     (list_all scenario_wf (sc_scenarios cat) \<and> distinct (map sd_name (sc_scenarios cat))
      \<and> sc_scenarios cat \<noteq> [] \<and> length (sc_scenarios cat) \<le> MAX_SCENARIO_CATALOG_ENTRIES)"

lemma compile_scenario_Inr:
  assumes "compile_scenario raw = Inr s" and "is_ok (validate_name (raw_name raw))"
  shows "scenario_wf s" "sd_name s = raw_name raw"
  using assms
  by (auto simp: compile_scenario_def Let_def scenario_wf_def compile_duration_def compile_signal_for_def
      split: scenario_lifecycle.splits option.splits if_splits)

lemma compile_scenarios_Inr:
  assumes "compile_scenarios acc raws = Inr out"
    and "list_all scenario_wf acc" and "distinct (map sd_name acc)"
  shows "list_all scenario_wf out \<and> distinct (map sd_name out) \<and> length out = length acc + length raws"
  using assms
proof (induction acc raws rule: compile_scenarios.induct)
  case (2 acc raw rest)
  then obtain s where s: "compile_scenario raw = Inr s" "validate_name (raw_name raw) = Inr ()"
    "\<not> list_ex (\<lambda>s. sd_name s = raw_name raw) acc" "compile_scenarios (acc @ [s]) rest = Inr out"
    by auto
  then have "scenario_wf s" "sd_name s = raw_name raw"
    using compile_scenario_Inr [OF s(1)] by simp_all
  with 2 s show ?case
    by (simp add: list_ex_iff image_iff) metis
qed simp

lemma compile_catalog_wf: "compile_catalog raw = Inr cat \<Longrightarrow> catalog_wf cat"
  using compile_scenarios_Inr [of "[]" "raw_scenarios raw"]
  by (auto simp: compile_catalog_def catalog_wf_def)

lemma catalog_scenario_Some:
  "catalog_scenario cat name = Some s \<Longrightarrow> s \<in> set (sc_scenarios cat) \<and> sd_name s = name"
  by (auto simp: catalog_scenario_def find_Some_iff)

section \<open>The invariant\<close>

interpretation ri: reverse_index pa_target .

definition admissible ::
    "scenario_catalog \<Rightarrow> (scenario_target, active_action) btree \<Rightarrow> scenario_target \<Rightarrow> stored_action \<Rightarrow> bool" where
  "admissible cat act t action =
     (target_stream_id t \<noteq> 0 \<and>
      (case action of
         Activate s \<Rightarrow> s \<in> set (sc_scenarios cat) \<and> compatible (sd_kind s) t \<and> btree_lookup act t = None
       | Clear \<Rightarrow> (case btree_lookup act t of None \<Rightarrow> False | Some a \<Rightarrow> sd_lifecycle (aa_scenario a) = Sustained)))"

definition active_ok ::
    "scenario_catalog \<Rightarrow> u64 option \<Rightarrow> scenario_target \<Rightarrow> active_action \<Rightarrow> bool" where
  "active_ok cat current t a =
     (target_stream_id t \<noteq> 0
      \<and> aa_scenario a \<in> set (sc_scenarios cat) \<and> compatible (sd_kind (aa_scenario a)) t
      \<and> (case current of
           None \<Rightarrow> False
         | Some i \<Rightarrow> first_eligible_boundary a \<le> i
             \<and> (sd_lifecycle (aa_scenario a) = Transient \<longrightarrow> is_expired_at a i = Some False)))"

definition tracked :: "controller \<Rightarrow> scenario_target set" where
  "tracked c = dom (btree_lookup (active c)) \<union> dom (btree_lookup (pending c)) \<union> dom (btree_lookup (prepared_targets c))"

definition ctl_inv :: "controller \<Rightarrow> bool" where
  "ctl_inv c \<longleftrightarrow>
     catalog_wf (catalog c) \<and> 0 < next_token c
     \<and> ri.agree (prepared c) (prepared_targets c)
     \<and> (\<forall>k p. btree_lookup (prepared c) k = Some p \<longrightarrow>
          k \<noteq> 0 \<and> k < next_token c \<and> btree_lookup (pending c) (pa_target p) = None
          \<and> admissible (catalog c) (active c) (pa_target p) (pa_action p))
     \<and> (\<forall>t p. btree_lookup (pending c) t = Some p \<longrightarrow> admissible (catalog c) (active c) t (pd_action p))
     \<and> (\<forall>t a. btree_lookup (active c) t = Some a \<longrightarrow> active_ok (catalog c) (current_sample_index c) t a)
     \<and> card (tracked c) \<le> MAX_SCENARIO_TARGETS"

lemma finite_tracked: "finite (tracked c)"
  by (simp add: tracked_def bt.finite_dom)

lemma tracked_target_count_eq: "tracked_target_count c = card (tracked c)"
  by (simp add: tracked_target_count_def tracked_def bt.dom_entries Un_assoc)

lemma tracks_target_iff: "tracks_target c t \<longleftrightarrow> t \<in> tracked c"
  by (auto simp: tracks_target_def tracked_def contains_key_def)

lemma new_controller_inv: "catalog_wf cat \<Longrightarrow> ctl_inv (new_controller cat)"
  by (simp add: ctl_inv_def new_controller_def ri.agree_empty tracked_def dom_def)

lemma bump_revision_Some:
  assumes "bump_revision c = Some c'"
  obtains r where "c' = c\<lparr>revision := r\<rparr>" "unat r = unat (revision c) + 1"
  using assms by (auto simp: bump_revision_def checked_add_Some_iff bind_eq_Some_conv)

lemma ctl_inv_revision [simp]: "ctl_inv (c\<lparr>revision := r\<rparr>) = ctl_inv c"
  by (simp add: ctl_inv_def tracked_def)

lemma drop_prepared_inv:
  assumes "ctl_inv c" and "btree_lookup (prepared c) k = Some p"
  shows "ctl_inv (drop_prepared k p c)"
proof -
  have "tracked (drop_prepared k p c) \<subseteq> tracked c"
    by (auto simp: tracked_def drop_prepared_def)
  then have "card (tracked (drop_prepared k p c)) \<le> card (tracked c)"
    by (rule card_mono [OF finite_tracked])
  moreover have "ri.agree (prepared (drop_prepared k p c)) (prepared_targets (drop_prepared k p c))"
    using assms by (simp add: drop_prepared_def ctl_inv_def ri.agree_remove)
  ultimately show ?thesis
    using assms by (auto simp: ctl_inv_def drop_prepared_def split: if_splits)
qed

text \<open>What the clean-up of expired preparations leaves alone.\<close>

definition same_but_prepared :: "controller \<Rightarrow> controller \<Rightarrow> bool" where
  "same_but_prepared c c' \<longleftrightarrow>
     catalog c' = catalog c \<and> pending c' = pending c \<and> active c' = active c
     \<and> current_sample_index c' = current_sample_index c \<and> next_token c' = next_token c"

lemma discard_tokens_Some:
  assumes "discard_tokens ts c = Some c'"
  shows "same_but_prepared c c'
    \<and> btree_lookup (prepared c') = (\<lambda>k. if k \<in> set ts then None else btree_lookup (prepared c) k)
    \<and> unat (revision c) \<le> unat (revision c') \<and> unat (revision c') \<le> unat (revision c) + length ts
    \<and> (revision c' = revision c \<longleftrightarrow> prepared c' = prepared c)
    \<and> (ctl_inv c \<longrightarrow> ctl_inv c')"
  using assms
proof (induction ts c rule: discard_tokens.induct)
  case (1 c)
  then show ?case by (simp add: same_but_prepared_def)
next
  case (2 k ts c)
  show ?case
  proof (cases "btree_lookup (prepared c) k")
    case None
    with 2 show ?thesis by auto
  next
    case (Some p)
    then obtain c1 where c1: "bump_revision (drop_prepared k p c) = Some c1" "discard_tokens ts c1 = Some c'"
      using 2 by (auto simp: bind_eq_Some_conv)
    then obtain r where "c1 = (drop_prepared k p c)\<lparr>revision := r\<rparr>" "unat r = unat (revision c) + 1"
      by (elim bump_revision_Some) (simp add: drop_prepared_def)
    then have f: "same_but_prepared c c1" "prepared c1 = btree_remove k (prepared c)"
        "unat (revision c1) = unat (revision c) + 1" "ctl_inv c \<longrightarrow> ctl_inv c1"
      using drop_prepared_inv [OF _ Some]
      by (auto simp: same_but_prepared_def drop_prepared_def)
    have IH: "same_but_prepared c1 c'"
        "btree_lookup (prepared c') = (\<lambda>x. if x \<in> set ts then None else btree_lookup (prepared c1) x)"
        "unat (revision c1) \<le> unat (revision c')" "unat (revision c') \<le> unat (revision c1) + length ts"
        "ctl_inv c1 \<longrightarrow> ctl_inv c'"
      using 2(2) [OF Some c1] by blast+
    have "revision c' \<noteq> revision c" using f(3) IH(3) by auto
    moreover have "prepared c' \<noteq> prepared c"
      using Some f(2) IH(2) by (auto dest!: arg_cong [where f = "\<lambda>m. btree_lookup m k"] split: if_splits)
    ultimately show ?thesis
      using f IH by (auto simp: same_but_prepared_def)
  qed
qed

lemma discard_tokens_total:
  "unat (revision c) + length ts < 2 ^ 64 \<Longrightarrow> discard_tokens ts c \<noteq> None"
proof (induction ts c rule: discard_tokens.induct)
  case (2 k ts c)
  show ?case
  proof (cases "btree_lookup (prepared c) k")
    case (Some p)
    obtain r where "checked_add (revision c) 1 = Some r" "unat r = unat (revision c) + 1"
      using 2(3) by (cases "checked_add (revision c) 1") (auto simp: checked_add_Some_iff checked_add_def unat_add_fits split: if_splits)
    then show ?thesis using 2(2) [OF Some] 2(3) Some
      by (simp add: bump_revision_def drop_prepared_def)
  qed (use 2 in simp)
qed simp

lemma discard_expired_Some:
  assumes "discard_expired_preparations now c = Some c'"
  shows "same_but_prepared c c'"
    and "btree_lookup (prepared c') k = Some p \<longleftrightarrow> btree_lookup (prepared c) k = Some p \<and> now < expires_at p"
    and "unat (revision c) \<le> unat (revision c')"
    and "revision c' = revision c \<longleftrightarrow> prepared c' = prepared c"
    and "ctl_inv c \<Longrightarrow> ctl_inv c'"
proof -
  note d = discard_tokens_Some [OF assms [unfolded discard_expired_preparations_def]]
  have "k \<in> set (map fst (filter (\<lambda>(token, p). expires_at p \<le> now) (btree_entries (prepared c))))
      \<longleftrightarrow> (\<exists>p. btree_lookup (prepared c) k = Some p \<and> expires_at p \<le> now)"
    by (force simp: bt.entries_iff)
  with d show "btree_lookup (prepared c') k = Some p \<longleftrightarrow> btree_lookup (prepared c) k = Some p \<and> now < expires_at p"
    by auto
qed (use discard_tokens_Some [OF assms [unfolded discard_expired_preparations_def]] in auto)

lemma discard_tracked:
  assumes "discard_expired_preparations now c = Some c'" and "ctl_inv c"
  shows "dom (btree_lookup (prepared_targets c')) \<subseteq> dom (btree_lookup (prepared_targets c))"
proof -
  have "ran (btree_lookup (prepared c')) \<subseteq> ran (btree_lookup (prepared c))"
    using discard_expired_Some(2) [OF assms(1)] by (auto simp: ran_def)
  moreover have "ctl_inv c'" by (rule discard_expired_Some(5) [OF assms])
  ultimately show ?thesis
    using assms(2) ri.agree_dom by (metis ctl_inv_def image_mono)
qed

lemma prepared_card: "ctl_inv c \<Longrightarrow> card (dom (btree_lookup (prepared c))) \<le> MAX_SCENARIO_TARGETS"
proof -
  assume inv: "ctl_inv c"
  then have "card (dom (btree_lookup (prepared c))) \<le> card (dom (btree_lookup (prepared_targets c)))"
    by (intro ri.agree_card) (simp add: ctl_inv_def)
  also have "\<dots> \<le> card (tracked c)"
    by (rule card_mono [OF finite_tracked]) (auto simp: tracked_def)
  finally show ?thesis using inv by (simp add: ctl_inv_def)
qed

lemma discard_expired_total:
  assumes "ctl_inv c" and "unat (revision c) + MAX_SCENARIO_TARGETS < 2 ^ 64"
  obtains c' where "discard_expired_preparations now c = Some c'"
    and "unat (revision c') \<le> unat (revision c) + MAX_SCENARIO_TARGETS"
proof -
  let ?ts = "map fst (filter (\<lambda>(token, p). expires_at p \<le> now) (btree_entries (prepared c)))"
  have "length ?ts \<le> length (btree_entries (prepared c))" by simp
  also have "\<dots> \<le> MAX_SCENARIO_TARGETS"
    using prepared_card [OF assms(1)] by (simp only: bt.card_dom)
  finally have len: "length ?ts \<le> MAX_SCENARIO_TARGETS" .
  then obtain c' where "discard_tokens ?ts c = Some c'"
    using discard_tokens_total [of c ?ts] assms(2) by fastforce
  moreover from this have "unat (revision c') \<le> unat (revision c) + MAX_SCENARIO_TARGETS"
    using discard_tokens_Some [of ?ts c c'] len by linarith
  ultimately show thesis
    using that by (simp add: discard_expired_preparations_def)
qed

section \<open>Operations preserve the invariant\<close>

lemma prepare_action_Some:
  assumes "prepare_action target action label now permits c = Some (r, c')"
  obtains (rejected) c1 e where "discard_expired_preparations now c = Some c1" "r = Inl e" "c' = c1"
  | (prepared) c1 p n v where "discard_expired_preparations now c = Some c1"
      "p = \<lparr>pa_target = target, pa_action = action, pa_actor_label = label, expires_at = now + ACTIVATION_TOKEN_TTL\<rparr>"
      "unat n = unat (next_token c1) + 1" "unat v = unat (revision c1) + 1"
      "btree_lookup (prepared_targets c1) target = None" "btree_lookup (pending c1) target = None"
      "permits \<or> btree_lookup (active c1) target = None"
      "target \<in> tracked c1 \<or> card (tracked c1) < MAX_SCENARIO_TARGETS"
      "r = Inr (prepared_action_snapshot p (next_token c1) now)"
      "c' = c1\<lparr>next_token := n, prepared := btree_insert (next_token c1) p (prepared c1),
             prepared_targets := btree_insert target (next_token c1) (prepared_targets c1), revision := v\<rparr>"
proof -
  obtain c1 where c1: "discard_expired_preparations now c = Some c1"
    using assms by (auto simp: prepare_action_def bind_eq_Some_conv)
  let ?p = "\<lparr>pa_target = target, pa_action = action, pa_actor_label = label, expires_at = now + ACTIVATION_TOKEN_TTL\<rparr>"
  let ?busy = "contains_key (prepared_targets c1) target \<or> contains_key (pending c1) target
      \<or> \<not> permits \<and> contains_key (active c1) target"
  let ?full = "\<not> tracks_target c1 target \<and> MAX_SCENARIO_TARGETS \<le> tracked_target_count c1"
  note eq = assms [unfolded prepare_action_def c1 Option.bind.simps]
  show thesis
  proof (cases "?busy \<or> ?full \<or> instant_checked_add now ACTIVATION_TOKEN_TTL = None \<or> checked_add (next_token c1) 1 = None")
    case True
    then have "c' = c1 \<and> (\<exists>e. r = Inl e)" using eq by (auto split: if_splits option.splits)
    then show thesis using rejected [OF c1] by blast
  next
    case False
    then obtain n where n: "checked_add (next_token c1) 1 = Some n" by auto
    from False have ex: "instant_checked_add now ACTIVATION_TOKEN_TTL = Some (now + ACTIVATION_TOKEN_TTL)"
      by (auto simp: instant_checked_add_def split: if_splits)
    let ?c = "c1\<lparr>next_token := n, prepared := btree_insert (next_token c1) ?p (prepared c1),
             prepared_targets := btree_insert target (next_token c1) (prepared_targets c1)\<rparr>"
    from False eq have "bump_revision ?c = Some c'" and r: "r = Inr (prepared_action_snapshot ?p (next_token c1) now)"
      by (auto simp: n ex Let_def bind_eq_Some_conv)
    then obtain v where "c' = ?c\<lparr>revision := v\<rparr>" "unat v = unat (revision c1) + 1"
      by (elim bump_revision_Some) simp
    moreover have "unat n = unat (next_token c1) + 1" using n by (simp add: checked_add_Some_iff)
    ultimately show thesis
      using prepared [OF c1 refl, of n v] False r
      by (simp add: contains_key_def tracks_target_iff tracked_target_count_eq not_le disj_imp)
  qed
qed

lemma prepare_action_inv:
  assumes "prepare_action target action label now permits c = Some (r, c')" and "ctl_inv c"
    and "permits \<longleftrightarrow> action = Clear" and "target_stream_id target \<noteq> 0"
    and "case action of
           Activate s \<Rightarrow> s \<in> set (sc_scenarios (catalog c)) \<and> compatible (sd_kind s) target
         | Clear \<Rightarrow> admissible (catalog c) (active c) target Clear"
  shows "ctl_inv c'"
  using assms(1)
proof (cases rule: prepare_action_Some)
  case (rejected c1 e)
  then show ?thesis using assms(2) discard_expired_Some(5) by blast
next
  case (prepared c1 p n v)
  have inv: "ctl_inv c1" and same: "same_but_prepared c c1"
    using discard_expired_Some(1,5) [OF prepared(1)] assms(2) by blast+
  have lt: "next_token c1 < n" using prepared(3) by (simp add: word_less_nat_alt)
  then have lt': "k < next_token c1 \<Longrightarrow> k < n" for k by (rule order.strict_trans [rotated])
  have fresh: "btree_lookup (prepared c1) (next_token c1) = None"
    using inv by (cases "btree_lookup (prepared c1) (next_token c1)") (auto simp: ctl_inv_def)
  have adm: "admissible (catalog c1) (active c1) target action"
    using assms(3-5) prepared(7) same
    by (auto simp: admissible_def same_but_prepared_def split: stored_action.splits)
  have tr: "tracked c' = insert target (tracked c1)"
    unfolding prepared(10) by (auto simp: tracked_def)
  have card: "card (insert target (tracked c1)) \<le> MAX_SCENARIO_TARGETS"
    using prepared(8) inv by (auto simp: ctl_inv_def card_insert_if finite_tracked)
  have ag: "ri.agree (btree_insert (next_token c1) p (prepared c1)) (btree_insert target (next_token c1) (prepared_targets c1))"
    using ri.agree_insert [of "prepared c1" "prepared_targets c1" "next_token c1" p] inv fresh prepared(2,5)
    by (simp add: ctl_inv_def)
  show ?thesis
    using inv lt ag card prepared(6) adm unfolding ctl_inv_def tr
    by (auto simp: prepared(2,10) lt' split: if_splits)
qed

lemma prepare_activation_inv:
  assumes "prepare_activation target name label now c = Some (r, c')" and "ctl_inv c"
  shows "ctl_inv c'"
  using assms
  by (auto simp: prepare_activation_def validate_controller_target_def validate_scenario_target_def
      split: sum.splits dest!: catalog_scenario_Some intro: prepare_action_inv)

lemma prepare_clear_inv:
  assumes "prepare_clear target label now c = Some (r, c')" and "ctl_inv c"
  shows "ctl_inv c'"
proof (cases "bind_ok (validate_controller_target target) (\<lambda>_. validate_actor_label label)")
  case (Inl e)
  with assms show ?thesis by (simp add: prepare_clear_def)
next
  case (Inr u)
  with assms(1) obtain c1 where c1: "discard_expired_preparations now c = Some c1"
    and or: "c' = c1 \<or> (\<exists>a. btree_lookup (active c1) target = Some a \<and> sd_lifecycle (aa_scenario a) = Sustained
           \<and> prepare_action target Clear label now True c1 = Some (r, c'))"
    by (auto simp: prepare_clear_def bind_eq_Some_conv split: if_splits option.splits)
  have inv: "ctl_inv c1" by (rule discard_expired_Some(5) [OF c1 assms(2)])
  moreover have "target_stream_id target \<noteq> 0"
    using Inr by (auto simp: validate_controller_target_def)
  ultimately show ?thesis
    using or by (auto simp: admissible_def intro: prepare_action_inv)
qed

lemma take_prepared_Some:
  assumes "take_prepared k c = Some (r, c')"
  obtains (unknown) "btree_lookup (prepared c) k = None" "r = Inl (UnknownToken k)" "c' = c"
  | (taken) p v where "btree_lookup (prepared c) k = Some p" "r = Inr p"
      "c' = (drop_prepared k p c)\<lparr>revision := v\<rparr>" "unat v = unat (revision c) + 1"
proof (cases "btree_lookup (prepared c) k")
  case None
  show thesis by (rule unknown) (use None assms in \<open>simp_all add: take_prepared_def\<close>)
next
  case (Some p)
  with assms have "bump_revision (drop_prepared k p c) = Some c'" "r = Inr p"
    by (auto simp: take_prepared_def bind_eq_Some_conv)
  moreover from this(1) obtain v where "c' = (drop_prepared k p c)\<lparr>revision := v\<rparr>" "unat v = unat (revision c) + 1"
    by (elim bump_revision_Some) (simp add: drop_prepared_def)
  ultimately show thesis using taken Some by blast
qed

lemma taken_facts:
  assumes "ctl_inv c" "btree_lookup (prepared c) k = Some p"
    and "c1 = (drop_prepared k p c)\<lparr>revision := v\<rparr>"
  shows "ctl_inv c1" "same_but_prepared c c1"
    "btree_lookup (pending c) (pa_target p) = None" "btree_lookup (prepared_targets c1) (pa_target p) = None"
    "admissible (catalog c) (active c) (pa_target p) (pa_action p)" "k < next_token c"
proof -
  show "ctl_inv c1" using drop_prepared_inv [OF assms(1,2)] by (simp add: assms(3))
qed (use assms in \<open>auto simp: same_but_prepared_def drop_prepared_def ctl_inv_def\<close>)

lemma confirm_check_ok:
  assumes "admissible (catalog c) (active c) (pa_target p) (pa_action p)"
    and "btree_lookup (pending c) (pa_target p) = None"
  shows "confirm_check p c = Inr ()"
  using assms
  by (auto simp: confirm_check_def admissible_def contains_key_def split: stored_action.splits option.splits)

text \<open>Under the invariant \<^verbatim>\<open>confirm\<close> has three outcomes; its three late errors cannot occur.\<close>

lemma confirm_Some:
  assumes "confirm k now c = Some (r, c')" and "ctl_inv c"
  obtains (unknown) "btree_lookup (prepared c) k = None" "r = Inl (UnknownToken k)" "c' = c"
  | (expired) p v where "btree_lookup (prepared c) k = Some p" "expires_at p \<le> now" "r = Inl (ExpiredToken k)"
      "c' = (drop_prepared k p c)\<lparr>revision := v\<rparr>" "unat v = unat (revision c) + 1"
  | (queued) p v c1 where "btree_lookup (prepared c) k = Some p" "now < expires_at p"
      "unat v = unat (revision c) + 1"
      "discard_expired_preparations now ((drop_prepared k p c)\<lparr>revision := v\<rparr>) = Some c1"
      "r = Inr \<lparr>pn_target = pa_target p, pn_action = stored_action_snapshot (pa_action p), pn_actor_label = pa_actor_label p\<rparr>"
      "c' = c1\<lparr>pending := btree_insert (pa_target p)
                  \<lparr>pd_action = pa_action p, pd_actor_label = pa_actor_label p\<rparr> (pending c)\<rparr>"
proof -
  from assms(1) obtain q d where q: "take_prepared k c = Some (q, d)"
    by (auto simp: confirm_def bind_eq_Some_conv)
  then show thesis
  proof (cases rule: take_prepared_Some)
    case unknown
    show thesis by (rule that(1)) (use unknown assms(1) q in \<open>simp_all add: confirm_def\<close>)
  next
    case (taken p v)
    show thesis
    proof (cases "expires_at p \<le> now")
      case True
      show thesis by (rule that(2)) (use True taken assms(1) q in \<open>auto simp: confirm_def\<close>)
    next
      case False
      with assms(1) q taken obtain c1 where c1: "discard_expired_preparations now d = Some c1"
        by (auto simp: confirm_def bind_eq_Some_conv)
      have "same_but_prepared c c1"
        using discard_expired_Some(1) [OF c1] taken_facts(2) [OF assms(2) taken(1,3)]
        by (simp add: same_but_prepared_def)
      then have "confirm_check p c1 = Inr ()" "pending c1 = pending c"
        using taken_facts(3,5) [OF assms(2) taken(1,3)]
        by (auto intro!: confirm_check_ok simp: same_but_prepared_def)
      note ok = this
      show thesis
        by (rule that(3)) (use ok assms(1) q taken False c1 in \<open>auto simp: confirm_def\<close>)
    qed
  qed
qed

lemma confirm_inv:
  assumes "confirm k now c = Some (r, c')" and "ctl_inv c"
  shows "ctl_inv c'"
  using assms
proof (cases rule: confirm_Some)
  case (expired p v)
  then show ?thesis using taken_facts(1) assms(2) by blast
next
  case (queued p v c1)
  let ?d = "(drop_prepared k p c)\<lparr>revision := v\<rparr>"
  note t = taken_facts [OF assms(2) queued(1), where v = v, OF refl] and d = discard_expired_Some [OF queued(4)]
  have inv: "ctl_inv c1" using d(5) t(1) .
  have same: "same_but_prepared c c1" using d(1) t(2) by (simp add: same_but_prepared_def)
  have other: "pa_target q \<noteq> pa_target p" if "btree_lookup (prepared c1) j = Some q" for j q
    using that t(1,4) d(2) by (fastforce simp: ctl_inv_def ri.agree_def)
  have "tracked c' \<subseteq> tracked c"
    using assms(2) queued(1) discard_tracked [OF queued(4) t(1)] same
    by (auto simp: queued(6) tracked_def same_but_prepared_def ctl_inv_def ri.agree_def drop_prepared_def split: if_splits)
  then have "card (tracked c') \<le> card (tracked c)"
    by (rule card_mono [OF finite_tracked])
  then show ?thesis
    using inv t(5) assms(2) other same unfolding ctl_inv_def
    by (auto simp: queued(6) same_but_prepared_def)
qed (use assms in simp)

lemma cancel_Some:
  assumes "cancel k now c = Some (r, c')"
  obtains (unknown) "btree_lookup (prepared c) k = None" "r = Inl (UnknownToken k)" "c' = c"
  | (expired) p v where "btree_lookup (prepared c) k = Some p" "expires_at p \<le> now" "r = Inl (ExpiredToken k)"
      "c' = (drop_prepared k p c)\<lparr>revision := v\<rparr>" "unat v = unat (revision c) + 1"
  | (dropped) p v where "btree_lookup (prepared c) k = Some p" "now < expires_at p"
      "unat v = unat (revision c) + 1"
      "discard_expired_preparations now ((drop_prepared k p c)\<lparr>revision := v\<rparr>) = Some c'"
      "r = Inr (prepared_action_snapshot p k now)"
proof -
  from assms(1) obtain q d where q: "take_prepared k c = Some (q, d)"
    by (auto simp: cancel_def bind_eq_Some_conv)
  then show thesis
  proof (cases rule: take_prepared_Some)
    case unknown
    show thesis by (rule that(1)) (use unknown assms(1) q in \<open>simp_all add: cancel_def\<close>)
  next
    case (taken p v)
    show thesis
    proof (cases "expires_at p \<le> now")
      case True
      show thesis by (rule that(2)) (use True taken assms(1) q in \<open>auto simp: cancel_def\<close>)
    next
      case False
      show thesis
        by (rule that(3)) (use False taken assms(1) q in \<open>auto simp: cancel_def bind_eq_Some_conv\<close>)
    qed
  qed
qed

lemma cancel_inv:
  assumes "cancel k now c = Some (r, c')" and "ctl_inv c"
  shows "ctl_inv c'"
  using assms(1)
proof (cases rule: cancel_Some)
  case (expired p v)
  then show ?thesis using taken_facts(1) assms(2) by blast
next
  case (dropped p v)
  then show ?thesis using taken_facts(1) [OF assms(2)] discard_expired_Some(5) by blast
qed (use assms in simp)

lemma snapshot_inv: "snapshot now c = Some (s, c') \<Longrightarrow> ctl_inv c \<Longrightarrow> ctl_inv c'"
  by (auto simp: snapshot_def bind_eq_Some_conv dest: discard_expired_Some(5))

section \<open>Reporting boundaries\<close>

definition activated :: "u64 \<Rightarrow> pending_action \<Rightarrow> active_action option" where
  "activated i p =
     (case pd_action p of
        Activate s \<Rightarrow> Some \<lparr>aa_scenario = s, aa_actor_label = pd_actor_label p, first_eligible_boundary = i\<rparr>
      | Clear \<Rightarrow> None)"

lemma lookup_apply_pending:
  "btree_lookup (apply_pending i e act) t = (if t = fst e then activated i (snd e) else btree_lookup act t)"
  by (simp add: apply_pending_def activated_def split: stored_action.splits)

lemma lookup_fold_apply_pending:
  "distinct (map fst es) \<Longrightarrow>
     btree_lookup (fold (apply_pending i) es act) t =
       (case map_of es t of None \<Rightarrow> btree_lookup act t | Some p \<Rightarrow> activated i p)"
proof (induction es arbitrary: act)
  case (Cons e es)
  then have IH: "btree_lookup (fold (apply_pending i) es (apply_pending i e act)) t =
       (case map_of es t of None \<Rightarrow> btree_lookup (apply_pending i e act) t | Some p \<Rightarrow> activated i p)"
    by simp
  have "map_of es (fst e) = None" using Cons.prems by (simp add: map_of_eq_None_iff)
  then show ?case
    unfolding fold_simps comp_apply IH
    by (cases e) (auto simp: lookup_apply_pending split: option.splits)
qed simp

lemma lookup_after_queue:
  "btree_lookup (fold (apply_pending i) (btree_entries m) act) t =
     (case btree_lookup m t of None \<Rightarrow> btree_lookup act t | Some p \<Rightarrow> activated i p)"
  using lookup_fold_apply_pending [of "btree_entries m"] distinct_keys [OF bt.entries_sorted, of m]
  by (simp add: btree_lookup.rep_eq)

text \<open>The active scenarios after a boundary, target by target.\<close>

definition active_after :: "u64 \<Rightarrow> controller \<Rightarrow> scenario_target \<Rightarrow> active_action option" where
  "active_after i c t =
     (case (case btree_lookup (pending c) t of None \<Rightarrow> btree_lookup (active c) t | Some p \<Rightarrow> activated i p) of
        None \<Rightarrow> None
      | Some a \<Rightarrow> if sd_lifecycle (aa_scenario a) = Transient \<and> is_expired_at a i = Some True then None else Some a)"

lemma advance_to_Some:
  assumes "advance_to i c = Some (r, c')"
  shows "r = Inr ()" "catalog c' = catalog c" "prepared c' = prepared c" "prepared_targets c' = prepared_targets c"
    "next_token c' = next_token c" "pending c' = btree_empty" "current_sample_index c' = Some i"
    "btree_lookup (active c') t = active_after i c t"
    "unat (revision c) \<le> unat (revision c')"
    "revision c' = revision c \<longleftrightarrow> pending c' = pending c \<and> active c' = active c"
proof -
  define act where "act = fold (apply_pending i) (btree_entries (pending c)) (active c)"
  define P where "P = (\<lambda>(_::scenario_target) a. sd_lifecycle (aa_scenario a) \<noteq> Transient \<or> is_expired_at a i \<noteq> Some True)"
  let ?c = "c\<lparr>current_sample_index := Some i, pending := btree_empty, active := btree_retain P act\<rparr>"
  let ?bump = "btree_entries (pending c) \<noteq> [] \<or> length (btree_entries (btree_retain P act)) \<noteq> length (btree_entries act)"
  from assms have r: "r = Inr ()" and b: "(if ?bump then bump_revision ?c else Some ?c) = Some c'"
    by (auto simp: advance_to_def Let_def bind_eq_Some_conv expire_transient_actions_def act_def P_def
        simp del: de_Morgan_disj split: if_splits)
  show "r = Inr ()" by (fact r)
  obtain v where c': "c' = ?c\<lparr>revision := v\<rparr>" and v: "unat v = unat (revision c) + (if ?bump then 1 else 0)"
  proof (cases ?bump)
    case True
    with b have "bump_revision ?c = Some c'" by simp
    then obtain v where "c' = ?c\<lparr>revision := v\<rparr>" "unat v = unat (revision c) + 1"
      by (elim bump_revision_Some) simp
    then show thesis using True by (intro that [of v]) simp_all
  next
    case False
    with b have "c' = ?c\<lparr>revision := revision c\<rparr>" by auto
    then show thesis using False by (intro that [of "revision c"]) simp_all
  qed
  show "catalog c' = catalog c" "prepared c' = prepared c" "prepared_targets c' = prepared_targets c"
    "next_token c' = next_token c" "pending c' = btree_empty" "current_sample_index c' = Some i"
    "unat (revision c) \<le> unat (revision c')"
    by (simp_all add: c' v)
  have "btree_lookup (active c') t = Some a \<longleftrightarrow> active_after i c t = Some a" for a
    by (simp add: c' bt.lookup_retain act_def P_def lookup_after_queue active_after_def split: option.splits)
      blast
  then show "btree_lookup (active c') t = active_after i c t"
    by (metis not_None_eq)
  have "pending c = btree_empty \<longleftrightarrow> btree_entries (pending c) = []"
    by (metis bt.entries_Nil_iff bt.lookup_empty bt.lookup_inject ext)
  moreover have "act = active c" if "btree_entries (pending c) = []"
    using that by (simp add: act_def)
  moreover have "revision c' = revision c \<longleftrightarrow> \<not> ?bump"
    using v by (auto simp: c' word_unat_eq_iff)
  ultimately show "revision c' = revision c \<longleftrightarrow> pending c' = pending c \<and> active c' = active c"
    by (auto simp: c' bt.retain_length_eq_iff)
qed

lemma is_expired_at_Some: "scenario_wf (aa_scenario a) \<Longrightarrow> sd_lifecycle (aa_scenario a) = Transient \<Longrightarrow> is_expired_at a i \<noteq> None"
  by (auto simp: is_expired_at_def scenario_wf_def split: option.splits)

lemma catalog_wf_scenario: "catalog_wf cat \<Longrightarrow> s \<in> set (sc_scenarios cat) \<Longrightarrow> scenario_wf s"
  by (simp add: catalog_wf_def list_all_iff)

lemma admissible_activated:
  assumes "admissible cat act t (pd_action p)" "activated i p = Some a" "catalog_wf cat"
  shows "target_stream_id t \<noteq> 0" "aa_scenario a \<in> set (sc_scenarios cat)" "compatible (sd_kind (aa_scenario a)) t"
    "first_eligible_boundary a = i"
  using assms by (auto simp: admissible_def activated_def split: stored_action.splits)

lemma advance_to_inv:
  assumes "advance_to i c = Some (r, c')" and "ctl_inv c"
    and "\<And>j. current_sample_index c = Some j \<Longrightarrow> j < i"
  shows "ctl_inv c'"
proof -
  note a = advance_to_Some [OF assms(1)]
  have adm: "admissible (catalog c) (active c') t act"
    if "admissible (catalog c) (active c) t act" "btree_lookup (pending c) t = None" for t act
    using that by (auto simp: admissible_def a(8) active_after_def split: stored_action.splits option.splits)
  have ok: "active_ok (catalog c) (Some i) t x" if x: "btree_lookup (active c') t = Some x" for t x
  proof -
    have ne: "sd_lifecycle (aa_scenario x) = Transient \<Longrightarrow> is_expired_at x i \<noteq> Some True"
      and or: "(\<exists>p. btree_lookup (pending c) t = Some p \<and> activated i p = Some x)
        \<or> btree_lookup (pending c) t = None \<and> btree_lookup (active c) t = Some x"
      using x by (auto simp: a(8) active_after_def split: option.splits if_splits)
    have base: "target_stream_id t \<noteq> 0 \<and> aa_scenario x \<in> set (sc_scenarios (catalog c))
        \<and> compatible (sd_kind (aa_scenario x)) t \<and> first_eligible_boundary x \<le> i"
      using or
    proof
      assume "\<exists>p. btree_lookup (pending c) t = Some p \<and> activated i p = Some x"
      then show ?thesis using admissible_activated assms(2) unfolding ctl_inv_def by fastforce
    next
      assume "btree_lookup (pending c) t = None \<and> btree_lookup (active c) t = Some x"
      then have "active_ok (catalog c) (current_sample_index c) t x" using assms(2) by (simp add: ctl_inv_def)
      then show ?thesis using assms(3) by (fastforce simp: active_ok_def split: option.splits)
    qed
    moreover have "sd_lifecycle (aa_scenario x) = Transient \<Longrightarrow> is_expired_at x i = Some False"
      using ne is_expired_at_Some [of x i] catalog_wf_scenario [of "catalog c" "aa_scenario x"] base assms(2)
      unfolding ctl_inv_def by fastforce
    ultimately show ?thesis by (simp add: active_ok_def)
  qed
  have "tracked c' \<subseteq> tracked c"
    by (auto simp: tracked_def a active_after_def split: option.splits if_splits)
  then have "card (tracked c') \<le> card (tracked c)"
    by (rule card_mono [OF finite_tracked])
  then show ?thesis
    using assms(2) adm ok unfolding ctl_inv_def by (auto simp: a)
qed

lemma advance_boundary_inv:
  assumes "advance_boundary i c = Some (r, c')" and "ctl_inv c"
  shows "ctl_inv c'"
  using assms by (auto simp: advance_boundary_def intro: advance_to_inv split: option.splits if_splits)

section \<open>Sequences of operations\<close>

text \<open>The calls a client can make, in any order and with any arguments.\<close>

datatype scenario_op =
    OpPrepareActivation scenario_target string "string option" instant
  | OpPrepareClear scenario_target "string option" instant
  | OpConfirm activation_token instant
  | OpCancel activation_token instant
  | OpAdvance u64
  | OpSnapshot instant

fun run_op :: "scenario_op \<Rightarrow> controller \<Rightarrow> controller option" where
  "run_op (OpPrepareActivation t name label now) c = map_option snd (prepare_activation t name label now c)"
| "run_op (OpPrepareClear t label now) c = map_option snd (prepare_clear t label now c)"
| "run_op (OpConfirm k now) c = map_option snd (confirm k now c)"
| "run_op (OpCancel k now) c = map_option snd (cancel k now c)"
| "run_op (OpAdvance i) c = map_option snd (advance_boundary i c)"
| "run_op (OpSnapshot now) c = map_option snd (snapshot now c)"

fun run_ops :: "scenario_op list \<Rightarrow> controller \<Rightarrow> controller option" where
  "run_ops [] c = Some c"
| "run_ops (op # ops) c = do { c \<leftarrow> run_op op c; run_ops ops c }"

inductive reachable :: "scenario_catalog \<Rightarrow> controller \<Rightarrow> bool" for cat where
  start: "compile_catalog raw = Inr cat \<Longrightarrow> reachable cat (new_controller cat)"
| call: "reachable cat c \<Longrightarrow> run_op op c = Some c' \<Longrightarrow> reachable cat c'"

lemmas op_invs = prepare_activation_inv prepare_clear_inv confirm_inv cancel_inv advance_boundary_inv snapshot_inv

lemma run_op_inv: "run_op op c = Some c' \<Longrightarrow> ctl_inv c \<Longrightarrow> ctl_inv c'"
  by (cases op) (auto dest: op_invs)

lemma reachable_inv: "reachable cat c \<Longrightarrow> ctl_inv c"
  by (induction rule: reachable.induct) (auto intro: new_controller_inv compile_catalog_wf run_op_inv)

text \<open>What an operation other than a boundary does to the queue and the active scenarios.\<close>

definition keeps_active :: "controller \<Rightarrow> controller \<Rightarrow> bool" where
  "keeps_active c c' \<longleftrightarrow>
     catalog c' = catalog c \<and> active c' = active c \<and> current_sample_index c' = current_sample_index c
     \<and> next_token c \<le> next_token c'"

definition counts_changes :: "controller \<Rightarrow> controller \<Rightarrow> bool" where
  "counts_changes c c' \<longleftrightarrow>
     unat (revision c) \<le> unat (revision c')
     \<and> (revision c' = revision c \<longleftrightarrow>
          prepared c' = prepared c \<and> pending c' = pending c \<and> active c' = active c)"

lemma same_keeps_active: "same_but_prepared c c' \<Longrightarrow> keeps_active c c'"
  by (simp add: same_but_prepared_def keeps_active_def)

lemma discard_keeps:
  "discard_expired_preparations now c = Some c' \<Longrightarrow> keeps_active c c' \<and> counts_changes c c'"
  using discard_expired_Some(1,3,4) [of now c c']
  by (auto simp: same_but_prepared_def keeps_active_def counts_changes_def)

lemma prepare_action_keeps:
  assumes "prepare_action target action label now permits c = Some (r, c')" and "ctl_inv c"
  shows "keeps_active c c' \<and> counts_changes c c'"
  using assms(1)
proof (cases rule: prepare_action_Some)
  case (rejected c1 e)
  then show ?thesis using discard_keeps by simp
next
  case (prepared c1 p n v)
  note d = discard_expired_Some [OF prepared(1)]
  have nt: "next_token c1 = next_token c" using d(1) by (simp add: same_but_prepared_def)
  have "btree_lookup (prepared c) (next_token c) = None"
    using assms(2) by (cases "btree_lookup (prepared c) (next_token c)") (auto simp: ctl_inv_def)
  moreover have "btree_lookup (prepared c') (next_token c) = Some p" by (simp add: prepared(10) nt)
  ultimately have "prepared c' \<noteq> prepared c" by auto
  moreover have "unat (revision c) < unat (revision c')" using d(3) prepared(4) by (simp add: prepared(10))
  moreover have "next_token c \<le> next_token c'" using prepared(3) by (simp add: prepared(10) nt word_le_nat_alt)
  ultimately show ?thesis using d(1)
    by (auto simp: keeps_active_def counts_changes_def prepared(10) same_but_prepared_def)
qed

lemma counts_changes_strict:
  "unat (revision c) < unat (revision c') \<Longrightarrow>
     \<not> (prepared c' = prepared c \<and> pending c' = pending c \<and> active c' = active c) \<Longrightarrow> counts_changes c c'"
  by (auto simp: counts_changes_def)

lemma prepare_activation_keeps:
  assumes "prepare_activation target name label now c = Some (r, c')" and "ctl_inv c"
  shows "keeps_active c c' \<and> counts_changes c c'"
  using assms
  by (auto simp: prepare_activation_def keeps_active_def counts_changes_def split: sum.splits
      dest: prepare_action_keeps)

text \<open>A second clean-up at the same instant finds nothing, so \<^verbatim>\<open>prepare_clear\<close> may repeat it.\<close>

lemma discard_idem:
  assumes "discard_expired_preparations now c = Some c1"
  shows "discard_expired_preparations now c1 = Some c1"
proof -
  have "\<not> expires_at p \<le> now" if "(k, p) \<in> set (btree_entries (prepared c1))" for k p
    using that discard_expired_Some(2) [OF assms, of k p] by (simp add: bt.entries_iff)
  then have "filter (\<lambda>(token, p). expires_at p \<le> now) (btree_entries (prepared c1)) = []"
    by (auto simp: filter_empty_conv)
  then show ?thesis by (simp add: discard_expired_preparations_def)
qed

lemma prepare_action_discarded:
  "discard_expired_preparations now c = Some c1 \<Longrightarrow>
     prepare_action target action label now permits c1 = prepare_action target action label now permits c"
  by (simp add: prepare_action_def discard_idem)

lemma prepare_clear_keeps:
  assumes "prepare_clear target label now c = Some (r, c')" and "ctl_inv c"
  shows "keeps_active c c' \<and> counts_changes c c'"
proof (cases "bind_ok (validate_controller_target target) (\<lambda>_. validate_actor_label label)")
  case (Inl e)
  with assms show ?thesis by (simp add: prepare_clear_def keeps_active_def counts_changes_def)
next
  case (Inr u)
  with assms(1) obtain c1 where c1: "discard_expired_preparations now c = Some c1"
    and or: "c' = c1 \<or> prepare_action target Clear label now True c1 = Some (r, c')"
    by (auto simp: prepare_clear_def bind_eq_Some_conv split: if_splits option.splits)
  then show ?thesis
    using discard_keeps [OF c1] prepare_action_keeps [OF _ assms(2)]
    by (auto simp: prepare_action_discarded [OF c1])
qed

lemma dropped_keeps:
  assumes "btree_lookup (prepared c) k = Some p" and "unat v = unat (revision c) + 1"
    and "discard_expired_preparations now ((drop_prepared k p c)\<lparr>revision := v\<rparr>) = Some c1"
    and "catalog c' = catalog c1" "prepared c' = prepared c1" "active c' = active c1"
      "current_sample_index c' = current_sample_index c1" "next_token c' = next_token c1" "revision c' = revision c1"
  shows "keeps_active c c' \<and> counts_changes c c' \<and> btree_lookup (prepared c') k = None"
proof -
  note d = discard_expired_Some [OF assms(3)]
  have gone: "btree_lookup (prepared c') k = None"
    using d(2) [of k] by (cases "btree_lookup (prepared c1) k") (auto simp: assms(5) drop_prepared_def)
  moreover have "unat (revision c) < unat (revision c')"
    using d(3) assms(2) by (simp add: assms(9))
  ultimately have "counts_changes c c'"
    using assms(1) by (intro counts_changes_strict) auto
  with gone d(1) assms(4-8) show ?thesis
    by (auto simp: same_but_prepared_def keeps_active_def drop_prepared_def)
qed

lemma drop_keeps:
  assumes "btree_lookup (prepared c) k = Some p" and "unat v = unat (revision c) + 1"
    and "c' = (drop_prepared k p c)\<lparr>revision := v\<rparr>"
  shows "keeps_active c c' \<and> counts_changes c c' \<and> btree_lookup (prepared c') k = None"
proof -
  have gone: "btree_lookup (prepared c') k = None" by (simp add: assms(3) drop_prepared_def)
  then have "prepared c' \<noteq> prepared c" using assms(1) by auto
  then have "counts_changes c c'" using assms(2,3) by (intro counts_changes_strict) simp_all
  with gone show ?thesis by (simp add: assms(3) keeps_active_def drop_prepared_def)
qed

lemma unchanged_keeps: "keeps_active c c \<and> counts_changes c c"
  by (simp add: keeps_active_def counts_changes_def)

lemma confirm_keeps:
  assumes "confirm k now c = Some (r, c')" and "ctl_inv c"
  shows "keeps_active c c' \<and> counts_changes c c' \<and> btree_lookup (prepared c') k = None"
  using assms
proof (cases rule: confirm_Some)
  case unknown
  then show ?thesis using unchanged_keeps by simp
next
  case (expired p v)
  show ?thesis by (rule drop_keeps [OF expired(1,5,4)])
next
  case (queued p v c1)
  show ?thesis by (rule dropped_keeps [OF queued(1,3,4)]) (simp_all add: queued(6))
qed

lemma cancel_keeps:
  assumes "cancel k now c = Some (r, c')"
  shows "keeps_active c c' \<and> counts_changes c c' \<and> btree_lookup (prepared c') k = None"
  using assms
proof (cases rule: cancel_Some)
  case unknown
  then show ?thesis using unchanged_keeps by simp
next
  case (expired p v)
  show ?thesis by (rule drop_keeps [OF expired(1,5,4)])
next
  case (dropped p v)
  show ?thesis by (rule dropped_keeps [OF dropped(1,3,4)]) simp_all
qed

lemma snapshot_keeps: "snapshot now c = Some (s, c') \<Longrightarrow> keeps_active c c' \<and> counts_changes c c'"
  by (auto simp: snapshot_def bind_eq_Some_conv dest: discard_keeps)

lemma advance_boundary_counts:
  assumes "advance_boundary i c = Some (r, c')"
  shows "counts_changes c c' \<and> catalog c' = catalog c \<and> prepared c' = prepared c \<and> next_token c' = next_token c"
proof (cases "\<exists>j. current_sample_index c = Some j \<and> i \<le> j")
  case True
  then show ?thesis using assms by (auto simp: advance_boundary_def counts_changes_def)
next
  case False
  then have "advance_to i c = Some (r, c')"
    using assms by (auto simp: advance_boundary_def split: option.splits if_splits)
  from advance_to_Some [OF this] show ?thesis by (simp add: counts_changes_def)
qed

fun is_advance :: "scenario_op \<Rightarrow> bool" where
  "is_advance (OpAdvance _) = True"
| "is_advance _ = False"

lemma run_op_keeps_active: "run_op op c = Some c' \<Longrightarrow> ctl_inv c \<Longrightarrow> \<not> is_advance op \<Longrightarrow> keeps_active c c'"
  by (cases op)
     (auto dest: prepare_activation_keeps prepare_clear_keeps confirm_keeps cancel_keeps snapshot_keeps)

lemma run_op_counts: "run_op op c = Some c' \<Longrightarrow> ctl_inv c \<Longrightarrow> counts_changes c c'"
  by (cases op)
     (auto dest: prepare_activation_keeps prepare_clear_keeps confirm_keeps cancel_keeps snapshot_keeps
        advance_boundary_counts)

text \<open>A token that was handed out and is no longer prepared never becomes prepared again.\<close>

definition spent :: "activation_token \<Rightarrow> controller \<Rightarrow> bool" where
  "spent k c \<longleftrightarrow> k < next_token c \<and> btree_lookup (prepared c) k = None"

lemma spent_mono:
  assumes "spent k c" "next_token c \<le> next_token c'"
    and "\<And>p. btree_lookup (prepared c') k = Some p \<Longrightarrow> btree_lookup (prepared c) k = Some p \<or> k = next_token c"
  shows "spent k c'"
  using assms by (cases "btree_lookup (prepared c') k") (auto simp: spent_def)

lemma discard_spent:
  assumes "discard_expired_preparations now c = Some c'" "spent k c"
  shows "spent k c'"
  using discard_expired_Some(1,2) [OF assms(1)] assms(2)
  by (intro spent_mono [OF assms(2)]) (auto simp: same_but_prepared_def)

lemma prepare_action_spent:
  assumes "prepare_action target action label now permits c = Some (r, c')" "spent k c"
  shows "spent k c'"
  using assms(1)
proof (cases rule: prepare_action_Some)
  case (rejected c1 e)
  then show ?thesis using discard_spent assms(2) by blast
next
  case (prepared c1 p n v)
  have "next_token c1 \<le> n" using prepared(3) by (simp add: word_le_nat_alt)
  then show ?thesis
    using discard_spent [OF prepared(1) assms(2)]
    by (elim spent_mono) (auto simp: prepared(10) split: if_splits)
qed

lemma drop_spent: "spent k c \<Longrightarrow> spent k ((drop_prepared j p c)\<lparr>revision := v\<rparr>)"
  by (elim spent_mono) (auto simp: drop_prepared_def split: if_splits)

lemma spent_pending [simp]: "spent k (c\<lparr>pending := q\<rparr>) = spent k c"
  by (simp add: spent_def)

lemma run_op_spent:
  assumes "run_op op c = Some c'" "ctl_inv c" "spent k c"
  shows "spent k c'"
proof (cases op)
  case (OpPrepareActivation t name label now)
  then show ?thesis using assms
    by (auto simp: prepare_activation_def split: sum.splits dest: prepare_action_spent)
next
  case (OpPrepareClear t label now)
  then show ?thesis using assms
    by (auto simp: prepare_clear_def bind_eq_Some_conv split: sum.splits option.splits if_splits
        dest: prepare_action_spent discard_spent)
next
  case (OpConfirm j now)
  then obtain r where "confirm j now c = Some (r, c')" using assms(1) by auto
  then show ?thesis using assms(2)
    by (cases rule: confirm_Some) (auto intro: drop_spent discard_spent assms(3))
next
  case (OpCancel j now)
  then obtain r where "cancel j now c = Some (r, c')" using assms(1) by auto
  then show ?thesis
    by (cases rule: cancel_Some) (auto intro: drop_spent discard_spent assms(3))
next
  case (OpAdvance i)
  then show ?thesis using assms by (auto simp: spent_def dest!: advance_boundary_counts)
next
  case (OpSnapshot now)
  then show ?thesis using assms by (auto simp: snapshot_def bind_eq_Some_conv dest: discard_spent)
qed

lemma run_ops_invariant:
  assumes "run_ops ops c = Some c'" "ctl_inv c" "P c"
    and step: "\<And>op c c'. run_op op c = Some c' \<Longrightarrow> ctl_inv c \<Longrightarrow> P c \<Longrightarrow> P c'"
  shows "ctl_inv c' \<and> P c'"
  using assms(1-3)
  by (induction ops c rule: run_ops.induct) (auto simp: bind_eq_Some_conv intro: step run_op_inv)

lemma spent_unusable:
  "spent k c \<Longrightarrow> confirm k now c = Some (Inl (UnknownToken k), c) \<and> cancel k now c = Some (Inl (UnknownToken k), c)"
  by (simp add: spent_def confirm_def cancel_def take_prepared_def)

section \<open>Absence of panics\<close>

lemma bump_revision_total:
  "unat (revision c) + 1 < 2 ^ 64 \<Longrightarrow> bump_revision c = Some (c\<lparr>revision := revision c + 1\<rparr>)"
  by (simp add: bump_revision_def checked_add_def)

lemma discard_room:
  assumes "ctl_inv c" "unat (revision c) + MAX_SCENARIO_TARGETS + 1 < 2 ^ 64"
  obtains c' where "discard_expired_preparations now c = Some c'" "ctl_inv c'" "unat (revision c') + 1 < 2 ^ 64"
proof -
  obtain c' where c': "discard_expired_preparations now c = Some c'"
      "unat (revision c') \<le> unat (revision c) + MAX_SCENARIO_TARGETS"
    using discard_expired_total [OF assms(1), of now] assms(2) by auto
  with assms show thesis using that [of c'] discard_expired_Some(5) by simp
qed

lemma prepare_action_total:
  assumes "ctl_inv c" "unat (revision c) + MAX_SCENARIO_TARGETS + 1 < 2 ^ 64"
  shows "prepare_action target action label now permits c \<noteq> None"
proof -
  obtain c' where "discard_expired_preparations now c = Some c'" "unat (revision c') + 1 < 2 ^ 64"
    using discard_room [OF assms] by blast
  then show ?thesis
    by (simp add: prepare_action_def Let_def bump_revision_total split: option.splits)
qed

lemma take_prepared_total:
  "unat (revision c) + 1 < 2 ^ 64 \<Longrightarrow> take_prepared k c \<noteq> None"
  by (simp add: take_prepared_def drop_prepared_def bump_revision_total split: option.splits)

lemma taken_discard_total:
  assumes "ctl_inv c" "unat (revision c) + MAX_SCENARIO_TARGETS + 1 < 2 ^ 64"
    and "take_prepared k c = Some (Inr p, c1)"
  shows "discard_expired_preparations now c1 \<noteq> None"
  using assms(3)
proof (cases rule: take_prepared_Some)
  case (taken q v)
  have "ctl_inv c1" by (rule taken_facts(1) [OF assms(1) taken(1,3)])
  moreover have "unat (revision c1) + MAX_SCENARIO_TARGETS < 2 ^ 64"
    using taken assms(2) by simp
  ultimately show ?thesis using discard_expired_total [of c1 now] by auto
qed simp

lemma expire_transient_total:
  assumes "\<And>t a. btree_lookup (active c) t = Some a \<Longrightarrow> scenario_wf (aa_scenario a)"
  shows "expire_transient_actions i c \<noteq> None"
proof -
  have "\<not> (sd_lifecycle (aa_scenario a) = Transient \<and> is_expired_at a i = None)"
    if "(t, a) \<in> set (btree_entries (active c))" for t a
    using is_expired_at_Some [of a i] assms [of t a] that by (auto simp: bt.entries_iff)
  then show ?thesis by (fastforce simp: expire_transient_actions_def list_ex_iff)
qed

lemma advance_to_total:
  assumes "ctl_inv c" "unat (revision c) + 1 < 2 ^ 64"
  shows "advance_to i c \<noteq> None"
proof -
  let ?c = "c\<lparr>current_sample_index := Some i, pending := btree_empty,
                active := fold (apply_pending i) (btree_entries (pending c)) (active c)\<rparr>"
  have "scenario_wf (aa_scenario a)" if "btree_lookup (active ?c) t = Some a" for t a
  proof -
    have "(\<exists>p. btree_lookup (pending c) t = Some p \<and> activated i p = Some a) \<or> btree_lookup (active c) t = Some a"
      using that by (auto simp: lookup_after_queue split: option.splits)
    then have "aa_scenario a \<in> set (sc_scenarios (catalog c))"
      using assms(1) admissible_activated(2) unfolding ctl_inv_def active_ok_def by blast
    then show ?thesis using assms(1) catalog_wf_scenario by (auto simp: ctl_inv_def)
  qed
  then obtain c1 where c1: "expire_transient_actions i ?c = Some c1"
    using expire_transient_total [of ?c i] by blast
  then have "revision c1 = revision c"
    by (auto simp: expire_transient_actions_def split: if_splits)
  then show ?thesis using assms(2) c1 by (simp add: advance_to_def Let_def bump_revision_total)
qed

lemma run_op_total:
  assumes "ctl_inv c" "unat (revision c) + MAX_SCENARIO_TARGETS + 1 < 2 ^ 64"
  shows "run_op op c \<noteq> None"
proof (cases op)
  case (OpPrepareActivation t name label now)
  then show ?thesis using prepare_action_total [OF assms]
    by (simp add: prepare_activation_def split: sum.splits)
next
  case (OpPrepareClear t label now)
  obtain c1 where c1: "discard_expired_preparations now c = Some c1" using discard_room [OF assms] by blast
  then show ?thesis using OpPrepareClear prepare_action_total [OF assms]
    by (simp add: prepare_clear_def prepare_action_discarded [OF c1] split: sum.splits option.splits)
next
  case (OpConfirm k now)
  obtain q c1 where "take_prepared k c = Some (q, c1)" using take_prepared_total [of c k] assms(2) by auto
  moreover have "\<exists>c2. discard_expired_preparations now c1 = Some c2" if "q = Inr p" for p
    using taken_discard_total [OF assms, of k p c1 now] calculation that by auto
  ultimately show ?thesis using OpConfirm
    by (cases q) (auto simp: confirm_def split: sum.splits)
next
  case (OpCancel k now)
  obtain q c1 where "take_prepared k c = Some (q, c1)" using take_prepared_total [of c k] assms(2) by auto
  moreover have "\<exists>c2. discard_expired_preparations now c1 = Some c2" if "q = Inr p" for p
    using taken_discard_total [OF assms, of k p c1 now] calculation that by auto
  ultimately show ?thesis using OpCancel
    by (cases q) (auto simp: cancel_def split: sum.splits)
next
  case (OpAdvance i)
  then show ?thesis using advance_to_total [OF assms(1)] assms(2)
    by (simp add: advance_boundary_def split: option.splits)
next
  case (OpSnapshot now)
  obtain c1 where "discard_expired_preparations now c = Some c1" using discard_room [OF assms] by blast
  then show ?thesis using OpSnapshot by (simp add: snapshot_def)
qed

section \<open>How far an operation moves the revision\<close>

lemma discard_growth:
  assumes "discard_expired_preparations now c = Some c'" "ctl_inv c"
  shows "unat (revision c') \<le> unat (revision c) + MAX_SCENARIO_TARGETS"
proof -
  let ?ts = "map fst (filter (\<lambda>(token, p). expires_at p \<le> now) (btree_entries (prepared c)))"
  have "length ?ts \<le> length (btree_entries (prepared c))" by simp
  also have "\<dots> \<le> MAX_SCENARIO_TARGETS"
    using prepared_card [OF assms(2)] by (simp only: bt.card_dom)
  finally have "length ?ts \<le> MAX_SCENARIO_TARGETS" .
  then show ?thesis
    using discard_tokens_Some [OF assms(1) [unfolded discard_expired_preparations_def]] by linarith
qed

definition grows :: "controller \<Rightarrow> controller \<Rightarrow> bool" where
  "grows c c' \<longleftrightarrow> unat (revision c') \<le> unat (revision c) + MAX_SCENARIO_TARGETS + 1"

lemma prepare_action_grows:
  assumes "prepare_action target action label now permits c = Some (r, c')" "ctl_inv c"
  shows "grows c c'"
  using assms(1) by (cases rule: prepare_action_Some) (use assms(2) discard_growth in \<open>fastforce simp: grows_def\<close>)+

lemma taken_growth:
  assumes "ctl_inv c" "btree_lookup (prepared c) k = Some p" "unat v = unat (revision c) + 1"
    and "discard_expired_preparations now ((drop_prepared k p c)\<lparr>revision := v\<rparr>) = Some c'"
  shows "grows c c'"
  using discard_growth [OF assms(4) taken_facts(1) [OF assms(1,2) refl]] assms(3) by (simp add: grows_def)

lemma advance_to_grows: "advance_to i c = Some (r, c') \<Longrightarrow> grows c c'"
  by (auto simp: advance_to_def grows_def Let_def bind_eq_Some_conv expire_transient_actions_def
      elim!: bump_revision_Some simp del: de_Morgan_disj split: if_splits)

lemma discard_grows: "discard_expired_preparations now c = Some c' \<Longrightarrow> ctl_inv c \<Longrightarrow> grows c c'"
  using discard_growth [of now c c'] by (simp add: grows_def)

lemma grows_refl: "grows c c"
  by (simp add: grows_def)

lemma run_op_grows:
  assumes "run_op op c = Some c'" "ctl_inv c"
  shows "grows c c'"
proof (cases op)
  case (OpPrepareActivation t name label now)
  then show ?thesis using assms(1) prepare_action_grows [OF _ assms(2)]
    by (auto simp: prepare_activation_def grows_refl split: sum.splits)
next
  case (OpPrepareClear t label now)
  with assms(1) have "c' = c \<or> (\<exists>c1. discard_expired_preparations now c = Some c1
      \<and> (c' = c1 \<or> (\<exists>r. prepare_action t Clear label now True c1 = Some (r, c'))))"
    by (auto simp: prepare_clear_def bind_eq_Some_conv split: sum.splits option.splits if_splits)
  then show ?thesis
    using discard_grows [OF _ assms(2)] prepare_action_grows [OF _ assms(2)] prepare_action_discarded grows_refl by metis
next
  case (OpConfirm k now)
  then obtain r where "confirm k now c = Some (r, c')" using assms(1) by auto
  then show ?thesis using assms(2)
  proof (cases rule: confirm_Some)
    case (queued p v c1)
    then show ?thesis using taken_growth [OF assms(2) queued(1,3,4)] by (simp add: grows_def)
  qed (simp_all add: grows_def)
next
  case (OpCancel k now)
  then obtain r where "cancel k now c = Some (r, c')" using assms(1) by auto
  then show ?thesis using assms(2)
    by (cases rule: cancel_Some) (auto simp: grows_def dest: taken_growth [OF assms(2)])
next
  case (OpAdvance i)
  then show ?thesis using assms(1) advance_to_grows
    by (auto simp: advance_boundary_def grows_refl split: option.splits if_splits)
next
  case (OpSnapshot now)
  then show ?thesis using assms discard_grows by (auto simp: snapshot_def bind_eq_Some_conv)
qed

section \<open>When a transient scenario takes effect\<close>

lemma is_effective_at_iff:
  assumes "first_eligible_boundary a \<le> i"
  shows "is_effective_at a i \<longleftrightarrow> unat (first_eligible_boundary a) + unat (start_frame_offset (aa_scenario a)) \<le> unat i"
proof -
  have "checked_sub i (first_eligible_boundary a) = Some (i - first_eligible_boundary a)"
    using assms by (simp add: checked_sub_def)
  moreover have "unat (i - first_eligible_boundary a) = unat i - unat (first_eligible_boundary a)"
    using assms by (simp add: unat_sub)
  ultimately show ?thesis
    using assms by (simp add: is_effective_at_def word_le_nat_alt le_diff_conv2 add.commute)
qed

lemma is_expired_at_iff:
  assumes "first_eligible_boundary a \<le> i" "duration_frames (aa_scenario a) = Some d"
  shows "is_expired_at a i = Some True \<longleftrightarrow>
    unat (first_eligible_boundary a) + unat (start_frame_offset (aa_scenario a)) + unat d \<le> unat i"
proof -
  let ?e = "i - first_eligible_boundary a" and ?o = "start_frame_offset (aa_scenario a)"
  have e: "checked_sub i (first_eligible_boundary a) = Some ?e" "unat ?e = unat i - unat (first_eligible_boundary a)"
    using assms by (simp_all add: checked_sub_def unat_sub)
  show ?thesis
  proof (cases "?o \<le> ?e")
    case True
    then have "unat (?e - ?o) = unat ?e - unat ?o" by (rule unat_sub)
    then show ?thesis using True e assms
      by (auto simp: is_expired_at_def checked_sub_def word_le_nat_alt)
  next
    case False
    then show ?thesis using e assms by (auto simp: is_expired_at_def checked_sub_def word_le_nat_alt)
  qed
qed

text \<open>
  \<open>in_window b s t label c\<close>: as long as the boundaries have not reached the end of the window that
  starts at \<open>b\<close>, the entry is active; afterwards this entry is gone.
\<close>

definition in_window :: "u64 \<Rightarrow> u64 \<Rightarrow> scenario_definition \<Rightarrow> string option \<Rightarrow> scenario_target \<Rightarrow> controller \<Rightarrow> bool" where
  "in_window b d s label t c \<longleftrightarrow>
     (\<exists>i. current_sample_index c = Some i \<and> b \<le> i
        \<and> (btree_lookup (active c) t = Some \<lparr>aa_scenario = s, aa_actor_label = label, first_eligible_boundary = b\<rparr>
            \<longleftrightarrow> unat i < unat b + unat (start_frame_offset s) + unat d))"

lemma in_window_advance:
  assumes "advance_boundary i c = Some (r, c')" "ctl_inv c" "in_window b d s label t c"
    and "sd_lifecycle s = Transient" "duration_frames s = Some d"
  shows "in_window b d s label t c'"
proof -
  let ?a = "\<lparr>aa_scenario = s, aa_actor_label = label, first_eligible_boundary = b\<rparr>"
  obtain j where j: "current_sample_index c = Some j" "b \<le> j"
    "btree_lookup (active c) t = Some ?a \<longleftrightarrow> unat j < unat b + unat (start_frame_offset s) + unat d"
    using assms(3) by (auto simp: in_window_def)
  show ?thesis
  proof (cases "i \<le> j")
    case True
    then show ?thesis using assms(1,3) j by (simp add: advance_boundary_def)
  next
    case False
    then have a: "advance_to i c = Some (r, c')" "j < i" "b < i" using assms(1) j
      by (auto simp: advance_boundary_def)
    have exp: "is_expired_at ?a i = Some True \<longleftrightarrow> unat b + unat (start_frame_offset s) + unat d \<le> unat i"
      using is_expired_at_iff [of ?a i d] a(3) assms(5) by simp
    have free: "btree_lookup (pending c) t = None" if "btree_lookup (active c) t = Some ?a"
    proof (rule ccontr)
      assume "btree_lookup (pending c) t \<noteq> None"
      then obtain p where "btree_lookup (pending c) t = Some p" by blast
      then have "admissible (catalog c) (active c) t (pd_action p)"
        using assms(2) by (simp add: ctl_inv_def)
      then show False using that assms(4) by (simp add: admissible_def split: stored_action.splits)
    qed
    have "btree_lookup (active c') t = Some ?a \<longleftrightarrow>
        btree_lookup (active c) t = Some ?a \<and> unat i < unat b + unat (start_frame_offset s) + unat d"
      using a(3) assms(4) exp free
      by (auto simp: advance_to_Some(8) [OF a(1)] active_after_def activated_def not_le
          split: option.splits if_splits stored_action.splits)
    moreover have "unat j < unat i" using a(2) by (simp add: word_less_nat_alt)
    ultimately show ?thesis
      using j a(3) advance_to_Some(7) [OF a(1)] by (auto simp: in_window_def)
  qed
qed

lemma in_window_step:
  assumes "run_op op c = Some c'" "ctl_inv c" "in_window b d s label t c"
    and "sd_lifecycle s = Transient" "duration_frames s = Some d"
  shows "in_window b d s label t c'"
proof (cases "is_advance op")
  case True
  then show ?thesis using assms by (cases op) (auto dest: in_window_advance)
next
  case False
  then show ?thesis using run_op_keeps_active [OF assms(1,2)] assms(3)
    by (simp add: keeps_active_def in_window_def)
qed

lemma in_window_start:
  assumes "advance_to b c = Some (r, c')" "btree_lookup (pending c) t = Some p" "pd_action p = Activate s"
    and "sd_lifecycle s = Transient" "duration_frames s = Some d" "0 < d"
  shows "in_window b d s (pd_actor_label p) t c'"
proof -
  let ?a = "\<lparr>aa_scenario = s, aa_actor_label = pd_actor_label p, first_eligible_boundary = b\<rparr>"
  have "0 < unat d" using assms(6) by (simp add: word_less_nat_alt)
  moreover have "is_expired_at ?a b \<noteq> Some True"
    using is_expired_at_iff [of ?a b d] assms(5) calculation by simp
  ultimately show ?thesis using assms
    by (simp add: in_window_def advance_to_Some [OF assms(1)] active_after_def activated_def)
qed

end
