(* ===== verification/Server_Inv.thy ===== *)
theory Server_Inv
  imports Management_Server Emission_Inv Management_Inv Scheduling Scenario_Inv
begin

text \<open>
  The invariant of the whole server.  An operation on one endpoint is lifted to the server by a
  relation between contexts that says what it may do to the connections and the counters; the
  server's invariant then follows for every handler: listener and connection events, deadlines,
  emission and management requests.
\<close>

section \<open>Connections of the server\<close>

definition sheld :: "nat \<Rightarrow> nat \<Rightarrow> connection \<Rightarrow> 'w server \<Rightarrow> bool" where
  "sheld e k c s \<longleftrightarrow> e < length (sv_endpoints s) \<and> k < length (en_connections (sv_endpoints s ! e))
     \<and> en_connections (sv_endpoints s ! e) ! k = Some c"

definition live_connections :: "endpoint list \<Rightarrow> nat" where
  "live_connections endpoints = sum_list (map live endpoints)"

text \<open>
  The PDC side: well-formed endpoints; identifiers that were handed out, with the poll token of
  their slot, and no identifier in two slots; and the accounting of accepted and closed clients.
\<close>

definition pdc_inv :: "'w server \<Rightarrow> bool" where
  "pdc_inv s \<longleftrightarrow>
     0 < length (sv_endpoints s) \<and> length (sv_endpoints s) \<le> MAX_LOGICAL_PMUS
   \<and> (\<forall>e < length (sv_endpoints s). endpoint_inv (sv_endpoints s ! e) \<and> endpoint_wf (en_descriptor (sv_endpoints s ! e)))
   \<and> 0 < sv_next_connection_id s
   \<and> (\<forall>e k c. sheld e k c s \<longrightarrow> 0 < cn_id c \<and> cn_id c < sv_next_connection_id s
        \<and> connection_token (of_nat (length (sv_endpoints s))) (of_nat e) (of_nat k) (cn_id c) = Inr (cn_token c))
   \<and> (\<forall>e k c e' k' c'. sheld e k c s \<and> sheld e' k' c' s \<and> cn_id c = cn_id c' \<longrightarrow> e = e' \<and> k = k')
   \<and> accepted_clients (sv_stats s) = closed_clients (sv_stats s) + of_nat (live_connections (sv_endpoints s))"

text \<open>The controller lags behind the schedule, so the next due sample can always be applied.\<close>

definition controller_inv :: "'w server \<Rightarrow> bool" where
  "controller_inv s \<longleftrightarrow> (case sv_controller s of
       None \<Rightarrow> True
     | Some c \<Rightarrow> ctl_inv c \<and> (\<forall>i. current_sample_index c = Some i \<longrightarrow> i < next_sample_index (sv_scheduler s)))"

definition management_inv :: "'w server \<Rightarrow> bool" where
  "management_inv s \<longleftrightarrow> (case sv_management s of
       None \<Rightarrow> True | Some l \<Rightarrow> mlistener_inv l (sv_next_management_connection_id s))"

definition server_inv :: "'w server \<Rightarrow> bool" where
  "server_inv s \<longleftrightarrow> pdc_inv s \<and> controller_inv s \<and> management_inv s
     \<and> fleet_state (sv_endpoints s) \<noteq> None \<and> sch_data_rate_hz (sv_scheduler s) = 50"

lemma server_invD:
  assumes "server_inv s"
  shows "pdc_inv s" "controller_inv s" "management_inv s" "fleet_state (sv_endpoints s) \<noteq> None"
    "sch_data_rate_hz (sv_scheduler s) = 50"
  using assms by (simp_all add: server_inv_def)

section \<open>Lifting operations of an endpoint\<close>

lemma holds_to_ctx: "e < length (sv_endpoints s) \<Longrightarrow> holds k c (to_ctx e s) = sheld e k c s"
  by (simp add: holds_def sheld_def to_ctx_def)

lemma to_ctx_simps [simp]:
  "cx_endpoint (to_ctx e s) = sv_endpoints s ! e" "cx_next_connection_id (to_ctx e s) = sv_next_connection_id s"
  "cx_stats (to_ctx e s) = sv_stats s" "cx_world (to_ctx e s) = sv_world s"
  by (simp_all add: to_ctx_def)

lemma from_ctx_simps [simp]:
  "sv_endpoints (from_ctx e c s) = (sv_endpoints s)[e := cx_endpoint c]"
  "sv_next_connection_id (from_ctx e c s) = cx_next_connection_id c"
  "sv_stats (from_ctx e c s) = cx_stats c" "sv_world (from_ctx e c s) = cx_world c"
  "sv_controller (from_ctx e c s) = sv_controller s" "sv_scheduler (from_ctx e c s) = sv_scheduler s"
  "sv_management (from_ctx e c s) = sv_management s" "sv_wall_clock (from_ctx e c s) = sv_wall_clock s"
  "sv_next_management_connection_id (from_ctx e c s) = sv_next_management_connection_id s"
  "sv_seed (from_ctx e c s) = sv_seed s" "sv_ready (from_ctx e c s) = sv_ready s"
  "sv_time_health (from_ctx e c s) = sv_time_health s"
  "sv_runtime_metadata (from_ctx e c s) = sv_runtime_metadata s"
  "sv_console_process_identity (from_ctx e c s) = sv_console_process_identity s"
  by (simp_all add: from_ctx_def)

lemma sheld_from_ctx:
  "e < length (sv_endpoints s) \<Longrightarrow> sheld e' k c (from_ctx e x s) = (if e' = e then holds k c x else sheld e' k c s)"
  by (auto simp: sheld_def holds_def nth_list_update)

lemma wp_on_endpoint:
  "i < length (sv_endpoints s) \<Longrightarrow>
     wp (on_endpoint i f) Q E s = wp f (\<lambda>x c. Q x (from_ctx i c s)) E (to_ctx i s)"
  by (simp add: on_endpoint_def wp_def zoom_def split: res.splits prod.splits)

text \<open>What the operations of an endpoint do to its connections: keep, close, or admit under fresh identifiers.\<close>

definition lawful :: "u64 \<Rightarrow> u64 \<Rightarrow> 'w ctx \<Rightarrow> 'w ctx \<Rightarrow> bool" where
  "lawful n e s t \<longleftrightarrow>
     en_descriptor (cx_endpoint t) = en_descriptor (cx_endpoint s)
   \<and> endpoint_inv (cx_endpoint t)
   \<and> cx_next_connection_id s \<le> cx_next_connection_id t
   \<and> accepted_clients (cx_stats t) + closed_clients (cx_stats s) + of_nat (live (cx_endpoint s))
       = accepted_clients (cx_stats s) + closed_clients (cx_stats t) + of_nat (live (cx_endpoint t))
   \<and> (\<forall>k c'. holds k c' t \<longrightarrow> (\<exists>c. holds k c s \<and> same_identity c c')
        \<or> cx_next_connection_id s \<le> cn_id c' \<and> cn_id c' < cx_next_connection_id t
          \<and> connection_token n e (of_nat k) (cn_id c') = Inr (cn_token c'))
   \<and> (\<forall>k k' c c'. holds k c t \<and> holds k' c' t \<and> cn_id c = cn_id c' \<and> cx_next_connection_id s \<le> cn_id c \<longrightarrow> k = k')"

text \<open>Two steps of the accounting, in any commutative group.\<close>

lemma swap_middle: "(a :: 'a::ab_group_add) + x = b + y \<Longrightarrow> a + c + x = b + c + y"
  by (metis add.assoc add.commute)

lemma balance_update:
  fixes a :: "'a::ab_group_add"
  assumes "a' + c + x = a + c' + y" "a = c + l" "l' + x = l + y"
  shows "a' = c' + l'"
proof -
  have "a' + (c + x) = c + l + c' + y" using assms(1,2) by (simp add: add.assoc)
  also have "\<dots> = c + c' + (l + y)" by (simp add: ac_simps)
  also have "\<dots> = (c' + l') + (c + x)" by (simp add: assms(3) [symmetric] ac_simps)
  finally show ?thesis by (rule add_right_imp_eq)
qed

lemma admits_lawful:
  assumes "admits n e s t" "accepting t"
  shows "lawful n e s t"
proof -
  have a: "accepted_clients (cx_stats t) + of_nat (live (cx_endpoint s)) = accepted_clients (cx_stats s) + of_nat (live (cx_endpoint t))"
    "closed_clients (cx_stats t) = closed_clients (cx_stats s)"
    "\<exists>cs. cx_endpoint t = (cx_endpoint s)\<lparr>en_connections := cs\<rparr>"
    "unat (cx_next_connection_id s) \<le> unat (cx_next_connection_id t)"
    using assms(1) by (simp_all add: admits_def)
  have "accepted_clients (cx_stats t) + closed_clients (cx_stats s) + of_nat (live (cx_endpoint s))
       = accepted_clients (cx_stats s) + closed_clients (cx_stats t) + of_nat (live (cx_endpoint t))"
    using a(1,2) swap_middle by metis
  moreover have "en_descriptor (cx_endpoint t) = en_descriptor (cx_endpoint s)" using a(3) by auto
  moreover have "cx_next_connection_id s \<le> cx_next_connection_id t" using a(4) by (simp add: word_le_nat_alt)
  moreover have "(\<exists>c. holds k c s \<and> same_identity c c')
        \<or> cx_next_connection_id s \<le> cn_id c' \<and> cn_id c' < cx_next_connection_id t
          \<and> connection_token n e (of_nat k) (cn_id c') = Inr (cn_token c')" if "holds k c' t" for k c'
    using assms(1) that unfolding admits_def same_identity_def by blast
  moreover have "k = k'" if "holds k c t" "holds k' c' t" "cn_id c = cn_id c'" "cx_next_connection_id s \<le> cn_id c" for k k' c c'
    using assms(1) that unfolding admits_def by blast
  moreover have "endpoint_inv (cx_endpoint t)" using assms(2) by (simp add: accepting_def)
  ultimately show ?thesis unfolding lawful_def by blast
qed

lemma advances_lawful:
  assumes "advances s t" and old: "\<And>k c. holds k c s \<Longrightarrow> cn_id c < cx_next_connection_id s"
  shows "lawful n e s t"
proof -
  have ev: "evolves s t" and inv: "endpoint_inv (cx_endpoint t)" using assms(1) by (simp_all add: advances_def)
  have old': "\<exists>c. holds k c s \<and> same_identity c c'" if "holds k c' t" for k c'
    using evolves_holds [OF ev that] by blast
  have fresh: "\<not> cx_next_connection_id s \<le> cn_id c'" if "holds k c' t" for k c'
  proof -
    from old' [OF that] obtain c where "holds k c s" "cn_id c' = cn_id c" by (auto simp: same_identity_def)
    then show ?thesis using old [of k c] by simp
  qed
  have "en_descriptor (cx_endpoint t) = en_descriptor (cx_endpoint s)"
    and "cx_next_connection_id s = cx_next_connection_id t"
    and "accepted_clients (cx_stats t) + closed_clients (cx_stats s) + of_nat (live (cx_endpoint s))
       = accepted_clients (cx_stats s) + closed_clients (cx_stats t) + of_nat (live (cx_endpoint t))"
    using ev by (simp_all add: evolves_def add.assoc)
  then show ?thesis
    unfolding lawful_def by (intro conjI allI impI) (use inv fresh old' in \<open>auto\<close>)
qed

lemma sum_list_update_nat:
  "i < length xs \<Longrightarrow> sum_list (map f (xs[i := x])) + f (xs ! i) = sum_list (map f xs) + (f x :: nat)"
  by (induction xs arbitrary: i) (auto split: nat.split)

lemma live_connections_update:
  assumes "e < length es"
  shows "of_nat (live_connections (es[e := en])) + of_nat (live (es ! e)) = of_nat (live_connections es) + (of_nat (live en) :: u64)"
  using sum_list_update_nat [OF assms, of live en] by (simp only: live_connections_def flip: of_nat_add)

lemma lawful_pdc_inv:
  assumes inv: "pdc_inv s" and e: "e < length (sv_endpoints s)"
    and step: "lawful (of_nat (length (sv_endpoints s))) (of_nat e) (to_ctx e s) x"
  shows "pdc_inv (from_ctx e x s)"
proof -
  let ?t = "from_ctx e x s" and ?n = "of_nat (length (sv_endpoints s)) :: u64"
  note h = holds_to_ctx [OF e] and sh = sheld_from_ctx [OF e]
  have next_le: "sv_next_connection_id s \<le> cx_next_connection_id x" using step by (simp add: lawful_def)
  have old: "0 < cn_id c \<and> cn_id c < sv_next_connection_id s \<and> connection_token ?n (of_nat e') (of_nat k) (cn_id c) = Inr (cn_token c)"
    if "sheld e' k c s" for e' k c using inv that unfolding pdc_inv_def by blast
  have uniq: "e1 = e2 \<and> k1 = k2" if "sheld e1 k1 c1 s" "sheld e2 k2 c2 s" "cn_id c1 = cn_id c2" for e1 e2 k1 k2 c1 c2
    using inv that unfolding pdc_inv_def by blast
  have new: "(\<exists>c. sheld e k c s \<and> same_identity c c')
        \<or> sv_next_connection_id s \<le> cn_id c' \<and> cn_id c' < cx_next_connection_id x
          \<and> connection_token ?n (of_nat e) (of_nat k) (cn_id c') = Inr (cn_token c')" if "holds k c' x" for k c'
    using step that unfolding lawful_def h by simp
  have ids: "0 < cn_id c \<and> cn_id c < cx_next_connection_id x \<and> connection_token ?n (of_nat e') (of_nat k) (cn_id c) = Inr (cn_token c)"
    if "sheld e' k c ?t" for e' k c
  proof (cases "e' = e")
    case True
    then have "holds k c x" using that sh by simp
    from new [OF this] show ?thesis
    proof
      assume "\<exists>c1. sheld e k c1 s \<and> same_identity c1 c"
      then obtain c1 where "sheld e k c1 s" "cn_id c = cn_id c1" "cn_token c = cn_token c1"
        by (auto simp: same_identity_def)
      then show ?thesis using old [of e k c1] next_le True by auto
    next
      assume *: "sv_next_connection_id s \<le> cn_id c \<and> cn_id c < cx_next_connection_id x
          \<and> connection_token ?n (of_nat e) (of_nat k) (cn_id c) = Inr (cn_token c)"
      have "0 < sv_next_connection_id s" using inv by (simp add: pdc_inv_def)
      then show ?thesis using * True by auto
    qed
  next
    case False
    then show ?thesis using that sh old [of e' k c] next_le by auto
  qed
  have fresh: "cn_id c1 < sv_next_connection_id s \<Longrightarrow> \<exists>c. sheld e k c s \<and> cn_id c = cn_id c1" if "holds k c1 x" for k c1
    using new [OF that] by (auto simp: same_identity_def)
  have uniq': "e1 = e2 \<and> k1 = k2" if a: "sheld e1 k1 c1 ?t" "sheld e2 k2 c2 ?t" "cn_id c1 = cn_id c2" for e1 e2 k1 k2 c1 c2
  proof (cases "cn_id c1 < sv_next_connection_id s")
    case True
    have "\<exists>c. sheld e1 k1 c s \<and> cn_id c = cn_id c1" "\<exists>c. sheld e2 k2 c s \<and> cn_id c = cn_id c1"
      using fresh [of k1 c1] fresh [of k2 c2] a True by (auto simp: sh split: if_splits)
    then show ?thesis using uniq by metis
  next
    case False
    then have "e1 = e" "e2 = e" using a old [of e1 k1 c1] old [of e2 k2 c2] by (auto simp: sh split: if_splits)
    moreover have "holds k1 c1 x" "holds k2 c2 x" using a calculation by (simp_all add: sh)
    ultimately show ?thesis using step a(3) False unfolding lawful_def to_ctx_simps by (metis not_le)
  qed
  have count: "accepted_clients (cx_stats x) + closed_clients (sv_stats s) + of_nat (live (sv_endpoints s ! e))
       = accepted_clients (sv_stats s) + closed_clients (cx_stats x) + of_nat (live (cx_endpoint x))"
    using step by (simp add: lawful_def)
  have "accepted_clients (cx_stats x)
      = closed_clients (cx_stats x) + of_nat (live_connections ((sv_endpoints s)[e := cx_endpoint x]))"
  proof -
    have acc: "accepted_clients (sv_stats s) = closed_clients (sv_stats s) + of_nat (live_connections (sv_endpoints s))"
      using inv by (simp add: pdc_inv_def)
    show ?thesis by (rule balance_update [OF count acc live_connections_update [OF e]])
  qed
  moreover have "endpoint_inv ((sv_endpoints s)[e := cx_endpoint x] ! e') \<and> endpoint_wf (en_descriptor ((sv_endpoints s)[e := cx_endpoint x] ! e'))"
    if "e' < length (sv_endpoints s)" for e'
    using inv step that e by (cases "e' = e") (auto simp: pdc_inv_def lawful_def)
  moreover have "0 < cx_next_connection_id x" using inv next_le by (auto simp: pdc_inv_def)
  ultimately show ?thesis
    using inv ids uniq' unfolding pdc_inv_def by (simp del: from_ctx_def) blast
qed

text \<open>The parts of the server that the handlers of one endpoint leave alone.\<close>

definition keeps :: "'w server \<Rightarrow> 'w server \<Rightarrow> bool" where
  "keeps s t \<longleftrightarrow> map en_descriptor (sv_endpoints t) = map en_descriptor (sv_endpoints s)
     \<and> sv_controller t = sv_controller s \<and> sv_scheduler t = sv_scheduler s
     \<and> sv_management t = sv_management s \<and> sv_next_management_connection_id t = sv_next_management_connection_id s"

lemma keeps_refl: "keeps s s"
  by (simp add: keeps_def)

lemma keeps_trans: "keeps s t \<Longrightarrow> keeps t u \<Longrightarrow> keeps s u"
  by (simp add: keeps_def)

lemma keeps_length: "keeps s t \<Longrightarrow> length (sv_endpoints t) = length (sv_endpoints s)"
  unfolding keeps_def by (metis length_map)

lemma fleet_state_cong: "map en_descriptor es = map en_descriptor es' \<Longrightarrow> fleet_state es = fleet_state es'"
  by (cases es; cases es') (auto simp: fleet_state_def)

definition carried :: "'w server \<Rightarrow> 'w server \<Rightarrow> bool" where
  "carried s t \<longleftrightarrow> server_inv t \<and> keeps s t"

lemma carriedD:
  assumes "carried s t"
  shows "server_inv t" "length (sv_endpoints t) = length (sv_endpoints s)"
  using assms keeps_length by (auto simp: carried_def)

lemma carried_refl: "server_inv s \<Longrightarrow> carried s s"
  by (simp add: carried_def keeps_refl)

lemma carried_trans: "carried s t \<Longrightarrow> carried t u \<Longrightarrow> carried s u"
  by (auto simp: carried_def intro: keeps_trans)

lemma lawful_server_inv:
  assumes inv: "server_inv s" and e: "e < length (sv_endpoints s)"
    and step: "lawful (of_nat (length (sv_endpoints s))) (of_nat e) (to_ctx e s) x"
  shows "carried s (from_ctx e x s)"
proof -
  have "en_descriptor (cx_endpoint x) = en_descriptor (sv_endpoints s ! e)"
    using step by (simp add: lawful_def)
  then have "map en_descriptor ((sv_endpoints s)[e := cx_endpoint x]) = map en_descriptor (sv_endpoints s)"
    by (simp add: map_update list_update_same_conv e)
  then have k: "keeps s (from_ctx e x s)" by (simp add: keeps_def)
  moreover have "pdc_inv (from_ctx e x s)" by (rule lawful_pdc_inv [OF server_invD(1) [OF inv] e step])
  moreover have "controller_inv (from_ctx e x s) = controller_inv s" "management_inv (from_ctx e x s) = management_inv s"
    by (simp_all add: controller_inv_def management_inv_def cong: option.case_cong)
  moreover have "fleet_state (sv_endpoints (from_ctx e x s)) = fleet_state (sv_endpoints s)"
    by (rule fleet_state_cong) (use k in \<open>simp add: keeps_def\<close>)
  ultimately show ?thesis
    using inv unfolding carried_def server_inv_def by (simp del: from_ctx_simps(1))
qed

lemma old_ids:
  "server_inv s \<Longrightarrow> e < length (sv_endpoints s) \<Longrightarrow> holds k c (to_ctx e s) \<Longrightarrow> cn_id c < sv_next_connection_id s"
  by (auto simp: server_inv_def pdc_inv_def holds_to_ctx)

lemma endpoint_of:
  "server_inv s \<Longrightarrow> e < length (sv_endpoints s) \<Longrightarrow>
     endpoint_inv (sv_endpoints s ! e) \<and> endpoint_wf (en_descriptor (sv_endpoints s ! e))"
  by (simp add: server_inv_def pdc_inv_def)

lemma wp_on_endpoint_advances:
  assumes inv: "server_inv s" and e: "e < length (sv_endpoints s)"
    and f: "wp f (\<lambda>_. advances (to_ctx e s)) E (to_ctx e s)"
  shows "wp (on_endpoint e f) (\<lambda>_. carried s) E s"
  unfolding wp_on_endpoint [OF e]
  by (rule wp_mono [OF f]) (auto intro!: lawful_server_inv [OF inv e] advances_lawful old_ids [OF inv e])

lemma wp_on_endpoint_admits:
  assumes inv: "server_inv s" and e: "e < length (sv_endpoints s)"
    and f: "wp f (\<lambda>_ t. admits (of_nat (length (sv_endpoints s))) (of_nat e) (to_ctx e s) t \<and> accepting t) E (to_ctx e s)"
  shows "wp (on_endpoint e f) (\<lambda>_. carried s) E s"
  unfolding wp_on_endpoint [OF e]
  by (rule wp_mono [OF f]) (auto intro!: lawful_server_inv [OF inv e] admits_lawful)

section \<open>Handlers of listeners, connections and deadlines\<close>

text \<open>
  What the handlers rely on: reads and writes stay within their slices, the backlog of a listener is
  finite, and the catalog can be written as JSON.
\<close>

definition codec_total :: "codec \<Rightarrow> bool" where
  "codec_total ex \<longleftrightarrow> (\<forall>cat. ex_catalog ex cat \<noteq> None)"

definition environment :: "'w os \<Rightarrow> codec \<Rightarrow> ('w \<Rightarrow> nat) \<Rightarrow> bool" where
  "environment os ex m \<longleftrightarrow> io_bounded os \<and> backlog os m \<and> codec_total ex"

lemma wp_dispatch_listener:
  assumes env: "environment os ex m" and inv: "server_inv s" and e: "e < length (sv_endpoints s)"
  shows "wp (dispatch_listener os e readable) (\<lambda>_. carried s) environment_error s"
proof -
  have "accepting (to_ctx e s)"
    using endpoint_of [OF inv e] old_ids [OF inv e] by (simp add: accepting_def)
  then have "wp (on_endpoint e (accept_connections os (of_nat (length (sv_endpoints s))) (of_nat e)))
      (\<lambda>_. carried s) environment_error s"
    using env by (intro wp_on_endpoint_admits inv e wp_accept_connections [where m = m]) (simp_all add: environment_def)
  then show ?thesis by (simp add: dispatch_listener_def carried_refl [OF inv])
qed

lemma wp_dispatch_connection:
  assumes env: "environment os ex m" and inv: "server_inv s" and e: "e < length (sv_endpoints s)" and k: "k < 2"
  shows "wp (dispatch_connection os e k i readable writable) (\<lambda>_. carried s) environment_error s"
  unfolding dispatch_connection_def
  by (rule wp_on_endpoint_advances [OF inv e], rule wp_connection_event)
     (use env endpoint_of [OF inv e] k in \<open>simp_all add: environment_def\<close>)

lemma wp_each_endpoint:
  assumes inv: "server_inv s"
    and f: "\<And>e t. e < length (sv_endpoints s) \<Longrightarrow> carried s t \<Longrightarrow> wp (f e) (\<lambda>_. advances (to_ctx e t)) E (to_ctx e t)"
  shows "wp (for_each [0..<length (sv_endpoints s)] (\<lambda>e. on_endpoint e (f e))) (\<lambda>_. carried s) E s"
proof (rule wp_for_each)
  show "carried s s" by (rule carried_refl [OF inv])
next
  fix e t assume e: "e \<in> set [0..<length (sv_endpoints s)]" and c: "carried s t"
  then have t: "server_inv t" "e < length (sv_endpoints t)" by (simp_all add: carriedD)
  have "wp (on_endpoint e (f e)) (\<lambda>_. carried t) E t"
    by (rule wp_on_endpoint_advances [OF t]) (use e c f in simp)
  then show "wp (on_endpoint e (f e)) (\<lambda>_. carried s) E t"
    by (rule wp_mono) (rule carried_trans [OF c])
qed

lemma wp_expire_connections:
  assumes inv: "server_inv s"
  shows "wp (expire_connections os now) (\<lambda>_. carried s) environment_error s"
proof -
  have "wp (for_each [0..<length (sv_endpoints s)] (\<lambda>e. on_endpoint e (for_each [0..<2] (expire_slot os now))))
      (\<lambda>_. carried s) environment_error s"
  proof (rule wp_each_endpoint [OF inv])
    fix e t assume e: "e < length (sv_endpoints s)" and c: "carried s t"
    then have "server_inv t" "e < length (sv_endpoints t)" by (simp_all add: carriedD)
    then have "endpoint_inv (cx_endpoint (to_ctx e t))" using endpoint_of [of t e] by simp
    from wp_expire_slots [OF this, of os now]
    show "wp (for_each [0..<2] (expire_slot os now)) (\<lambda>_. advances (to_ctx e t)) environment_error (to_ctx e t)"
      by (rule wp_mono) (simp add: purges_def)
  qed
  then show ?thesis by (simp add: expire_connections_def)
qed

end
