(* ===== verification/Request_Inv.thy ===== *)
theory Request_Inv
  imports Server_Inv
begin

text \<open>
  Management requests.  Whatever the request, the server answers it, and apart from the world only
  the controller may change, by at most one of its operations: the one the request names, on a target
  and with a token and label that were admitted.
\<close>

section \<open>Answers\<close>

lemma wp_respond:
  assumes "\<And>r. response = Inr r \<Longrightarrow> r \<noteq> []" and "\<And>r. r \<noteq> [] \<Longrightarrow> Q r s"
  shows "wp (respond ex response) Q E s"
proof -
  obtain r where "management_response_or_internal (ex_error ex) response = Some r" "r \<noteq> []"
    using response_or_internal assms(1) by blast
  then show ?thesis using assms(2) by (simp add: respond_def)
qed

lemma json_nonempty: "json_success status output = Inr r \<Longrightarrow> r \<noteq> []" "json_error ej status code message = Inr r \<Longrightarrow> r \<noteq> []"
  "prometheus_text status body = Inr r \<Longrightarrow> r \<noteq> []"
  by (auto simp: json_success_def json_error_def prometheus_text_def dest: json_response_nonempty encoded_nonempty)

lemmas wp_respond_json = wp_respond [OF json_nonempty(1)] wp_respond [OF json_nonempty(2)] wp_respond [OF json_nonempty(3)]

lemma wp_error_response: "(\<And>r. r \<noteq> [] \<Longrightarrow> Q r s) \<Longrightarrow> wp (management_error_response ex status code message) Q E s"
  by (simp add: management_error_response_def wp_respond_json)

lemma wp_refusals:
  assumes "\<And>r. r \<noteq> [] \<Longrightarrow> Q r s"
  shows "wp (scenario_controller_unavailable_response ex) Q E s" "wp (scenario_request_rejected_response ex) Q E s"
    "wp (invalid_token_response ex) Q E s" "wp (outside_cursor_response ex) Q E s"
  unfolding scenario_controller_unavailable_response_def scenario_request_rejected_response_def
    invalid_token_response_def outside_cursor_response_def
  by (simp_all add: wp_error_response assms)

lemma wp_sv_world [wp_simps]:
  "wp (sv_world_op f) Q E = (\<lambda>s. case f (sv_world s) of (x, w) \<Rightarrow> Q x (s\<lparr>sv_world := w\<rparr>))"
  by (simp add: wp_def sv_world_op_def fun_eq_iff split: prod.splits)

lemma wp_log_scenario_action:
  assumes "\<And>w. Q () (s\<lparr>sv_world := w\<rparr>)"
  shows "wp (log_scenario_action os ex action label value) Q E s"
  using assms assms [of "sv_world s"]
  by (auto simp: log_scenario_action_def wp_simps split: option.splits prod.splits)

section \<open>The operation a request stands for\<close>

fun request_op :: "'w server \<Rightarrow> management_request \<Rightarrow> (instant \<Rightarrow> scenario_op) option" where
  "request_op s RequestState = Some OpSnapshot"
| "request_op s (RequestConsoleState _) = Some OpSnapshot"
| "request_op s (RequestPrepare r) =
     (let target = scenario_target_from_management (rq_target r)
      in if scenario_target_is_admitted (sv_endpoints s) (sv_controller s) target False
         then Some (OpPrepareActivation target (rq_scenario_name r) (rq_actor_label r)) else None)"
| "request_op s (RequestClear r) =
     (let target = scenario_target_from_management (cl_target r)
      in if scenario_target_is_admitted (sv_endpoints s) (sv_controller s) target True
         then Some (OpPrepareClear target (cl_actor_label r)) else None)"
| "request_op s (RequestConfirm r) =
     (if is_ok (validate_actor_label (cf_actor_label r))
      then map_option OpConfirm (activation_token_from_value (cf_token r)) else None)"
| "request_op s (RequestCancel r) =
     (if is_ok (validate_actor_label (ca_actor_label r))
      then map_option OpCancel (activation_token_from_value (ca_token r)) else None)"
| "request_op s _ = None"

definition admitted_op :: "'w server \<Rightarrow> management_request \<Rightarrow> (instant \<Rightarrow> scenario_op) option" where
  "admitted_op s request = (if sv_controller s = None then None else request_op s request)"

definition op_step :: "(instant \<Rightarrow> scenario_op) option \<Rightarrow> 'w server \<Rightarrow> 'w server \<Rightarrow> bool" where
  "op_step op s t \<longleftrightarrow>
     (case op of
        None \<Rightarrow> \<exists>w. t = s\<lparr>sv_world := w\<rparr>
      | Some f \<Rightarrow> \<exists>now c c' w. sv_controller s = Some c \<and> run_op (f now) c = Some c'
                   \<and> t = s\<lparr>sv_controller := Some c', sv_world := w\<rparr>)"

definition room :: "nat \<Rightarrow> 'w server \<Rightarrow> bool" where
  "room k s \<longleftrightarrow> (case sv_controller s of
       None \<Rightarrow> True | Some c \<Rightarrow> unat (revision c) + k * (MAX_SCENARIO_TARGETS + 1) < 2 ^ 64)"

lemma op_step_world: "op_step op s t \<Longrightarrow> op_step op s (t\<lparr>sv_world := w\<rparr>)"
  by (fastforce simp: op_step_def split: option.splits)

lemma op_step_None: "op_step None s s"
  unfolding op_step_def option.case by (rule exI [of _ "sv_world s"]) simp

lemma controller_total:
  assumes "server_inv s" "room (Suc k) s" "sv_controller s = Some c"
  shows "run_op op c \<noteq> None"
  using assms by (intro run_op_total) (auto simp: server_inv_def controller_inv_def room_def)

lemma wp_on_controller:
  assumes c: "sv_controller s = Some c" and total: "\<And>now. run_op (op now) c \<noteq> None"
    and f: "\<And>now. run_op (op now) c = map_option snd (f now c)"
    and Q: "\<And>now r c' w. f now c = Some (r, c') \<Longrightarrow> run_op (op now) c = Some c' \<Longrightarrow> Q r (s\<lparr>sv_controller := Some c', sv_world := w\<rparr>)"
  shows "wp (on_controller os f) Q E s"
proof -
  obtain now w where n: "os_now os (sv_world s) = (now, w)" by (cases "os_now os (sv_world s)")
  obtain r c' where r: "f now c = Some (r, c')" "run_op (op now) c = Some c'"
    using total [of now] f [of now] by auto
  have swap: "s\<lparr>sv_world := w, sv_controller := Some c'\<rparr> = s\<lparr>sv_controller := Some c', sv_world := w\<rparr>" by simp
  show ?thesis
    using Q [OF r, of w] by (simp add: on_controller_def wp_simps c n r swap)
qed

definition answered :: "(instant \<Rightarrow> scenario_op) option \<Rightarrow> 'w server \<Rightarrow> bytes \<Rightarrow> 'w server \<Rightarrow> bool" where
  "answered op s r t \<longleftrightarrow> r \<noteq> [] \<and> op_step op s t"

lemma answered_op:
  "sv_controller s = Some c \<Longrightarrow> run_op (f now) c = Some c' \<Longrightarrow> r \<noteq> [] \<Longrightarrow>
     answered (Some f) s r (s\<lparr>sv_controller := Some c', sv_world := w\<rparr>)"
  by (auto simp: answered_def op_step_def)

lemma answered_world: "r \<noteq> [] \<Longrightarrow> answered None s r s"
  by (simp add: answered_def op_step_None)

lemma wp_apply_scenario:
  assumes c: "sv_controller s = Some c" and total: "\<And>now. run_op (op now) c \<noteq> None"
    and f: "\<And>now. run_op (op now) c = map_option snd (f now c)"
  shows "wp (apply_scenario os ex action label f to_value) (answered (Some op) s) E s"
  unfolding apply_scenario_def wp_bind
proof (rule wp_on_controller [where op = op and f = f, OF c])
  show "run_op (op now) c \<noteq> None" "run_op (op now) c = map_option snd (f now c)" for now by (fact total f)+
next
  fix now r c' w assume "f now c = Some (r, c')" and r: "run_op (op now) c = Some c'"
  let ?t = "s\<lparr>sv_controller := Some c', sv_world := w\<rparr>"
  show "wp (case r of
         Inl _ \<Rightarrow> scenario_request_rejected_response ex
       | Inr snap \<Rightarrow>
           bind_p (log_scenario_action os ex action label (to_value snap)) (\<lambda>_.
           respond ex (json_success StatusAccepted (ex_value ex (to_value snap)))))
     (answered (Some op) s) E ?t"
  proof (cases r)
    case (Inl e)
    then show ?thesis using answered_op [where f = op, OF c r] by (simp add: wp_refusals)
  next
    case (Inr snap)
    have "wp (log_scenario_action os ex action label (to_value snap))
        (\<lambda>_. wp (respond ex (json_success StatusAccepted (ex_value ex (to_value snap)))) (answered (Some op) s) E) E ?t"
      by (rule wp_log_scenario_action) (simp add: wp_respond_json answered_op [where f = op, OF c r])
    then show ?thesis by (simp add: Inr)
  qed
qed

section \<open>Every request is answered\<close>

lemma content_total: "codec_total ex \<Longrightarrow> content_sha256 ex cat \<noteq> None"
  by (simp add: codec_total_def content_sha256_def)

definition answerable :: "'w server \<Rightarrow> bool" where
  "answerable s \<longleftrightarrow> fleet_state (sv_endpoints s) \<noteq> None \<and> (\<forall>c op. sv_controller s = Some c \<longrightarrow> run_op op c \<noteq> None)"

lemma server_answerable: "server_inv s \<Longrightarrow> room (Suc k) s \<Longrightarrow> answerable s"
  using controller_total by (auto simp: answerable_def dest: server_invD(4))

lemma answerableD: "answerable s \<Longrightarrow> sv_controller s = Some c \<Longrightarrow> run_op op c \<noteq> None"
  by (simp add: answerable_def)

lemma wp_prepare_scenario:
  assumes "answerable s" and f: "\<And>now c. run_op (op now) c = map_option snd (f now c)"
  shows "wp (prepare_scenario os ex action target allows label f)
    (answered (if sv_controller s \<noteq> None \<and> scenario_target_is_admitted (sv_endpoints s) (sv_controller s) target allows
               then Some op else None) s) E s"
proof (cases "sv_controller s \<noteq> None \<and> scenario_target_is_admitted (sv_endpoints s) (sv_controller s) target allows")
  case True
  then obtain c where c: "sv_controller s = Some c" by auto
  have "wp (apply_scenario os ex action label f PreparedValue) (answered (Some op) s) E s"
    by (rule wp_apply_scenario [where op = op and f = f, OF c answerableD [OF assms(1) c] f])
  then show ?thesis using True by (auto simp: prepare_scenario_def)
next
  case False
  then show ?thesis
    by (auto simp: prepare_scenario_def answered_world intro!: wp_refusals)
qed

lemma wp_token_scenario:
  assumes "answerable s" and f: "\<And>token now c. run_op (op token now) c = map_option snd (f token now c)"
  shows "wp (token_scenario os ex action raw label f to_value)
    (answered (if sv_controller s \<noteq> None \<and> is_ok (validate_actor_label label)
               then map_option op (activation_token_from_value raw) else None) s) E s"
proof (cases "activation_token_from_value raw")
  case None
  then show ?thesis by (simp add: token_scenario_def wp_refusals answered_world)
next
  case (Some token)
  show ?thesis
  proof (cases "sv_controller s \<noteq> None \<and> is_ok (validate_actor_label label)")
    case True
    then obtain c where c: "sv_controller s = Some c" by auto
    have "wp (apply_scenario os ex action label (f token) to_value) (answered (Some (op token)) s) E s"
      by (rule wp_apply_scenario [where op = "op token" and f = "f token", OF c answerableD [OF assms(1) c] f])
    then show ?thesis using True Some by (auto simp: token_scenario_def)
  next
    case False
    then show ?thesis
      by (auto simp: token_scenario_def Some answered_world intro!: wp_refusals)
  qed
qed

lemma wp_snapshot:
  assumes "answerable s" and c: "sv_controller s = Some c"
    and Q: "\<And>now r c' w. run_op (OpSnapshot now) c = Some c' \<Longrightarrow> Q r (s\<lparr>sv_controller := Some c', sv_world := w\<rparr>)"
  shows "wp (on_controller os snapshot) Q E s"
proof (rule wp_on_controller [where op = OpSnapshot and f = snapshot, OF c answerableD [OF assms(1) c]])
  show "run_op (OpSnapshot now) c = map_option snd (snapshot now c)" for now by simp
qed (rule Q)

lemma wp_state_response:
  assumes "answerable s"
  shows "wp (management_state_response os ex) (answered (admitted_op s RequestState) s) E s"
proof -
  let ?op = "admitted_op s RequestState"
  let ?rest = "\<lambda>snap. bind_p (gets (\<lambda>s. s)) (\<lambda>s.
     bind_p (expect (fleet_state (sv_endpoints s))) (\<lambda>fleet.
     case json_success StatusOk (ex_value ex (state_value s fleet snap)) of
       Inl (ResponseBodyTooLarge _ _) \<Rightarrow>
         management_error_response ex StatusNotAcceptable ''legacy_state_response_too_large''
           ''legacy state response exceeds the 64 KiB limit; request GET /v1/state?format=console-v1 for the full lossless paged representation''
     | r \<Rightarrow> respond ex r))"
  obtain fleet where fleet: "fleet_state (sv_endpoints s) = Some fleet" using assms by (auto simp: answerable_def)
  have rest: "wp (?rest snap) (answered ?op s) E t"
    if t: "sv_endpoints t = sv_endpoints s" "\<And>r. r \<noteq> [] \<Longrightarrow> answered ?op s r t" for snap t
  proof (cases "json_success StatusOk (ex_value ex (state_value t fleet snap))")
    case (Inl e)
    then show ?thesis
      by (cases e) (auto simp: t fleet intro!: wp_respond wp_error_response)
  next
    case (Inr r)
    then have "r \<noteq> []" by (rule json_nonempty)
    then show ?thesis by (auto simp: Inr t fleet intro!: wp_respond)
  qed
  show ?thesis
  proof (cases "sv_controller s")
    case None
    have "wp (?rest None) (answered ?op s) E s"
      by (rule rest) (simp_all add: admitted_op_def None answered_world)
    then show ?thesis by (simp add: management_state_response_def None)
  next
    case (Some c)
    have "wp (on_controller os snapshot) (\<lambda>snap. wp (?rest (Some snap)) (answered ?op s) E) E s"
    proof (rule wp_snapshot [OF assms Some], rule rest)
      fix now r c' w and bs :: bytes
      assume "run_op (OpSnapshot now) c = Some c'" "bs \<noteq> []"
      then show "answered ?op s bs (s\<lparr>sv_controller := Some c', sv_world := w\<rparr>)"
        using answered_op [where f = OpSnapshot, OF Some] by (simp add: admitted_op_def Some)
    qed simp
    then show ?thesis by (simp add: management_state_response_def Some)
  qed
qed

lemma wp_console_state_response:
  assumes "answerable s" and codec: "codec_total ex"
  shows "wp (management_console_state_response os ex cursor) (answered (admitted_op s (RequestConsoleState cursor)) s) E s"
proof (cases "sv_controller s")
  case None
  then show ?thesis
    by (simp add: management_console_state_response_def wp_refusals admitted_op_def answered_world)
next
  case (Some c)
  let ?op = "admitted_op s (RequestConsoleState cursor)"
  obtain fleet where fleet: "fleet_state (sv_endpoints s) = Some fleet" using assms by (auto simp: answerable_def)
  show ?thesis
    unfolding management_console_state_response_def wp_bind wp_combinators Some option.case
  proof (rule wp_snapshot [OF assms(1) Some])
    fix now snap c' w
    assume r: "run_op (OpSnapshot now) c = Some c'"
    let ?t = "s\<lparr>sv_controller := Some c', sv_world := w\<rparr>"
    have ok: "r \<noteq> [] \<Longrightarrow> answered ?op s r ?t" for r
      using answered_op [where f = OpSnapshot, OF Some r] by (simp add: admitted_op_def Some)
    obtain h where h: "content_sha256 ex (catalog c') = Some h" using content_total [OF codec, of "catalog c'"] by auto
    show "wp (expect (sv_controller ?t)) (\<lambda>x. wp (expect (content_sha256 ex (catalog x)))
      (\<lambda>sha256. (\<lambda>s'. wp (if stale_cursor cursor (sv_console_process_identity s') (revision x)
           then management_error_response ex StatusBadRequest ''stale_console_cursor''
                  ''console state changed; reload is required''
           else case management_console_lifecycle_page snap (cursor_offset cursor) of
                  None \<Rightarrow> outside_cursor_response ex
                | Some (page, next_offset) \<Rightarrow>
                    if cursor \<noteq> None \<and> page_is_empty page then outside_cursor_response ex
                    else bind_p (expect (fleet_state (sv_endpoints s'))) (\<lambda>fleet.
                         respond ex (json_success StatusOk (ex_value ex (console_value s' fleet (revision x) sha256 page
                           (map_option (\<lambda>n. console_cursor (sv_console_process_identity s') (revision x) (of_nat n))
                              next_offset)))))) (answered ?op s) E s')) E) E ?t"
      by (simp add: h fleet wp_refusals wp_error_response wp_respond_json ok split: option.splits prod.splits)
  qed
qed

text \<open>The result: an answer, and at most the admitted operation on the controller.\<close>

lemma wp_management_request_response:
  assumes "answerable s" and "codec_total ex"
  shows "wp (management_request_response os ex request) (answered (admitted_op s request) s) E s"
proof (cases request)
  case RequestState
  then show ?thesis using wp_state_response [OF assms(1)] by simp
next
  case (RequestConsoleState cursor)
  then show ?thesis using wp_console_state_response [OF assms] by simp
next
  case (RequestPrepare r)
  show ?thesis unfolding RequestPrepare management_request_response.simps Let_def
    by (rule wp_mono, rule wp_prepare_scenario [OF assms(1), where op = "OpPrepareActivation
          (scenario_target_from_management (rq_target r)) (rq_scenario_name r) (rq_actor_label r)"])
       (auto simp: admitted_op_def Let_def split: if_splits)
next
  case (RequestClear r)
  show ?thesis unfolding RequestClear management_request_response.simps Let_def
    by (rule wp_mono, rule wp_prepare_scenario [OF assms(1), where op = "OpPrepareClear
          (scenario_target_from_management (cl_target r)) (cl_actor_label r)"])
       (auto simp: admitted_op_def Let_def split: if_splits)
next
  case (RequestConfirm r)
  show ?thesis unfolding RequestConfirm management_request_response.simps
    by (rule wp_mono, rule wp_token_scenario [OF assms(1), where op = OpConfirm])
       (auto simp: admitted_op_def split: if_splits)
next
  case (RequestCancel r)
  show ?thesis unfolding RequestCancel management_request_response.simps
    by (rule wp_mono, rule wp_token_scenario [OF assms(1), where op = OpCancel])
       (auto simp: admitted_op_def split: if_splits)
next
  case RequestCatalog
  show ?thesis
  proof (cases "sv_controller s")
    case None
    then show ?thesis
      by (simp add: RequestCatalog management_catalog_response_def admitted_op_def answered_world wp_refusals)
  next
    case (Some c)
    obtain h where "content_sha256 ex (catalog c) = Some h"
      using content_total [OF assms(2), of "catalog c"] by auto
    then show ?thesis
      by (simp add: RequestCatalog management_catalog_response_def admitted_op_def answered_world wp_respond_json Some)
  qed
qed (auto simp: management_metrics_response_def admitted_op_def wp_respond_json answered_world)

end
