(* ===== verification/Round_Inv.thy ===== *)
theory Round_Inv
  imports Request_Inv
begin

text \<open>
  The rounds of the main loop: events of management connections, the dispatch of every event, due
  samples, and the composition of a round.  Each handler keeps the server's invariant, never panics
  and returns; the only errors are those of the operating system.
\<close>

section \<open>Handlers of the management listener\<close>

lemma to_mctx_simps [simp]:
  "mx_listener (to_mctx l s) = l" "mx_next_connection_id (to_mctx l s) = sv_next_management_connection_id s"
  "mx_world (to_mctx l s) = sv_world s"
  by (simp_all add: to_mctx_def)

lemma from_mctx_simps [simp]:
  "sv_management (from_mctx c s) = Some (mx_listener c)"
  "sv_next_management_connection_id (from_mctx c s) = mx_next_connection_id c" "sv_world (from_mctx c s) = mx_world c"
  "sv_endpoints (from_mctx c s) = sv_endpoints s" "sv_controller (from_mctx c s) = sv_controller s"
  "sv_scheduler (from_mctx c s) = sv_scheduler s" "sv_next_connection_id (from_mctx c s) = sv_next_connection_id s"
  "sv_stats (from_mctx c s) = sv_stats s"
  by (simp_all add: from_mctx_def)

lemma wp_on_management:
  "sv_management s = Some l \<Longrightarrow>
     wp (on_management f) Q E s = wp f (\<lambda>x c. Q x (from_mctx c s)) E (to_mctx l s)"
  by (simp add: on_management_def wp_def zoom_def split: res.splits prod.splits)

lemma wp_if_management:
  "wp (if_management f) Q E s = (case sv_management s of None \<Rightarrow> Q () s | Some l \<Rightarrow> wp (on_management f) Q E s)"
  by (simp add: if_management_def split: option.split)

text \<open>
  The relation all handlers are proved to keep: the invariant holds again, the endpoints are those
  of before up to their connections, the schedule has the same start and the controller has room left.
\<close>

definition handled :: "nat \<Rightarrow> 'w server \<Rightarrow> 'w server \<Rightarrow> bool" where
  "handled k s t \<longleftrightarrow> server_inv t \<and> map en_descriptor (sv_endpoints t) = map en_descriptor (sv_endpoints s)
     \<and> started (sv_scheduler t) = started (sv_scheduler s) \<and> room k t"

lemma handled_trans: "handled j s t \<Longrightarrow> handled k t u \<Longrightarrow> handled k s u"
  by (simp add: handled_def)

lemma handledD:
  assumes "handled k s t"
  shows "server_inv t" "room k t" "length (sv_endpoints t) = length (sv_endpoints s)" "started (sv_scheduler t) = started (sv_scheduler s)"
  using assms by (auto simp: handled_def dest: map_eq_imp_length_eq)

lemma room_less: "room (Suc k) s \<Longrightarrow> room k s"
  by (auto simp: room_def split: option.splits)

lemma carried_handled: "carried s t \<Longrightarrow> room k s \<Longrightarrow> handled k s t"
  by (simp add: carried_def keeps_def handled_def room_def)

lemma pdc_inv_cong:
  assumes "sv_endpoints t = sv_endpoints s" "sv_next_connection_id t = sv_next_connection_id s" "sv_stats t = sv_stats s"
  shows "pdc_inv t = pdc_inv s"
proof -
  have "sheld e i c t = sheld e i c s" for e i c using assms(1) by (simp add: sheld_def)
  then show ?thesis using assms by (simp add: pdc_inv_def)
qed

text \<open>A state in which only the controller, the statistics of ticks or the schedule has moved on.\<close>

lemma controller_handled:
  assumes "server_inv s" "pdc_inv t" "controller_inv t" "room k t" "sv_endpoints t = sv_endpoints s"
    and "sv_management t = sv_management s" "sv_next_management_connection_id t = sv_next_management_connection_id s"
    and "started (sv_scheduler t) = started (sv_scheduler s)" "sch_data_rate_hz (sv_scheduler t) = sch_data_rate_hz (sv_scheduler s)"
  shows "handled k s t"
  using assms by (simp add: handled_def server_inv_def management_inv_def cong: option.case_cong)

text \<open>A state that differs in the management side and the world only.\<close>

lemma managed_handled:
  assumes "server_inv s" "room k s"
    and "sv_endpoints t = sv_endpoints s" "sv_controller t = sv_controller s" "sv_scheduler t = sv_scheduler s"
    and "sv_next_connection_id t = sv_next_connection_id s" "sv_stats t = sv_stats s" "management_inv t"
  shows "handled k s t"
proof -
  have "pdc_inv t = pdc_inv s" by (rule pdc_inv_cong) (fact assms)+
  moreover have "controller_inv t = controller_inv s" "room k t = room k s"
    using assms(4,5) by (simp_all add: controller_inv_def room_def cong: option.case_cong)
  ultimately show ?thesis
    using assms(1-3,5,8) by (simp add: handled_def server_inv_def)
qed

lemma from_mctx_handled:
  assumes "server_inv s" "room k s" "mctx_inv c"
  shows "handled k s (from_mctx c s)"
  by (rule managed_handled [OF assms(1,2)]) (use assms(3) in \<open>simp_all add: management_inv_def\<close>)

lemma handled_refl: "server_inv s \<Longrightarrow> room k s \<Longrightarrow> handled k s s"
  by (simp add: handled_def)

lemma management_invD:
  "server_inv s \<Longrightarrow> sv_management s = Some l \<Longrightarrow> mctx_inv (to_mctx l s)"
  by (simp add: server_inv_def management_inv_def)

lemma wp_dispatch_management_listener:
  assumes inv: "server_inv s" and r: "room k s"
  shows "wp (dispatch_management_listener os readable) (\<lambda>_. handled k s) environment_error s"
proof (cases "sv_management s")
  case None
  then show ?thesis by (simp add: dispatch_management_listener_def wp_if_management handled_refl [OF inv r])
next
  case (Some l)
  have "wp (accept_management_connections os) (\<lambda>_ c. handled k s (from_mctx c s)) environment_error (to_mctx l s)"
    by (rule wp_mono [OF wp_accept_management_connections [OF management_invD [OF inv Some]]])
       (auto simp: madmits_def intro: from_mctx_handled [OF inv r])
  then show ?thesis
    by (simp add: dispatch_management_listener_def wp_if_management wp_on_management [OF Some] Some handled_refl [OF inv r])
qed

text \<open>Closing the connection that is in its slot.\<close>

lemma wp_close_held:
  assumes "mholds slot c s"
  shows "wp (close_management_connection os slot (mc_connection_id c))
     (\<lambda>_ t. mx_listener t = (mx_listener s)\<lparr>ml_connections := (ml_connections (mx_listener s))[slot := None]\<rparr>
        \<and> mx_next_connection_id t = mx_next_connection_id s) environment_error s"
  using assms
  by (auto simp: close_management_connection_def wp_get_mslot wp_simps mheld_def split: prod.splits io.splits)

lemma current_management:
  assumes "current_management_connection s slot i" "server_inv s"
  obtains l c where "sv_management s = Some l" "mheld slot c l" "mc_connection_id c = i" "slot < 8"
    "mlistener_inv l (sv_next_management_connection_id s)" "mconnection_wf c"
proof -
  from assms(1) obtain l c where l: "sv_management s = Some l" "mheld slot c l" "mc_connection_id c = i"
    by (auto simp: current_management_connection_def mheld_def split: option.splits)
  moreover from this(1) have "mlistener_inv l (sv_next_management_connection_id s)"
    using management_invD [OF assms(2)] by simp
  moreover from this l(2) have "slot < 8" "mconnection_wf c" by (auto simp: mlistener_inv_def mheld_def)
  ultimately show thesis using that by blast
qed

text \<open>The connection in a slot replaced by one with the same identity.\<close>

lemma put_connection_handled:
  fixes w :: 'w
  assumes inv: "server_inv s" and r: "room k s" and l: "sv_management s = Some l" "mheld slot c l"
    and c': "mconnection_wf c'" "same_mconnection c c'"
  defines "t \<equiv> s\<lparr>sv_management := Some (l\<lparr>ml_connections := (ml_connections l)[slot := Some c']\<rparr>), sv_world := w\<rparr>"
  shows "handled k s t" "sv_management t = Some (l\<lparr>ml_connections := (ml_connections l)[slot := Some c']\<rparr>)"
    "mheld slot c' (l\<lparr>ml_connections := (ml_connections l)[slot := Some c']\<rparr>)"
proof -
  have "mlistener_inv l (sv_next_management_connection_id s)"
    using management_invD [OF inv l(1)] by simp
  then have "management_inv t"
    using mlistener_inv_update [OF _ l(2) c'] by (simp add: t_def management_inv_def)
  then show "handled k s t" by (rule managed_handled [OF inv r, rotated -1]) (simp_all add: t_def)
  show "mheld slot c' (l\<lparr>ml_connections := (ml_connections l)[slot := Some c']\<rparr>)"
    using l(2) by (auto simp: mheld_def)
qed (simp add: t_def)

section \<open>A request and its response\<close>

lemma admitted_op_not_advance: "\<forall>f now. admitted_op s request = Some f \<longrightarrow> \<not> is_advance (f now)"
  by (cases request) (auto simp: admitted_op_def Let_def split: if_splits)

lemma op_step_handled:
  assumes inv: "server_inv s" and r: "room (Suc k) s" and step: "op_step op s t"
    and op: "\<forall>f now. op = Some f \<longrightarrow> \<not> is_advance (f now)"
  shows "handled k s t" "sv_management t = sv_management s"
    "sv_next_management_connection_id t = sv_next_management_connection_id s"
proof -
  have same: "sv_endpoints t = sv_endpoints s" "sv_next_connection_id t = sv_next_connection_id s" "sv_stats t = sv_stats s"
    "sv_management t = sv_management s" "sv_next_management_connection_id t = sv_next_management_connection_id s"
    "sv_scheduler t = sv_scheduler s"
    using step by (auto simp: op_step_def split: option.splits)
  then have pdc: "pdc_inv t" using pdc_inv_cong server_invD(1) [OF inv] by blast
  show "handled k s t"
  proof (cases op)
    case None
    then have c: "sv_controller t = sv_controller s" using step by (auto simp: op_step_def)
    have "controller_inv t" "room k t"
      using server_invD(2) [OF inv] room_less [OF r] c same(6)
      by (simp_all add: controller_inv_def room_def cong: option.case_cong)
    then show ?thesis by (intro controller_handled inv pdc) (simp_all add: same)
  next
    case (Some f)
    then obtain now c c' w where t: "sv_controller s = Some c" "run_op (f now) c = Some c'"
      "t = s\<lparr>sv_controller := Some c', sv_world := w\<rparr>" using step by (auto simp: op_step_def)
    have c: "ctl_inv c" "\<forall>i. current_sample_index c = Some i \<longrightarrow> i < next_sample_index (sv_scheduler s)"
      using inv t(1) by (simp_all add: server_inv_def controller_inv_def)
    have "current_sample_index c' = current_sample_index c"
      using run_op_keeps_active [OF t(2) c(1)] op Some by (simp add: keeps_active_def)
    then have "controller_inv t"
      using run_op_inv [OF t(2) c(1)] c(2) by (simp add: t(3) controller_inv_def)
    moreover have "room k t"
      using run_op_grows [OF t(2) c(1)] r t(1) by (simp add: t(3) grows_def room_def)
    ultimately show ?thesis by (intro controller_handled inv pdc) (simp_all add: same)
  qed
  show "sv_management t = sv_management s" "sv_next_management_connection_id t = sv_next_management_connection_id s"
    using step by (auto simp: op_step_def split: option.splits)
qed

lemma wp_read_management_slot:
  fixes s :: "'w server"
  assumes env: "environment os ex m" and inv: "server_inv s" and r: "room k s"
    and l: "sv_management s = Some l" "mheld slot c l" "mconnection_wf c"
  shows "wp (read_management_slot os ex slot c)
     (\<lambda>result t. handled k s t \<and> (\<exists>l' c'. sv_management t = Some l' \<and> mheld slot c' l' \<and> same_mconnection c c')
        \<and> (case result of Inl _ \<Rightarrow> True | Inr res \<Rightarrow> result_wf res)) E s"
proof -
  have "wp (read_management_connection os ex)
     (\<lambda>result x. case x of (c', w') \<Rightarrow> received_more c c' \<and> (case result of Inl _ \<Rightarrow> True | Inr res \<Rightarrow> result_wf res
        \<and> (res = ReadIncomplete \<longrightarrow> mc_received c' < MAX_REQUEST_BYTES))) E (c, sv_world s)"
    by (rule wp_read_management_connection [OF _ l(3)]) (use env in \<open>simp add: environment_def\<close>)
  then show ?thesis
    unfolding read_management_slot_def wp_zoom
  proof (rule wp_mono)
    fix result and x :: "management_connection \<times> 'w"
    assume *: "case x of (c', w') \<Rightarrow> received_more c c' \<and> (case result of Inl _ \<Rightarrow> True | Inr res \<Rightarrow> result_wf res
        \<and> (res = ReadIncomplete \<longrightarrow> mc_received c' < MAX_REQUEST_BYTES))"
    obtain c' w' where x: "x = (c', w')" by (cases x)
    have c': "mconnection_wf c'" "same_mconnection c c'" using * received_more_wf [OF _ l(3)] by (auto simp: x)
    from put_connection_handled(1,2) [OF inv r l(1,2) c', of w'] put_connection_handled(3) [OF inv r l(1,2) c'] * c'(2)
    show "handled k s ((\<lambda>(c', w) s. s\<lparr>sv_management := map_option (\<lambda>l. l\<lparr>ml_connections := (ml_connections l)[slot := Some c']\<rparr>)
            (sv_management s), sv_world := w\<rparr>) x s)
       \<and> (\<exists>l' c'. sv_management ((\<lambda>(c', w) s. s\<lparr>sv_management := map_option (\<lambda>l. l\<lparr>ml_connections := (ml_connections l)[slot := Some c']\<rparr>)
            (sv_management s), sv_world := w\<rparr>) x s) = Some l' \<and> mheld slot c' l' \<and> same_mconnection c c')
       \<and> (case result of Inl _ \<Rightarrow> True | Inr res \<Rightarrow> result_wf res)"
      by (auto simp: x l(1) split: sum.splits)
  qed
qed

text \<open>After the readable half the connection is still in its slot, unless it was closed.\<close>

definition occupied :: "nat \<Rightarrow> u64 \<Rightarrow> 'w server \<Rightarrow> bool" where
  "occupied slot i s \<longleftrightarrow> (\<exists>l c. sv_management s = Some l \<and> mheld slot c l \<and> mc_connection_id c = i)"

lemma occupied_current: "occupied slot i s = current_management_connection s slot i"
  by (auto simp: occupied_def current_management_connection_def mheld_def split: option.splits)

lemma wp_queue_response:
  assumes inv: "server_inv s" and r: "room k s" and occ: "occupied slot i s" and ne: "response \<noteq> []"
  shows "wp (queue_response_if_current os slot i response) (\<lambda>_ t. handled k s t \<and> occupied slot i t) environment_error s"
proof -
  obtain l c where l: "sv_management s = Some l" "mheld slot c l" "mc_connection_id c = i" "mconnection_wf c"
      "mlistener_inv l (sv_next_management_connection_id s)"
    using current_management [OF _ inv] occ by (metis occupied_current)
  let ?c = "c\<lparr>mc_response := Some response, mc_response_offset := 0\<rparr>"
  have c': "mconnection_wf ?c" "same_mconnection c ?c" using l(4) ne by (auto simp: mconnection_wf_def same_mconnection_def)
  have "wp (queue_management_response os slot c response)
      (\<lambda>_ x. handled k s (from_mctx x s) \<and> occupied slot i (from_mctx x s)) environment_error (to_mctx l s)"
  proof (rule wp_mono [OF wp_queue_management_response])
    show "mholds slot c (to_mctx l s)" using l(2) by simp
    fix x and t :: "'a mctx" assume u: "mupdated slot (to_mctx l s) ?c t"
    have "mctx_inv t" by (rule mupdated_inv [OF u _ _ c']) (use l in simp_all)
    moreover have "mholds slot ?c t" by (rule mupdated_holds [OF u]) (use l in simp)
    ultimately show "handled k s (from_mctx t s) \<and> occupied slot i (from_mctx t s)"
      using from_mctx_handled [OF inv r, of t] l(3) by (auto simp: occupied_def)
  qed
  moreover have "ml_connections l ! slot = Some c" "slot < length (ml_connections l)" using l(2) by (simp_all add: mheld_def)
  ultimately show ?thesis
    using l(3) by (simp add: queue_response_if_current_def wp_on_management [OF l(1)] wp_get_mslot wp_simps)
qed

lemma wp_close_management:
  assumes inv: "server_inv s" and r: "room k s" and slot: "slot < 8"
  shows "wp (if_management (close_management_connection os slot i)) (\<lambda>_. handled k s) environment_error s"
proof (cases "sv_management s")
  case None
  then show ?thesis by (simp add: wp_if_management handled_refl [OF inv r])
next
  case (Some l)
  have "wp (close_management_connection os slot i) (\<lambda>_ c. handled k s (from_mctx c s)) environment_error (to_mctx l s)"
    by (rule wp_mono [OF wp_close_management_connection [OF management_invD [OF inv Some] slot]])
       (auto intro: from_mctx_handled [OF inv r])
  then show ?thesis by (simp add: wp_if_management wp_on_management [OF Some] Some)
qed

lemma wp_answer_request:
  assumes env: "environment os ex m" and inv: "server_inv s" and r: "room (Suc k) s" and occ: "occupied slot i s"
  shows "wp (bind_p (management_request_response os ex request) (\<lambda>response.
       bind_p (queue_response_if_current os slot i response) (\<lambda>_. ret True)))
     (\<lambda>go_on t. handled k s t \<and> (go_on \<longrightarrow> occupied slot i t)) environment_error s"
  unfolding wp_bind
proof (rule wp_mono [OF wp_management_request_response])
  show "answerable s" by (rule server_answerable [OF inv r])
  show "codec_total ex" using env by (simp add: environment_def)
next
  fix response and t :: "'a server"
  assume "answered (admitted_op s request) s response t"
  then have step: "op_step (admitted_op s request) s t" and ne: "response \<noteq> []" by (simp_all add: answered_def)
  note h = op_step_handled [OF inv r step admitted_op_not_advance]
  have occ': "occupied slot i t" using occ h(2) by (simp add: occupied_def)
  show "wp (queue_response_if_current os slot i response)
      (\<lambda>_. wp (ret True) (\<lambda>go_on t. handled k s t \<and> (go_on \<longrightarrow> occupied slot i t)) environment_error) environment_error t"
    by (rule wp_mono [OF wp_queue_response [OF handledD(1,2) [OF h(1)] occ' ne]])
       (auto dest: handled_trans [OF h(1)])
qed

lemma wp_management_readable:
  fixes s :: "'w server"
  assumes env: "environment os ex m" and inv: "server_inv s" and r: "room (Suc k) s" and occ: "occupied slot i s"
  shows "wp (management_readable os ex slot i) (\<lambda>go_on t. handled k s t \<and> (go_on \<longrightarrow> occupied slot i t))
    environment_error s"
proof -
  let ?Q = "\<lambda>go_on t. handled k s t \<and> (go_on \<longrightarrow> occupied slot i t)"
  obtain l c where l: "sv_management s = Some l" "mheld slot c l" "mc_connection_id c = i" "slot < 8" "mconnection_wf c"
    using current_management [OF _ inv] occ by (metis occupied_current)
  have from_to: "from_mctx (to_mctx l s) s = s" using l(1) by (simp add: from_mctx_def to_mctx_def)
  have get: "wp (on_management (get_mconnection slot)) Q E s = Q c s" for Q :: "_ \<Rightarrow> 'w server \<Rightarrow> bool" and E
    using l(2) by (auto simp: wp_on_management [OF l(1)] wp_get_mconnection mheld_def from_to)
  have "wp (read_management_slot os ex slot c) (\<lambda>result. wp (case result of
            Inr (ReadRequest request) \<Rightarrow>
              bind_p (management_request_response os ex request) (\<lambda>response.
              bind_p (queue_response_if_current os slot i response) (\<lambda>_. ret True))
          | Inr (ReadResponse response) \<Rightarrow>
              bind_p (queue_response_if_current os slot i response) (\<lambda>_. ret True)
          | Inr ReadIncomplete \<Rightarrow> ret True
          | _ \<Rightarrow> bind_p (if_management (close_management_connection os slot i)) (\<lambda>_. ret False)) ?Q environment_error)
      environment_error s"
  proof (rule wp_mono [OF wp_read_management_slot [OF env inv r l(1,2,5)]], elim conjE exE)
    fix result t l' c'
    assume h: "handled (Suc k) s t" and t: "sv_management t = Some l'" "mheld slot c' l'" "same_mconnection c c'"
      and res: "case result of Inl _ \<Rightarrow> True | Inr res \<Rightarrow> result_wf res"
    have occ': "occupied slot i t" using t l(3) by (auto simp: occupied_def same_mconnection_def)
    note ht = handledD(1,2) [OF h]
    have h': "handled k s u" if "handled k t u" for u using handled_trans [OF h that] .
    have closing: "wp (bind_p (if_management (close_management_connection os slot i)) (\<lambda>_. ret False)) ?Q environment_error t"
      unfolding wp_bind
      by (rule wp_mono [OF wp_close_management [OF ht(1) room_less [OF ht(2)] l(4)]]) (simp add: h')
    have queue: "wp (bind_p (queue_response_if_current os slot i response) (\<lambda>_. ret True)) ?Q environment_error t"
      if "response \<noteq> []" for response
      unfolding wp_bind
      by (rule wp_mono [OF wp_queue_response [OF ht(1) room_less [OF ht(2)] occ' that]]) (simp add: h')
    have request: "wp (bind_p (management_request_response os ex request) (\<lambda>response.
        bind_p (queue_response_if_current os slot i response) (\<lambda>_. ret True))) ?Q environment_error t" for request
      by (rule wp_mono [OF wp_answer_request [OF env ht occ']]) (use h' in auto)
    show "wp (case result of
            Inr (ReadRequest request) \<Rightarrow>
              bind_p (management_request_response os ex request) (\<lambda>response.
              bind_p (queue_response_if_current os slot i response) (\<lambda>_. ret True))
          | Inr (ReadResponse response) \<Rightarrow>
              bind_p (queue_response_if_current os slot i response) (\<lambda>_. ret True)
          | Inr ReadIncomplete \<Rightarrow> ret True
          | _ \<Rightarrow> bind_p (if_management (close_management_connection os slot i)) (\<lambda>_. ret False)) ?Q environment_error t"
    proof (cases result)
      case (Inl e)
      then show ?thesis using closing by (simp del: wp_bind)
    next
      case (Inr r')
      show ?thesis
      proof (cases r')
        case (ReadResponse response)
        then show ?thesis using queue res Inr by (simp add: result_wf_def del: wp_bind)
      next
        case ReadIncomplete
        have "handled k s t" using h room_less [OF ht(2)] by (simp add: handled_def)
        then show ?thesis using occ' by (simp add: Inr ReadIncomplete)
      qed (use Inr closing request in \<open>simp_all del: wp_bind\<close>)
    qed
  qed
  then show ?thesis
    unfolding management_readable_def wp_bind get
    using occ handled_refl [OF inv room_less [OF r]] by simp
qed

text \<open>The writable half: a flush that is not to be continued closes the connection.\<close>

lemma wp_management_writable:
  assumes env: "environment os ex m" and inv: "server_inv s" and r: "room k s" and occ: "occupied slot i s"
  shows "wp (bind_p (on_management (flush_management_connection os slot)) (\<lambda>keep_open.
       if keep_open \<noteq> Inr True then if_management (close_management_connection os slot i) else ret ()))
     (\<lambda>_. handled k s) environment_error s"
proof -
  obtain l c where l: "sv_management s = Some l" "mheld slot c l" "mc_connection_id c = i" "slot < 8" "mconnection_wf c"
      "mlistener_inv l (sv_next_management_connection_id s)"
    using current_management [OF _ inv] occ by (metis occupied_current)
  have io: "io_bounded os" using env by (simp add: environment_def)
  have held: "mholds slot c (to_mctx l s)" using l(2) by simp
  have "wp (flush_management_connection os slot) (\<lambda>keep x.
       wp (if keep \<noteq> Inr True then if_management (close_management_connection os slot i) else ret ())
         (\<lambda>_. handled k s) environment_error (from_mctx x s)) environment_error (to_mctx l s)"
  proof (rule wp_mono [OF wp_flush_management_connection [OF io held l(5)]], elim exE conjE)
    fix keep and t :: "'a mctx" and c' and n :: nat
    assume u: "mupdated slot (to_mctx l s) c' t" and same: "same_mconnection c c'"
      and keep: "keep = Inr True \<longrightarrow> mconnection_wf c' \<and> remaining_response c' \<noteq> []"
    have h: "mholds slot c' t" by (rule mupdated_holds [OF u]) (use l in simp)
    have c': "mc_connection_id c' = i" using same l(3) by (simp add: same_mconnection_def)
    show "wp (if keep \<noteq> Inr True then if_management (close_management_connection os slot i) else ret ())
         (\<lambda>_. handled k s) environment_error (from_mctx t s)"
    proof (cases "keep = Inr True")
      case True
      have "mctx_inv t" by (rule mupdated_inv [OF u]) (use l keep True same in simp_all)
      then show ?thesis using from_mctx_handled [OF inv r] True by simp
    next
      case False
      have m: "sv_management (from_mctx t s) = Some (mx_listener t)" by simp
      have again: "to_mctx (mx_listener t) (from_mctx t s) = t" by (simp add: to_mctx_def)
      have "wp (close_management_connection os slot i) (\<lambda>_ x. handled k s (from_mctx x (from_mctx t s))) environment_error t"
      proof (rule wp_mono [OF wp_close_held [OF h, unfolded c']], elim conjE)
        fix x :: "'a mctx"
        assume "mx_listener x = (mx_listener t)\<lparr>ml_connections := (ml_connections (mx_listener t))[slot := None]\<rparr>"
          and n: "mx_next_connection_id x = mx_next_connection_id t"
        then have "mx_listener x = l\<lparr>ml_connections := (ml_connections l)[slot := None]\<rparr>"
          "mx_next_connection_id x = sv_next_management_connection_id s"
          using u by (simp_all add: mupdated_def)
        then have "mctx_inv x" using mlistener_inv_close [OF l(6)] by simp
        moreover have "from_mctx x (from_mctx t s) = from_mctx x s" by (simp add: from_mctx_def)
        ultimately show "handled k s (from_mctx x (from_mctx t s))" using from_mctx_handled [OF inv r] by simp
      qed
      then show ?thesis using False by (simp add: wp_if_management m wp_on_management [OF m] again)
    qed
  qed
  then show ?thesis by (simp only: wp_bind wp_on_management [OF l(1)])
qed

lemma wp_dispatch_management_connection:
  assumes env: "environment os ex m" and inv: "server_inv s" and r: "room (Suc k) s"
  shows "wp (dispatch_management_connection os ex slot i readable writable) (\<lambda>_. handled k s) environment_error s"
proof (cases "current_management_connection s slot i")
  case False
  then show ?thesis by (simp add: dispatch_management_connection_def handled_refl [OF inv room_less [OF r]])
next
  case True
  then have occ: "occupied slot i s" by (simp add: occupied_current)
  let ?w = "\<lambda>go_on. if \<not> go_on \<or> \<not> writable then ret ()
          else bind_p (on_management (flush_management_connection os slot)) (\<lambda>keep_open.
               if keep_open \<noteq> Inr True then if_management (close_management_connection os slot i) else ret ())"
  have "wp (if readable then management_readable os ex slot i else ret True)
      (\<lambda>go_on t. handled k s t \<and> (go_on \<longrightarrow> occupied slot i t)) environment_error s"
    using wp_management_readable [OF env inv r occ] handled_refl [OF inv room_less [OF r]] occ by simp
  then have "wp (if readable then management_readable os ex slot i else ret True)
      (\<lambda>go_on. wp (?w go_on) (\<lambda>_. handled k s) environment_error) environment_error s"
  proof (rule wp_mono, elim conjE)
    fix go_on and t :: "'a server"
    assume h: "handled k s t" and occ': "go_on \<longrightarrow> occupied slot i t"
    show "wp (?w go_on) (\<lambda>_. handled k s) environment_error t"
    proof (cases "\<not> go_on \<or> \<not> writable")
      case False
      then have "occupied slot i t" using occ' by simp
      from wp_mono [OF wp_management_writable [OF env handledD(1,2) [OF h] this] handled_trans [OF h]]
      show ?thesis using False by (simp only: if_False)
    qed (use h in auto)
  qed
  then show ?thesis
    unfolding dispatch_management_connection_def by (simp only: wp_bind wp_combinators True simp_thms if_False)
qed

section \<open>Every event is handled\<close>

lemma small_index: "n \<le> MAX_LOGICAL_PMUS \<Longrightarrow> unat (of_nat n :: u64) = n"
  by (simp add: MAX_LOGICAL_PMUS_def unsigned_of_nat take_bit_nat_eq_self_iff)

lemma event_target_bounds:
  assumes "0 < n" "n \<le> MAX_LOGICAL_PMUS"
  shows "event_target token (of_nat n) = Some (ListenerTarget e) \<Longrightarrow> unat e < n"
    and "event_target token (of_nat n) = Some (ConnectionTarget e k i) \<Longrightarrow> unat e < n \<and> unat k < 2"
proof -
  note n = small_index [OF assms(2)]
  show "event_target token (of_nat n) = Some (ListenerTarget e) \<Longrightarrow> unat e < n"
    using n by (auto simp: event_target_def word_less_nat_alt Let_def bind_eq_Some_conv split: if_splits)
  have m: "unat ((x :: u64) mod of_nat n) < n" "unat (x mod 2) < 2" for x
    using assms(1) n by (simp_all add: unat_mod)
  assume "event_target token (of_nat n) = Some (ConnectionTarget e k i)"
  then obtain x y :: u64 where "e = x mod of_nat n" "k = y mod PDC_SLOTS_PER_ENDPOINT"
    by (auto simp: event_target_def Let_def bind_eq_Some_conv split: if_splits)
  then show "unat e < n \<and> unat k < 2" using m by (simp add: PDC_SLOTS_PER_ENDPOINT_def)
qed

lemma wp_dispatch_event:
  fixes s :: "'w server"
  assumes env: "environment os ex m" and inv: "server_inv s" and r: "room (Suc k) s"
    and n: "n = length (sv_endpoints s)"
  shows "wp (dispatch_event os ex n event) (\<lambda>_. handled k s) environment_error s"
proof -
  obtain token readable writable where e: "event = (token, readable, writable)" by (cases event)
  have size: "0 < n" "n \<le> MAX_LOGICAL_PMUS" using inv n by (simp_all add: server_inv_def pdc_inv_def)
  note r' = room_less [OF r]
  have lift: "wp f (\<lambda>_. carried s) environment_error s \<Longrightarrow> wp f (\<lambda>_. handled k s) environment_error s"
    for f :: "('w, unit) server_action"
    by (erule wp_mono) (rule carried_handled [OF _ r'])
  show ?thesis
  proof (cases "event_target token (of_nat n)")
    case None
    then show ?thesis by (simp add: dispatch_event_def e handled_refl [OF inv r'])
  next
    case (Some target)
    note bounds = event_target_bounds [OF size, of token, unfolded Some]
    show ?thesis
    proof (cases target)
      case (ListenerTarget i)
      then show ?thesis
        using lift [OF wp_dispatch_listener [OF env inv, of "unat i" readable]] bounds(1) n Some
        by (simp add: dispatch_event_def e)
    next
      case (ConnectionTarget i slot c)
      then show ?thesis
        using lift [OF wp_dispatch_connection [OF env inv, of "unat i" "unat slot" c readable writable]] bounds(2) n Some
        by (simp add: dispatch_event_def e)
    next
      case ManagementListenerTarget
      then show ?thesis
        using wp_dispatch_management_listener [OF inv r', of os readable] Some by (simp add: dispatch_event_def e)
    next
      case (ManagementConnectionTarget slot c)
      then show ?thesis
        using wp_dispatch_management_connection [OF env inv r, of "unat slot" c readable writable] Some
        by (simp add: dispatch_event_def e)
    qed
  qed
qed

text \<open>A list of events uses up at most one controller operation each.\<close>

lemma wp_events:
  assumes env: "environment os ex m" and "server_inv s" "room (k + length events) s" "n = length (sv_endpoints s)"
  shows "wp (for_each events (dispatch_event os ex n)) (\<lambda>_. handled k s) environment_error s"
  using assms(2-)
proof (induction events arbitrary: s)
  case Nil
  then show ?case by (simp add: handled_refl)
next
  case (Cons event events)
  have "wp (dispatch_event os ex n event) (\<lambda>_. handled (k + length events) s) environment_error s"
    using Cons.prems by (intro wp_dispatch_event [OF env]) simp_all
  then have "wp (dispatch_event os ex n event)
      (\<lambda>_. wp (for_each events (dispatch_event os ex n)) (\<lambda>_. handled k s) environment_error) environment_error s"
  proof (rule wp_mono)
    fix x :: unit and t assume h: "handled (k + length events) s t"
    have "wp (for_each events (dispatch_event os ex n)) (\<lambda>_. handled k t) environment_error t"
      by (rule Cons.IH) (use handledD [OF h] Cons.prems in simp_all)
    then show "wp (for_each events (dispatch_event os ex n)) (\<lambda>_. handled k s) environment_error t"
      by (rule wp_mono) (rule handled_trans [OF h])
  qed
  then show ?case by simp
qed

section \<open>Samples\<close>

text \<open>The clock readings stay within \<open>2 ^ 58\<close> seconds of the first sample.\<close>

definition uptime_bounded :: "'w os \<Rightarrow> 'w server \<Rightarrow> bool" where
  "uptime_bounded os s \<longleftrightarrow> (\<forall>w. fst (os_now os w) - started (sv_scheduler s) < 2 ^ 58 * 1000000000)"

text \<open>Changes outside the invariant.\<close>

lemma server_inv_cong:
  assumes "sv_endpoints t = sv_endpoints s" "sv_controller t = sv_controller s" "sv_scheduler t = sv_scheduler s"
    and "sv_next_connection_id t = sv_next_connection_id s" "sv_stats t = sv_stats s"
    and "sv_management t = sv_management s" "sv_next_management_connection_id t = sv_next_management_connection_id s"
  shows "server_inv t = server_inv s" "room k t = room k s"
proof -
  have "pdc_inv t = pdc_inv s" by (rule pdc_inv_cong) (fact assms)+
  then show "server_inv t = server_inv s" "room k t = room k s"
    using assms by (simp_all add: server_inv_def controller_inv_def management_inv_def room_def cong: option.case_cong)
qed

lemma wp_observe_time:
  fixes s :: "'w server"
  shows "wp (observe_time os) (\<lambda>_ t. sv_endpoints t = sv_endpoints s \<and> sv_controller t = sv_controller s
     \<and> sv_scheduler t = sv_scheduler s \<and> sv_next_connection_id t = sv_next_connection_id s \<and> sv_stats t = sv_stats s
     \<and> sv_management t = sv_management s \<and> sv_next_management_connection_id t = sv_next_management_connection_id s) E s"
  by (simp add: observe_time_def wp_simps split: prod.splits)

text \<open>A boundary that lies after the last one of the controller and before the next sample of the schedule.\<close>

lemma wp_advance_scenarios:
  assumes inv: "server_inv s" and r: "room (Suc k) s" and i: "i < next_sample_index (sv_scheduler s)"
    and last: "\<And>c j. sv_controller s = Some c \<Longrightarrow> current_sample_index c = Some j \<Longrightarrow> j < i"
  shows "wp (advance_scenarios i) (\<lambda>_ t. handled k s t \<and> sv_endpoints t = sv_endpoints s) environment_error s"
proof (cases "sv_controller s")
  case None
  then show ?thesis by (simp add: advance_scenarios_def handled_refl [OF inv room_less [OF r]])
next
  case (Some c)
  have c: "ctl_inv c" using inv Some by (simp add: server_inv_def controller_inv_def)
  obtain e c' where adv: "advance_boundary i c = Some (e, c')"
    using controller_total [OF inv r Some, of "OpAdvance i"] by auto
  have to: "advance_to i c = Some (e, c')"
    using adv last [OF Some] by (auto simp: advance_boundary_def split: option.splits if_splits)
  have op: "run_op (OpAdvance i) c = Some c'" using adv by simp
  let ?t = "s\<lparr>sv_controller := Some c'\<rparr>"
  have c': "ctl_inv c'" "current_sample_index c' = Some i" and e: "e = Inr ()"
    using run_op_inv [OF op c] advance_to_Some(1,7) [OF to] by simp_all
  have "room k ?t" using run_op_grows [OF op c] r Some by (simp add: grows_def room_def)
  moreover have "controller_inv ?t" using c' i by (simp add: controller_inv_def)
  moreover have "pdc_inv ?t = pdc_inv s" by (rule pdc_inv_cong) simp_all
  ultimately have "handled k s ?t"
    using server_invD(1) [OF inv] by (intro controller_handled inv) simp_all
  then show ?thesis
    by (simp add: advance_scenarios_def Some adv e)
qed

lemma wp_emit_endpoints:
  fixes s :: "'w server"
  assumes env: "environment os ex m" and inv: "server_inv s"
  shows "wp (for_each [0..<length (sv_endpoints s)] (\<lambda>e. on_endpoint e (disconnect_planned os (plans ! e)))) (\<lambda>_. carried s)
      environment_error s"
    and "wp (for_each [0..<length (sv_endpoints s)] (\<lambda>e. on_endpoint e (emit_endpoint os sin32 seed i ts degraded (plans ! e))))
      (\<lambda>_. carried s) environment_error s"
proof -
  have en: "endpoint_inv (cx_endpoint (to_ctx e t)) \<and> endpoint_wf (en_descriptor (cx_endpoint (to_ctx e t)))"
    if "e < length (sv_endpoints s)" "carried s t" for e and t :: "'w server"
    using endpoint_of [of t e] that carriedD [OF that(2)] by simp
  have io: "io_bounded os" using env by (simp add: environment_def)
  show "wp (for_each [0..<length (sv_endpoints s)] (\<lambda>e. on_endpoint e (disconnect_planned os (plans ! e)))) (\<lambda>_. carried s)
      environment_error s"
  proof (rule wp_each_endpoint [OF inv])
    fix e and t :: "'w server" assume e: "e < length (sv_endpoints s)" "carried s t"
    show "wp (disconnect_planned os (plans ! e)) (\<lambda>_. advances (to_ctx e t)) environment_error (to_ctx e t)"
      by (rule wp_mono [OF wp_disconnect_planned]) (use en [OF e] in auto)
  qed
  show "wp (for_each [0..<length (sv_endpoints s)] (\<lambda>e. on_endpoint e (emit_endpoint os sin32 seed i ts degraded (plans ! e))))
      (\<lambda>_. carried s) environment_error s"
  proof (rule wp_each_endpoint [OF inv])
    fix e and t :: "'w server" assume e: "e < length (sv_endpoints s)" "carried s t"
    show "wp (emit_endpoint os sin32 seed i ts degraded (plans ! e)) (\<lambda>_. advances (to_ctx e t)) environment_error (to_ctx e t)"
      by (rule wp_mono [OF wp_emit_endpoint [OF io _ _ refl]]) (use en [OF e] in \<open>auto simp: emitted_def\<close>)
  qed
qed

lemma wp_emit_data:
  fixes s :: "'w server"
  assumes env: "environment os ex m" and inv: "server_inv s" and r: "room (Suc k) s"
    and i: "i < next_sample_index (sv_scheduler s)"
    and last: "\<And>c j. sv_controller s = Some c \<Longrightarrow> current_sample_index c = Some j \<Longrightarrow> j < i"
  shows "wp (emit_data os sin32 i ts) (\<lambda>_. handled k s) environment_error s"
proof -
  let ?plans = "\<lambda>s :: 'w server. map (\<lambda>en. map_option (\<lambda>c. frame_plan c (ep_stream_id (en_descriptor en))) (sv_controller s)) (sv_endpoints s)"
  let ?emit = "\<lambda>plans degraded seed. bind_p (for_each [0..<length plans] (\<lambda>i. on_endpoint i (disconnect_planned os (plans ! i)))) (\<lambda>_.
    for_each [0..<length plans] (\<lambda>e. on_endpoint e (emit_endpoint os sin32 seed i ts degraded (plans ! e))))"
  have emit: "wp (?emit plans degraded seed) (\<lambda>_. handled k s) environment_error t"
    if h: "handled k s t" and n: "length plans = length (sv_endpoints t)" for plans degraded seed and t :: "'w server"
  proof -
    note t = handledD(1,2) [OF h]
    have "wp (for_each [0..<length plans] (\<lambda>i. on_endpoint i (disconnect_planned os (plans ! i))))
      (\<lambda>_. wp (for_each [0..<length plans] (\<lambda>e. on_endpoint e (emit_endpoint os sin32 seed i ts degraded (plans ! e))))
         (\<lambda>_. handled k s) environment_error) environment_error t"
      unfolding n
    proof (rule wp_mono [OF wp_emit_endpoints(1) [OF env t(1)]])
      fix u assume u: "carried t u"
      then have len: "length (sv_endpoints t) = length (sv_endpoints u)" and "server_inv u" by (simp_all add: carriedD)
      then have "wp (for_each [0..<length (sv_endpoints u)] (\<lambda>e. on_endpoint e (emit_endpoint os sin32 seed i ts degraded (plans ! e))))
        (\<lambda>_. carried u) environment_error u" by (intro wp_emit_endpoints(2) [OF env])
      then show "wp (for_each [0..<length (sv_endpoints t)] (\<lambda>e. on_endpoint e (emit_endpoint os sin32 seed i ts degraded (plans ! e))))
        (\<lambda>_. handled k s) environment_error u"
        unfolding len
        by (rule wp_mono) (blast intro: handled_trans [OF h] carried_handled [OF _ t(2)] carried_trans [OF u])
    qed
    then show ?thesis by (simp only: wp_bind)
  qed
  have "wp (advance_scenarios i) (\<lambda>_ t. wp (?emit (?plans t) degraded (sv_seed t)) (\<lambda>_. handled k s) environment_error t)
      environment_error u"
    if u: "handled (Suc k) s u" "sv_controller u = sv_controller s" "sv_scheduler u = sv_scheduler s"
    for degraded and u :: "'w server"
  proof (rule wp_mono [OF wp_advance_scenarios [OF handledD(1,2) [OF u(1)]]])
    show "i < next_sample_index (sv_scheduler u)" using i u(3) by simp
    show "j < i" if "sv_controller u = Some c" "current_sample_index c = Some j" for c j
      using last that u(2) by simp
    fix t :: "'w server" assume "handled k u t \<and> sv_endpoints t = sv_endpoints u"
    then have "handled k s t" using handled_trans [OF u(1)] by blast
    then show "wp (?emit (?plans t) degraded (sv_seed t)) (\<lambda>_. handled k s) environment_error t"
      by (rule emit) simp
  qed
  note advance = this
  show ?thesis
    unfolding emit_data_def wp_bind wp_combinators
  proof (rule wp_mono [OF wp_observe_time], elim conjE)
    fix u :: "'w server"
    assume eq: "sv_endpoints u = sv_endpoints s" "sv_controller u = sv_controller s"
     "sv_scheduler u = sv_scheduler s" "sv_next_connection_id u = sv_next_connection_id s" "sv_stats u = sv_stats s"
     "sv_management u = sv_management s" "sv_next_management_connection_id u = sv_next_management_connection_id s"
    then have "handled (Suc k) s u"
      using inv r server_inv_cong [OF eq] by (simp add: handled_def)
    from advance [OF this eq(2,3)]
    show "wp (advance_scenarios i)
          (\<lambda>x s'. wp (for_each [0..<length (?plans s')] (\<lambda>i. on_endpoint i (disconnect_planned os (?plans s' ! i))))
             (\<lambda>x. wp (for_each [0..<length (?plans s')] (\<lambda>e. on_endpoint e
                (emit_endpoint os sin32 (sv_seed s') i ts (is_degraded (sv_time_health u)) (?plans s' ! e))))
              (\<lambda>_. handled k s) environment_error) environment_error s') environment_error u"
      by (simp only: wp_bind)
  qed
qed

text \<open>Taking a due sample: the schedule is past it, the controller not yet at it.\<close>

lemma take_due_cases:
  assumes "take_due sch now stats = (due, sch', stats')" and rate: "sch_data_rate_hz sch = 50"
    and "now - started sch < 2 ^ 58 * 1000000000"
  shows "started sch' = started sch" "sch_data_rate_hz sch' = 50"
    "accepted_clients stats' = accepted_clients stats" "closed_clients stats' = closed_clients stats"
    "next_sample_index sch \<le> next_sample_index sch'"
    "due = Some i \<Longrightarrow> next_sample_index sch \<le> i \<and> i < next_sample_index sch'"
proof -
  have "started sch' = started sch \<and> sch_data_rate_hz sch' = 50 \<and> accepted_clients stats' = accepted_clients stats
      \<and> closed_clients stats' = closed_clients stats \<and> next_sample_index sch \<le> next_sample_index sch'
      \<and> (\<forall>i. due = Some i \<longrightarrow> next_sample_index sch \<le> i \<and> i < next_sample_index sch')"
  proof (cases due)
    case None
    then have "sch' = sch" "stats' = stats"
      using assms(1) unfolding take_due_def Let_def by (auto simp only: prod.inject option.distinct split: if_split_asm)
    then show ?thesis using rate None by simp
  next
    case (Some j)
    note d = take_due_Some [OF assms(1) [unfolded Some]]
    have "max 0 (now - started sch) * 50 < 2 ^ 58 * 1000000000 * 50" using assms(3) by simp
    then have "max 0 (now - started sch) * 50 div 1000000000 < 2 ^ 58 * 50"
      by (intro div_less_int) simp_all
    moreover have "uint (50 :: u16) = 50" by simp
    ultimately have "uint j < 2 ^ 58 * 50"
      unfolding d(2) rate by (simp only: min_less_iff_disj simp_thms)
    then have "int (unat j) < int (2 ^ 64 - 1)" by simp
    then have j: "unat j < 2 ^ 64 - 1" by (simp only: of_nat_less_iff)
    then have "unat (next_sample_index sch') = unat j + 1" using d(3) by simp
    then have "j < next_sample_index sch'" by (simp add: word_less_nat_alt)
    then show ?thesis using d rate Some by auto
  qed
  then show "started sch' = started sch" "sch_data_rate_hz sch' = 50"
    "accepted_clients stats' = accepted_clients stats" "closed_clients stats' = closed_clients stats"
    "next_sample_index sch \<le> next_sample_index sch'"
    "due = Some i \<Longrightarrow> next_sample_index sch \<le> i \<and> i < next_sample_index sch'"
    by auto
qed

lemma wp_emit_if_due:
  fixes s :: "'w server"
  assumes env: "environment os ex m" and inv: "server_inv s" and r: "room (Suc k) s" and up: "uptime_bounded os s"
  shows "wp (emit_if_due os sin32) (\<lambda>_. handled k s) environment_error s"
proof -
  obtain now w where now: "os_now os (sv_world s) = (now, w)" by (cases "os_now os (sv_world s)")
  obtain due sch stats where due: "take_due (sv_scheduler s) now (sv_stats s) = (due, sch, stats)"
    by (cases "take_due (sv_scheduler s) now (sv_stats s)")
  have "now - started (sv_scheduler s) < 2 ^ 58 * 1000000000"
    using up now unfolding uptime_bounded_def by (metis fst_conv)
  note d = take_due_cases [OF due server_invD(5) [OF inv] this]
  let ?t = "s\<lparr>sv_world := w, sv_scheduler := sch, sv_stats := stats\<rparr>"
  have "sheld e i c ?t = sheld e i c s" for e i c by (simp add: sheld_def)
  then have pdc: "pdc_inv ?t" using server_invD(1) [OF inv] by (simp add: pdc_inv_def d(3,4))
  have last: "j < next_sample_index (sv_scheduler s)" if "sv_controller s = Some c" "current_sample_index c = Some j" for c j
    using server_invD(2) [OF inv] that by (simp add: controller_inv_def)
  have "controller_inv ?t"
    using server_invD(2) [OF inv] d(5) by (auto simp: controller_inv_def split: option.splits)
  then have h: "handled k' s ?t" if "room k' s" for k'
    using pdc that d(1,2) server_invD(5) [OF inv] by (intro controller_handled inv) (simp_all add: room_def)
  have "wp (emit_data os sin32 i ts) (\<lambda>_. handled k s) environment_error ?t" if "due = Some i" for i ts
  proof -
    have "wp (emit_data os sin32 i ts) (\<lambda>_. handled k ?t) environment_error ?t"
    proof (rule wp_emit_data [OF env handledD(1,2) [OF h [OF r]]])
      show "i < next_sample_index (sv_scheduler ?t)" using d(6) that by simp
      show "j < i" if "sv_controller ?t = Some c" "current_sample_index c = Some j" for c j
        using less_le_trans [OF last [of c j]] that d(6) [OF \<open>due = Some i\<close>] by simp
    qed
    then show ?thesis by (rule wp_mono) (rule handled_trans [OF h [OF r]])
  qed
  then show ?thesis
    using h [OF room_less [OF r]]
    by (simp add: emit_if_due_def wp_simps now due split: option.splits)
qed

section \<open>A round of the main loop\<close>

lemma wp_dispatch_events:
  assumes env: "environment os ex m" and inv: "server_inv s" and r: "room (k + EVENTS_CAPACITY) s"
  shows "wp (dispatch_events os ex events) (\<lambda>_. handled k s) environment_error s"
proof -
  have "room (k + length (take EVENTS_CAPACITY events)) s"
  proof -
    have "(k + length (take EVENTS_CAPACITY events)) * (MAX_SCENARIO_TARGETS + 1)
        \<le> (k + EVENTS_CAPACITY) * (MAX_SCENARIO_TARGETS + 1)" by (intro mult_right_mono) simp_all
    then show ?thesis using r by (auto simp: room_def split: option.splits)
  qed
  then show ?thesis by (simp add: dispatch_events_def wp_events [OF env inv])
qed

lemma handled_uptime: "handled k s t \<Longrightarrow> uptime_bounded os s \<Longrightarrow> uptime_bounded os t"
  by (simp add: handled_def uptime_bounded_def)

lemma world_handled: "server_inv s \<Longrightarrow> room k s \<Longrightarrow> handled k s (s\<lparr>sv_world := w\<rparr>)"
  by (simp add: handled_def server_inv_cong [of "s\<lparr>sv_world := w\<rparr>" s])

definition ROUND_OPERATIONS :: nat where
  "ROUND_OPERATIONS = EVENTS_CAPACITY + 1"

lemma wp_run_round:
  fixes s :: "'w server"
  assumes env: "environment os ex m" and inv: "server_inv s" and r: "room (k + ROUND_OPERATIONS) s"
    and up: "uptime_bounded os s"
  shows "wp (run_round os ex sin32 deadline) (\<lambda>_. handled k s) environment_error s"
proof -
  have r1: "room (Suc k + EVENTS_CAPACITY) s" using r by (simp add: ROUND_OPERATIONS_def)
  have step: "wp f (\<lambda>_. handled k u) environment_error u \<Longrightarrow> handled j s u \<Longrightarrow> wp f (\<lambda>_. handled k s) environment_error u"
    for f :: "('w, unit) server_action" and j u by (erule wp_mono) (rule handled_trans)
  have emit: "wp (emit_if_due os sin32) (\<lambda>_. handled k s) environment_error u" if "handled (Suc k) s u" for u
    by (rule step [OF wp_emit_if_due [OF env handledD(1,2) [OF that] handled_uptime [OF that up]] that])
  have expire: "wp (expire_connections os now) (\<lambda>_. wp (emit_if_due os sin32) (\<lambda>_. handled k s) environment_error) environment_error u"
    if u: "handled (Suc k) s u" for u now
    by (rule wp_mono [OF wp_expire_connections [OF handledD(1) [OF u]]])
       (blast intro: emit handled_trans [OF u] carried_handled [OF _ handledD(2) [OF u]])
  have events: "wp (dispatch_events os ex evs) (\<lambda>_ u. \<forall>now w. os_now os (sv_world u) = (now, w) \<longrightarrow> wp (expire_connections os now)
      (\<lambda>_. wp (emit_if_due os sin32) (\<lambda>_. handled k s) environment_error) environment_error
        (u\<lparr>sv_world := w\<rparr>)) environment_error u"
    if u: "handled (Suc k + EVENTS_CAPACITY) s u" for u :: "'w server" and evs
  proof (rule wp_mono [OF wp_dispatch_events [OF env handledD(1,2) [OF u]]])
    fix v assume "handled (Suc k) u v"
    then have v: "handled (Suc k) s v" by (rule handled_trans [OF u])
    show "\<forall>now w. os_now os (sv_world v) = (now, w) \<longrightarrow> wp (expire_connections os now)
      (\<lambda>_. wp (emit_if_due os sin32) (\<lambda>_. handled k s) environment_error) environment_error (v\<lparr>sv_world := w\<rparr>)"
      by (intro allI impI expire, rule handled_trans [OF v], rule world_handled) (use handledD [OF v] in simp_all)
  qed
  have world: "handled (Suc k + EVENTS_CAPACITY) s (s\<lparr>sv_world := w\<rparr>)" for w by (rule world_handled [OF inv r1])
  have "handled k s (s\<lparr>sv_world := w\<rparr>)" for w
  proof (rule world_handled [OF inv])
    have "k * (MAX_SCENARIO_TARGETS + 1) \<le> (k + ROUND_OPERATIONS) * (MAX_SCENARIO_TARGETS + 1)"
      by (intro mult_right_mono) simp_all
    then show "room k s" using r by (auto simp: room_def split: option.splits)
  qed
  then show ?thesis
    using events [OF world]
    by (auto simp: run_round_def wp_simps Let_def split: prod.splits io.splits option.splits)
qed

end
