(* ===== verification/Bind_Inv.thy ===== *)
theory Bind_Inv
  imports Round_Inv Wire_Props
begin

text \<open>
  Binding a server establishes its invariant.  A compiled profile binds to a server that is ready, with
  idle endpoints whose static frames parse; only the operating system and a clock outside the range of
  the protocol can refuse.
\<close>

section \<open>The frames of an endpoint\<close>

definition bound_endpoint :: "endpoint_descriptor \<Rightarrow> limits \<Rightarrow> endpoint \<Rightarrow> bool" where
  "bound_endpoint d lims en \<longleftrightarrow> en_descriptor en = d \<and> en_limits en = lims \<and> frames_wf en \<and> frames_valid en
     \<and> en_connections en = replicate 2 None"

lemma endpoint_frames_v2:
  assumes "endpoint_wf d" "ep_wire_version d = V2"
  obtains h c1 c2 where "endpoint_frames_for d ts = Some (FramesV2 h c1 c2, DataV2 (replicate PERIODIC_DATA_FRAME_BYTES_V2 0))"
    "h \<noteq> []" "c1 \<noteq> []" "c2 \<noteq> []" "parse_v2 h = Inr h" "version_v2 h = V2_PROTOCOL_VERSION"
    "frame_type_v2 h = FRAME_TYPE_HEADER_V2" "idcode_v2 h = ep_stream_id d"
proof -
  obtain m where m: "ep_v2 d = Some m" "v2_metadata_wf m" using endpoint_wf_v2 assms by blast
  have len: "length (configuration_body_v2 d m) = 158" "length (station_name m) = 16"
    using length_configuration_body_v2 m(2) by (simp_all add: v2_metadata_wf_def fixed_name_wf_def const_defs)
  let ?f = "\<lambda>ty body. frame_bytes V2_PROTOCOL_VERSION MESSAGE_TIME_QUALITY_UNKNOWN ty (ep_stream_id d) ts body"
  have p: "parse_v2 (?f FRAME_TYPE_HEADER_V2 (station_name m)) = Inr (?f FRAME_TYPE_HEADER_V2 (station_name m))"
    using v2.parse_encode [of "station_name m" 65535 FRAME_TYPE_HEADER_V2 "ep_stream_id d" ts] len
    by (simp add: v2.encode_eq parse_v2_def V2_PROTOCOL_VERSION_def FRAME_TYPE_HEADER_V2_def)
  have f: "endpoint_frames_for d ts = Some (FramesV2 (?f FRAME_TYPE_HEADER_V2 (station_name m))
        (?f FRAME_TYPE_CONFIGURATION_1_V2 (configuration_body_v2 d m)) (?f FRAME_TYPE_CONFIGURATION_2_V2 (configuration_body_v2 d m)),
      DataV2 (replicate PERIODIC_DATA_FRAME_BYTES_V2 0))"
    using m len assms(2)
    by (simp add: endpoint_frames_for_def encode_header_v2_def encode_configuration_1_def encode_configuration_2_def
        encode_configuration_v2_def v2.encode_eq FRAME_TYPE_HEADER_V2_def FRAME_TYPE_CONFIGURATION_1_V2_def
        FRAME_TYPE_CONFIGURATION_2_V2_def)
  have ne: "?f ty body \<noteq> []" for ty body by (metis length_frame_bytes list.size(3) add_is_0 zero_neq_numeral)
  show thesis
    by (rule that [OF f ne ne ne p]) (simp_all only: frame_accessors_v2(1-3), simp_all add: FRAME_TYPE_HEADER_V2_def V2_PROTOCOL_VERSION_def)
qed

lemma endpoint_frames_v3:
  assumes "endpoint_wf d" "ep_wire_version d = V3"
  obtains c s where "endpoint_frames_for d ts = Some (FramesV3 c s, DataV3 (replicate PERIODIC_DATA_FRAME_BYTES_V3 0))"
    "c \<noteq> []" "s \<noteq> []" "parse_v3 c = Inr c" "version_v3 c = V3_PROTOCOL_VERSION"
    "frame_type_v3 c = FRAME_TYPE_CAPABILITY" "stream_id_v3 c = ep_stream_id d"
proof -
  have len: "length (configuration_body_v3 d) \<le> 2752"
    using length_configuration_body_v3 endpoint_wf_v3 assms(1,2) by blast
  let ?f = "\<lambda>ty. frame_bytes V3_PROTOCOL_VERSION 0 ty (ep_stream_id d) ts (configuration_body_v3 d)"
  have p: "parse_v3 (?f FRAME_TYPE_CAPABILITY) = Inr (?f FRAME_TYPE_CAPABILITY)"
    using v3.parse_encode [of "configuration_body_v3 d" 65535 FRAME_TYPE_CAPABILITY "ep_stream_id d" ts] len
    by (simp add: v3.encode_eq parse_v3_def)
  have f: "endpoint_frames_for d ts = Some (FramesV3 (?f FRAME_TYPE_CAPABILITY) (?f FRAME_TYPE_STREAM_CONFIGURATION),
      DataV3 (replicate PERIODIC_DATA_FRAME_BYTES_V3 0))"
    using len assms(2)
    by (simp add: endpoint_frames_for_def encode_capability_def encode_stream_configuration_def encode_configuration_v3_def
        v3.encode_eq)
  have ne: "?f ty \<noteq> []" for ty by (metis length_frame_bytes list.size(3) add_is_0 zero_neq_numeral)
  show thesis
    by (rule that [OF f ne ne p]) (simp_all only: frame_accessors_v3(1-3), simp_all add: FRAME_TYPE_CAPABILITY_def V3_PROTOCOL_VERSION_def)
qed

lemma endpoint_frames:
  assumes "endpoint_wf d"
  obtains frames data where "endpoint_frames_for d ts = Some (frames, data)"
    "\<And>lims listener. bound_endpoint d lims \<lparr>en_descriptor = d, en_limits = lims, en_listener = listener, en_frames = frames,
          en_data_frame = data, en_connections = replicate 2 None\<rparr>"
proof (cases "ep_wire_version d")
  case V2
  obtain h c1 c2 where f: "endpoint_frames_for d ts = Some (FramesV2 h c1 c2, DataV2 (replicate PERIODIC_DATA_FRAME_BYTES_V2 0))"
    "h \<noteq> []" "c1 \<noteq> []" "c2 \<noteq> []" "parse_v2 h = Inr h" "version_v2 h = V2_PROTOCOL_VERSION"
    "frame_type_v2 h = FRAME_TYPE_HEADER_V2" "idcode_v2 h = ep_stream_id d" using endpoint_frames_v2 [OF assms V2] by blast
  show thesis by (rule that [OF f(1)]) (simp add: bound_endpoint_def frames_wf_def frames_valid_def V2 f)
next
  case V3
  obtain c s where f: "endpoint_frames_for d ts = Some (FramesV3 c s, DataV3 (replicate PERIODIC_DATA_FRAME_BYTES_V3 0))"
    "c \<noteq> []" "s \<noteq> []" "parse_v3 c = Inr c" "version_v3 c = V3_PROTOCOL_VERSION"
    "frame_type_v3 c = FRAME_TYPE_CAPABILITY" "stream_id_v3 c = ep_stream_id d" using endpoint_frames_v3 [OF assms V3] by blast
  show thesis by (rule that [OF f(1)]) (simp add: bound_endpoint_def frames_wf_def frames_valid_def V3 f)
qed

lemma wp_sys [wp_simps]: "wp (sys f) Q E = (\<lambda>w. case f w of (x, w') \<Rightarrow> Q x w')"
  by (simp add: wp_def sys_def fun_eq_iff split: prod.splits)

text \<open>Binding fails only as the operating system does.\<close>

definition io_errors :: "'w os \<Rightarrow> (server_error \<Rightarrow> bool) \<Rightarrow> bool" where
  "io_errors os E \<longleftrightarrow> (\<forall>m. E (IoError m))
     \<or> (\<forall>w. \<exists>w'. os_poll_new os w = (Done (), w')) \<and> (\<forall>a w. \<exists>x w'. os_bind os a w = (Done x, w'))
       \<and> (\<forall>x t w. \<exists>w'. os_register os x t w = (Done (), w'))"

lemma wp_io_bind:
  assumes "io_errors os E"
  shows "(\<And>x w'. Q x w') \<Longrightarrow> wp (bind_p (sys (os_bind os a)) io_try) Q E w"
    and "(\<And>w'. Q' () w') \<Longrightarrow> wp (bind_p (sys (os_register os x t)) io_try) Q' E w"
    and "(\<And>w'. Q' () w') \<Longrightarrow> wp (bind_p (sys (os_poll_new os)) io_try) Q' E w"
  using assms
  by (auto simp: io_errors_def wp_simps split: prod.splits io.splits) (metis prod.inject io.distinct)+

lemma wp_bind_endpoint:
  assumes "endpoint_wf d" and io: "io_errors os E"
  shows "wp (bind_endpoint os lims ts index d) (\<lambda>en _. bound_endpoint d lims en) E w"
proof -
  obtain frames data where f: "endpoint_frames_for d ts = Some (frames, data)"
    "\<And>listener. bound_endpoint d lims \<lparr>en_descriptor = d, en_limits = lims, en_listener = listener, en_frames = frames,
          en_data_frame = data, en_connections = replicate 2 None\<rparr>"
    using endpoint_frames [OF assms(1)] by metis
  then show ?thesis
    unfolding bind_endpoint_def wp_bind [of "bind_p (sys f) io_try" for f] wp_expect
    by (intro wp_io_bind [OF io]) (simp add: wp_simps)
qed

lemma wp_bind_endpoints:
  assumes "list_all endpoint_wf ds" and io: "io_errors os E"
  shows "wp (bind_endpoints os lims ts index ds) (\<lambda>ens _. list_all2 (\<lambda>d en. bound_endpoint d lims en) ds ens) E w"
  using assms(1)
proof (induction ds arbitrary: index w)
  case (Cons d ds index w)
  have "wp (bind_endpoint os lims ts index d)
      (\<lambda>en. wp (bind_p (bind_endpoints os lims ts (Suc index) ds) (\<lambda>ens. ret (en # ens)))
        (\<lambda>ens _. list_all2 (\<lambda>d en. bound_endpoint d lims en) (d # ds) ens) E) E w"
  proof (rule wp_mono [OF wp_bind_endpoint [OF _ io]])
    show "endpoint_wf d" using Cons.prems by simp
    fix en and w' :: 'a assume en: "bound_endpoint d lims en"
    have "wp (bind_endpoints os lims ts (Suc index) ds)
        (\<lambda>ens. wp (ret (en # ens)) (\<lambda>ens _. list_all2 (\<lambda>d en. bound_endpoint d lims en) (d # ds) ens) E)
        E w'"
      by (rule wp_mono [OF Cons.IH]) (use Cons.prems en in simp_all)
    then show "wp (bind_p (bind_endpoints os lims ts (Suc index) ds) (\<lambda>ens. ret (en # ens)))
        (\<lambda>ens _. list_all2 (\<lambda>d en. bound_endpoint d lims en) (d # ds) ens) E w'" by (simp only: wp_bind)
  qed
  then show ?case by (simp only: bind_endpoints.simps wp_bind)
qed simp

lemma wp_bind_management:
  assumes io: "io_errors os E"
  shows "wp (bind_management os config) (\<lambda>opt _. (opt = None \<longleftrightarrow> config = None) \<and> (\<forall>l. opt = Some l \<longrightarrow> mlistener_inv l 1)) E w"
proof (cases config)
  case None
  then show ?thesis by (simp add: bind_management_def)
next
  case (Some address)
  show ?thesis
    unfolding bind_management_def Some option.case wp_bind [of "bind_p (sys f) io_try" for f]
    by (intro wp_io_bind [OF io]) (auto simp: mlistener_inv_def mheld_def MANAGEMENT_CONNECTION_LIMIT_def)
qed

section \<open>The server\<close>

lemma bound_endpoint_inv:
  assumes "bound_endpoint d lims en" "18 \<le> command_frame_bytes lims" "command_frame_bytes lims \<le> MAX_COMMAND_FRAME_BYTES"
  shows "endpoint_inv en" "live en = 0"
  using assms by (simp_all add: bound_endpoint_def endpoint_inv_def endpoint_static_def live_def)

text \<open>The names the management interface shows: text, and for the PMUs a prefix with a three-digit number.\<close>

definition names_shown :: "compiled_profile \<Rightarrow> bool" where
  "names_shown cp \<longleftrightarrow> (\<forall>d. cp_endpoints cp \<noteq> [] \<and> d = hd (cp_endpoints cp) \<longrightarrow>
     management_pdc_name d \<noteq> None \<and> management_pmu_name_prefix d \<noteq> None)"

lemma fleet_state_shown:
  assumes "map en_descriptor endpoints = cp_endpoints cp" "cp_endpoints cp \<noteq> []" "names_shown cp"
  shows "fleet_state endpoints \<noteq> None"
  using assms(2,3) unfolding names_shown_def assms(1) [symmetric]
  by (cases endpoints) (auto simp: fleet_state_def Let_def)

lemma bound_server_inv:
  assumes wf: "profile_wf cp" and names: "names_shown cp"
    and ens: "list_all2 (\<lambda>d en. bound_endpoint d (cp_limits cp) en) (cp_endpoints cp) (sv_endpoints s)"
    and ctl: "\<And>c. sv_controller s = Some c \<Longrightarrow> ctl_inv c \<and> current_sample_index c = None"
    and mgmt: "\<And>l. sv_management s = Some l \<Longrightarrow> mlistener_inv l 1"
    and start: "sv_next_connection_id s = 1" "sv_next_management_connection_id s = 1" "sv_stats s = default_stats"
      "sch_data_rate_hz (sv_scheduler s) = 50"
  shows "server_inv s" "selected_wire_frames_are_valid (sv_endpoints s)" "map en_descriptor (sv_endpoints s) = cp_endpoints cp"
proof -
  have len: "length (sv_endpoints s) = length (cp_endpoints cp)" using ens by (simp add: list_all2_lengthD)
  have en: "bound_endpoint (cp_endpoints cp ! e) (cp_limits cp) (sv_endpoints s ! e)" if "e < length (sv_endpoints s)" for e
    using ens that len by (simp add: list_all2_conv_all_nth)
  have lims: "18 \<le> command_frame_bytes (cp_limits cp)" "command_frame_bytes (cp_limits cp) \<le> MAX_COMMAND_FRAME_BYTES"
    and n: "0 < length (cp_endpoints cp)" "length (cp_endpoints cp) \<le> MAX_LOGICAL_PMUS"
    and all_wf: "\<And>e. e < length (cp_endpoints cp) \<Longrightarrow> endpoint_wf (cp_endpoints cp ! e)"
    using wf by (auto simp: profile_wf_def list_all_length Suc_le_eq)
  show descriptors: "map en_descriptor (sv_endpoints s) = cp_endpoints cp"
    using en len by (intro nth_equalityI) (simp_all add: bound_endpoint_def)
  show "selected_wire_frames_are_valid (sv_endpoints s)"
    using en by (simp add: selected_wire_frames_are_valid_def list_all_length bound_endpoint_def)
  have empty: "\<not> sheld e k c s" for e k c
    using en [of e] by (auto simp: sheld_def bound_endpoint_def)
  have "live en = 0" if "en \<in> set (sv_endpoints s)" for en
    using that en bound_endpoint_inv(2) [OF _ lims] by (metis in_set_conv_nth)
  then have "live_connections (sv_endpoints s) = 0" by (simp add: live_connections_def)
  moreover have "endpoint_inv (sv_endpoints s ! e) \<and> endpoint_wf (en_descriptor (sv_endpoints s ! e))"
    if "e < length (sv_endpoints s)" for e
    using en [OF that] bound_endpoint_inv(1) [OF en [OF that] lims] all_wf [of e] that len by (simp add: bound_endpoint_def)
  ultimately have "pdc_inv s"
    using empty n len by (simp add: pdc_inv_def start default_stats_def)
  moreover have "controller_inv s" using ctl by (simp add: controller_inv_def split: option.splits)
  moreover have "management_inv s" using mgmt start by (simp add: management_inv_def split: option.splits)
  moreover have "fleet_state (sv_endpoints s) \<noteq> None"
    using fleet_state_shown [OF descriptors _ names] n by auto
  ultimately show "server_inv s" by (simp add: server_inv_def start)
qed

definition bind_error :: "server_error \<Rightarrow> bool" where
  "bind_error e \<longleftrightarrow> environment_error e \<or> e = SocRangeExceeded"

lemma bind_error_env: "environment_error e \<Longrightarrow> bind_error e"
  by (simp add: bind_error_def)

lemma aligned_timestamp_error: "aligned_timestamp now rate tb = Inl e \<Longrightarrow> e = SocRangeExceeded"
  unfolding aligned_timestamp_def Let_def by (auto simp: ok_or_def split: option.splits)

lemma aligned_start_error: "aligned_start system_now now rate tb = Inl e \<Longrightarrow> bind_error e"
  using aligned_timestamp_error [of system_now rate tb]
  by (cases "aligned_timestamp system_now rate tb")
     (auto simp: aligned_start_def Let_def bind_error_def environment_error_def fail_if_def split: if_splits)

lemma same_rate:
  assumes "profile_wf cp" "cp_endpoints cp = first # rest"
  shows "ep_data_rate_hz first = 50"
    "\<not> list_ex (\<lambda>d. ep_data_rate_hz d \<noteq> ep_data_rate_hz first \<or> ep_time_base d \<noteq> ep_time_base first) (cp_endpoints cp)"
  using assms by (auto simp: profile_wf_def endpoint_wf_def list_all_iff list_ex_iff)

text \<open>The wall clock and the first sample of a server come from one reading of the system time and the monotonic clock.\<close>

definition clock_from :: "'w os \<Rightarrow> compiled_profile \<Rightarrow> wall_clock \<Rightarrow> instant \<Rightarrow> bool" where
  "clock_from os cp clock origin \<longleftrightarrow> (\<exists>w1 sys w2 now w3. os_system_time os w1 = (sys, w2) \<and> os_now os w2 = (now, w3)
     \<and> aligned_start sys now (ep_data_rate_hz (hd (cp_endpoints cp))) (ep_time_base (hd (cp_endpoints cp))) = Inr (clock, origin))"

definition bound :: "'w os \<Rightarrow> compiled_profile \<Rightarrow> controller option \<Rightarrow> socket_addr option \<Rightarrow> 'w server \<Rightarrow> bool" where
  "bound os cp controller config s \<longleftrightarrow>
     server_inv s \<and> sv_ready s \<and> map en_descriptor (sv_endpoints s) = cp_endpoints cp \<and> sv_controller s = controller
   \<and> (sv_management s = None \<longleftrightarrow> config = None) \<and> live_connections (sv_endpoints s) = 0
   \<and> sv_stats s = default_stats \<and> sv_seed s = cp_seed cp \<and> next_sample_index (sv_scheduler s) = 0
   \<and> sv_next_connection_id s = 1
   \<and> clock_from os cp (sv_wall_clock s) (started (sv_scheduler s))"

lemma wp_bind_inner:
  fixes w :: 'w
  assumes wf: "profile_wf cp" and names: "names_shown cp"
    and io: "io_errors os E"
    and clock: "\<And>w sys w' now rate tb e. os_system_time os w = (sys, w') \<Longrightarrow> aligned_start sys now rate tb = Inl e \<Longrightarrow>
        rate = ep_data_rate_hz (hd (cp_endpoints cp)) \<Longrightarrow> tb = ep_time_base (hd (cp_endpoints cp)) \<Longrightarrow> E e"
    and ctl: "\<And>c. controller = Some c \<Longrightarrow> ctl_inv c \<and> current_sample_index c = None"
  shows "wp (bind_inner os ex cp controller source config) (\<lambda>s _. bound os cp controller config s) E w"
proof -
  obtain first rest where first: "cp_endpoints cp = first # rest"
    using wf by (cases "cp_endpoints cp") (auto simp: profile_wf_def)
  note rate = same_rate [OF wf first]
  have rate0: "ep_data_rate_hz first \<noteq> 0" using rate(1) by simp
  let ?server = "\<lambda>clock first_sample_at endpoints management identity w. \<lparr>sv_endpoints = endpoints, sv_next_connection_id = 1,
                    sv_scheduler = new_scheduler (ep_data_rate_hz first) first_sample_at, sv_wall_clock = clock,
                    sv_seed = cp_seed cp, sv_stats = default_stats, sv_controller = controller,
                    sv_time_health_monitor = new_monitor (1000000000 div uint (ep_data_rate_hz first)), sv_time_source = source,
                    sv_time_health = Unobserved, sv_management = management, sv_next_management_connection_id = 1,
                    sv_ready = selected_wire_frames_are_valid endpoints, sv_runtime_metadata = None,
                    sv_console_process_identity = identity, sv_world = w :: 'w\<rparr>"
  have server: "bound os cp controller config (?server clock origin endpoints management identity w)"
    if ens: "list_all2 (\<lambda>d en. bound_endpoint d (cp_limits cp) en) (cp_endpoints cp) endpoints"
      and m: "(management = None \<longleftrightarrow> config = None) \<and> (\<forall>l. management = Some l \<longrightarrow> mlistener_inv l 1)"
      and origin: "clock_from os cp clock origin"
    for clock origin endpoints management identity w
  proof -
    let ?s = "?server clock origin endpoints management identity w"
    note facts = ens ctl m rate(1)
    have "server_inv ?s" by (rule bound_server_inv(1) [OF wf names]) (use facts in \<open>simp_all add: new_scheduler_def\<close>)
    moreover have "selected_wire_frames_are_valid (sv_endpoints ?s)"
      by (rule bound_server_inv(2) [OF wf names]) (use facts in \<open>simp_all add: new_scheduler_def\<close>)
    moreover have "map en_descriptor (sv_endpoints ?s) = cp_endpoints cp"
      by (rule bound_server_inv(3) [OF wf names]) (use facts in \<open>simp_all add: new_scheduler_def\<close>)
    moreover have "live_connections endpoints = 0"
    proof -
      have "live en = 0" if "en \<in> set endpoints" for en
        using ens that bound_endpoint_inv(2) wf by (force simp: profile_wf_def list_all2_conv_all_nth in_set_conv_nth)
      then show ?thesis by (simp add: live_connections_def)
    qed
    ultimately show ?thesis using m origin by (simp add: bound_def new_scheduler_def)
  qed
  have rest: "wp (bind_p (bind_endpoints os (cp_limits cp) ts 0 (cp_endpoints cp)) (\<lambda>endpoints.
               bind_p (bind_management os config) (\<lambda>management.
               bind_p (new_console_process_identity os ex) (\<lambda>identity.
               bind_p (gets (\<lambda>w. w)) (\<lambda>w.
               ret (?server clock origin endpoints management identity w))))))
     (\<lambda>s _. bound os cp controller config s) E w" if origin: "clock_from os cp clock origin" for ts clock origin w
    unfolding wp_bind
  proof (rule wp_mono [OF wp_bind_endpoints [OF _ io]])
    show "list_all endpoint_wf (cp_endpoints cp)" using wf by (simp add: profile_wf_def)
    fix endpoints and w' :: 'w
    assume ens: "list_all2 (\<lambda>d en. bound_endpoint d (cp_limits cp) en) (cp_endpoints cp) endpoints"
    show "wp (bind_management os config) (\<lambda>management. wp (new_console_process_identity os ex) (\<lambda>identity.
        wp (gets (\<lambda>w. w)) (\<lambda>w. wp (ret (?server clock origin endpoints management identity w))
          (\<lambda>s _. bound os cp controller config s) E) E) E) E w'"
    proof (rule wp_mono [OF wp_bind_management [OF io]])
      fix management and w'' :: 'w
      assume "(management = None \<longleftrightarrow> config = None) \<and> (\<forall>l. management = Some l \<longrightarrow> mlistener_inv l 1)"
      from server [OF ens this origin]
      show "wp (new_console_process_identity os ex) (\<lambda>identity.
        wp (gets (\<lambda>w. w)) (\<lambda>w. wp (ret (?server clock origin endpoints management identity w))
          (\<lambda>s _. bound os cp controller config s) E) E) E w''"
        by (simp add: new_console_process_identity_def wp_simps split: prod.splits)
    qed
  qed
  have start: "wp (bind_p (sys (os_system_time os)) (\<lambda>system_now. bind_p (sys (os_now os)) (\<lambda>now.
      bind_p (lift_ok (aligned_start system_now now (ep_data_rate_hz first) (ep_time_base first))) (\<lambda>(clock, origin).
      bind_p (bind_endpoints os (cp_limits cp) (timestamp_for_sample clock 0) 0 (cp_endpoints cp)) (\<lambda>endpoints.
      bind_p (bind_management os config) (\<lambda>management.
      bind_p (new_console_process_identity os ex) (\<lambda>identity.
      bind_p (gets (\<lambda>w. w)) (\<lambda>w.
      ret (?server clock origin endpoints management identity w))))))))) (\<lambda>s _. bound os cp controller config s) E w1" for w1
  proof -
    obtain sys w2 where y: "os_system_time os w1 = (sys, w2)" by (cases "os_system_time os w1")
    obtain now w3 where n: "os_now os w2 = (now, w3)" by (cases "os_now os w2")
    show ?thesis
    proof (cases "aligned_start sys now (ep_data_rate_hz first) (ep_time_base first)")
      case (Inl e)
      then show ?thesis using clock [OF y Inl] first by (simp add: wp_simps y n)
    next
      case (Inr x)
      obtain clock origin where x: "x = (clock, origin)" by (cases x)
      have "clock_from os cp clock origin"
        unfolding clock_from_def using y n Inr x first by (intro exI conjI) (assumption, assumption, simp)
      from rest [OF this, where ts = "timestamp_for_sample clock 0" and w = w3]
      show ?thesis by (simp add: wp_simps y n Inr x)
    qed
  qed
  have "wp (bind_p (sys (os_poll_new os)) io_try) (\<lambda>_. wp (bind_p (sys (os_system_time os)) (\<lambda>system_now. bind_p (sys (os_now os)) (\<lambda>now.
      bind_p (lift_ok (aligned_start system_now now (ep_data_rate_hz first) (ep_time_base first))) (\<lambda>(clock, origin).
      bind_p (bind_endpoints os (cp_limits cp) (timestamp_for_sample clock 0) 0 (cp_endpoints cp)) (\<lambda>endpoints.
      bind_p (bind_management os config) (\<lambda>management.
      bind_p (new_console_process_identity os ex) (\<lambda>identity.
      bind_p (gets (\<lambda>w. w)) (\<lambda>w.
      ret (?server clock origin endpoints management identity w))))))))) (\<lambda>s _. bound os cp controller config s) E) E w"
    by (rule wp_io_bind(3) [OF io]) (rule start)
  then show ?thesis
    using rate(2) rate0 by (simp only: bind_inner_def first list.case Let_def if_False wp_bind)
qed

end
