(* ===== verification/Scenario_Props.thy ===== *)
theory Scenario_Props
  imports Scenario_Inv
begin

text \<open>
  The properties of the scenario catalog and controller, over the states that any sequence of calls
  can reach, with the catalog shipped with the simulator as their concrete instance.
\<close>

lemma compile_scenarios_names:
  "compile_scenarios acc raws = Inr out \<Longrightarrow> map sd_name out = map sd_name acc @ map raw_name raws"
  by (induction acc raws rule: compile_scenarios.induct)
     (auto simp: compile_scenario_def Let_def)

lemma compile_catalog_names:
  "compile_catalog raw = Inr cat \<Longrightarrow> map sd_name (sc_scenarios cat) = map raw_name (raw_scenarios raw)"
  by (auto simp: compile_catalog_def dest: compile_scenarios_names)

section \<open>The catalog shipped with the simulator\<close>

text \<open>\<^verbatim>\<open>scenarios/baseline.yaml\<close> as the deserializer delivers it.\<close>

definition baseline_scenario :: "string \<Rightarrow> raw_scenario_kind \<Rightarrow> u64 \<Rightarrow> raw_scenario" where
  "baseline_scenario name kind frames =
     \<lparr>raw_name = name, raw_kind = kind, raw_start_frame_offset = 0, raw_lifecycle = RawTransient,
      raw_duration_frames = Some frames, raw_signal = None\<rparr>"

definition baseline_catalog :: raw_scenario_catalog where
  "baseline_catalog =
     \<lparr>raw_version = 1, raw_scenarios =
       [(baseline_scenario ''normal'' RawNormal 0)\<lparr>raw_lifecycle := RawSustained, raw_duration_frames := None\<rparr>,
        baseline_scenario ''degraded-time'' RawDegradedTime 500,
        baseline_scenario ''missing-frames'' RawMissingFrames 500,
        baseline_scenario ''disconnect-pdc'' RawDisconnectPdc 1,
        (baseline_scenario ''signal-excursion'' RawSignalExcursion 500)
          \<lparr>raw_signal := Some \<lparr>raw_voltage_magnitude_delta = f32_lit 2300,
             raw_frequency_deviation_hz = f32_lit 0.5, raw_rocof_hz_per_s = f32_lit 1\<rparr>\<rparr>,
        baseline_scenario ''recovery'' RawRecovery 1]\<rparr>"

definition baseline_compiled :: scenario_catalog where
  "baseline_compiled = (case compile_catalog baseline_catalog of Inl _ \<Rightarrow> \<lparr>sc_version = 0, sc_scenarios = []\<rparr> | Inr c \<Rightarrow> c)"

lemma baseline_compiles: "is_ok (compile_catalog baseline_catalog)"
  by code_simp

lemma baseline_compiled_eq: "compile_catalog baseline_catalog = Inr baseline_compiled"
  using baseline_compiles by (simp add: baseline_compiled_def is_ok_def split: sum.splits)

definition sample_controller :: "scenario_op list \<Rightarrow> controller" where
  "sample_controller ops =
     (case run_ops ops (new_controller baseline_compiled) of None \<Rightarrow> new_controller baseline_compiled | Some c \<Rightarrow> c)"

definition sample_prepared :: controller where
  "sample_prepared = sample_controller [OpPrepareActivation (Endpoint 7) ''missing-frames'' None 0]"

definition sample_queued :: controller where
  "sample_queued = sample_controller [OpPrepareActivation (Endpoint 7) ''missing-frames'' None 0, OpConfirm 1 5]"

lemma reachable_run_ops: "reachable cat c \<Longrightarrow> run_ops ops c = Some c' \<Longrightarrow> reachable cat c'"
  by (induction ops c rule: run_ops.induct) (auto simp: bind_eq_Some_conv intro: reachable.call)

lemma sample_reachable: "reachable baseline_compiled (sample_controller ops)"
  using reachable_run_ops [OF reachable.start [OF baseline_compiled_eq]] reachable.start [OF baseline_compiled_eq]
  by (auto simp: sample_controller_def split: option.splits)

lemma sample_states_reachable:
  "reachable baseline_compiled sample_prepared" "reachable baseline_compiled sample_queued"
  unfolding sample_prepared_def sample_queued_def by (rule sample_reachable)+

lemma sample_confirm: "run_op (OpConfirm 1 5) sample_prepared = Some sample_queued"
  by code_simp

lemma sample_revision: "revision sample_prepared = 1" "revision sample_queued = 2"
  by code_simp+

lemma sample_room:
  "unat (revision sample_prepared) + MAX_SCENARIO_TARGETS + 1 < 2 ^ 64"
  "unat (revision sample_queued) + MAX_SCENARIO_TARGETS + 1 < 2 ^ 64"
  by (simp_all add: sample_revision const_defs)

lemma sample_entries:
  "map_option expires_at (btree_lookup (prepared sample_prepared) 1) = Some 60000000000"
  "map_option pd_action (btree_lookup (pending sample_queued) (Endpoint 7)) =
     map_option Activate (catalog_scenario baseline_compiled ''missing-frames'')"
  "map_option duration_frames (catalog_scenario baseline_compiled ''missing-frames'') = Some (Some 500)"
  by code_simp+

section \<open>Properties\<close>

text \<open>C31. A catalog that compiles has between 1 and 128 scenarios with pairwise distinct, valid names;
  exactly the transient ones have a duration, which is positive, and exactly the signal excursions
  have signal values.\<close>

theorem compile_catalog_well_formed:
  assumes "compile_catalog raw = Inr cat"
  shows "catalog_wf cat \<and> map sd_name (sc_scenarios cat) = map raw_name (raw_scenarios raw)"
  using compile_catalog_wf [OF assms] compile_catalog_names [OF assms] by simp_all

theorem compile_catalog_well_formed_witness:
  "catalog_wf baseline_compiled \<and> length (sc_scenarios baseline_compiled) = 6"
  using compile_catalog_well_formed [OF baseline_compiled_eq] 
  by (auto simp: baseline_catalog_def dest: arg_cong [where f = length])

text \<open>C1. In every state the controller can reach, the preparations and their target index agree, every
  prepared token is nonzero and was handed out earlier, no target is both prepared and queued, an
  activation is only prepared or queued for a target without an active scenario and a clear only for
  a target with an active sustained one, every active scenario comes from the catalog, fits its
  target and (if transient) has not run out, and at most 450 targets are tracked.\<close>

theorem controller_invariant:
  assumes "reachable cat c"
  shows "ctl_inv c"
  by (rule reachable_inv [OF assms])

theorem controller_invariant_witness: "ctl_inv sample_queued"
  by (rule controller_invariant [OF sample_states_reachable(2)])

text \<open>C23. No operation of a reachable controller panics while its revision counter is more than 451 below
  its maximum; in particular the missing-duration panic of transient expiry cannot happen.\<close>

theorem controller_never_panics:
  assumes "reachable cat c" and "unat (revision c) + MAX_SCENARIO_TARGETS + 1 < 2 ^ 64"
  shows "\<exists>c'. run_op op c = Some c' \<and> ctl_inv c'"
  using run_op_total [OF reachable_inv [OF assms(1)] assms(2)] run_op_inv reachable_inv [OF assms(1)] by blast

theorem controller_never_panics_witness: "\<exists>c'. run_op (OpAdvance 10) sample_queued = Some c' \<and> ctl_inv c'"
  by (rule controller_never_panics [OF sample_states_reachable(2) sample_room(2)])

text \<open>C21. Confirming a token that is prepared and not expired always succeeds: the errors for busy targets
  and missing scenarios cannot occur, the action is queued for its target and nothing that is
  already active changes.\<close>

theorem confirm_live_token:
  assumes "reachable cat c" and "btree_lookup (prepared c) k = Some p" and "now < expires_at p"
    and "unat (revision c) + MAX_SCENARIO_TARGETS + 1 < 2 ^ 64"
  shows "\<exists>c'. confirm k now c =
      Some (Inr \<lparr>pn_target = pa_target p, pn_action = stored_action_snapshot (pa_action p),
                pn_actor_label = pa_actor_label p\<rparr>, c')
    \<and> btree_lookup (pending c') (pa_target p) = Some \<lparr>pd_action = pa_action p, pd_actor_label = pa_actor_label p\<rparr>
    \<and> active c' = active c"
proof -
  have inv: "ctl_inv c" by (rule reachable_inv [OF assms(1)])
  obtain r c' where rc: "confirm k now c = Some (r, c')"
    using run_op_total [OF inv assms(4), of "OpConfirm k now"] by auto
  then have "active c' = active c" using confirm_keeps [OF _ inv] by (auto simp: keeps_active_def)
  moreover from rc inv assms(2,3) have
    "r = Inr \<lparr>pn_target = pa_target p, pn_action = stored_action_snapshot (pa_action p), pn_actor_label = pa_actor_label p\<rparr>"
    "btree_lookup (pending c') (pa_target p) = Some \<lparr>pd_action = pa_action p, pd_actor_label = pa_actor_label p\<rparr>"
    by (auto elim!: confirm_Some)
  ultimately show ?thesis using rc by simp
qed

theorem confirm_live_token_witness:
  "\<exists>c'. map_option snd (confirm 1 5 sample_prepared) = Some c' \<and> contains_key (pending c') (Endpoint 7)"
proof -
  obtain p where p: "btree_lookup (prepared sample_prepared) 1 = Some p" "5 < expires_at p"
    using sample_entries(1) by auto
  have "pa_target (the (btree_lookup (prepared sample_prepared) 1)) = Endpoint 7" by code_simp
  with confirm_live_token [OF sample_states_reachable(1) p sample_room(1)] p show ?thesis
    by (auto simp: contains_key_def)
qed

text \<open>C22. A token is consumed by the first confirmation or cancellation that finds it, whatever the outcome:
  after any further calls, confirming or cancelling it again is refused as an unknown token and
  changes nothing.\<close>

theorem token_single_use:
  assumes "reachable cat c" and "btree_lookup (prepared c) k = Some p"
    and "confirm k now c = Some (r, c1) \<or> cancel k now c = Some (r', c1)"
    and "run_ops ops c1 = Some c2"
  shows "confirm k later c2 = Some (Inl (UnknownToken k), c2) \<and> cancel k later c2 = Some (Inl (UnknownToken k), c2)"
proof -
  have inv: "ctl_inv c" by (rule reachable_inv [OF assms(1)])
  have keeps: "keeps_active c c1 \<and> btree_lookup (prepared c1) k = None" and inv1: "ctl_inv c1"
    using assms(3) confirm_keeps [OF _ inv] cancel_keeps confirm_inv [OF _ inv] cancel_inv [OF _ inv] by blast+
  have "k < next_token c" using inv assms(2) by (simp add: ctl_inv_def)
  then have "spent k c1" using keeps by (auto simp: spent_def keeps_active_def)
  then have "spent k c2" using run_ops_invariant [OF assms(4) inv1] run_op_spent by blast
  then show ?thesis
    by (simp_all add: spent_unusable)
qed

theorem token_single_use_witness: "confirm 1 6 sample_queued = Some (Inl (UnknownToken 1), sample_queued)"
proof -
  obtain p where p: "btree_lookup (prepared sample_prepared) 1 = Some p" using sample_entries(1) by auto
  obtain r where r: "confirm 1 5 sample_prepared = Some (r, sample_queued)" using sample_confirm by auto
  have none: "run_ops [] sample_queued = Some sample_queued" by simp
  show ?thesis
    by (rule conjunct1 [OF token_single_use [OF sample_states_reachable(1) p disjI1 [OF r] none]])
qed

text \<open>C29. The revision never decreases and moves exactly when the prepared, queued or active records change.\<close>

theorem revision_counts_changes:
  assumes "reachable cat c" and "run_op op c = Some c'"
  shows "unat (revision c) \<le> unat (revision c')
    \<and> (revision c' = revision c \<longleftrightarrow> prepared c' = prepared c \<and> pending c' = pending c \<and> active c' = active c)"
  using run_op_counts [OF assms(2) reachable_inv [OF assms(1)]] by (simp_all add: counts_changes_def)

theorem revision_counts_changes_witness: "unat (revision sample_prepared) \<le> unat (revision sample_queued)"
  using revision_counts_changes [OF sample_states_reachable(1) sample_confirm] by blast

text \<open>C30. Frame plans change at reporting boundaries only: preparing, confirming, cancelling and taking
  snapshots never alter the effects applied to any stream.\<close>

theorem plans_change_at_boundaries_only:
  assumes "reachable cat c" and "run_op op c = Some c'" and "\<not> is_advance op"
  shows "frame_plan c' stream_id = frame_plan c stream_id"
proof -
  have "active c' = active c" "current_sample_index c' = current_sample_index c"
    using run_op_keeps_active [OF assms(2) reachable_inv [OF assms(1)] assms(3)]
    by (simp_all add: keeps_active_def)
  then show ?thesis by (simp only: frame_plan_def)
qed

theorem plans_change_at_boundaries_only_witness: "frame_plan sample_queued 7 = frame_plan sample_prepared 7"
  by (rule plans_change_at_boundaries_only [OF sample_states_reachable(1) sample_confirm]) simp

text \<open>C10. A queued transient scenario becomes active at the next boundary \<open>b\<close> and stays the active scenario
  of its target for every boundary index before \<open>b\<close> + start offset + duration, whatever calls are made
  meanwhile; it is effective exactly from \<open>b\<close> + start offset on, and is dropped at the first boundary that
  reaches the end of the window.\<close>

theorem transient_window:
  assumes "reachable cat c" and "btree_lookup (pending c) t = Some p" and "pd_action p = Activate s"
    and "duration_frames s = Some d"
    and "advance_boundary b c = Some (Inr (), c1)" and "run_ops ops c1 = Some c2"
  shows "\<exists>i. current_sample_index c2 = Some i \<and> b \<le> i
    \<and> (let a = \<lparr>aa_scenario = s, aa_actor_label = pd_actor_label p, first_eligible_boundary = b\<rparr>;
           first = unat b + unat (start_frame_offset s)
       in (btree_lookup (active c2) t = Some a \<longleftrightarrow> unat i < first + unat d)
          \<and> (is_effective_at a i \<longleftrightarrow> first \<le> unat i))"
proof -
  have inv: "ctl_inv c" by (rule reachable_inv [OF assms(1)])
  then have "admissible (catalog c) (active c) t (pd_action p)" and wf: "catalog_wf (catalog c)"
    using assms(2) by (simp_all add: ctl_inv_def)
  then have "s \<in> set (sc_scenarios (catalog c))"
    using assms(3) by (simp add: admissible_def)
  then have "scenario_wf s" by (rule catalog_wf_scenario [OF wf])
  then have s: "sd_lifecycle s = Transient" "0 < d"
    using assms(4) by (simp_all add: scenario_wf_def)
  have adv: "advance_to b c = Some (Inr (), c1)"
    using assms(5) by (auto simp: advance_boundary_def split: option.splits if_splits)
  then have "in_window b d s (pd_actor_label p) t c1"
    using in_window_start assms(2-4) s by blast
  moreover have "ctl_inv c1" by (rule advance_boundary_inv [OF assms(5) inv])
  ultimately have "ctl_inv c2 \<and> in_window b d s (pd_actor_label p) t c2"
    by (intro run_ops_invariant [OF assms(6)]) (simp_all add: in_window_step [OF _ _ _ s(1) assms(4)])
  then obtain i where "current_sample_index c2 = Some i" "b \<le> i"
    "btree_lookup (active c2) t = Some \<lparr>aa_scenario = s, aa_actor_label = pd_actor_label p, first_eligible_boundary = b\<rparr>
       \<longleftrightarrow> unat i < unat b + unat (start_frame_offset s) + unat d"
    by (auto simp: in_window_def)
  then show ?thesis
    using is_effective_at_iff [of "\<lparr>aa_scenario = s, aa_actor_label = pd_actor_label p, first_eligible_boundary = b\<rparr>" i]
    by (simp add: Let_def)
qed

theorem transient_window_witness:
  "\<exists>c1 c2 a. advance_boundary 10 sample_queued = Some (Inr (), c1) \<and> run_ops [OpAdvance 12] c1 = Some c2
     \<and> btree_lookup (active c2) (Endpoint 7) = Some a \<and> is_effective_at a 12"
proof -
  obtain s p where s: "catalog_scenario baseline_compiled ''missing-frames'' = Some s" "duration_frames s = Some 500"
    and p: "btree_lookup (pending sample_queued) (Endpoint 7) = Some p" "pd_action p = Activate s"
    using sample_entries(2,3) by auto
  have "map_option fst (advance_boundary 10 sample_queued) = Some (Inr ())" by code_simp
  then obtain c1 where c1: "advance_boundary 10 sample_queued = Some (Inr (), c1)" by auto
  have "map_option current_sample_index (run_ops [OpAdvance 10, OpAdvance 12] sample_queued) = Some (Some 12)"
    by code_simp
  then obtain c2 where c2: "run_ops [OpAdvance 12] c1 = Some c2" "current_sample_index c2 = Some 12"
    using c1 by (auto simp: bind_eq_Some_conv)
  have "map_option start_frame_offset (catalog_scenario baseline_compiled ''missing-frames'') = Some 0"
    by code_simp
  then show ?thesis
    using transient_window [OF sample_states_reachable(2) p s(2) c1 c2(1)] c1 c2 s(1) by (auto simp: Let_def)
qed

end
