(* ===== verification/Management_Names.thy ===== *)
theory Management_Names
  imports Management_Props Management_Api Config_Props
begin

text \<open>
  The names the management interface shows (\<^verbatim>\<open>management_pdc_name\<close>, \<^verbatim>\<open>management_pmu_name_parts\<close>) are read back
  from the encoded fields of an endpoint.  For a compiled profile they are the configured names.
\<close>

section \<open>UTF-8\<close>

definition is_utf8 :: "string \<Rightarrow> bool" where
  "is_utf8 s \<longleftrightarrow> utf8_decode (map unat (str_bytes s)) \<noteq> None"

lemma utf8_decode_append:
  "utf8_decode xs = Some u \<Longrightarrow> utf8_decode (xs @ ys) = map_option ((@) u) (utf8_decode ys)"
proof (induction xs arbitrary: u rule: utf8_decode.induct)
  case 1
  then show ?case by (cases "utf8_decode ys") simp_all
next
  case (2 a bs)
  then show ?case
    by (cases "utf8_decode ys") (auto split: if_splits list.splits)
qed

lemma utf8_decode_ascii: "\<forall>b \<in> set bs. b < 0x80 \<Longrightarrow> utf8_decode bs = Some bs"
  by (induction bs) simp_all

lemma from_utf8_bytes: "is_utf8 s \<Longrightarrow> from_utf8 (str_bytes s) = Some s"
  by (simp add: from_utf8_def is_utf8_def str_bytes_def comp_def unat_of_char)

lemma is_utf8_append_ascii:
  assumes "is_utf8 s" "\<forall>c \<in> set t. unat (of_char c :: u8) < 0x80"
  shows "is_utf8 (s @ t)"
proof -
  have "utf8_decode (map unat (str_bytes t)) = Some (map unat (str_bytes t))"
    by (rule utf8_decode_ascii) (use assms(2) in \<open>simp add: str_bytes_def\<close>)
  then show ?thesis
    using assms(1) utf8_decode_append by (fastforce simp: is_utf8_def str_bytes_def)
qed

lemma digit_string:
  assumes "\<forall>c \<in> set t. \<exists>d<10. c = digit_char d"
  shows "\<forall>c \<in> set t. unat (of_char c :: u8) < 0x80" "list_all is_ascii_digit (str_bytes t)"
    "\<forall>c \<in> set t. \<not> continuation (of_char c) \<and> c \<noteq> CHR '' ''"
proof -
  have "unat (of_char c :: u8) < 0x80 \<and> is_ascii_digit (of_char c) \<and> \<not> continuation (of_char c) \<and> c \<noteq> CHR '' ''"
    if c: "c \<in> set t" for c
  proof -
    obtain d where d: "d < 10" "c = digit_char d" using assms c by blast
    then have n: "unat (of_char c :: u8) = 48 + d" using unat_digit_char by simp
    then have "(of_char c :: nat) = 48 + d" by (simp add: unat_of_char)
    then show ?thesis
      using n d(1) by (auto simp: is_ascii_digit_def continuation_def word_le_nat_alt)
  qed
  then show "\<forall>c \<in> set t. unat (of_char c :: u8) < 0x80" "list_all is_ascii_digit (str_bytes t)"
    "\<forall>c \<in> set t. \<not> continuation (of_char c) \<and> c \<noteq> CHR '' ''"
    by (auto simp: list_all_iff str_bytes_def)
qed

section \<open>The names of a compiled profile\<close>

lemma indexed_name_read:
  assumes "encoded_name name fld = Inr bs" "is_utf8 name"
  shows "management_indexed_name bs = Some name"
proof -
  have "unat (of_nat (length name) :: u8) = length name"
    using assms(1) by (auto simp: encoded_name_def unsigned_of_nat take_bit_nat_eq_self split: if_splits)
  moreover have "bs = of_nat (length name) # str_bytes name"
    using assms(1) by (auto simp: encoded_name_def split: if_splits)
  ultimately show ?thesis
    by (simp add: management_indexed_name_def from_utf8_bytes [OF assms(2)])
qed

lemma fixed_name_read:
  assumes "v2_fixed_ascii name fld = Inr bs" "is_utf8 name" "last name \<noteq> CHR '' ''"
  shows "map_option trim_end_spaces (from_utf8 bs) = Some name"
proof -
  let ?pad = "replicate (16 - length name) (CHR '' '')"
  have ne: "name \<noteq> []" and bs: "bs = str_bytes (name @ ?pad)"
    using assms(1)
    by (auto simp: v2_fixed_ascii_def write_at_def const_defs str_bytes_def split: if_splits)
  have "is_utf8 (name @ ?pad)"
    by (rule is_utf8_append_ascii [OF assms(2)]) (auto simp: unat_of_char)
  then have "from_utf8 bs = Some (name @ ?pad)" unfolding bs by (rule from_utf8_bytes)
  moreover have "trim_end_spaces (name @ ?pad) = name"
  proof -
    have "dropWhile (\<lambda>c. c = CHR '' '') (replicate n (CHR '' '') @ rev name) = rev name" for n
    proof (induction n)
      case 0
      show ?case using ne assms(3) by (cases name rule: rev_cases) simp_all
    qed simp
    then show ?thesis by (simp add: trim_end_spaces_def)
  qed
  ultimately show ?thesis by simp
qed

lemma compile_endpoint_names:
  assumes "compile_endpoint p wv pdc names v2_names v2_units i = Some (Inr d)"
  defines "source \<equiv> pmu_name_prefix (pr_fleet p) @ show_nat_03 (i + 1)"
  shows "ep_pdc_name d = pdc" "ep_wire_version d = wv"
    and "wv = V3 \<Longrightarrow> encoded_name source ''fleet.pmu_name_prefix'' = Inr (ep_pmu_name d)"
    and "wv = V2 \<Longrightarrow> \<exists>m. ep_v2 d = Some m \<and> v2_fixed_ascii source ''fleet.pmu_name_prefix'' = Inr (station_name m)"
  using assms(1)
  by (auto simp: compile_endpoint_def Let_def source_def split: sum.splits wire_version.splits option.splits prod.splits)

lemma compile_prefix_pdc:
  "compile_prefix p = Inr (wv, pdc, names, v2_names, v2_units) \<Longrightarrow>
     encoded_name (fl_pdc_name (pr_fleet p)) ''fleet.pdc_name'' = Inr pdc"
  by (auto simp: compile_prefix_def Let_def)

lemma shown_names_of:
  assumes cp: "compile_profile p = Some (Inr cp)" and i: "i < length (cp_endpoints cp)"
    and utf8: "is_utf8 (fl_pdc_name (pr_fleet p))" "is_utf8 (pmu_name_prefix (pr_fleet p))"
  shows "management_pdc_name (cp_endpoints cp ! i) = Some (fl_pdc_name (pr_fleet p))"
    "management_pmu_name_parts (cp_endpoints cp ! i) = Some (pmu_name_prefix (pr_fleet p), show_nat_03 (i + 1))"
proof -
  let ?d = "cp_endpoints cp ! i" and ?digits = "show_nat_03 (i + 1)"
  obtain wv pdc names v2_names v2_units
    where pre: "compile_prefix p = Inr (wv, pdc, names, v2_names, v2_units)"
      and ep: "compile_endpoint p wv pdc names v2_names v2_units i = Some (Inr ?d)"
    using cp i by (elim compile_profile_Inr) (metis)
  note n = compile_endpoint_names [OF ep]
  have pdc: "management_indexed_name pdc = Some (fl_pdc_name (pr_fleet p))"
    by (rule indexed_name_read [OF compile_prefix_pdc [OF pre] utf8(1)])
  then have "pdc \<noteq> []" by (auto simp: management_indexed_name_def)
  then show "management_pdc_name ?d = Some (fl_pdc_name (pr_fleet p))"
    using pdc n(1) by (simp add: management_pdc_name_def)
  have "i + 1 < 1000"
    using compile_profile_wf [OF cp] i by (simp add: profile_wf_def MAX_LOGICAL_PMUS_def)
  then have len: "length ?digits = 3" by (rule length_show_nat_03)
  note digits = digit_string [OF show_nat_03_digits [of "i + 1"]]
  let ?source = "pmu_name_prefix (pr_fleet p) @ ?digits"
  have source: "is_utf8 ?source" by (rule is_utf8_append_ascii [OF utf8(2) digits(1)])
  have ne: "?digits \<noteq> []" using len by force
  then have last: "last ?source \<noteq> CHR '' ''" using digits(3) last_in_set [of ?digits] by auto
  have "management_pmu_name ?d = Some ?source"
  proof (cases wv)
    case V2
    then obtain m where "ep_v2 ?d = Some m" "v2_fixed_ascii ?source ''fleet.pmu_name_prefix'' = Inr (station_name m)"
      using n(4) by blast
    with fixed_name_read [OF this(2) source last] show ?thesis
      by (auto simp: management_pmu_name_def n(2) V2)
  next
    case V3
    then show ?thesis using indexed_name_read [OF n(3) source] by (simp add: management_pmu_name_def n(2))
  qed
  moreover have "is_char_boundary (length (pmu_name_prefix (pr_fleet p))) ?source"
    using len ne digits(3) hd_in_set [OF ne] by (auto simp: is_char_boundary_def nth_append hd_conv_nth)
  ultimately show "management_pmu_name_parts ?d = Some (pmu_name_prefix (pr_fleet p), ?digits)"
    using len digits(2) by (simp add: management_pmu_name_parts_def Let_def)
qed

lemma compiled_prefix:
  assumes "compile_profile p = Some (Inr cp)"
    and "is_utf8 (fl_pdc_name (pr_fleet p))" "is_utf8 (pmu_name_prefix (pr_fleet p))" "d \<in> set (cp_endpoints cp)"
  shows "management_pdc_name d \<noteq> None" "management_pmu_name_prefix d \<noteq> None"
  using shown_names_of [OF assms(1) _ assms(2,3)] assms(4)
  by (auto simp: in_set_conv_nth management_pmu_name_prefix_def)

text \<open>C39. What the management interface shows as PDC name and as PMU name prefix and number is, for every endpoint
  of a compiled profile whose names are text, the configured PDC name, the configured prefix and the
  endpoint's three-digit number; in particular none of the \<^verbatim>\<open>expect\<close>s on names can fail.\<close>

theorem shown_names:
  assumes "compile_profile p = Some (Inr cp)" and "i < length (cp_endpoints cp)"
    and "is_utf8 (fl_pdc_name (pr_fleet p))" and "is_utf8 (pmu_name_prefix (pr_fleet p))"
  shows "management_pdc_name (cp_endpoints cp ! i) = Some (fl_pdc_name (pr_fleet p))
    \<and> management_pmu_name_parts (cp_endpoints cp ! i) = Some (pmu_name_prefix (pr_fleet p), show_nat_03 (i + 1))"
  using shown_names_of [OF assms] by simp

text \<open>The shipped three-PMU profile.\<close>

lemma shipped_text: "is_utf8 (fl_pdc_name (pr_fleet three_pmu_v2))" "is_utf8 (pmu_name_prefix (pr_fleet three_pmu_v2))"
  by code_simp+

theorem shown_names_witness:
  "map_option snd (management_pmu_name_parts (cp_endpoints (compiled three_pmu_v2) ! 2)) = Some ''003''
   \<and> management_pdc_name (cp_endpoints (compiled three_pmu_v2) ! 2) = Some (fl_pdc_name shipped_fleet)"
proof -
  have "length (cp_endpoints (compiled three_pmu_v2)) = fl_count (pr_fleet three_pmu_v2)"
    using shipped_compile(1) by (rule compile_profile_Inr)
  then have "2 < length (cp_endpoints (compiled three_pmu_v2))" by (simp add: three_pmu_v2_def shipped_fleet_def)
  note n = shown_names [OF shipped_compile(1) this shipped_text]
  have "show_nat_03 3 = ''003''" by code_simp
  then show ?thesis using n by (simp add: three_pmu_v2_def)
qed

end
