(* ===== verification/Script.thy ===== *)
theory Script
  imports Delivery Bind_Inv Config_Props Scenario_Props Management_Names
begin

text \<open>
  A scripted operating system: clients waiting to connect, the pieces of input that reads deliver, and
  the bytes that writes take, at most ten at a time.  The concrete instances of the server's properties
  run on it.
\<close>

record script =
  clients :: nat
  input :: "bytes list"
  written :: "socket \<Rightarrow> bytes"

definition script_os :: "script os" where
  "script_os =
     \<lparr>os_now = (\<lambda>w. (0, w)), os_system_time = (\<lambda>w. (1700000000 * 10 ^ 9, w)), os_poll_new = (\<lambda>w. (Done (), w)),
      os_bind = (\<lambda>_ w. (Done 1, w)),
      os_accept = (\<lambda>_ w. if clients w = 0 then (WouldBlock, w) else (Done 2, w\<lparr>clients := clients w - 1\<rparr>)),
      os_read = (\<lambda>_ n w. case input w of [] \<Rightarrow> (WouldBlock, w) | bs # rest \<Rightarrow> (Done (take n bs), w\<lparr>input := rest\<rparr>)),
      os_write = (\<lambda>x bs w. (Done (min 10 (length bs)), w\<lparr>written := (written w)(x := written w x @ take 10 bs)\<rparr>)),
      os_drop = (\<lambda>_ w. w), os_set_nodelay = (\<lambda>_ w. (Done (), w)),
      os_set_recv_buffer_size = (\<lambda>_ _ w. (Done (), w)), os_set_send_buffer_size = (\<lambda>_ _ w. (Done (), w)),
      os_register = (\<lambda>_ _ w. (Done (), w)), os_reregister = (\<lambda>_ _ _ w. (Done (), w)), os_deregister = (\<lambda>_ w. (Done (), w)),
      os_read_to_string = (\<lambda>_ w. (None, w)), os_process_id = (\<lambda>w. (1, w)), os_next_incarnation = (\<lambda>w. (0, w)),
      os_poll = (\<lambda>_ w. (Done [(0, True, False)], w)), os_eprintln = (\<lambda>_ w. w)\<rparr>"

definition script_codec :: codec where
  "script_codec = \<lparr>ex_http = (\<lambda>_. HttpPartial), ex_json = \<lparr>decode_prepare = (\<lambda>_. None), decode_clear = (\<lambda>_. None), decode_token = (\<lambda>_. None)\<rparr>,
     ex_error = (\<lambda>code message. ([str_bytes code], True)), ex_value = (\<lambda>_. ([], True)), ex_log = (\<lambda>_. None),
     ex_catalog = (\<lambda>_. Some []), ex_sha256_hex = (\<lambda>_. replicate 64 (CHR ''0''))\<rparr>"

lemma script_environment: "environment script_os script_codec clients"
  by (auto simp: environment_def io_bounded_def backlog_def codec_total_def script_os_def script_codec_def split: list.splits if_splits)

lemma script_transmits: "transmits script_os written"
  by (auto simp: transmits_def script_os_def min_def)

definition idle :: script where
  "idle = \<lparr>clients = 3, input = [], written = (\<lambda>_. [])\<rparr>"

text \<open>The server of the shipped three-PMU profile with the shipped scenarios and a management listener.\<close>

definition script_management :: socket_addr where
  "script_management = \<lparr>sa_ip = bind_address (pr_fleet three_pmu_v2), sa_port = 8080\<rparr>"

definition script_bind :: "(script, server_error, script server) prog" where
  "script_bind = bind_with_management script_os script_codec (compiled three_pmu_v2) baseline_compiled AlwaysVerified script_management"

lemma compiled_names_shown:
  assumes "compile_profile p = Some (Inr cp)"
    and "is_utf8 (fl_pdc_name (pr_fleet p))" "is_utf8 (pmu_name_prefix (pr_fleet p))"
  shows "names_shown cp"
  using compiled_prefix [OF assms] by (auto simp: names_shown_def)

text \<open>Binding a compiled profile.\<close>

lemma wp_bind_compiled:
  assumes "compile_profile p = Some (Inr cp)"
    and "is_utf8 (fl_pdc_name (pr_fleet p))" and "is_utf8 (pmu_name_prefix (pr_fleet p))"
    and "controller = None \<or> (\<exists>raw cat. compile_catalog raw = Inr cat \<and> controller = Some (new_controller cat))"
  shows "wp (bind_inner os ex cp controller source config) (\<lambda>s _. bound os cp controller config s) bind_error w"
proof (rule wp_bind_inner [OF compile_profile_wf [OF assms(1)] compiled_names_shown [OF assms(1-3)]])
  show "io_errors os bind_error" by (simp add: io_errors_def bind_error_def)
  show "bind_error e" if "aligned_start sys now rate tb = Inl e" for sys now rate tb e
    by (rule aligned_start_error [OF that])
  show "ctl_inv c \<and> current_sample_index c = None" if "controller = Some c" for c
    using assms(4) that new_controller_inv [OF compile_catalog_wf] by (auto simp: new_controller_def)
qed

lemma script_profile:
  "profile_wf (compiled three_pmu_v2)" "length (cp_endpoints (compiled three_pmu_v2)) = 3"
  "ep_data_rate_hz (hd (cp_endpoints (compiled three_pmu_v2))) = 50"
  "ep_time_base (hd (cp_endpoints (compiled three_pmu_v2))) = 1000000"
proof -
  show wf: "profile_wf (compiled three_pmu_v2)" by (rule compile_profile_wf [OF shipped_compile(1)])
  have fleet: "fl_count (pr_fleet three_pmu_v2) = 3" "fl_data_rate_hz (pr_fleet three_pmu_v2) = 50"
    "fl_time_base (pr_fleet three_pmu_v2) = 1000000"
    by (simp_all add: three_pmu_v2_def shipped_fleet_def)
  obtain wv pdc names v2_names v2_units where len: "length (cp_endpoints (compiled three_pmu_v2)) = 3"
    and "compile_endpoint three_pmu_v2 wv pdc names v2_names v2_units 0 = Some (Inr (cp_endpoints (compiled three_pmu_v2) ! 0))"
    using shipped_compile(1) fleet(1) by (elim compile_profile_Inr) (metis zero_less_numeral)
  then show "length (cp_endpoints (compiled three_pmu_v2)) = 3"
    "ep_data_rate_hz (hd (cp_endpoints (compiled three_pmu_v2))) = 50"
    "ep_time_base (hd (cp_endpoints (compiled three_pmu_v2))) = 1000000"
    using compile_endpoint_Inr(7,8) fleet hd_conv_nth [of "cp_endpoints (compiled three_pmu_v2)"] by force+
qed

lemma script_clock: "aligned_start (1700000000 * 10 ^ 9) now 50 1000000 \<noteq> Inl e"
proof -
  have "is_ok (aligned_timestamp (1700000000 * 10 ^ 9) 50 1000000)"
    by (simp add: aligned_timestamp_def Let_def checked_defs is_ok_iff ok_or_def const_defs)
  then show ?thesis by (auto simp: aligned_start_def Let_def fail_if_def is_ok_iff)
qed

text \<open>Binding it succeeds.\<close>

lemma script_bound:
  obtains s w where "script_bind idle = Ok (s, w)"
    "bound script_os (compiled three_pmu_v2) (Some (new_controller baseline_compiled)) (Some script_management) s"
proof -
  have "wp (bind_inner script_os script_codec (compiled three_pmu_v2) (Some (new_controller baseline_compiled)) AlwaysVerified
       (Some script_management))
     (\<lambda>s _. bound script_os (compiled three_pmu_v2) (Some (new_controller baseline_compiled)) (Some script_management) s) (\<lambda>_. False) idle"
  proof (rule wp_bind_inner [OF script_profile(1)])
    show "names_shown (compiled three_pmu_v2)" by (rule compiled_names_shown [OF shipped_compile(1) shipped_text])
    show "io_errors script_os (\<lambda>_. False)" by (simp add: io_errors_def script_os_def)
    show False if "os_system_time script_os w = (sys, w')" "aligned_start sys now rate tb = Inl e"
      "rate = ep_data_rate_hz (hd (cp_endpoints (compiled three_pmu_v2)))"
      "tb = ep_time_base (hd (cp_endpoints (compiled three_pmu_v2)))" for w sys w' now rate tb e
      using that script_clock by (simp add: script_profile script_os_def)
    show "ctl_inv c \<and> current_sample_index c = None" if "Some (new_controller baseline_compiled) = Some c" for c
      using that new_controller_inv [OF compile_catalog_wf [OF baseline_compiled_eq]] by (auto simp: new_controller_def)
  qed
  then show ?thesis
    by (rule wp_outcome) (rule that, simp_all add: script_bind_def bind_with_management_def)
qed

text \<open>The bound server, with three clients waiting.\<close>

definition script_server :: "script server" where
  "script_server = (case script_bind idle of Ok (s, w) \<Rightarrow> s\<lparr>sv_world := idle\<rparr> | _ \<Rightarrow> undefined)"

lemma bound_world: "bound os cp controller config (s\<lparr>sv_world := w\<rparr>) = bound os cp controller config s"
  using server_inv_cong(1) [of "s\<lparr>sv_world := w\<rparr>" s] by (simp add: bound_def)

lemma script_server:
  "bound script_os (compiled three_pmu_v2) (Some (new_controller baseline_compiled)) (Some script_management) script_server"
  by (rule script_bound) (simp add: script_server_def bound_world)

lemma script_server_simps [simp]: "sv_world script_server = idle" "sv_next_connection_id script_server = 1"
proof -
  obtain s w where "script_bind idle = Ok (s, w)" by (rule script_bound)
  then show "sv_world script_server = idle" by (simp add: script_server_def)
qed (use script_server in \<open>simp add: bound_def\<close>)

text \<open>Its first endpoint serves version 2 and has two empty slots.\<close>

lemma script_endpoint:
  "length (sv_endpoints script_server) = 3" "en_descriptor (sv_endpoints script_server ! 0) = endpoint_v2"
  "endpoint_inv (sv_endpoints script_server ! 0)" "en_connections (sv_endpoints script_server ! 0) = [None, None]"
proof -
  have b: "map en_descriptor (sv_endpoints script_server) = cp_endpoints (compiled three_pmu_v2)" "server_inv script_server"
    "live_connections (sv_endpoints script_server) = 0"
    using script_server by (simp_all add: bound_def)
  then show len: "length (sv_endpoints script_server) = 3" using script_profile(2) by (metis length_map)
  then show "en_descriptor (sv_endpoints script_server ! 0) = endpoint_v2"
    using arg_cong [OF b(1), of "\<lambda>ds. ds ! 0"] by (simp add: endpoint_v2_def)
  show inv: "endpoint_inv (sv_endpoints script_server ! 0)"
    using endpoint_of [OF b(2), of 0] len by simp
  have "live (sv_endpoints script_server ! 0) = 0" using b(3) len by (simp add: live_connections_def)
  moreover obtain x y where "en_connections (sv_endpoints script_server ! 0) = [x, y]"
    using inv by (auto simp: endpoint_inv_def endpoint_static_def length_Suc_conv eval_nat_numeral)
  ultimately show "en_connections (sv_endpoints script_server ! 0) = [None, None]"
    by (auto simp: live_def split: if_splits)
qed

text \<open>Two of the three clients are accepted, under the identifiers 1 and 2; the third finds no slot.\<close>

definition script_client :: "u64 \<Rightarrow> u64 \<Rightarrow> connection" where
  "script_client i token = new_connection 0 i token 2 (command_frame_bytes (en_limits (sv_endpoints script_server ! 0))) V2"

definition script_token :: "nat \<Rightarrow> u64 \<Rightarrow> u64" where
  "script_token slot i = (case connection_token 3 0 (of_nat slot) i of Inr token \<Rightarrow> token | Inl _ \<Rightarrow> 0)"

lemma script_tokens:
  "connection_token 3 0 0 1 = Inr (script_token 0 1)" "connection_token 3 0 1 2 = Inr (script_token 1 2)"
proof -
  have "is_ok (connection_token 3 0 0 1)" "is_ok (connection_token 3 0 1 2)" by code_simp+
  then show "connection_token 3 0 0 1 = Inr (script_token 0 1)" "connection_token 3 0 1 2 = Inr (script_token 1 2)"
    by (auto simp: script_token_def is_ok_iff)
qed

text \<open>The rounds of the accept loop on the first endpoint, by the state of its slots.\<close>

definition accepting_in :: "connection option list \<Rightarrow> u64 \<Rightarrow> u64 \<Rightarrow> u64 \<Rightarrow> nat \<Rightarrow> script ctx" where
  "accepting_in cs next_id accepted rejected waiting =
     (to_ctx 0 script_server)\<lparr>cx_endpoint := (sv_endpoints script_server ! 0)\<lparr>en_connections := cs\<rparr>,
        cx_next_connection_id := next_id,
        cx_stats := (sv_stats script_server)\<lparr>accepted_clients := accepted, rejected_clients := rejected\<rparr>,
        cx_world := idle\<lparr>clients := waiting\<rparr>\<rparr>"

lemma accepting_in_simps [simp]:
  "cx_endpoint (accepting_in cs i a r n) = (sv_endpoints script_server ! 0)\<lparr>en_connections := cs\<rparr>"
  "cx_next_connection_id (accepting_in cs i a r n) = i" "cx_world (accepting_in cs i a r n) = idle\<lparr>clients := n\<rparr>"
  "(accepting_in cs i a r n)\<lparr>cx_world := idle\<lparr>clients := n'\<rparr>\<rparr> = accepting_in cs i a r n'"
  "(accepting_in cs i a r n)\<lparr>cx_next_connection_id := i'\<rparr> = accepting_in cs i' a r n"
  "cx_stats (accepting_in cs i a r n) = (sv_stats script_server)\<lparr>accepted_clients := a, rejected_clients := r\<rparr>"
  "(accepting_in cs i a r n)\<lparr>cx_stats := (sv_stats script_server)\<lparr>accepted_clients := a', rejected_clients := r'\<rparr>\<rparr> = accepting_in cs i a' r' n"
  "(accepting_in cs i a r n)\<lparr>cx_endpoint := (sv_endpoints script_server ! 0)\<lparr>en_connections := cs'\<rparr>\<rparr> = accepting_in cs' i a r n"
  by (simp_all add: accepting_in_def)

lemma script_configured [simp]: "configure_stream script_os limits token stream w = (True, w)"
  by (simp add: configure_stream_def script_os_def)

lemma script_accepts [simp]:
  "os_accept script_os l (idle\<lparr>clients := 0\<rparr>) = (WouldBlock, idle\<lparr>clients := 0\<rparr>)"
  "os_accept script_os l (idle\<lparr>clients := Suc n\<rparr>) = (Done 2, idle\<lparr>clients := n\<rparr>)"
  "os_now script_os w = (0, w)" "os_drop script_os x w = w"
  by (simp_all add: script_os_def)

lemma script_accept_round:
  assumes "cs = [None, None] \<and> i = 1 \<or> cs = [Some c, None] \<and> i = 2 \<or> cs = [Some c, Some d]"
  shows "accept_round script_os 3 0 (accepting_in cs i a r (Suc n)) =
     Ok (None, if cs = [None, None] then accepting_in [Some (script_client 1 (script_token 0 1)), None] 2 (a + 1) r n
               else if cs = [Some c, None] then accepting_in [Some c, Some (script_client 2 (script_token 1 2))] 3 (a + 1) r n
               else accepting_in cs i a (r + 1) n)"
proof -
  have v2: "ep_wire_version (en_descriptor (sv_endpoints script_server ! 0)) = V2"
    by (simp add: script_endpoint shipped_endpoints)
  have add: "checked_add (1 :: u64) 1 = Some 2" "checked_add (2 :: u64) 1 = Some 3" by (simp_all add: checked_add_def)
  show ?thesis
    using assms script_tokens add
    by (elim disjE conjE)
       (simp_all add: accept_round_def prog_defs world_def find_free_def set_slot_def slot_of_def tally_def reject_client_def v2
         flip: script_client_def)
qed

lemma script_accept:
  obtains t where "accept_connections script_os 3 0 (to_ctx 0 script_server) = Ok ((), t)"
    "en_connections (cx_endpoint t) = [Some (script_client 1 (script_token 0 1)), Some (script_client 2 (script_token 1 2))]"
    "rejected_clients (cx_stats t) = 1"
proof -
  have "to_ctx 0 script_server = accepting_in [None, None] 1 0 0 3"
    using script_server by (simp add: accepting_in_def to_ctx_def bound_def default_stats_def script_endpoint(4) [symmetric] idle_def)
  moreover have "accept_round script_os 3 0 (accepting_in cs i a r 0) = Ok (Some (), accepting_in cs i a r 0)" for cs i a r
    by (simp add: accept_round_def prog_defs world_def)
  ultimately have "accept_connections script_os 3 0 (to_ctx 0 script_server) = Ok ((),
      accepting_in [Some (script_client 1 (script_token 0 1)), Some (script_client 2 (script_token 1 2))] 3 2 1 0)"
    by (simp add: accept_connections_def loop_p_unfold [of "accept_round script_os 3 0"] script_accept_round eval_nat_numeral)
  then show thesis by (rule that) simp_all
qed

text \<open>Its clock stands at zero, its first sample is later, and its controller has not counted anything yet.\<close>

lemma script_uptime: "uptime_bounded script_os script_server"
proof -
  have "clock_from script_os (compiled three_pmu_v2) (sv_wall_clock script_server) (started (sv_scheduler script_server))"
    using script_server by (simp add: bound_def)
  then have "0 \<le> started (sv_scheduler script_server)"
    by (auto simp: clock_from_def script_os_def aligned_start_def Let_def bind_ok_def delay_until_timestamp_def fail_if_def
        split: sum.splits if_splits)
  then show ?thesis by (simp add: uptime_bounded_def)
qed

lemma script_room: "k * (MAX_SCENARIO_TARGETS + 1) < 2 ^ 64 \<Longrightarrow> room k script_server"
  using script_server by (simp add: bound_def room_def new_controller_def)

lemma script_stream_id: "ep_stream_id endpoint_v2 = 1001"
proof -
  have "0 < length (cp_endpoints (compiled three_pmu_v2))" by (simp add: script_profile)
  from compile_profile_identifiers(2) [OF shipped_compile(1) this]
  have "unat (ep_stream_id endpoint_v2) = unat (1001 :: u16)"
    by (simp add: endpoint_v2_def three_pmu_v2_def shipped_fleet_def)
  then show ?thesis by (simp only: word_unat_eq_iff)
qed

text \<open>The first endpoint with one streaming client, idle or with a data frame to send.\<close>

definition script_streaming :: "pending_frame \<Rightarrow> connection" where
  "script_streaming p = (script_client 1 (script_token 0 1))\<lparr>cn_streaming := True, cn_pending := p\<rparr>"

definition script_stream_ctx :: "pending_frame \<Rightarrow> script ctx" where
  "script_stream_ctx p = accepting_in [Some (script_streaming p), None] 2 1 0 0"

lemma script_data_frame:
  "length (data_frame_bytes (en_data_frame (sv_endpoints script_server ! 0))) = PERIODIC_DATA_FRAME_BYTES_V2"
  "frames_wf (sv_endpoints script_server ! 0)"
proof -
  show "frames_wf (sv_endpoints script_server ! 0)"
    using script_endpoint(3) by (simp add: endpoint_inv_def endpoint_static_def)
  then show "length (data_frame_bytes (en_data_frame (sv_endpoints script_server ! 0))) = PERIODIC_DATA_FRAME_BYTES_V2"
    by (auto simp: frames_wf_def script_endpoint shipped_endpoints split: endpoint_frames.splits data_frame.splits)
qed

lemma script_serving:
  assumes "p = PendingNone \<or> p = PendingData 0"
  shows "serving 0 (script_streaming p) (script_stream_ctx p)" "endpoint_inv (cx_endpoint (script_stream_ctx p))"
    "endpoint_wf (en_descriptor (cx_endpoint (script_stream_ctx p)))"
proof -
  let ?en = "sv_endpoints script_server ! 0"
  have static: "endpoint_static ?en" and v2: "ep_wire_version (en_descriptor ?en) = V2"
    using script_endpoint(3) by (simp_all add: endpoint_inv_def script_endpoint shipped_endpoints)
  have "connection_wf ?en (script_client 1 (script_token 0 1))"
    unfolding script_client_def using new_connection_wf [OF static] by (simp add: v2)
  then have wf: "connection_wf ?en (script_streaming p)"
    using assms script_data_frame(1)
    by (auto simp: connection_wf_def script_streaming_def sending_def v2 PERIODIC_DATA_FRAME_BYTES_V2_def script_client_def new_connection_def const_defs)
  have "length (en_connections ?en) = 2" by (simp add: script_endpoint)
  then have static': "endpoint_static (cx_endpoint (script_stream_ctx p))"
    using static by (simp add: script_stream_ctx_def)
  then show "serving 0 (script_streaming p) (script_stream_ctx p)" "endpoint_inv (cx_endpoint (script_stream_ctx p))"
    using wf by (auto simp: serving_def holds_def endpoint_inv_def script_stream_ctx_def)
  show "endpoint_wf (en_descriptor (cx_endpoint (script_stream_ctx p)))"
    by (simp add: script_stream_ctx_def script_endpoint shipped_endpoints)
qed

lemma script_remaining:
  "remaining (cx_endpoint (script_stream_ctx (PendingData 0))) (script_streaming (PendingData 0))
     = data_frame_bytes (en_data_frame (sv_endpoints script_server ! 0))"
  using script_data_frame(2)
  by (auto simp: remaining_def sending_def script_stream_ctx_def script_streaming_def frames_wf_def
      split: endpoint_frames.splits data_frame.splits wire_version.splits)

end
