(* ===== verification/Server_Props.thy ===== *)
theory Server_Props
  imports Script
begin

text \<open>
  What the server guarantees: that it binds, that its handlers and its main loop return and keep the
  invariant, what a management request may do, whom a listener admits and which connections a deadline,
  a sample or a partial write affects.  The instances are the scripted server's.
\<close>

section \<open>Binding\<close>

text \<open>C15. A server bound to a compiled profile whose names are text is ready and satisfies the invariant: its endpoints
  are those of the profile without any connection, the statistics are zero, the next sample is the
  first, and the controller and the management listener are there exactly when they were asked for.
  Binding never panics; it fails only as the operating system does, or when the clock lies outside the
  range of the protocol.\<close>

theorem bind_ready:
  assumes "compile_profile p = Some (Inr cp)"
    and "is_utf8 (fl_pdc_name (pr_fleet p))" and "is_utf8 (pmu_name_prefix (pr_fleet p))"
    and "controller = None \<or> (\<exists>raw cat. compile_catalog raw = Inr cat \<and> controller = Some (new_controller cat))"
  shows "wp (bind_inner os ex cp controller source config) (\<lambda>s _. bound os cp controller config s) bind_error w"
  using assms by (rule wp_bind_compiled)

theorem bind_ready_witness:
  "wp (bind_with_management script_os script_codec (compiled three_pmu_v2) baseline_compiled AlwaysVerified script_management)
     (\<lambda>s _. server_inv s \<and> sv_ready s) bind_error idle"
  unfolding bind_with_management_def
  by (rule wp_mono [OF bind_ready [OF shipped_compile(1) shipped_text]])
     (use baseline_compiled_eq in \<open>auto simp: bound_def\<close>)

section \<open>Rounds\<close>

text \<open>The first \<open>n\<close> rounds of the main loop.\<close>

fun rounds :: "'w os \<Rightarrow> codec \<Rightarrow> (f32 \<Rightarrow> f32) \<Rightarrow> instant option \<Rightarrow> nat \<Rightarrow> ('w, server_stats option) server_action" where
  "rounds os ex sin32 deadline 0 = ret None"
| "rounds os ex sin32 deadline (Suc n) =
     bind_p (run_round os ex sin32 deadline) (\<lambda>r. case r of None \<Rightarrow> rounds os ex sin32 deadline n | Some st \<Rightarrow> ret (Some st))"

lemma run_until_rounds:
  "run_until os ex sin32 deadline s = (case rounds os ex sin32 deadline n s of
       Ok (None, t) \<Rightarrow> run_until os ex sin32 deadline t | Ok (Some st, t) \<Rightarrow> Ok (st, t)
     | Err e \<Rightarrow> Err e | Panic \<Rightarrow> Panic | Diverged \<Rightarrow> Diverged)"
proof (induction n arbitrary: s)
  case (Suc n)
  have step: "run_until os ex sin32 deadline s = (case run_round os ex sin32 deadline s of
       Ok (None, t) \<Rightarrow> run_until os ex sin32 deadline t | Ok (Some st, t) \<Rightarrow> Ok (st, t)
     | Err e \<Rightarrow> Err e | Panic \<Rightarrow> Panic | Diverged \<Rightarrow> Diverged)"
    unfolding run_until_def by (rule loop_p_unfold)
  show ?case
  proof (cases "run_round os ex sin32 deadline s")
    case (Ok x)
    obtain r t where x: "x = (r, t)" by (cases x)
    show ?thesis using step Suc.IH [of t] by (cases r) (simp_all add: Ok x bind_p_def ret_def)
  qed (simp_all add: step bind_p_def)
qed (simp add: ret_def)

lemma room_mult:
  assumes "room (Suc n * ROUND_OPERATIONS) s"
  shows "room (n * ROUND_OPERATIONS + ROUND_OPERATIONS) s"
  using assms by (simp add: add.commute)

lemma wp_rounds:
  assumes env: "environment os ex m" and "server_inv s" "uptime_bounded os s" "room (n * ROUND_OPERATIONS) s"
  shows "wp (rounds os ex sin32 deadline n)
      (\<lambda>_ t. server_inv t \<and> map en_descriptor (sv_endpoints t) = map en_descriptor (sv_endpoints s)) environment_error s"
  using assms(2-)
proof (induction n arbitrary: s)
  case (Suc n)
  have "wp (run_round os ex sin32 deadline) (\<lambda>_. handled (n * ROUND_OPERATIONS) s) environment_error s"
    by (rule wp_run_round [OF env Suc.prems(1) room_mult [OF Suc.prems(3)] Suc.prems(2)])
  then have "wp (run_round os ex sin32 deadline) (\<lambda>r. wp (case r of None \<Rightarrow> rounds os ex sin32 deadline n | Some st \<Rightarrow> ret (Some st))
      (\<lambda>_ t. server_inv t \<and> map en_descriptor (sv_endpoints t) = map en_descriptor (sv_endpoints s)) environment_error)
      environment_error s"
  proof (rule wp_mono)
    fix r t assume h: "handled (n * ROUND_OPERATIONS) s t"
    have same: "map en_descriptor (sv_endpoints t) = map en_descriptor (sv_endpoints s)" using h by (simp add: handled_def)
    from Suc.IH [OF handledD(1) [OF h] handled_uptime [OF h Suc.prems(2)] handledD(2) [OF h]]
    show "wp (case r of None \<Rightarrow> rounds os ex sin32 deadline n | Some st \<Rightarrow> ret (Some st))
      (\<lambda>_ t. server_inv t \<and> map en_descriptor (sv_endpoints t) = map en_descriptor (sv_endpoints s)) environment_error t"
      using handledD(1) [OF h] by (auto simp: same split: option.splits)
  qed
  then show ?case by simp
qed simp

text \<open>C3. The main loop is safe for as many rounds as its counters have room for: from a server in its invariant, with
  clock readings within \<open>2 ^ 58\<close> seconds of the first sample, the first \<open>n\<close> rounds neither panic nor hang,
  keep the invariant and the endpoints, and fail only with an error of the operating system or of its
  clock; and running the server is exactly these rounds followed by the rest of its run.\<close>

theorem main_loop_safe:
  assumes "environment os ex m" and "server_inv s" and "uptime_bounded os s" and "room (n * ROUND_OPERATIONS) s"
  shows "wp (rounds os ex sin32 deadline n)
      (\<lambda>r t. server_inv t \<and> map en_descriptor (sv_endpoints t) = map en_descriptor (sv_endpoints s)
        \<and> run_until os ex sin32 deadline s = (case r of None \<Rightarrow> run_until os ex sin32 deadline t | Some st \<Rightarrow> Ok (st, t)))
      (\<lambda>e. environment_error e \<and> run_until os ex sin32 deadline s = Err e) s"
  using wp_rounds [OF assms, of sin32 deadline] run_until_rounds [of os ex sin32 deadline s n]
  by (auto simp: wp_def split: res.splits prod.splits option.splits)

text \<open>A million rounds of the scripted server.\<close>

theorem main_loop_safe_witness:
  "wp (rounds script_os script_codec (\<lambda>x. x) (Some (10 ^ 12)) 1000000) (\<lambda>_. server_inv)
     (\<lambda>e. environment_error e \<and> run_until script_os script_codec (\<lambda>x. x) (Some (10 ^ 12)) script_server = Err e) script_server"
proof -
  have "server_inv script_server" using script_server by (simp add: bound_def)
  from main_loop_safe [OF script_environment this script_uptime script_room, of 1000000 "\<lambda>x. x" "Some (10 ^ 12)"]
  show ?thesis by (rule wp_conseq) (simp_all add: ROUND_OPERATIONS_def const_defs)
qed

section \<open>Events\<close>

lemma from_to_ctx: "e < length (sv_endpoints s) \<Longrightarrow> from_ctx e (to_ctx e s) s = s"
  by (simp add: from_ctx_def to_ctx_def)

lemma stale_event_ignored:
  assumes inv: "server_inv s" and target: "event_target token (of_nat (length (sv_endpoints s))) = Some (ConnectionTarget e k i)"
    and stale: "\<And>c. sheld (unat e) (unat k) c s \<Longrightarrow> cn_id c \<noteq> i"
  shows "dispatch_event os ex (length (sv_endpoints s)) (token, readable, writable) s = Ok ((), s)"
proof -
  have n: "0 < length (sv_endpoints s)" "length (sv_endpoints s) \<le> MAX_LOGICAL_PMUS"
    using inv by (simp_all add: server_inv_def pdc_inv_def)
  have e: "unat e < length (sv_endpoints s)" "unat k < 2" using event_target_bounds(2) [OF n target] by simp_all
  have "length (en_connections (sv_endpoints s ! unat e)) = 2"
    using endpoint_of [OF inv e(1)] by (simp add: endpoint_inv_def endpoint_static_def)
  then have "connection_event os (unat k) i readable writable (to_ctx (unat e) s) = Ok ((), to_ctx (unat e) s)"
    by (intro stale_event) (use e stale in \<open>simp_all add: holds_to_ctx\<close>)
  then show ?thesis
    using target e(1) by (simp add: dispatch_event_def dispatch_connection_def on_endpoint_def zoom_def from_to_ctx)
qed

text \<open>C9. Every poll event is handled: whatever token and readiness the poll reports, the handler's loops (accepting,
  reading, processing buffered commands, flushing) end, it does not panic, the invariant holds again
  with the same endpoints, and it costs the controller at most one operation.  An event for a
  connection that is no longer in its slot changes nothing.\<close>

theorem events_handled:
  assumes "environment os ex m" and "server_inv s" and "room (Suc k) s"
  shows "wp (dispatch_event os ex (length (sv_endpoints s)) (token, readable, writable))
      (\<lambda>_ t. server_inv t \<and> map en_descriptor (sv_endpoints t) = map en_descriptor (sv_endpoints s) \<and> room k t)
      environment_error s
    \<and> (\<forall>e slot i. event_target token (of_nat (length (sv_endpoints s))) = Some (ConnectionTarget e slot i)
          \<and> (\<forall>c. sheld (unat e) (unat slot) c s \<longrightarrow> cn_id c \<noteq> i)
        \<longrightarrow> dispatch_event os ex (length (sv_endpoints s)) (token, readable, writable) s = Ok ((), s))"
  using wp_mono [OF wp_dispatch_event [OF assms refl]] stale_event_ignored [OF assms(2)]
  by (fastforce simp: handled_def)

text \<open>A token from before the server's clients came.\<close>

theorem events_handled_witness:
  "dispatch_event script_os script_codec 3 (script_token 0 1, True, True) script_server = Ok ((), script_server)"
proof -
  have inv: "server_inv script_server" using script_server by (simp add: bound_def)
  have "room (Suc 0) script_server" by (rule script_room) (simp add: const_defs)
  note handled = events_handled [OF script_environment inv this]
  have "event_target (script_token 0 1) 3 = Some (ConnectionTarget 0 0 1)" by code_simp
  moreover have "\<not> sheld 0 0 c script_server" for c by (simp add: sheld_def script_endpoint)
  ultimately show ?thesis using handled [THEN conjunct2] by (force simp: script_endpoint)
qed

section \<open>Management requests\<close>

text \<open>C12. Every management request is answered, and its effect on the server is at most one operation of the scenario
  controller: preparing, clearing, confirming or cancelling for an admitted request, discarding expired
  preparations for a state request, and nothing for any other or any refused request.\<close>

theorem management_request_effect:
  assumes "server_inv s" and "room (Suc k) s" and "codec_total ex"
  shows "wp (management_request_response os ex request)
      (\<lambda>response t. response \<noteq> [] \<and> op_step (admitted_op s request) s t) (\<lambda>_. False) s"
  using wp_management_request_response [OF server_answerable [OF assms(1,2)] assms(3)]
  by (simp add: answered_def [abs_def])

theorem management_request_effect_witness:
  "wp (management_request_response script_os script_codec
        (RequestPrepare \<lparr>rq_target = \<lparr>mt_stream_id = 1001, mt_connection_id = None\<rparr>, rq_scenario_name = ''missing-frames'', rq_actor_label = None\<rparr>))
     (\<lambda>response t. \<exists>now c. run_op (OpPrepareActivation (Endpoint 1001) ''missing-frames'' None now) (new_controller baseline_compiled) = Some c
        \<and> (\<exists>w. t = script_server\<lparr>sv_controller := Some c, sv_world := w\<rparr>)) (\<lambda>_. False) script_server"
proof -
  have b: "server_inv script_server" "sv_controller script_server = Some (new_controller baseline_compiled)"
    using script_server by (simp_all add: bound_def)
  have known: "list_ex (\<lambda>en. ep_stream_id (en_descriptor en) = 1001) (sv_endpoints script_server)"
    using script_endpoint(1,2) script_stream_id by (auto simp: list_ex_length intro!: exI [of _ 0])
  have "room (Suc 0) script_server" by (rule script_room) (simp add: const_defs)
  moreover have "codec_total script_codec" by (simp add: codec_total_def script_codec_def)
  ultimately show ?thesis
    by (rule wp_mono [OF management_request_effect [OF b(1)]])
       (auto simp: op_step_def admitted_op_def b(2) scenario_target_from_management_def scenario_target_is_admitted_def known Let_def
        split: if_splits)
qed

section \<open>Clients and deadlines\<close>

lemma admitted_fresh:
  assumes "admits n e s t" "holds slot c t" "\<not> holds slot c s"
  shows "cx_next_connection_id s \<le> cn_id c" "cn_id c < cx_next_connection_id t"
    "connection_token n e (of_nat slot) (cn_id c) = Inr (cn_token c)"
    "holds slot' c' t \<Longrightarrow> cn_id c' = cn_id c \<Longrightarrow> slot' = slot"
proof -
  show fresh: "cx_next_connection_id s \<le> cn_id c" "cn_id c < cx_next_connection_id t"
    "connection_token n e (of_nat slot) (cn_id c) = Inr (cn_token c)"
    using assms by (auto simp: admits_def)
  have "\<forall>slot slot' c c'. holds slot c t \<and> holds slot' c' t \<and> cn_id c = cn_id c' \<and> cx_next_connection_id s \<le> cn_id c \<longrightarrow> slot = slot'"
    using assms(1) unfolding admits_def by (elim conjE)
  then show "holds slot' c' t \<Longrightarrow> cn_id c' = cn_id c \<Longrightarrow> slot' = slot"
    using assms(2) fresh(1) by metis
qed

text \<open>C11. A readable listener admits clients only into free slots: the connections that were there stay as they are, and
  every new one has an identifier that was never used, no identifier twice, and the poll token of its
  own endpoint and slot.  The accept loop ends, because the queue of waiting clients is finite, and
  every new connection is counted as an accepted client.\<close>

theorem clients_admitted:
  assumes "backlog os m" and "endpoint_inv (cx_endpoint s)" and "\<forall>slot c. holds slot c s \<longrightarrow> cn_id c < cx_next_connection_id s"
  shows "wp (accept_connections os n e)
      (\<lambda>_ t. endpoint_inv (cx_endpoint t)
        \<and> (\<forall>slot c. holds slot c s \<longrightarrow> holds slot c t)
        \<and> (\<forall>slot c. holds slot c t \<and> \<not> holds slot c s \<longrightarrow>
             cx_next_connection_id s \<le> cn_id c \<and> cn_id c < cx_next_connection_id t
             \<and> connection_token n e (of_nat slot) (cn_id c) = Inr (cn_token c)
             \<and> (\<forall>slot' c'. holds slot' c' t \<and> cn_id c' = cn_id c \<longrightarrow> slot' = slot))
        \<and> accepted_clients (cx_stats t) + of_nat (live (cx_endpoint s)) = accepted_clients (cx_stats s) + of_nat (live (cx_endpoint t)))
      environment_error s"
proof (rule wp_mono [OF wp_accept_connections [OF assms(1)]])
  show "accepting s" using assms(2,3) by (simp add: accepting_def)
  fix t assume "admits n e s t \<and> accepting t"
  then have t: "admits n e s t" "accepting t" by simp_all
  then have kept: "\<forall>slot c. holds slot c s \<longrightarrow> holds slot c t"
    "accepted_clients (cx_stats t) + of_nat (live (cx_endpoint s)) = accepted_clients (cx_stats s) + of_nat (live (cx_endpoint t))"
    by (simp_all add: admits_def)
  show "endpoint_inv (cx_endpoint t)
        \<and> (\<forall>slot c. holds slot c s \<longrightarrow> holds slot c t)
        \<and> (\<forall>slot c. holds slot c t \<and> \<not> holds slot c s \<longrightarrow>
             cx_next_connection_id s \<le> cn_id c \<and> cn_id c < cx_next_connection_id t
             \<and> connection_token n e (of_nat slot) (cn_id c) = Inr (cn_token c)
             \<and> (\<forall>slot' c'. holds slot' c' t \<and> cn_id c' = cn_id c \<longrightarrow> slot' = slot))
        \<and> accepted_clients (cx_stats t) + of_nat (live (cx_endpoint s)) = accepted_clients (cx_stats s) + of_nat (live (cx_endpoint t))"
    using t(2) admitted_fresh [OF t(1)] kept by (simp add: accepting_def) blast
qed

text \<open>Three clients at an endpoint with two slots.\<close>

theorem clients_admitted_witness:
  "\<exists>t c d. accept_connections script_os 3 0 (to_ctx 0 script_server) = Ok ((), t)
     \<and> en_connections (cx_endpoint t) = [Some c, Some d] \<and> cn_id c \<noteq> cn_id d
     \<and> connection_token 3 0 1 (cn_id d) = Inr (cn_token d) \<and> rejected_clients (cx_stats t) = 1"
proof -
  obtain t where t: "accept_connections script_os 3 0 (to_ctx 0 script_server) = Ok ((), t)"
    "en_connections (cx_endpoint t) = [Some (script_client 1 (script_token 0 1)), Some (script_client 2 (script_token 1 2))]"
    "rejected_clients (cx_stats t) = 1" by (rule script_accept)
  have empty: "\<not> holds slot c (to_ctx 0 script_server)" for slot c
    by (auto simp: holds_def script_endpoint nth_Cons split: nat.splits)
  have "backlog script_os clients" using script_environment by (simp add: environment_def)
  note wp_Ok [OF clients_admitted [OF this, of "to_ctx 0 script_server" 3 0] t(1)]
  moreover have "holds 1 (script_client 2 (script_token 1 2)) t" "holds 0 (script_client 1 (script_token 0 1)) t"
    by (simp_all add: holds_def t(2))
  ultimately have "connection_token 3 0 (of_nat 1) (cn_id (script_client 2 (script_token 1 2)))
      = Inr (cn_token (script_client 2 (script_token 1 2)))"
    "cn_id (script_client 1 (script_token 0 1)) \<noteq> cn_id (script_client 2 (script_token 1 2))"
    using empty script_endpoint(3) by fastforce+
  then show ?thesis using t by (intro exI conjI) (assumption, assumption, simp_all)
qed

lemma wp_expire_exactly:
  assumes inv: "server_inv s"
  shows "wp (expire_connections os now) (\<lambda>_ t. carried s t
      \<and> (\<forall>e slot c. sheld e slot c t \<longleftrightarrow> sheld e slot c s \<and> \<not> deadline_expired c now)) environment_error s"
proof -
  define I where "I i t \<longleftrightarrow> carried s t \<and> (\<forall>e slot c. sheld e slot c t \<longleftrightarrow> sheld e slot c s \<and> (e < i \<longrightarrow> \<not> deadline_expired c now))"
    for i t
  have "wp (for_each [0..<length (sv_endpoints s)] (\<lambda>e. on_endpoint e (for_each [0..<2] (expire_slot os now))))
      (\<lambda>_. I (length (sv_endpoints s))) environment_error s"
  proof (rule wp_for_upt)
    show "I 0 s" by (simp add: I_def carried_refl [OF inv])
    fix i t assume i: "i < length (sv_endpoints s)" and t: "I i t"
    then have it: "server_inv t" "i < length (sv_endpoints t)" using carriedD [of s t] by (simp_all add: I_def)
    then have "endpoint_inv (cx_endpoint (to_ctx i t))" using endpoint_of [OF it] by simp
    note slots = wp_expire_slots [OF this, of os now]
    have "wp (on_endpoint i (for_each [0..<2] (expire_slot os now))) (\<lambda>_. carried t) environment_error t"
      by (rule wp_on_endpoint_advances [OF it]) (rule wp_mono [OF slots], simp add: purges_def)
    moreover have "wp (on_endpoint i (for_each [0..<2] (expire_slot os now)))
        (\<lambda>_ u. \<forall>e slot c. sheld e slot c u \<longleftrightarrow> sheld e slot c t \<and> (e = i \<longrightarrow> \<not> deadline_expired c now)) environment_error t"
      unfolding wp_on_endpoint [OF it(2)]
      by (rule wp_mono [OF slots]) (simp add: purges_def sheld_from_ctx it(2) holds_to_ctx)
    ultimately have "wp (on_endpoint i (for_each [0..<2] (expire_slot os now)))
        (\<lambda>_ u. carried t u \<and> (\<forall>e slot c. sheld e slot c u \<longleftrightarrow> sheld e slot c t \<and> (e = i \<longrightarrow> \<not> deadline_expired c now))) environment_error t"
      by (rule wp_conj)
    then show "wp (on_endpoint i (for_each [0..<2] (expire_slot os now))) (\<lambda>_. I (Suc i)) environment_error t"
      by (rule wp_mono) (use t carried_trans in \<open>auto simp: I_def less_Suc_eq\<close>)
  qed
  then show ?thesis
    unfolding expire_connections_def wp_bind
    by (simp, elim wp_mono) (auto simp: I_def sheld_def)
qed

text \<open>C20. Expiring closes exactly the connections whose deadline has passed - fifteen seconds to the first valid command,
  five minutes without one for those that do not stream - and no other; the invariant, with its
  accounting of accepted and closed clients, holds again.\<close>

theorem expired_connections_closed:
  assumes "server_inv s"
  shows "wp (expire_connections os now) (\<lambda>_ t. server_inv t
      \<and> (\<forall>e slot c. sheld e slot c t \<longleftrightarrow> sheld e slot c s \<and> \<not> deadline_expired c now)) environment_error s"
  by (rule wp_mono [OF wp_expire_exactly [OF assms]]) (simp add: carried_def)

text \<open>A client that sends nothing for fifteen seconds.\<close>

theorem expired_connections_closed_witness:
  "\<exists>s. dispatch_listener script_os 0 True script_server = Ok ((), s)
     \<and> sheld 0 0 (script_client 1 (script_token 0 1)) s
     \<and> wp (expire_connections script_os (15 * 10 ^ 9)) (\<lambda>_ t. \<forall>slot c. \<not> sheld 0 slot c t) environment_error s"
proof -
  obtain t where t: "accept_connections script_os 3 0 (to_ctx 0 script_server) = Ok ((), t)"
    "en_connections (cx_endpoint t) = [Some (script_client 1 (script_token 0 1)), Some (script_client 2 (script_token 1 2))]"
    by (rule script_accept)
  let ?s = "from_ctx 0 t script_server"
  have ne: "sv_endpoints script_server \<noteq> []" using script_endpoint(1) by auto
  have d: "dispatch_listener script_os 0 True script_server = Ok ((), ?s)"
    using t(1) by (simp add: dispatch_listener_def prog_defs on_endpoint_def zoom_def script_endpoint ne)
  have "server_inv script_server" using script_server by (simp add: bound_def)
  from wp_Ok [OF wp_dispatch_listener [OF script_environment this] d]
  have inv: "server_inv ?s" by (simp add: script_endpoint carried_def)
  have held: "sheld 0 slot c ?s \<longleftrightarrow>
      slot = 0 \<and> c = script_client 1 (script_token 0 1) \<or> slot = 1 \<and> c = script_client 2 (script_token 1 2)" for slot c
    using script_endpoint(1) by (auto simp: sheld_def t(2) nth_Cons split: nat.splits)
  have "deadline_expired (script_client i k) (15 * 10 ^ 9)" for i k
    by (simp add: deadline_expired_def script_client_def new_connection_def const_defs saturating_duration_since_def)
  then have "wp (expire_connections script_os (15 * 10 ^ 9)) (\<lambda>_ t. \<forall>slot c. \<not> sheld 0 slot c t) environment_error ?s"
    by (intro wp_mono [OF expired_connections_closed [OF inv]]) (auto simp: held)
  then show ?thesis using d held by blast
qed

section \<open>Data frames\<close>

lemma emittedD:
  assumes "emitted plan f s t"
  shows "endpoint_inv (cx_endpoint t)" "evolves s t"
    "en_data_frame (cx_endpoint t) = (if sends_data plan s then f else en_data_frame (cx_endpoint s))"
    "\<forall>slot c. holds slot c s \<and> \<not> cn_streaming c \<longrightarrow> holds slot c t"
    "\<forall>slot c. holds slot c s \<and> cn_streaming c \<and> is_pending (cn_pending c) \<longrightarrow> (\<forall>c'. \<not> holds slot c' t)"
proof -
  have kept: "\<forall>k c'. holds k c' t \<longrightarrow> (\<exists>c. holds k c s \<and> same_identity c c' \<and> \<not> slow c)"
    using assms unfolding emitted_def by (elim conjE)
  have "\<not> holds slot c' t" if "holds slot c s" "slow c" for slot c c'
  proof
    assume "holds slot c' t"
    then obtain x where "holds slot x s" "\<not> slow x" using kept by blast
    then show False using that by (simp add: holds_def)
  qed
  then show "\<forall>slot c. holds slot c s \<and> cn_streaming c \<and> is_pending (cn_pending c) \<longrightarrow> (\<forall>c'. \<not> holds slot c' t)"
    unfolding slow_def by blast
qed (use assms in \<open>simp_all add: emitted_def advances_def\<close>)

text \<open>C17. At a reporting boundary every idle streaming client of an endpoint is sent the frame of this sample, unless
  the scenario omits data: its socket takes a front part of exactly those bytes, the rest stays pending, a
  complete frame leaves the client idle, and a client is given up before its first byte only when the write
  took nothing.  No other socket of the system gets a byte.  Every client that has not yet taken the frame
  before is closed, the shared data frame is overwritten only when a remaining client streams and data is
  not omitted - then with the frame of this sample - and every client that does not stream is left as it
  is; nobody is added, and the frames, the buffers and the accounting stay well-formed.\<close>

theorem sample_emitted:
  assumes "io_bounded os" and "transmits os sent"
    and "endpoint_inv (cx_endpoint s)" and "endpoint_wf (en_descriptor (cx_endpoint s))"
    and "\<And>slot c slot' c'. holds slot c s \<Longrightarrow> holds slot' c' s \<Longrightarrow> cn_stream c = cn_stream c' \<Longrightarrow> slot = slot'"
  shows "wp (emit_endpoint os sin32 seed i ts degraded plan)
      (\<lambda>_ t. endpoint_inv (cx_endpoint t) \<and> evolves s t
        \<and> en_data_frame (cx_endpoint t) =
            (if \<not> omits_data plan \<and> (\<exists>slot c. holds slot c s \<and> cn_streaming c \<and> \<not> is_pending (cn_pending c))
             then sample_frame sin32 seed i ts degraded plan (en_descriptor (cx_endpoint s)) else en_data_frame (cx_endpoint s))
        \<and> (\<forall>slot c. holds slot c s \<and> \<not> cn_streaming c \<longrightarrow> holds slot c t)
        \<and> (\<forall>slot c. holds slot c s \<and> cn_streaming c \<and> is_pending (cn_pending c) \<longrightarrow> (\<forall>c'. \<not> holds slot c' t))
        \<and> (\<not> omits_data plan \<longrightarrow> (\<forall>slot c. holds slot c s \<and> cn_streaming c \<and> \<not> is_pending (cn_pending c) \<longrightarrow>
             delivered os sent (data_frame_bytes (sample_frame sin32 seed i ts degraded plan (en_descriptor (cx_endpoint s)))) slot c s t))
        \<and> (\<forall>x. omits_data plan \<or> (\<forall>slot c. holds slot c s \<and> cn_streaming c \<and> \<not> is_pending (cn_pending c) \<longrightarrow> cn_stream c \<noteq> x) \<longrightarrow>
             sent (cx_world t) x = sent (cx_world s) x))
      environment_error s"
proof (rule wp_mono [OF wp_conj [OF wp_emit_endpoint [OF assms(1,3,4) refl] wp_emit_delivers [OF assms(2,1,3,4,5) refl]]], assumption+)
  fix t
  assume a: "emitted plan (sample_frame sin32 seed i ts degraded plan (en_descriptor (cx_endpoint s))) s t
    \<and> distributed os sent (data_frame_bytes (sample_frame sin32 seed i ts degraded plan (en_descriptor (cx_endpoint s)))) (if omits_data plan then {} else {..<2}) s t"
  note e = emittedD [OF conjunct1 [OF a]] and d = distributedD [OF conjunct2 [OF a] assms(3)]
  show "endpoint_inv (cx_endpoint t) \<and> evolves s t
        \<and> en_data_frame (cx_endpoint t) =
            (if \<not> omits_data plan \<and> (\<exists>slot c. holds slot c s \<and> cn_streaming c \<and> \<not> is_pending (cn_pending c))
             then sample_frame sin32 seed i ts degraded plan (en_descriptor (cx_endpoint s)) else en_data_frame (cx_endpoint s))
        \<and> (\<forall>slot c. holds slot c s \<and> \<not> cn_streaming c \<longrightarrow> holds slot c t)
        \<and> (\<forall>slot c. holds slot c s \<and> cn_streaming c \<and> is_pending (cn_pending c) \<longrightarrow> (\<forall>c'. \<not> holds slot c' t))
        \<and> (\<not> omits_data plan \<longrightarrow> (\<forall>slot c. holds slot c s \<and> cn_streaming c \<and> \<not> is_pending (cn_pending c) \<longrightarrow>
             delivered os sent (data_frame_bytes (sample_frame sin32 seed i ts degraded plan (en_descriptor (cx_endpoint s)))) slot c s t))
        \<and> (\<forall>x. omits_data plan \<or> (\<forall>slot c. holds slot c s \<and> cn_streaming c \<and> \<not> is_pending (cn_pending c) \<longrightarrow> cn_stream c \<noteq> x) \<longrightarrow>
             sent (cx_world t) x = sent (cx_world s) x)"
    using e d unfolding sends_data_def by (intro conjI) (assumption | simp)+
qed

text \<open>
  An idle streaming client gets the first bytes of the frame; one that is still taking a frame is closed.
\<close>

theorem sample_emitted_witness:
  "wp (emit_endpoint script_os (\<lambda>x. x) 7 0 \<lparr>soc = 1700000000, fracsec = 20000\<rparr> False None)
     (\<lambda>_ t. \<exists>k > 0. written (cx_world t) 2 =
           take k (data_frame_bytes (sample_frame (\<lambda>x. x) 7 0 \<lparr>soc = 1700000000, fracsec = 20000\<rparr> False None endpoint_v2)))
     environment_error (script_stream_ctx PendingNone)
   \<and> wp (emit_endpoint script_os (\<lambda>x. x) 7 0 \<lparr>soc = 1700000000, fracsec = 20000\<rparr> False None)
     (\<lambda>_ t. \<forall>c. \<not> holds 0 c t) environment_error (script_stream_ctx (PendingData 0))"
proof -
  have io: "io_bounded script_os" using script_environment by (simp add: environment_def)
  have d: "en_descriptor (cx_endpoint (script_stream_ctx p)) = endpoint_v2" for p
    by (simp add: script_stream_ctx_def script_endpoint)
  have h: "holds slot c (script_stream_ctx p) \<longleftrightarrow> slot = 0 \<and> c = script_streaming p" for slot c p
    by (auto simp: holds_def script_stream_ctx_def nth_Cons split: nat.splits)
  have c: "cn_streaming (script_streaming p)" "cn_pending (script_streaming p) = p" "cn_stream (script_streaming p) = 2" for p
    by (simp_all add: script_streaming_def script_client_def new_connection_def)
  have w: "written (cx_world (script_stream_ctx p)) = (\<lambda>_. [])" for p by (simp add: script_stream_ctx_def idle_def)
  have first: "\<exists>k > 0. written (cx_world t) 2 = take k f"
    if got: "delivered script_os written f 0 (script_streaming PendingNone) (script_stream_ctx PendingNone) t" and some: "0 < length f" for f t
  proof -
    obtain k where k: "written (cx_world t) 2 = take k f"
      and zero: "k = 0 \<Longrightarrow> \<exists>w r w'. os_write script_os 2 f w = (r, w') \<and>
        (case r of Done n \<Rightarrow> n = 0 \<and> (\<forall>c'. \<not> holds 0 c' t)
         | WouldBlock \<Rightarrow> holds 0 ((script_streaming PendingNone)\<lparr>cn_pending := PendingData 0\<rparr>) t | Failed _ \<Rightarrow> \<forall>c'. \<not> holds 0 c' t)"
      using got unfolding delivered_def c w append_Nil by blast
    have "k \<noteq> 0"
    proof
      assume "k = 0"
      from zero [OF this] show False using some by (auto simp: script_os_def min_def split: if_splits)
    qed
    then show ?thesis using k by blast
  qed
  show ?thesis
  proof
    show "wp (emit_endpoint script_os (\<lambda>x. x) 7 0 \<lparr>soc = 1700000000, fracsec = 20000\<rparr> False None)
     (\<lambda>_ t. \<exists>k > 0. written (cx_world t) 2 =
           take k (data_frame_bytes (sample_frame (\<lambda>x. x) 7 0 \<lparr>soc = 1700000000, fracsec = 20000\<rparr> False None endpoint_v2)))
     environment_error (script_stream_ctx PendingNone)"
      by (rule wp_mono [OF sample_emitted [OF io script_transmits script_serving(2,3)]])
         (use h c in \<open>simp_all add: d omits_data_def\<close>, elim conjE, erule first [OF _ sample_frame_nonempty])
    show "wp (emit_endpoint script_os (\<lambda>x. x) 7 0 \<lparr>soc = 1700000000, fracsec = 20000\<rparr> False None)
     (\<lambda>_ t. \<forall>c. \<not> holds 0 c t) environment_error (script_stream_ctx (PendingData 0))"
      by (rule wp_mono [OF sample_emitted [OF io script_transmits script_serving(2,3)]]) (use h c in \<open>simp_all\<close>)
  qed
qed

text \<open>C19. After a partial write exactly the bytes that were not taken remain to be sent: the connection keeps its frame,
  its place in the endpoint and its well-formedness, asks to be told when it is writable again, and its
  next write starts at the first byte the client has not got.\<close>

theorem partial_write_resumes:
  assumes "serving slot c s" and "is_pending (cn_pending c)"
    and "os_write os (cn_stream c) (remaining (cx_endpoint s) c) (cx_world s) = (Done k, w)"
    and "0 < k" and "k < length (remaining (cx_endpoint s) c)"
  shows "wp (flush_connection os slot)
      (\<lambda>ok t. ok \<and> (\<exists>c'. updated slot c s c' t \<and> serving slot c' t \<and> is_pending (cn_pending c')
        \<and> sending (cx_endpoint t) c' = sending (cx_endpoint s) c
        \<and> remaining (cx_endpoint t) c' = drop k (remaining (cx_endpoint s) c))) environment_error s"
proof -
  let ?c = "c\<lparr>cn_pending := with_offset (cn_pending c) (pending_offset (cn_pending c) + k)\<rparr>"
  have up: "updated slot c s ?c (s\<lparr>cx_endpoint := (cx_endpoint s)\<lparr>en_connections := (en_connections (cx_endpoint s))[slot := Some ?c]\<rparr>,
      cx_world := w'\<rparr>)" for w'
    using assms(1) by (simp add: updated_def same_identity_def)
  have wf: "connection_wf (cx_endpoint s) ?c"
    using assms(1,5) by (simp add: serving_def connection_wf_offset)
  have rest: "remaining (cx_endpoint s) ?c = drop k (remaining (cx_endpoint s) c)" "sending (cx_endpoint s) ?c = sending (cx_endpoint s) c"
    using assms(2) by (simp_all add: remaining_def sending_def add.commute split: option.splits)
  have same: "remaining ((cx_endpoint s)\<lparr>en_connections := cs\<rparr>) x = remaining (cx_endpoint s) x" for cs x
    by (simp add: remaining_def)
  note serving = updated_serving [OF assms(1) up wf]
  show ?thesis
    using assms(2-5) up serving rest same
    by (auto simp: flush_pending [OF assms(1,2)] wp_simps intro!: wp_reregister exI [of _ ?c])
qed

text \<open>A data frame of which the system takes ten bytes.\<close>

theorem partial_write_resumes_witness:
  "wp (flush_connection script_os 0)
      (\<lambda>ok t. ok \<and> (\<exists>c'. serving 0 c' t \<and>
         remaining (cx_endpoint t) c' = drop 10 (data_frame_bytes (en_data_frame (sv_endpoints script_server ! 0)))))
      environment_error (script_stream_ctx (PendingData 0))"
proof -
  let ?s = "script_stream_ctx (PendingData 0)" and ?c = "script_streaming (PendingData 0)"
  have sv: "serving 0 ?c ?s" and r: "remaining (cx_endpoint ?s) ?c = data_frame_bytes (en_data_frame (sv_endpoints script_server ! 0))"
    using script_serving(1) script_remaining by simp_all
  have len: "length (remaining (cx_endpoint ?s) ?c) = PERIODIC_DATA_FRAME_BYTES_V2" unfolding r by (rule script_data_frame)
  have taken: "os_write script_os (cn_stream ?c) (remaining (cx_endpoint ?s) ?c) (cx_world ?s)
      = (Done 10, (cx_world ?s)\<lparr>written := (written (cx_world ?s))(cn_stream ?c :=
          written (cx_world ?s) (cn_stream ?c) @ take 10 (remaining (cx_endpoint ?s) ?c))\<rparr>)"
    using len by (simp add: script_os_def PERIODIC_DATA_FRAME_BYTES_V2_def)
  have p: "is_pending (cn_pending ?c)" by (simp add: script_streaming_def)
  show ?thesis
    by (rule wp_mono [OF partial_write_resumes [OF sv _ taken]])
       (use len p r in \<open>auto simp: PERIODIC_DATA_FRAME_BYTES_V2_def\<close>)
qed

end
