(* ===== verification/Command_Stream.thy ===== *)
theory Command_Stream
  imports Endpoint
begin

text \<open>
  Commands over a byte stream.  TCP delivers the frames of a client in arbitrary pieces; reading and
  decoding in turns gives the commands back one by one, waits for the rest of an unfinished frame and
  leaves it in place.
\<close>

section \<open>Frames of a client\<close>

text \<open>The frame of a request in either protocol version.\<close>

definition sends_command :: "wire_version \<Rightarrow> buffered_command_request \<Rightarrow> bytes \<Rightarrow> bool" where
  "sends_command wv r f \<longleftrightarrow> (\<exists>ts. case wv of
       V2 \<Rightarrow> (\<exists>c. encode_command_v2 (bc_idcode r) c ts = Some f \<and> bc_command r = server_command_v2 c)
     | V3 \<Rightarrow> (\<exists>c. encode_command_v3 (bc_idcode r) c ts = Some f \<and> bc_command r = server_command_v3 c))"

lemma sends_command_frame:
  assumes "sends_command wv r f"
  shows "length f = 18" "declared_size f = 18" "decode_command wv f = Inr (Accepted r)"
proof -
  have "length f = 18 \<and> declared_size f = 18 \<and> decode_command wv f = Inr (Accepted r)"
  proof (cases wv)
    case V2
    then obtain c ts where c: "encode_command_v2 (bc_idcode r) c ts = Some f" "bc_command r = server_command_v2 c"
      using assms by (auto simp: sends_command_def)
    then have f: "length f = 18" "parse_with_limit_v2 f 18 = Inr f"
      "parse_command_v2 f = Inr \<lparr>req_idcode = bc_idcode r, req_command_v2 = c\<rparr>"
      using encode_command_v2_roundtrip [of "bc_idcode r" c ts] by auto
    then have "parse_v2 f = Inr f" by (simp add: parse_v2_def v2.parse_ok)
    then show ?thesis using f c(2) by (simp add: V2 decode_command_def v2.parse_ok)
  next
    case V3
    then obtain c ts where c: "encode_command_v3 (bc_idcode r) c ts = Some f" "bc_command r = server_command_v3 c"
      using assms by (auto simp: sends_command_def)
    then have f: "length f = 18" "parse_with_limit_v3 f 18 = Inr f"
      "parse_command_v3 f = Inr \<lparr>req_stream_id = bc_idcode r, req_command_v3 = c\<rparr>"
      using encode_command_v3_roundtrip [of "bc_idcode r" c ts] by auto
    then have "parse_v3 f = Inr f" by (simp add: parse_v3_def v3.parse_ok)
    then show ?thesis using f c(2) by (simp add: V3 decode_command_def v3.parse_ok)
  qed
  then show "length f = 18" "declared_size f = 18" "decode_command wv f = Inr (Accepted r)" by simp_all
qed

lemma declared_size_append: "4 \<le> length f \<Longrightarrow> declared_size (f @ rest) = declared_size f"
  by (simp add: declared_size_def nth_append)

lemma spec_complete:
  assumes "sends_command wv r f" "18 \<le> limit"
  shows "next_command_spec wv limit (f @ rest) = (Inr (Some (Accepted r)), rest)"
  using sends_command_frame [OF assms(1)] assms(2)
  by (simp add: next_command_spec_def Let_def declared_size_append)

lemma spec_partial:
  assumes "sends_command wv r f" "18 \<le> limit" "n < length f"
  shows "next_command_spec wv limit (take n f) = (Inr None, take n f)"
proof -
  note f = sends_command_frame [OF assms(1)]
  have "declared_size (take n f) = 18" if "4 \<le> n"
    using f that by (simp add: declared_size_def)
  then show ?thesis using f assms by (simp add: next_command_spec_def Let_def not_less)
qed

section \<open>Reading and decoding\<close>

text \<open>
  The commands that \<^verbatim>\<open>next_command\<close> yields in turn, and why it stopped: it waits for more bytes, it refuses
  what it found, or it panics.  The count bounds the calls.
\<close>

datatype drained = Waiting | Refused malformed_command | Panicked | OutOfCalls | ReadFailed string

fun drain :: "nat \<Rightarrow> wire_version \<Rightarrow> receive_buffer \<Rightarrow> received_command list \<times> drained \<times> receive_buffer" where
  "drain 0 wv rb = ([], OutOfCalls, rb)"
| "drain (Suc n) wv rb =
     (case next_command wv rb of
        None \<Rightarrow> ([], Panicked, rb)
      | Some (Inl malformed, rb') \<Rightarrow> ([], Refused malformed, rb')
      | Some (Inr None, rb') \<Rightarrow> ([], Waiting, rb')
      | Some (Inr (Some command), rb') \<Rightarrow> (case drain n wv rb' of (cs, e, rb'') \<Rightarrow> (command # cs, e, rb'')))"

text \<open>
  One turn for each readiness of the socket, as in \<^const>\<open>read_connection\<close>: read what there is, then take the
  commands; a buffer of \<open>n\<close> bytes holds fewer than \<open>n + 1\<close> of them.  What the server does with a command, and that
  it takes the next one only when the answer to this one is on its way, is left out here.
\<close>

fun receive_turns ::
    "'w os \<Rightarrow> socket \<Rightarrow> wire_version \<Rightarrow> nat \<Rightarrow> (receive_buffer \<times> 'w, server_error, received_command list \<times> drained) prog" where
  "receive_turns os stream wv 0 = ret ([], Waiting)"
| "receive_turns os stream wv (Suc n) =
     bind_p (read_from os stream) (\<lambda>r. case r of
         Inl m \<Rightarrow> ret ([], ReadFailed m)
       | Inr result \<Rightarrow>
           bind_p (gets (\<lambda>(rb, w). drain (Suc (rb_length rb)) wv rb)) (\<lambda>(cs, e, rb').
           bind_p (modify (\<lambda>(rb, w). (rb', w))) (\<lambda>_.
           if result = Open \<and> e = Waiting
           then bind_p (receive_turns os stream wv n) (\<lambda>(ds, e'). ret (cs @ ds, e'))
           else ret (cs, e))))"

text \<open>
  A peer whose bytes arrive in pieces of any size: \<open>incoming\<close> is what it has still to deliver, and a read
  gives a nonempty front part of it, or would block.  It blocks at most \<open>stalls\<close> times before
  everything has arrived, and may close its side only then.
\<close>

definition arrives :: "'w os \<Rightarrow> socket \<Rightarrow> ('w \<Rightarrow> bytes) \<Rightarrow> ('w \<Rightarrow> nat) \<Rightarrow> bool" where
  "arrives os stream incoming stalls \<longleftrightarrow> (\<forall>n w r w'. 0 < n \<and> os_read os stream n w = (r, w') \<longrightarrow> stalls w' \<le> stalls w \<and>
     (case r of
        Done bs \<Rightarrow> length bs \<le> n \<and> incoming w = bs @ incoming w' \<and> (bs = [] \<longrightarrow> incoming w = [])
      | WouldBlock \<Rightarrow> incoming w' = incoming w \<and> (incoming w = [] \<or> stalls w' < stalls w)
      | Failed _ \<Rightarrow> False))"

text \<open>What is left of the stream, and how far the peer is from its end.\<close>

definition stream_of :: "('w \<Rightarrow> bytes) \<Rightarrow> receive_buffer \<times> 'w \<Rightarrow> bytes" where
  "stream_of incoming = (\<lambda>(rb, w). contents rb @ incoming w)"

definition distance :: "('w \<Rightarrow> bytes) \<Rightarrow> ('w \<Rightarrow> nat) \<Rightarrow> 'w \<Rightarrow> nat" where
  "distance incoming stalls w = length (incoming w) + stalls w"

lemma wp_arriving_round:
  assumes a: "arrives os stream incoming stalls" and wf: "buffer_wf rb"
  shows "wp (read_round os stream)
      (\<lambda>r (rb', w'). buffer_wf rb' \<and> rb_limit rb' = rb_limit rb \<and> stream_of incoming (rb', w') = stream_of incoming (rb, w)
         \<and> distance incoming stalls w' \<le> distance incoming stalls w \<and> (incoming w = [] \<longrightarrow> incoming w' = [])
         \<and> (rb_length rb < rb_limit rb \<longrightarrow> incoming w' = [] \<or> distance incoming stalls w' < distance incoming stalls w)
         \<and> (case r of None \<Rightarrow> rb_length rb < rb_length rb'
            | Some x \<Rightarrow> (\<exists>result. x = Inr result \<and> (result = Open \<or> incoming w' = [])))) E (rb, w)"
proof -
  note d = buffer_wfD [OF wf]
  show ?thesis
  proof (cases "rb_length rb = rb_limit rb")
    case True
    then show ?thesis using wf by (simp add: wp_def read_round_def)
  next
    case False
    then have room: "0 < rb_limit rb - rb_length rb" using d(2) by simp
    obtain r w' where rd: "os_read os stream (rb_limit rb - rb_length rb) w = (r, w')" by force
    have law: "stalls w' \<le> stalls w" "case r of
        Done bs \<Rightarrow> length bs \<le> rb_limit rb - rb_length rb \<and> incoming w = bs @ incoming w' \<and> (bs = [] \<longrightarrow> incoming w = [])
      | WouldBlock \<Rightarrow> incoming w' = incoming w \<and> (incoming w = [] \<or> stalls w' < stalls w)
      | Failed _ \<Rightarrow> False"
      using a room rd unfolding arrives_def by blast+
    show ?thesis
    proof (cases r)
      case (Done bs)
      have fits: "rb_length rb + length bs \<le> rb_limit rb" using law(2) Done room by (simp add: le_diff_conv2)
      show ?thesis
        using False d rd Done law read_append [OF wf fits] wf
        by (cases bs) (auto simp: wp_def read_round_def stream_of_def distance_def)
    next
      case WouldBlock
      then show ?thesis
        using False d rd law wf by (auto simp: wp_def read_round_def stream_of_def distance_def)
    next
      case (Failed m)
      then show ?thesis using law by simp
    qed
  qed
qed

lemma wp_arriving:
  fixes os :: "'w os"
  assumes a: "arrives os stream incoming stalls" and wf: "buffer_wf rb"
  shows "wp (read_from os stream)
      (\<lambda>r (rb', w'). buffer_wf rb' \<and> rb_limit rb' = rb_limit rb \<and> stream_of incoming (rb', w') = stream_of incoming (rb, w)
         \<and> distance incoming stalls w' \<le> distance incoming stalls w \<and> (incoming w = [] \<longrightarrow> incoming w' = [])
         \<and> (rb_length rb < rb_limit rb \<longrightarrow> incoming w' = [] \<or> distance incoming stalls w' < distance incoming stalls w)
         \<and> (\<exists>result. r = Inr result \<and> (result = Open \<or> incoming w' = []))) E (rb, w)"
proof -
  let ?I = "\<lambda>(rb', w' :: 'w). buffer_wf rb' \<and> rb_limit rb' = rb_limit rb \<and> stream_of incoming (rb', w') = stream_of incoming (rb, w)
      \<and> distance incoming stalls w' \<le> distance incoming stalls w \<and> (incoming w = [] \<longrightarrow> incoming w' = [])
      \<and> ((rb', w') = (rb, w) \<or> incoming w' = [] \<or> distance incoming stalls w' < distance incoming stalls w)"
  let ?m = "\<lambda>(rb', w' :: 'w). rb_limit rb' - rb_length rb'"
  show ?thesis
    unfolding read_from_def
  proof (rule wp_loop [where I = ?I and m = ?m])
    show "?I (rb, w)" using wf by simp
    fix t assume t: "?I t"
    obtain rb1 w1 where t1: "t = (rb1, w1)" by force
    have wf1: "buffer_wf rb1" using t t1 by simp
    show "wp (read_round os stream) (\<lambda>r u. case r of None \<Rightarrow> ?I u \<and> ?m u < ?m t
        | Some x \<Rightarrow> (case u of (rb', w') \<Rightarrow> buffer_wf rb' \<and> rb_limit rb' = rb_limit rb
            \<and> stream_of incoming (rb', w') = stream_of incoming (rb, w) \<and> distance incoming stalls w' \<le> distance incoming stalls w
            \<and> (incoming w = [] \<longrightarrow> incoming w' = [])
            \<and> (rb_length rb < rb_limit rb \<longrightarrow> incoming w' = [] \<or> distance incoming stalls w' < distance incoming stalls w)
            \<and> (\<exists>result. x = Inr result \<and> (result = Open \<or> incoming w' = [])))) E t"
      unfolding t1
    proof (rule wp_mono [OF wp_arriving_round [OF a wf1]])
      fix r and u :: "receive_buffer \<times> 'w"
      obtain rb' w' where u: "u = (rb', w')" by force
      assume "case u of (rb', w') \<Rightarrow> buffer_wf rb' \<and> rb_limit rb' = rb_limit rb1
         \<and> stream_of incoming (rb', w') = stream_of incoming (rb1, w1)
         \<and> distance incoming stalls w' \<le> distance incoming stalls w1 \<and> (incoming w1 = [] \<longrightarrow> incoming w' = [])
         \<and> (rb_length rb1 < rb_limit rb1 \<longrightarrow> incoming w' = [] \<or> distance incoming stalls w' < distance incoming stalls w1)
         \<and> (case r of None \<Rightarrow> rb_length rb1 < rb_length rb'
            | Some x \<Rightarrow> (\<exists>result. x = Inr result \<and> (result = Open \<or> incoming w' = [])))"
      then have n: "buffer_wf rb'" "rb_limit rb' = rb_limit rb1" "stream_of incoming (rb', w') = stream_of incoming (rb1, w1)"
        "distance incoming stalls w' \<le> distance incoming stalls w1" "incoming w1 = [] \<Longrightarrow> incoming w' = []"
        "rb_length rb1 < rb_limit rb1 \<Longrightarrow> incoming w' = [] \<or> distance incoming stalls w' < distance incoming stalls w1"
        "case r of None \<Rightarrow> rb_length rb1 < rb_length rb'
            | Some x \<Rightarrow> (\<exists>result. x = Inr result \<and> (result = Open \<or> incoming w' = []))"
        by (simp_all add: u)
      have t': "rb_limit rb1 = rb_limit rb" "stream_of incoming (rb1, w1) = stream_of incoming (rb, w)"
        "distance incoming stalls w1 \<le> distance incoming stalls w" "incoming w = [] \<Longrightarrow> incoming w1 = []"
        "(rb1, w1) = (rb, w) \<or> incoming w1 = [] \<or> distance incoming stalls w1 < distance incoming stalls w"
        using t t1 by simp_all
      have progress: "incoming w' = [] \<or> distance incoming stalls w' < distance incoming stalls w"
        if "rb_length rb1 < rb_limit rb1 \<or> rb_length rb < rb_limit rb"
        using that t'(3,5) n(4-6) by fastforce
      show "case r of None \<Rightarrow> ?I u \<and> ?m u < ?m (rb1, w1)
        | Some x \<Rightarrow> (case u of (rb', w') \<Rightarrow> buffer_wf rb' \<and> rb_limit rb' = rb_limit rb
            \<and> stream_of incoming (rb', w') = stream_of incoming (rb, w) \<and> distance incoming stalls w' \<le> distance incoming stalls w
            \<and> (incoming w = [] \<longrightarrow> incoming w' = [])
            \<and> (rb_length rb < rb_limit rb \<longrightarrow> incoming w' = [] \<or> distance incoming stalls w' < distance incoming stalls w)
            \<and> (\<exists>result. x = Inr result \<and> (result = Open \<or> incoming w' = [])))"
      proof (cases r)
        case None
        then have "rb_length rb1 < rb_length rb'" "rb_length rb' \<le> rb_limit rb'" using n(7) buffer_wfD(2) [OF n(1)] by simp_all
        moreover from this have "incoming w' = [] \<or> distance incoming stalls w' < distance incoming stalls w"
          using progress n(2) by simp
        ultimately show ?thesis using None u n(1-5) t'(1-4) by simp
      next
        case (Some x)
        then show ?thesis using u n t' progress by auto
      qed
    qed
  qed
qed

section \<open>Framing\<close>

lemma spec_front:
  assumes "sends_command wv r f" "18 \<le> limit" "take n f = bs" "length bs < 18"
  shows "next_command_spec wv limit bs = (Inr None, bs)"
proof -
  have "bs = take (min n (length bs)) f" "length bs = min n 18"
    using assms(3) sends_command_frame(1) [OF assms(1)] by (auto simp: min_def)
  then have "bs = take (length bs) f" using assms(3) by (metis take_take min.commute min_def)
  then show ?thesis using spec_partial [OF assms(1,2), of "length bs"] assms(4) sends_command_frame(1) [OF assms(1)] by simp
qed

text \<open>
  When the contents are the front part of a stream of commands, taking the commands stops only to wait,
  with less than a frame left, and consumes whole frames.
\<close>

lemma drain_stream:
  assumes "buffer_wf rb" "list_all2 (sends_command wv) rs fs" "sends_command wv r f" "k < length f"
    and "contents rb @ rest = concat fs @ take k f" "rb_length rb < n"
  shows "\<exists>m rb'. drain n wv rb = (map Accepted (take m rs), Waiting, rb') \<and> m \<le> length rs \<and> buffer_wf rb'
    \<and> rb_limit rb' = rb_limit rb \<and> contents rb' @ rest = concat (drop m fs) @ take k f \<and> length (contents rb') < 18"
  using assms(1,2,5,6)
proof (induction n arbitrary: rb rs fs)
  case (Suc n)
  have limit: "18 \<le> rb_limit rb" using buffer_wfD(3) [OF Suc.prems(1)] .
  obtain x rb' where nc: "next_command wv rb = Some (x, rb')" "buffer_wf rb'" "rb_limit rb' = rb_limit rb"
    "next_command_spec wv (rb_limit rb) (contents rb) = (x, contents rb')"
    using next_command_refines [OF Suc.prems(1)] by metis
  show ?case
  proof (cases "length (contents rb) < 18")
    case True
    have "\<exists>r g j. sends_command wv r g \<and> take j g = contents rb"
    proof (cases fs)
      case Nil
      then have "contents rb = take (length (contents rb)) (take k f)"
        using Suc.prems(3) by (metis append_eq_conv_conj append_Nil concat.simps(1))
      then show ?thesis using assms(3) by (metis take_take)
    next
      case (Cons g fs')
      then obtain r' where g: "sends_command wv r' g" using Suc.prems(2) by (auto simp: list_all2_Cons2)
      have "contents rb = take (length (contents rb)) (g @ concat fs' @ take k f)"
        using Suc.prems(3) Cons by (metis append_eq_conv_conj append.assoc concat.simps(2))
      then have "contents rb = take (length (contents rb)) g" using True sends_command_frame(1) [OF g] by simp
      then show ?thesis using g by metis
    qed
    then have "next_command_spec wv (rb_limit rb) (contents rb) = (Inr None, contents rb)"
      using spec_front [OF _ limit _ True] by blast
    then show ?thesis
      using nc Suc.prems(3) True by (intro exI [of _ 0] exI [of _ rb']) simp
  next
    case False
    have kf: "length (take k f) < 18" using assms(4) sends_command_frame(1) [OF assms(3)] by simp
    show ?thesis
    proof (cases fs)
      case Nil
      then have "length (contents rb) + length rest = length (take k f)"
        using arg_cong [OF Suc.prems(3), of length] by (simp only: length_append concat.simps list.size)
      then show ?thesis using False kf by simp
    next
      case (Cons g fs')
      then obtain r' rs' where rs: "rs = r' # rs'" "sends_command wv r' g" "list_all2 (sends_command wv) rs' fs'"
        using Suc.prems(2) by (auto simp: list_all2_Cons2)
      define more where "more = drop 18 (contents rb)"
      have "take 18 (contents rb) = g"
        using arg_cong [OF Suc.prems(3), of "take 18"] Cons False sends_command_frame(1) [OF rs(2)] by simp
      then have more: "contents rb = g @ more" unfolding more_def by (metis append_take_drop_id)
      then have rest: "more @ rest = concat fs' @ take k f" using Suc.prems(3) Cons by simp
      have x: "x = Inr (Some (Accepted r'))" "contents rb' = more"
        using nc(4) spec_complete [OF rs(2) limit, of more] by (simp_all add: more)
      have "rb_length rb' < rb_length rb" using next_command_consumes(1) [OF Suc.prems(1)] nc(1) x(1) by blast
      then have "rb_length rb' < n" using Suc.prems(4) by simp
      moreover have "contents rb' @ rest = concat fs' @ take k f" using x(2) rest by simp
      ultimately obtain m rb'' where "drain n wv rb' = (map Accepted (take m rs'), Waiting, rb'')" "m \<le> length rs'" "buffer_wf rb''"
        "rb_limit rb'' = rb_limit rb'" "contents rb'' @ rest = concat (drop m fs') @ take k f" "length (contents rb'') < 18"
        using Suc.IH [OF nc(2) rs(3)] by metis
      then show ?thesis
        using nc(1,3) x(1) rs(1) Cons by (intro exI [of _ "Suc m"] exI [of _ rb'']) simp
    qed
  qed
qed simp


text \<open>Turn after turn: nothing is lost, refused or invented, and enough turns take everything in.\<close>

lemma wp_receive_turns:
  fixes os :: "'w os" and w :: 'w
  assumes a: "arrives os stream incoming stalls" and f: "sends_command wv r f" "k < length f"
    and "list_all2 (sends_command wv) rs fs" "buffer_wf rb" "stream_of incoming (rb, w) = concat fs @ take k f"
  shows "wp (receive_turns os stream wv n)
      (\<lambda>(cs, e) (rb', w'). e = Waiting \<and> buffer_wf rb' \<and> (0 < n \<or> length (contents rb) < 18 \<longrightarrow> length (contents rb') < 18)
         \<and> (incoming w = [] \<or> distance incoming stalls w + (if rb_length rb < rb_limit rb then 0 else 1) < n \<longrightarrow> incoming w' = [])
         \<and> (\<exists>m \<le> length rs. cs = map Accepted (take m rs) \<and> stream_of incoming (rb', w') = concat (drop m fs) @ take k f)) E (rb, w)"
  using assms(4-6)
proof (induction n arbitrary: rb w rs fs)
  case 0
  then show ?case by (auto intro!: exI [of _ 0])
next
  case (Suc n)
  let ?more = "\<lambda>w n. distance incoming stalls w + (if rb_length rb < rb_limit rb then 0 else 1) < n"
  let ?Q = "\<lambda>(cs, e) (rb', w'). e = Waiting \<and> buffer_wf rb' \<and> (0 < Suc n \<or> length (contents rb) < 18 \<longrightarrow> length (contents rb') < 18)
         \<and> (incoming w = [] \<or> ?more w (Suc n) \<longrightarrow> incoming w' = [])
         \<and> (\<exists>m \<le> length rs. cs = map Accepted (take m rs) \<and> stream_of incoming (rb', w') = concat (drop m fs) @ take k f)"
  show ?case
    unfolding receive_turns.simps wp_bind
  proof (rule wp_mono [OF wp_arriving [OF a Suc.prems(2)]])
    fix x :: "string + read_result" and u :: "receive_buffer \<times> 'w"
    obtain rb1 w1 where u: "u = (rb1, w1)" by force
    assume "case u of (rb', w') \<Rightarrow> buffer_wf rb' \<and> rb_limit rb' = rb_limit rb \<and> stream_of incoming (rb', w') = stream_of incoming (rb, w)
         \<and> distance incoming stalls w' \<le> distance incoming stalls w \<and> (incoming w = [] \<longrightarrow> incoming w' = [])
         \<and> (rb_length rb < rb_limit rb \<longrightarrow> incoming w' = [] \<or> distance incoming stalls w' < distance incoming stalls w)
         \<and> (\<exists>result. x = Inr result \<and> (result = Open \<or> incoming w' = []))"
    then obtain result where n: "buffer_wf rb1" "stream_of incoming (rb1, w1) = concat fs @ take k f"
      "distance incoming stalls w1 \<le> distance incoming stalls w" "incoming w = [] \<Longrightarrow> incoming w1 = []"
      "rb_length rb < rb_limit rb \<Longrightarrow> incoming w1 = [] \<or> distance incoming stalls w1 < distance incoming stalls w"
      "x = Inr result" "result = Open \<or> incoming w1 = []"
      using Suc.prems(3) by (auto simp: u)
    obtain m1 rb2 where d: "drain (Suc (rb_length rb1)) wv rb1 = (map Accepted (take m1 rs), Waiting, rb2)" "m1 \<le> length rs"
      "buffer_wf rb2" "contents rb2 @ incoming w1 = concat (drop m1 fs) @ take k f" "length (contents rb2) < 18"
      using drain_stream [OF n(1) Suc.prems(1) f, of "incoming w1" "Suc (rb_length rb1)"] n(2) by (auto simp: stream_of_def)
    have room: "rb_length rb2 < rb_limit rb2" using d(5) buffer_wfD(3) [OF d(3)] by (simp add: length_contents [OF d(3)])
    have enough: "incoming w1 = [] \<or> distance incoming stalls w1 + (if rb_length rb2 < rb_limit rb2 then 0 else 1) < n"
      if "incoming w = [] \<or> ?more w (Suc n)"
      using that n(3-5) room by (fastforce split: if_splits)
    have go: "wp (receive_turns os stream wv n) (\<lambda>(ds, e'). ?Q (map Accepted (take m1 rs) @ ds, e')) E (rb2, w1)"
    proof (rule wp_mono [OF Suc.IH [OF list_all2_dropI [OF Suc.prems(1)] d(3), of w1 m1]])
      show "stream_of incoming (rb2, w1) = concat (drop m1 fs) @ take k f" using d(4) by (simp add: stream_of_def)
      fix c :: "received_command list \<times> drained" and t :: "receive_buffer \<times> 'w"
      obtain ds e rb' w' where c: "c = (ds, e)" "t = (rb', w')" by force
      assume "(case c of (cs, e) \<Rightarrow> \<lambda>(rb', w'). e = Waiting \<and> buffer_wf rb' \<and> (0 < n \<or> length (contents rb2) < 18 \<longrightarrow> length (contents rb') < 18)
         \<and> (incoming w1 = [] \<or> distance incoming stalls w1 + (if rb_length rb2 < rb_limit rb2 then 0 else 1) < n \<longrightarrow> incoming w' = [])
         \<and> (\<exists>m \<le> length (drop m1 rs). cs = map Accepted (take m (drop m1 rs))
              \<and> stream_of incoming (rb', w') = concat (drop m (drop m1 fs)) @ take k f)) t"
      then obtain m2 where m2: "e = Waiting" "buffer_wf rb'" "length (contents rb') < 18" "m2 \<le> length (drop m1 rs)"
        "incoming w1 = [] \<or> distance incoming stalls w1 + (if rb_length rb2 < rb_limit rb2 then 0 else 1) < n \<Longrightarrow> incoming w' = []"
        "ds = map Accepted (take m2 (drop m1 rs))" "stream_of incoming (rb', w') = concat (drop m2 (drop m1 fs)) @ take k f"
        using d(5) by (auto simp: c)
      have "map Accepted (take m1 rs) @ ds = map Accepted (take (m1 + m2) rs)" by (simp add: m2(6) take_add)
      moreover have "m1 + m2 \<le> length rs" using m2(4) d(2) by simp
      ultimately have "\<exists>m \<le> length rs. map Accepted (take m1 rs) @ ds = map Accepted (take m rs)
          \<and> stream_of incoming (rb', w') = concat (drop m fs) @ take k f"
        using m2(7) by (auto simp: add.commute intro!: exI [of _ "m1 + m2"])
      then show "(case c of (ds, e') \<Rightarrow> ?Q (map Accepted (take m1 rs) @ ds, e')) t"
        unfolding c prod.case using m2(1-3,5) enough by blast
    qed
    show "wp (case x of Inl m \<Rightarrow> ret ([], ReadFailed m) | Inr result \<Rightarrow>
           bind_p (gets (\<lambda>(rb, w). drain (Suc (rb_length rb)) wv rb)) (\<lambda>(cs, e, rb').
           bind_p (modify (\<lambda>(rb, w). (rb', w))) (\<lambda>_.
           if result = Open \<and> e = Waiting
           then bind_p (receive_turns os stream wv n) (\<lambda>(ds, e'). ret (cs @ ds, e'))
           else ret (cs, e)))) ?Q E u"
    proof (cases "result = Open")
      case True
      show ?thesis
        unfolding n(6) u using True
        by (simp only: d(1) wp_bind wp_combinators sum.case prod.case simp_thms if_True)
           (rule wp_mono [OF go], simp add: case_prod_unfold)
    next
      case False
      then have "incoming w1 = []" using n(7) by simp
      then show ?thesis using False d(2-5) by (auto simp: n(6) u d(1) stream_of_def simp del: drain.simps)
    qed
  qed
qed

text \<open>C16. Framing: however the bytes of a list of commands and a proper prefix of another arrive - in pieces of any
  size, with the socket blocking in between - reading and decoding turn after turn never panics, fails or
  refuses anything.  After any number of turns the commands obtained are the first of the list, in order;
  the rest of the stream is still there, unread or in the buffer, and the buffer holds less than a frame.
  As soon as there have been more turns than bytes and stalls, all commands have been obtained and exactly
  the unfinished prefix is left in the buffer.\<close>

theorem command_stream:
  fixes os :: "'w os"
  assumes "arrives os stream incoming stalls" and "buffer_wf rb"
    and "list_all2 (sends_command wv) rs fs" and "sends_command wv r f" and "k < length f"
    and "contents rb @ incoming w = concat fs @ take k f" and "0 < n"
  shows "wp (receive_turns os stream wv n)
      (\<lambda>(cs, e) (rb', w'). e = Waiting \<and> buffer_wf rb' \<and> length (contents rb') < 18
         \<and> (\<exists>m \<le> length rs. cs = map Accepted (take m rs) \<and> contents rb' @ incoming w' = concat (drop m fs) @ take k f)
         \<and> (length (incoming w) + stalls w + 1 < n \<longrightarrow> cs = map Accepted rs \<and> contents rb' = take k f \<and> incoming w' = []))
      (\<lambda>_. False) (rb, w)"
proof (rule wp_mono [OF wp_receive_turns [OF assms(1,4,5,3,2)]])
  show "stream_of incoming (rb, w) = concat fs @ take k f" using assms(6) by (simp add: stream_of_def)
  fix c :: "received_command list \<times> drained" and t :: "receive_buffer \<times> 'w"
  obtain cs e rb' w' where c: "c = (cs, e)" "t = (rb', w')" by force
  assume "(case c of (cs, e) \<Rightarrow> \<lambda>(rb', w'). e = Waiting \<and> buffer_wf rb' \<and> (0 < n \<or> length (contents rb) < 18 \<longrightarrow> length (contents rb') < 18)
         \<and> (incoming w = [] \<or> distance incoming stalls w + (if rb_length rb < rb_limit rb then 0 else 1) < n \<longrightarrow> incoming w' = [])
         \<and> (\<exists>m \<le> length rs. cs = map Accepted (take m rs) \<and> stream_of incoming (rb', w') = concat (drop m fs) @ take k f)) t"
  then obtain m where m: "e = Waiting" "buffer_wf rb'" "length (contents rb') < 18" "m \<le> length rs" "cs = map Accepted (take m rs)"
    "contents rb' @ incoming w' = concat (drop m fs) @ take k f"
    "length (incoming w) + stalls w + 1 < n \<Longrightarrow> incoming w' = []"
    using assms(7) by (auto simp: c stream_of_def distance_def split: if_splits)
  have all: "m = length rs" if "incoming w' = []"
  proof (rule ccontr)
    assume "m \<noteq> length rs"
    then have "m < length fs" using m(4) list_all2_lengthD [OF assms(3)] by simp
    then have "concat (drop m fs) = fs ! m @ concat (drop (Suc m) fs)" by (simp flip: Cons_nth_drop_Suc)
    moreover have "length (fs ! m) = 18"
      using list_all2_nthD2 [OF assms(3) \<open>m < length fs\<close>] by (rule sends_command_frame(1))
    ultimately have "18 \<le> length (concat (drop m fs) @ take k f)" by simp
    then show False using m(3) that by (simp only: m(6) [symmetric]) simp
  qed
  have len: "length fs = length rs" using list_all2_lengthD [OF assms(3)] by simp
  have fin: "cs = map Accepted rs \<and> contents rb' = take k f \<and> incoming w' = []"
    if "length (incoming w) + stalls w + 1 < n"
    using m(5,6) m(7) [OF that] all [OF m(7) [OF that]] by (simp add: len)
  show "(case c of (cs, e) \<Rightarrow> \<lambda>(rb', w'). e = Waiting \<and> buffer_wf rb' \<and> length (contents rb') < 18
         \<and> (\<exists>m \<le> length rs. cs = map Accepted (take m rs) \<and> contents rb' @ incoming w' = concat (drop m fs) @ take k f)
         \<and> (length (incoming w) + stalls w + 1 < n \<longrightarrow> cs = map Accepted rs \<and> contents rb' = take k f \<and> incoming w' = [])) t"
    unfolding c prod.case using m(1-6) fin by blast
qed

text \<open>A peer that delivers at most five bytes at a time and blocks before every read that gives some.\<close>

definition slow_peer :: "(bytes \<times> bool) os" where
  "slow_peer =
     \<lparr>os_now = (\<lambda>w. (0, w)), os_system_time = (\<lambda>w. (0, w)), os_poll_new = (\<lambda>w. (Done (), w)), os_bind = (\<lambda>_ w. (Done 1, w)),
      os_accept = (\<lambda>_ w. (WouldBlock, w)),
      os_read = (\<lambda>_ n (bs, ready). if ready \<and> bs \<noteq> [] then (Done (take (min 5 n) bs), drop (min 5 n) bs, False) else (WouldBlock, bs, True)),
      os_write = (\<lambda>_ bs w. (Done (length bs), w)), os_drop = (\<lambda>_ w. w), os_set_nodelay = (\<lambda>_ w. (Done (), w)),
      os_set_recv_buffer_size = (\<lambda>_ _ w. (Done (), w)), os_set_send_buffer_size = (\<lambda>_ _ w. (Done (), w)),
      os_register = (\<lambda>_ _ w. (Done (), w)), os_reregister = (\<lambda>_ _ _ w. (Done (), w)), os_deregister = (\<lambda>_ w. (Done (), w)),
      os_read_to_string = (\<lambda>_ w. (None, w)), os_process_id = (\<lambda>w. (1, w)), os_next_incarnation = (\<lambda>w. (0, w)),
      os_poll = (\<lambda>_ w. (Done [], w)), os_eprintln = (\<lambda>_ w. w)\<rparr>"

lemma slow_peer_arrives: "arrives slow_peer stream fst (\<lambda>(bs, ready). if bs = [] then 0 else 2 * length bs + (if ready then 0 else 1))"
  by (auto simp: arrives_def slow_peer_def split: if_splits)

theorem command_stream_witness:
  "\<exists>f g. sends_command V2 \<lparr>bc_idcode = 7, bc_command = Start\<rparr> f \<and> sends_command V2 \<lparr>bc_idcode = 7, bc_command = Stop\<rparr> g
     \<and> wp (receive_turns slow_peer 3 V2 200)
         (\<lambda>(cs, e) (rb, w). cs = [Accepted \<lparr>bc_idcode = 7, bc_command = Start\<rparr>, Accepted \<lparr>bc_idcode = 7, bc_command = Stop\<rparr>]
            \<and> e = Waiting \<and> contents rb = take 5 f)
         (\<lambda>_. False) (new_receive_buffer 112, f @ g @ take 5 f, False)"
proof -
  let ?r = "\<lambda>c. \<lparr>bc_idcode = 7, bc_command = c\<rparr>"
  obtain f g where f: "encode_command_v2 7 StartV2 \<lparr>soc = 0, fracsec = 0\<rparr> = Some f"
    "encode_command_v2 7 StopV2 \<lparr>soc = 0, fracsec = 0\<rparr> = Some g"
    using encode_command_v2_roundtrip by blast
  then have s: "sends_command V2 (?r Start) f" "sends_command V2 (?r Stop) g"
    unfolding sends_command_def by (fastforce simp: exI [of _ StartV2])+
  note len = sends_command_frame(1) [OF s(1)] sends_command_frame(1) [OF s(2)]
  have new: "buffer_wf (new_receive_buffer 112)" "contents (new_receive_buffer 112) = []"
    using new_receive_buffer_wf [of 112] by (simp_all add: MAX_COMMAND_FRAME_BYTES_def)
  have enough: "(if f = [] \<and> g = [] \<and> f = [] then 0 else 2 * length (f @ g @ take 5 f) + (if False then 0 else 1)) < (158 :: nat)"
    using len by simp
  have "wp (receive_turns slow_peer 3 V2 200)
         (\<lambda>(cs, e) (rb, w). cs = [Accepted (?r Start), Accepted (?r Stop)] \<and> e = Waiting \<and> contents rb = take 5 f)
         (\<lambda>_. False) (new_receive_buffer 112, f @ g @ take 5 f, False)"
    by (rule wp_mono [OF command_stream [OF slow_peer_arrives new(1), where rs = "[?r Start, ?r Stop]" and fs = "[f, g]" and f = f and k = 5]])
       (use s len new enough in auto)
  with s show ?thesis by blast
qed

end
