(* ===== verification/Management_Pages.thy ===== *)
theory Management_Pages
  imports Management_Api
begin

text \<open>
  The paged console state: a client that follows the next offsets from the first page visits every
  prepared, pending and active record of an unchanged controller exactly once and in order.
\<close>

lemma page_size_pos: "0 < CONSOLE_LIFECYCLE_RECORDS_PER_PAGE"
  by (simp add: CONSOLE_LIFECYCLE_RECORDS_PER_PAGE_def)

definition total_records :: "controller_snapshot \<Rightarrow> nat" where
  "total_records s = length (cs_prepared s) + length (cs_pending s) + length (cs_active s)"

definition page_records :: "console_controller_state \<Rightarrow> nat" where
  "page_records p = length (ct_prepared p) + length (ct_pending p) + length (ct_active p)"

text \<open>
  The client: at most \<open>n\<close> requests, each at the offset the page before named.  The flag says that the walk
  came to a page without a next offset; it is false when the requests run out or an offset is refused.
\<close>

fun walk :: "nat \<Rightarrow> controller_snapshot \<Rightarrow> nat \<Rightarrow> console_controller_state list \<times> bool" where
  "walk 0 s off = ([], False)"
| "walk (Suc n) s off =
     (case management_console_lifecycle_page s off of
        None \<Rightarrow> ([], False)
      | Some (p, None) \<Rightarrow> ([p], True)
      | Some (p, Some next_offset) \<Rightarrow> (case walk n s next_offset of (ps, ended) \<Rightarrow> (p # ps, ended)))"

text \<open>How many pages show \<open>m\<close> records: there is always one.\<close>

definition page_count :: "nat \<Rightarrow> nat" where
  "page_count m = max 1 ((m + (CONSOLE_LIFECYCLE_RECORDS_PER_PAGE - 1)) div CONSOLE_LIFECYCLE_RECORDS_PER_PAGE)"

lemma page_count_last: "m \<le> CONSOLE_LIFECYCLE_RECORDS_PER_PAGE \<Longrightarrow> page_count m = 1"
  using div_le_mono [of "m + 47" 95 48] by (simp add: page_count_def CONSOLE_LIFECYCLE_RECORDS_PER_PAGE_def)

lemma page_count_more:
  assumes "CONSOLE_LIFECYCLE_RECORDS_PER_PAGE < m"
  shows "page_count m = Suc (page_count (m - CONSOLE_LIFECYCLE_RECORDS_PER_PAGE))"
proof -
  obtain k where "m = 48 + Suc k" using assms by (auto simp: CONSOLE_LIFECYCLE_RECORDS_PER_PAGE_def dest!: less_imp_Suc_add)
  moreover have "(96 + k) div 48 = Suc (Suc (k div 48))" "(48 + k) div 48 = Suc (k div 48)" by presburger+
  ultimately show ?thesis by (simp add: page_count_def CONSOLE_LIFECYCLE_RECORDS_PER_PAGE_def)
qed

text \<open>What is left of the three lists at an offset, and the page there.\<close>

definition left_prepared where "left_prepared s off = drop off (cs_prepared s)"
definition left_pending where "left_pending s off = drop (off - length (cs_prepared s)) (cs_pending s)"
definition left_active where "left_active s off = drop (off - (length (cs_prepared s) + length (cs_pending s))) (cs_active s)"

lemmas left_defs = left_prepared_def left_pending_def left_active_def

lemma left_total:
  "off \<le> total_records s \<Longrightarrow>
     length (left_prepared s off) + length (left_pending s off) + length (left_active s off) = total_records s - off"
  by (simp add: left_defs total_records_def)

lemma drop_min: "drop (min n (length xs)) xs = drop n xs"
  by (simp add: min_def)

lemma page_at:
  assumes "off \<le> total_records s"
  defines "K \<equiv> CONSOLE_LIFECYCLE_RECORDS_PER_PAGE"
    and "A \<equiv> left_prepared s off" and "B \<equiv> left_pending s off" and "C \<equiv> left_active s off"
  obtains p where "management_console_lifecycle_page s off =
      Some (p, if K < length A + length B + length C then Some (off + K) else None)"
    "ct_prepared p = take K A" "ct_pending p = take (K - length A) B" "ct_active p = take (K - length A - length B) C"
    "page_records p = min K (length A + length B + length C)"
proof -
  let ?p = "\<lparr>ct_current_sample_index = cs_current_sample_index s, ct_prepared = take K A, ct_pending = take (K - length A) B,
     ct_active = take (K - length A - length B) C, ct_prepared_count = length (cs_prepared s),
     ct_pending_count = length (cs_pending s), ct_active_count = length (cs_active s)\<rparr>"
  have here: "drop (min off (length (cs_prepared s))) (cs_prepared s) = A"
    "drop (min (off - length (cs_prepared s)) (length (cs_pending s))) (cs_pending s) = B"
    "drop (min (off - (length (cs_prepared s) + length (cs_pending s))) (length (cs_active s))) (cs_active s) = C"
    by (simp_all only: A_def B_def C_def left_defs drop_min)
  have rem: "K - length (take K A) = K - length A" "K - length A - length (take (K - length A) B) = K - length A - length B"
    by simp_all
  have rec: "length (take K A) + length (take (K - length A) B) + length (take (K - length A - length B) C)
      = min K (length A + length B + length C)" by simp
  have next_off: "off + min K (length A + length B + length C) < total_records s \<longleftrightarrow> K < length A + length B + length C"
    using left_total [OF assms(1)] assms(1) page_size_pos by (auto simp: A_def B_def C_def K_def min_def)
  have "\<not> length (cs_prepared s) + length (cs_pending s) + length (cs_active s) < off"
    using assms(1) by (simp add: total_records_def)
  then have "management_console_lifecycle_page s off =
      Some (?p, if off + min K (length A + length B + length C) < total_records s
                then Some (off + min K (length A + length B + length C)) else None)"
    unfolding management_console_lifecycle_page_def Let_def K_def [symmetric] here rem rec
    by (simp only: if_False total_records_def)
  then have page: "management_console_lifecycle_page s off =
      Some (?p, if K < length A + length B + length C then Some (off + K) else None)"
    unfolding next_off by (cases "K < length A + length B + length C") (simp_all add: min_def)
  have records: "page_records ?p = min K (length A + length B + length C)" using rec by (simp add: page_records_def)
  show thesis by (rule that [OF page _ _ _ records]) simp_all
qed

lemma left_next:
  shows "left_prepared s (off + K) = drop K (left_prepared s off)"
    "left_pending s (off + K) = drop (K - length (left_prepared s off)) (left_pending s off)"
    "left_active s (off + K) = drop (K - length (left_prepared s off) - length (left_pending s off)) (left_active s off)"
proof -
  have "K - (P - off) + (off - P) = off + K - P" for P :: nat by arith
  moreover have "K - (P - off) - (Q - (off - P)) + (off - (P + Q)) = off + K - (P + Q)" for P Q :: nat by arith
  ultimately show "left_prepared s (off + K) = drop K (left_prepared s off)"
    "left_pending s (off + K) = drop (K - length (left_prepared s off)) (left_pending s off)"
    "left_active s (off + K) = drop (K - length (left_prepared s off) - length (left_pending s off)) (left_active s off)"
    by (simp_all only: left_defs length_drop drop_drop add.commute [of off K])
qed

lemma walk_covers:
  assumes "off \<le> total_records s" "total_records s - off < n"
  shows "snd (walk n s off) \<and> length (fst (walk n s off)) = page_count (total_records s - off)
    \<and> concat (map ct_prepared (fst (walk n s off))) = left_prepared s off
    \<and> concat (map ct_pending (fst (walk n s off))) = left_pending s off
    \<and> concat (map ct_active (fst (walk n s off))) = left_active s off
    \<and> (\<forall>p \<in> set (fst (walk n s off)). page_records p \<le> CONSOLE_LIFECYCLE_RECORDS_PER_PAGE)"
  using assms
proof (induction n arbitrary: off)
  case (Suc n)
  let ?K = "CONSOLE_LIFECYCLE_RECORDS_PER_PAGE"
  let ?A = "left_prepared s off" and ?B = "left_pending s off" and ?C = "left_active s off"
  let ?more = "?K < length ?A + length ?B + length ?C"
  note total = left_total [OF Suc.prems(1)]
  obtain p where p: "management_console_lifecycle_page s off = Some (p, if ?more then Some (off + ?K) else None)"
    "ct_prepared p = take ?K ?A" "ct_pending p = take (?K - length ?A) ?B"
    "ct_active p = take (?K - length ?A - length ?B) ?C" "page_records p = min ?K (length ?A + length ?B + length ?C)"
    using page_at [OF Suc.prems(1)] by blast
  show ?case
  proof (cases ?more)
    case True
    then have next_off: "off + ?K \<le> total_records s" "total_records s - (off + ?K) < n" "?K < total_records s - off"
      using total Suc.prems page_size_pos by linarith+
    obtain ps ended where w: "walk n s (off + ?K) = (ps, ended)" by force
    have step: "walk (Suc n) s off = (p # ps, ended)" using True by (simp add: p(1) w)
    have count: "page_count (total_records s - off) = Suc (page_count (total_records s - (off + ?K)))"
      using page_count_more [OF next_off(3)] by (simp only: diff_diff_left)
    show ?thesis
      unfolding step using Suc.IH [OF next_off(1,2)] p(2-5) by (simp add: w left_next count)
  next
    case False
    then have "page_count (total_records s - off) = 1" using total by (intro page_count_last) linarith
    then show ?thesis using False by (simp add: p)
  qed
qed simp

text \<open>C38. Paging ends and is lossless: while the controller does not change, a client that follows the next offsets
  from offset 0 comes to a page without a next offset, after exactly as many pages of 48 records as the
  records need (one when there are none); these pages hold together exactly the prepared, pending and
  active records, each once and in order, and no page holds more than 48.\<close>

theorem console_pages_cover:
  assumes "length (cs_prepared s) + length (cs_pending s) + length (cs_active s) < n"
  shows "snd (walk n s 0)
    \<and> length (fst (walk n s 0)) = max 1 ((length (cs_prepared s) + length (cs_pending s) + length (cs_active s) + 47) div 48)
    \<and> concat (map ct_prepared (fst (walk n s 0))) = cs_prepared s
    \<and> concat (map ct_pending (fst (walk n s 0))) = cs_pending s
    \<and> concat (map ct_active (fst (walk n s 0))) = cs_active s
    \<and> (\<forall>p \<in> set (fst (walk n s 0)). length (ct_prepared p) + length (ct_pending p) + length (ct_active p) \<le> 48)"
  using walk_covers [of 0 s n] assms
  by (simp add: left_defs total_records_def page_records_def page_count_def CONSOLE_LIFECYCLE_RECORDS_PER_PAGE_def)

theorem console_pages_cover_witness:
  "\<forall>x. let (pages, ended) = walk 101
       \<lparr>cs_current_sample_index = None, cs_prepared = [], cs_pending = replicate 100 x, cs_active = []\<rparr> 0
     in ended \<and> length pages = 3 \<and> concat (map ct_pending pages) = replicate 100 x"
proof
  fix x :: pending_snapshot
  show "let (pages, ended) = walk 101
       \<lparr>cs_current_sample_index = None, cs_prepared = [], cs_pending = replicate 100 x, cs_active = []\<rparr> 0
     in ended \<and> length pages = 3 \<and> concat (map ct_pending pages) = replicate 100 x"
    using console_pages_cover [of "\<lparr>cs_current_sample_index = None, cs_prepared = [], cs_pending = replicate 100 x, cs_active = []\<rparr>" 101]
    by (simp add: case_prod_beta)
qed

end
