(* ===== verification/Probe.thy ===== *)
theory Probe
  imports Connection Management_Api
begin

text \<open>
  The frame decoders of the verification probe (\<^verbatim>\<open>src/bin/c37-118-probe.rs\<close> for version 3,
  \<^verbatim>\<open>src/bin/c37_118_probe_v2.rs\<close> for version 2).  They are written independently of the wire modules: the
  probe reads a frame field by field and checks each against what the simulator is meant to send.  A
  \<^verbatim>\<open>ProbeError\<close> is its message; \<^verbatim>\<open>offset: &mut usize\<close> is passed and returned.
\<close>

section \<open>Errors and data\<close>

datatype probe_error = ProbeError string

definition PROBE_MAX_FRAME_BYTES :: nat where [const_defs]: "PROBE_MAX_FRAME_BYTES = 4 * 1024"

record configuration_summary =
  cs_time_base :: u32
  cs_pmu_id :: u16
  cs_data_rate_hz :: u16

record decoded_frame =
  df_frame_type :: u8
  df_stream_id :: u16
  df_timestamp :: timestamp
  df_body :: bytes

record decoded_frame_v2 = decoded_frame +
  df_message_time_quality :: u8

section \<open>Field readers\<close>

text \<open>
  A reader is a computation on the offset.  Adding a length of at most 65535 to an offset within the body
  is checked for overflow as in the source (64-bit \<^verbatim>\<open>usize\<close>).
\<close>

type_synonym 'a reader = "(nat, probe_error, 'a) prog"

definition take_bytes :: "bytes \<Rightarrow> nat \<Rightarrow> bytes reader" where
  "take_bytes body n = (\<lambda>offset.
     if 2 ^ 64 \<le> offset + n then Err (ProbeError ''configuration field length overflow'')
     else if length body < offset + n then Err (ProbeError ''configuration frame is truncated'')
     else Ok (take n (drop offset body), offset + n))"

definition take_u16 :: "bytes \<Rightarrow> u16 reader" where
  "take_u16 body = bind_p (take_bytes body 2) (\<lambda>bs. ret (u16_from_be (bs ! 0) (bs ! 1)))"

text \<open>A signed 16-bit field as its bits: the probe only compares it for equality.\<close>

definition take_i16 :: "bytes \<Rightarrow> u16 reader" where
  "take_i16 body = bind_p (take_bytes body 2) (\<lambda>bs. ret (u16_from_be (bs ! 0) (bs ! 1)))"

definition take_u32 :: "bytes \<Rightarrow> u32 reader" where
  "take_u32 body = bind_p (take_bytes body 4) (\<lambda>bs. ret (u32_from_be (bs ! 0) (bs ! 1) (bs ! 2) (bs ! 3)))"

definition take_name :: "bytes \<Rightarrow> string reader" where
  "take_name body =
     bind_p (take_bytes body 1) (\<lambda>bs.
     bind_p (expect (case bs of [] \<Rightarrow> None | b # _ \<Rightarrow> Some (unat b))) (\<lambda>n.
     bind_p (take_bytes body n) (\<lambda>name.
     lift_ok (ok_or (from_utf8 name) (ProbeError ''configuration name is not UTF-8'')))))"

text \<open>\<^verbatim>\<open>if bad { return Err(..) }\<close>, and \<^verbatim>\<open>for _ in 0..n { .. }\<close>.\<close>

definition refuse_if :: "bool \<Rightarrow> string \<Rightarrow> ('s, probe_error, unit) prog" where
  "refuse_if bad message = (if bad then raise (ProbeError message) else ret ())"

fun repeat_p :: "nat \<Rightarrow> ('s, 'e, unit) prog \<Rightarrow> ('s, 'e, unit) prog" where
  "repeat_p 0 body = ret ()"
| "repeat_p (Suc n) body = bind_p body (\<lambda>_. repeat_p n body)"

section \<open>The envelope\<close>

text \<open>
  \<^verbatim>\<open>probe_crc16_ccitt\<close>: the probe's own copy of the checksum loop.
\<close>

definition probe_crc_round :: "u16 \<Rightarrow> u16" where
  "probe_crc_round checksum =
     (if checksum AND 0x8000 \<noteq> 0 then push_bit 1 checksum XOR 0x1021 else push_bit 1 checksum)"

definition probe_crc_byte :: "u16 \<Rightarrow> u8 \<Rightarrow> u16" where
  "probe_crc_byte checksum byte = (probe_crc_round ^^ 8) (checksum XOR push_bit 8 (ucast byte))"

definition probe_crc16_ccitt :: "bytes \<Rightarrow> u16" where
  "probe_crc16_ccitt bs = foldl probe_crc_byte 0xffff bs"

definition version_message :: "string \<Rightarrow> u8 \<Rightarrow> string \<Rightarrow> string" where
  "version_message before version after = before @ show_nat (unat version) @ after"

definition decode_v3_frame :: "bytes \<Rightarrow> probe_error + decoded_frame" where
  "decode_v3_frame bs =
     bind_ok (fail_if (length bs < FRAME_HEADER_BYTES + FRAME_CHECKSUM_BYTES)
       (ProbeError ''C37.118 frame is shorter than the V3 envelope'')) (\<lambda>_.
     bind_ok (fail_if (bs ! 0 \<noteq> 0xaa) (ProbeError ''C37.118 frame has an invalid sync byte'')) (\<lambda>_.
     bind_ok (fail_if (bs ! 1 AND 0x0f \<noteq> V3_PROTOCOL_VERSION)
       (ProbeError (version_message ''received C37.118 version '' (bs ! 1 AND 0x0f) '' but expected 3''))) (\<lambda>_.
     let frame_size = unat (u16_from_be (bs ! 2) (bs ! 3))
     in bind_ok (fail_if (frame_size \<noteq> length bs \<or> frame_size < FRAME_HEADER_BYTES + FRAME_CHECKSUM_BYTES)
          (ProbeError ''C37.118 frame size does not match its envelope'')) (\<lambda>_.
        let expected_checksum = u16_from_be (bs ! (frame_size - 2)) (bs ! (frame_size - 1))
        in bind_ok (fail_if (probe_crc16_ccitt (take (frame_size - 2) bs) \<noteq> expected_checksum)
             (ProbeError ''C37.118 frame checksum is invalid'')) (\<lambda>_.
           Inr \<lparr>df_frame_type = drop_bit 4 (bs ! 1), df_stream_id = u16_from_be (bs ! 4) (bs ! 5),
                df_timestamp = \<lparr>soc = u32_from_be (bs ! 6) (bs ! 7) (bs ! 8) (bs ! 9),
                                fracsec = u32_from_be 0 (bs ! 11) (bs ! 12) (bs ! 13)\<rparr>,
                df_body = take (frame_size - FRAME_CHECKSUM_BYTES - FRAME_HEADER_BYTES) (drop FRAME_HEADER_BYTES bs)\<rparr>)))))"

definition decode_v2_frame :: "bytes \<Rightarrow> probe_error + decoded_frame_v2" where
  "decode_v2_frame bs =
     bind_ok (fail_if (length bs < FRAME_HEADER_BYTES + FRAME_CHECKSUM_BYTES)
       (ProbeError ''C37.118 V2 frame is shorter than the V2 envelope'')) (\<lambda>_.
     bind_ok (fail_if (bs ! 0 \<noteq> 0xaa \<or> bs ! 1 AND 0x80 \<noteq> 0)
       (ProbeError ''C37.118 V2 frame has an invalid sync word'')) (\<lambda>_.
     bind_ok (fail_if (bs ! 1 AND 0x0f \<noteq> V2_PROTOCOL_VERSION)
       (ProbeError (version_message ''received C37.118 version '' (bs ! 1 AND 0x0f) '' but expected 2''))) (\<lambda>_.
     let frame_size = unat (u16_from_be (bs ! 2) (bs ! 3))
     in bind_ok (fail_if (frame_size \<noteq> length bs \<or> frame_size < FRAME_HEADER_BYTES + FRAME_CHECKSUM_BYTES)
          (ProbeError ''C37.118 V2 frame size does not match its envelope'')) (\<lambda>_.
        let expected_checksum = u16_from_be (bs ! (frame_size - 2)) (bs ! (frame_size - 1))
        in bind_ok (fail_if (probe_crc16_ccitt (take (frame_size - 2) bs) \<noteq> expected_checksum)
             (ProbeError ''C37.118 V2 frame checksum is invalid'')) (\<lambda>_.
           Inr \<lparr>df_frame_type = drop_bit 4 (bs ! 1), df_stream_id = u16_from_be (bs ! 4) (bs ! 5),
                df_timestamp = \<lparr>soc = u32_from_be (bs ! 6) (bs ! 7) (bs ! 8) (bs ! 9),
                                fracsec = u32_from_be 0 (bs ! 11) (bs ! 12) (bs ! 13)\<rparr>,
                df_body = take (frame_size - FRAME_CHECKSUM_BYTES - FRAME_HEADER_BYTES) (drop FRAME_HEADER_BYTES bs),
                df_message_time_quality = bs ! 10\<rparr>)))))"

definition validate_frame_identity :: "'a decoded_frame_scheme \<Rightarrow> u16 \<Rightarrow> probe_error + unit" where
  "validate_frame_identity frame expected_stream_id =
     fail_if (df_stream_id frame \<noteq> expected_stream_id)
       (ProbeError (''received C37.118 STREAM_ID '' @ show_nat (unat (df_stream_id frame))
                    @ '' but expected '' @ show_nat (unat expected_stream_id)))"

definition validate_frame_identity_v2 :: "'a decoded_frame_scheme \<Rightarrow> u16 \<Rightarrow> probe_error + unit" where
  "validate_frame_identity_v2 frame expected_idcode =
     fail_if (df_stream_id frame \<noteq> expected_idcode)
       (ProbeError (''received C37.118 V2 IDCODE '' @ show_nat (unat (df_stream_id frame))
                    @ '' but expected '' @ show_nat (unat expected_idcode)))"

section \<open>Configuration frames\<close>

text \<open>
  The remainder by the expected rate panics when the rate is zero, after the two tests before it.
\<close>

definition check_time_base :: "u32 \<Rightarrow> u16 \<Rightarrow> string \<Rightarrow> ('s, probe_error, unit) prog" where
  "check_time_base time_base rate message =
     (if time_base = 0 \<or> drop_bit 24 time_base \<noteq> 0 then raise (ProbeError message)
      else if rate = 0 then panic
      else refuse_if (time_base mod ucast rate \<noteq> 0) message)"

definition decode_configuration :: "bytes \<Rightarrow> u16 \<Rightarrow> configuration_summary reader" where
  "decode_configuration body expected_rate_hz =
     bind_p (take_u16 body) (\<lambda>continuation_index.
     bind_p (refuse_if (continuation_index \<noteq> 0) ''fragmented C37.118 configuration is not supported by the probe'') (\<lambda>_.
     bind_p (take_u32 body) (\<lambda>time_base.
     bind_p (check_time_base time_base expected_rate_hz ''configuration TIME_BASE is invalid for the requested data rate'') (\<lambda>_.
     bind_p (take_name body) (\<lambda>_.
     bind_p (take_u16 body) (\<lambda>pmus.
     bind_p (refuse_if (pmus \<noteq> 1) ''probe requires one PMU per V3 stream'') (\<lambda>_.
     bind_p (take_name body) (\<lambda>_.
     bind_p (take_u16 body) (\<lambda>pmu_id.
     bind_p (refuse_if (pmu_id = 0 \<or> pmu_id = - 1) ''configuration PMU_ID is invalid'') (\<lambda>_.
     bind_p (take_u16 body) (\<lambda>version.
     bind_p (refuse_if (version \<noteq> ucast V3_PROTOCOL_VERSION) ''configuration PMU_VERSION is not V3'') (\<lambda>_.
     bind_p (take_bytes body 16) (\<lambda>_.
     bind_p (take_u16 body) (\<lambda>format.
     bind_p (refuse_if (format \<noteq> 0x0001) ''probe requires fixed-point polar FORMAT'') (\<lambda>_.
     bind_p (take_u16 body) (\<lambda>phasor_count.
     bind_p (take_u16 body) (\<lambda>analog_count.
     bind_p (take_u16 body) (\<lambda>frequency_count.
     bind_p (take_u16 body) (\<lambda>rocof_count.
     bind_p (take_u16 body) (\<lambda>digital_count.
     bind_p (refuse_if ((phasor_count, analog_count, frequency_count, rocof_count, digital_count) \<noteq> (6, 0, 1, 1, 0))
       ''configuration signal counts do not match the V3 simulator profile'') (\<lambda>_.
     bind_p (repeat_p (unat (phasor_count + frequency_count + rocof_count)) (bind_p (take_name body) (\<lambda>_. ret ()))) (\<lambda>_.
     bind_p (take_bytes body (16 * unat phasor_count)) (\<lambda>_.
     bind_p (take_bytes body (8 * unat (frequency_count + rocof_count))) (\<lambda>_.
     bind_p (take_bytes body 12) (\<lambda>_.
     bind_p (take_u16 body) (\<lambda>pmu_flag.
     bind_p (refuse_if (pmu_flag AND push_bit 12 1 \<noteq> 0) ''probe does not support periodic data attributes'') (\<lambda>_.
     bind_p (take_bytes body 8) (\<lambda>_.
     bind_p (take_i16 body) (\<lambda>pmu_rate.
     bind_p (take_u16 body) (\<lambda>_.
     bind_p (take_i16 body) (\<lambda>stream_rate.
     bind_p (take_u16 body) (\<lambda>_.
     bind_p (gets id) (\<lambda>offset.
     bind_p (refuse_if (offset \<noteq> length body \<or> pmu_rate \<noteq> expected_rate_hz \<or> stream_rate \<noteq> expected_rate_hz)
       ''configuration data rates or frame length are invalid'') (\<lambda>_.
     ret \<lparr>cs_time_base = time_base, cs_pmu_id = pmu_id, cs_data_rate_hz = expected_rate_hz\<rparr>))))))))))))))))))))))))))))))))))"

definition decode_header :: "bytes \<Rightarrow> ('s, probe_error, unit) prog" where
  "decode_header body =
     refuse_if (body = [] \<or> \<not> list_all is_printable_ascii body) ''C37.118 V2 HDR payload must contain printable ASCII text''"

definition decode_configuration_v2 :: "bytes \<Rightarrow> u16 \<Rightarrow> configuration_summary reader" where
  "decode_configuration_v2 body expected_rate_hz =
     bind_p (take_u32 body) (\<lambda>time_base.
     bind_p (check_time_base time_base expected_rate_hz ''V2 configuration TIME_BASE is invalid for the requested data rate'') (\<lambda>_.
     bind_p (take_u16 body) (\<lambda>pmus.
     bind_p (refuse_if (pmus \<noteq> 1) ''probe requires one PMU per V2 stream'') (\<lambda>_.
     bind_p (take_bytes body 16) (\<lambda>station.
     bind_p (refuse_if (\<not> list_all is_printable_ascii station) ''V2 station name is not fixed-width ASCII'') (\<lambda>_.
     bind_p (take_u16 body) (\<lambda>pmu_id.
     bind_p (refuse_if (pmu_id = 0 \<or> pmu_id = - 1) ''V2 configuration PMU IDCODE is invalid'') (\<lambda>_.
     bind_p (take_u16 body) (\<lambda>format.
     bind_p (refuse_if (format \<noteq> 0x0001) ''probe requires fixed-point polar V2 FORMAT'') (\<lambda>_.
     bind_p (take_u16 body) (\<lambda>phasor_count.
     bind_p (take_u16 body) (\<lambda>analog_count.
     bind_p (take_u16 body) (\<lambda>digital_count.
     bind_p (refuse_if ((phasor_count, analog_count, digital_count) \<noteq> (6, 0, 0))
       ''V2 configuration signal counts do not match the simulator profile'') (\<lambda>_.
     bind_p (repeat_p (unat phasor_count) (bind_p (take_bytes body 16) (\<lambda>name.
       refuse_if (\<not> list_all is_printable_ascii name) ''V2 channel name is not fixed-width ASCII''))) (\<lambda>_.
     bind_p (repeat_p (unat phasor_count) (bind_p (take_u32 body) (\<lambda>phunit.
       refuse_if (1 < drop_bit 24 phunit \<or> phunit AND 0x00ffffff = 0) ''V2 PHUNIT is invalid''))) (\<lambda>_.
     bind_p (take_u16 body) (\<lambda>fnom.
     bind_p (refuse_if (1 < fnom) ''V2 FNOM is invalid'') (\<lambda>_.
     bind_p (take_u16 body) (\<lambda>_.
     bind_p (take_i16 body) (\<lambda>data_rate.
     bind_p (gets id) (\<lambda>offset.
     bind_p (refuse_if (offset \<noteq> length body \<or> data_rate \<noteq> expected_rate_hz)
       ''V2 configuration data rate or frame length is invalid'') (\<lambda>_.
     ret \<lparr>cs_time_base = time_base, cs_pmu_id = pmu_id, cs_data_rate_hz = expected_rate_hz\<rparr>))))))))))))))))))))))"

section \<open>Data frames and errors\<close>

text \<open>
  The reporting step in ticks.  The division panics for a zero rate, and the remainder by a zero step;
  the step is computed only where the source gets to it.
\<close>

definition reporting_step :: "configuration_summary \<Rightarrow> ('s, probe_error, u32) prog" where
  "reporting_step configuration =
     (if cs_data_rate_hz configuration = 0 then panic
      else ret (cs_time_base configuration div ucast (cs_data_rate_hz configuration)))"

definition probe_ticks :: "timestamp \<Rightarrow> configuration_summary \<Rightarrow> u64" where
  "probe_ticks ts configuration = ucast (soc ts) * ucast (cs_time_base configuration) + ucast (fracsec ts)"

definition check_timestamps ::
    "timestamp \<Rightarrow> configuration_summary \<Rightarrow> timestamp option \<Rightarrow> string \<Rightarrow> string \<Rightarrow> ('s, probe_error, unit) prog" where
  "check_timestamps ts configuration previous unaligned skipped =
     bind_p (if cs_time_base configuration \<le> fracsec ts then raise (ProbeError unaligned)
             else bind_p (reporting_step configuration) (\<lambda>step.
                  if step = 0 then panic else refuse_if (fracsec ts mod step \<noteq> 0) unaligned)) (\<lambda>_.
     case previous of
       None \<Rightarrow> ret ()
     | Some previous_ts \<Rightarrow>
         bind_p (reporting_step configuration) (\<lambda>step.
         refuse_if (saturating_sub (probe_ticks ts configuration) (probe_ticks previous_ts configuration) \<noteq> ucast step) skipped))"

definition decode_periodic_data ::
    "'a decoded_frame_scheme \<Rightarrow> configuration_summary \<Rightarrow> timestamp option \<Rightarrow> ('s, probe_error, unit) prog" where
  "decode_periodic_data frame configuration previous =
     bind_p (refuse_if (length (df_body frame) \<noteq> 32) ''periodic data frame has an unexpected V3 body length'') (\<lambda>_.
     check_timestamps (df_timestamp frame) configuration previous
       ''periodic data timestamp is not aligned to the configured rate''
       ''periodic data timestamps skipped a configured reporting interval'')"

definition decode_periodic_data_v2 ::
    "decoded_frame_v2 \<Rightarrow> configuration_summary \<Rightarrow> timestamp option \<Rightarrow> ('s, probe_error, unit) prog" where
  "decode_periodic_data_v2 frame configuration previous =
     bind_p (refuse_if (df_message_time_quality frame \<noteq> MESSAGE_TIME_QUALITY_UNKNOWN)
       ''V2 periodic data message time quality is not the simulator's conservative unknown value'') (\<lambda>_.
     bind_p (refuse_if (length (df_body frame) \<noteq> 30) ''periodic data frame has an unexpected V2 body length'') (\<lambda>_.
     let stat = u16_from_be (df_body frame ! 0) (df_body frame ! 1);
         conservative_stat = STAT_FLAG_SYNC_UNCERTAIN OR STAT_PMU_TIME_QUALITY_UNKNOWN
     in bind_p (refuse_if (stat \<noteq> 0 \<and> stat \<noteq> conservative_stat)
          ''V2 periodic data STAT is neither good nor the simulator's conservative status'') (\<lambda>_.
        check_timestamps (df_timestamp frame) configuration previous
          ''V2 periodic data timestamp is not aligned to the configured rate''
          ''V2 periodic data timestamps skipped a configured reporting interval'')))"

definition decode_error_response :: "bytes \<Rightarrow> ('s, probe_error, u16) prog" where
  "decode_error_response body =
     bind_p (refuse_if (length body \<noteq> 4) ''C37.118 error response has an invalid length'') (\<lambda>_.
     ret (u16_from_be (body ! 0) (body ! 1)))"

end
