(* ===== verification/Probe_Client.thy ===== *)
theory Probe_Client
  imports Probe Server
begin

text \<open>
  The clients of the verification probe and its main loop (\<^verbatim>\<open>src/bin/c37-118-probe.rs\<close>,
  \<^verbatim>\<open>src/bin/c37_118_probe_v2.rs\<close>): one client per endpoint goes through the handshake of its protocol
  version, checks every frame and counts the data frames.
\<close>

section \<open>The operating system of the probe\<close>

record 'w probe_os =
  base_os :: "'w os"
  os_resolve :: "string \<Rightarrow> u16 \<Rightarrow> 'w \<Rightarrow> socket_addr list io \<times> 'w"
  os_connect :: "socket_addr \<Rightarrow> 'w \<Rightarrow> socket io \<times> 'w"
  os_register_client :: "socket \<Rightarrow> u64 \<Rightarrow> interest \<Rightarrow> 'w \<Rightarrow> unit io \<times> 'w"
  os_take_error :: "socket \<Rightarrow> 'w \<Rightarrow> string option io \<times> 'w"

text \<open>\<^verbatim>\<open>?\<close> on an I/O result: every error, would-block included, ends the probe with its text.\<close>

definition probe_try :: "'a io \<Rightarrow> ('s, probe_error, 'a) prog" where
  "probe_try r = (case r of
       Done x \<Rightarrow> ret x | WouldBlock \<Rightarrow> raise (ProbeError ''would block'') | Failed m \<Rightarrow> raise (ProbeError m))"

section \<open>Clients\<close>

record 'st probe_client =
  pc_stream :: socket
  pc_stream_id :: u16
  pc_data_rate_hz :: u16
  pc_input :: bytes
  pc_input_length :: nat
  pc_output :: bytes
  pc_output_length :: nat
  pc_output_offset :: nat
  pc_state :: 'st
  pc_configuration :: "configuration_summary option"
  pc_last_timestamp :: "timestamp option"
  pc_data_frames :: u64

record ('st, 'w) pctx =
  px_client :: "'st probe_client"
  px_world :: 'w

type_synonym ('st, 'w, 'a) client_action = "(('st, 'w) pctx, probe_error, 'a) prog"

datatype client_state =
    Connecting
  | Sending command_v3
  | AwaitingCapability
  | AwaitingStreamConfiguration
  | Streaming

datatype client_state_v2 =
    ConnectingV2
  | SendingV2 command_v2
  | AwaitingHeader
  | AwaitingConfiguration1
  | AwaitingConfiguration2
  | StreamingV2

definition px_op :: "('w \<Rightarrow> 'a \<times> 'w) \<Rightarrow> ('st, 'w, 'a) client_action" where
  "px_op f = (\<lambda>s. case f (px_world s) of (x, w) \<Rightarrow> Ok (x, s\<lparr>px_world := w\<rparr>))"

definition set_client :: "('st probe_client \<Rightarrow> 'st probe_client) \<Rightarrow> ('st, 'w, unit) client_action" where
  "set_client f = modify (\<lambda>s. s\<lparr>px_client := f (px_client s)\<rparr>)"

text \<open>A reader of a body starts at offset 0; its final offset is dropped.\<close>

definition run_reader :: "'a reader \<Rightarrow> ('s, probe_error, 'a) prog" where
  "run_reader reader =
     (case reader 0 of Ok (x, _) \<Rightarrow> ret x | Err e \<Rightarrow> raise e | Panic \<Rightarrow> panic | Diverged \<Rightarrow> (\<lambda>_. Diverged))"

definition reregister_client :: "'w probe_os \<Rightarrow> u64 \<Rightarrow> interest \<Rightarrow> ('st, 'w, unit) client_action" where
  "reregister_client os token interest =
     bind_p (gets (pc_stream \<circ> px_client)) (\<lambda>stream.
     bind_p (px_op (os_reregister (base_os os) stream token interest)) probe_try)"

definition new_probe_client :: "'st \<Rightarrow> socket \<Rightarrow> u16 \<Rightarrow> u16 \<Rightarrow> 'st probe_client" where
  "new_probe_client connecting stream stream_id rate =
     \<lparr>pc_stream = stream, pc_stream_id = stream_id, pc_data_rate_hz = rate,
      pc_input = replicate PROBE_MAX_FRAME_BYTES 0, pc_input_length = 0,
      pc_output = replicate COMMAND_FRAME_BYTES_V2 0, pc_output_length = 0, pc_output_offset = 0,
      pc_state = connecting, pc_configuration = None, pc_last_timestamp = None, pc_data_frames = 0\<rparr>"

subsection \<open>Commands\<close>

definition queue_frame :: "'st \<Rightarrow> bytes option \<Rightarrow> string \<Rightarrow> ('st, 'w, unit) client_action" where
  "queue_frame sending frame message =
     bind_p (expect frame) (\<lambda>frame.
     bind_p (gets (\<lambda>s. length (pc_output (px_client s)))) (\<lambda>n.
     bind_p (refuse_if (length frame \<noteq> n) message) (\<lambda>_.
     set_client (\<lambda>c. c\<lparr>pc_output := frame, pc_output_length := length frame, pc_output_offset := 0, pc_state := sending\<rparr>))))"

definition queue_command :: "command_v3 \<Rightarrow> (client_state, 'w, unit) client_action" where
  "queue_command command =
     bind_p (gets (pc_stream_id \<circ> px_client)) (\<lambda>stream_id.
     queue_frame (Sending command) (encode_command_v3 stream_id command \<lparr>soc = 0, fracsec = 0\<rparr>)
       ''C37.118 command frame has an unexpected size'')"

definition queue_command_v2 :: "command_v2 \<Rightarrow> (client_state_v2, 'w, unit) client_action" where
  "queue_command_v2 command =
     bind_p (gets (pc_stream_id \<circ> px_client)) (\<lambda>idcode.
     queue_frame (SendingV2 command) (encode_command_v2 idcode command \<lparr>soc = 0, fracsec = 0\<rparr>)
       ''C37.118 V2 command frame has an unexpected size'')"

subsection \<open>Writing\<close>

text \<open>
  The part of \<^verbatim>\<open>write_ready\<close> both versions share: write the rest of the command; \<open>sent\<close> is what follows the
  last byte.  The slice panics when the offset is beyond the length or the length beyond the array.
\<close>

definition write_output :: "'w probe_os \<Rightarrow> ('st, 'w, unit) client_action \<Rightarrow> ('st, 'w, unit) client_action" where
  "write_output os sent =
     bind_p (gets px_client) (\<lambda>c.
     bind_p (expect (if pc_output_offset c \<le> pc_output_length c \<and> pc_output_length c \<le> length (pc_output c)
                     then Some (take (pc_output_length c - pc_output_offset c) (drop (pc_output_offset c) (pc_output c)))
                     else None)) (\<lambda>slice.
     bind_p (px_op (os_write (base_os os) (pc_stream c) slice)) (\<lambda>r. case r of
         Done written \<Rightarrow>
           if written = 0 then raise (ProbeError ''peer closed during command write'')
           else bind_p (set_client (\<lambda>c. c\<lparr>pc_output_offset := pc_output_offset c + written\<rparr>)) (\<lambda>_.
                if pc_output_offset c + written = pc_output_length c then sent else ret ())
       | WouldBlock \<Rightarrow> ret ()
       | Failed m \<Rightarrow> raise (ProbeError m))))"

definition check_connected :: "'w probe_os \<Rightarrow> ('st, 'w, unit) client_action" where
  "check_connected os =
     bind_p (gets (pc_stream \<circ> px_client)) (\<lambda>stream.
     bind_p (bind_p (px_op (os_take_error os stream)) probe_try) (\<lambda>e. case e of
         None \<Rightarrow> ret () | Some m \<Rightarrow> raise (ProbeError (''connection failed: '' @ m))))"

fun awaiting :: "command_v3 \<Rightarrow> client_state option" where
  "awaiting Capability = Some AwaitingCapability"
| "awaiting StreamConfiguration = Some AwaitingStreamConfiguration"
| "awaiting StartV3 = Some Streaming"
| "awaiting StopV3 = None"

definition write_pending :: "'w probe_os \<Rightarrow> u64 \<Rightarrow> (client_state, 'w, unit) client_action" where
  "write_pending os token =
     bind_p (gets (pc_state \<circ> px_client)) (\<lambda>state.
     case state of
       Sending command \<Rightarrow>
         write_output os (case awaiting command of
             None \<Rightarrow> raise (ProbeError ''probe does not send stop'')
           | Some next \<Rightarrow> bind_p (set_client (\<lambda>c. c\<lparr>pc_state := next\<rparr>)) (\<lambda>_. reregister_client os token READABLE))
     | _ \<Rightarrow> ret ())"

definition write_ready :: "'w probe_os \<Rightarrow> u64 \<Rightarrow> (client_state, 'w, unit) client_action" where
  "write_ready os token =
     bind_p (gets (pc_state \<circ> px_client)) (\<lambda>state.
     bind_p (if state = Connecting then bind_p (check_connected os) (\<lambda>_. queue_command Capability) else ret ()) (\<lambda>_.
     write_pending os token))"

fun awaiting_v2 :: "command_v2 \<Rightarrow> client_state_v2 option" where
  "awaiting_v2 HeaderV2 = Some AwaitingHeader"
| "awaiting_v2 Configuration1 = Some AwaitingConfiguration1"
| "awaiting_v2 Configuration2 = Some AwaitingConfiguration2"
| "awaiting_v2 StartV2 = Some StreamingV2"
| "awaiting_v2 StopV2 = None"

definition write_pending_v2 :: "'w probe_os \<Rightarrow> u64 \<Rightarrow> (client_state_v2, 'w, unit) client_action" where
  "write_pending_v2 os token =
     bind_p (gets (pc_state \<circ> px_client)) (\<lambda>state.
     case state of
       SendingV2 command \<Rightarrow>
         write_output os (case awaiting_v2 command of
             None \<Rightarrow> raise (ProbeError ''probe does not send stop'')
           | Some next \<Rightarrow> bind_p (set_client (\<lambda>c. c\<lparr>pc_state := next\<rparr>)) (\<lambda>_. reregister_client os token READABLE))
     | _ \<Rightarrow> ret ())"

definition write_ready_v2 :: "'w probe_os \<Rightarrow> u64 \<Rightarrow> (client_state_v2, 'w, unit) client_action" where
  "write_ready_v2 os token =
     bind_p (gets (pc_state \<circ> px_client)) (\<lambda>state.
     bind_p (if state = ConnectingV2 then bind_p (check_connected os) (\<lambda>_. queue_command_v2 HeaderV2) else ret ()) (\<lambda>_.
     write_pending_v2 os token))"

subsection \<open>Frames\<close>

definition request_writable :: "'w probe_os \<Rightarrow> u64 \<Rightarrow> bool \<Rightarrow> ('st, 'w, unit) client_action" where
  "request_writable os token sending = (if sending then reregister_client os token READABLE_WRITABLE else ret ())"

fun is_sending :: "client_state \<Rightarrow> bool" where
  "is_sending (Sending _) = True"
| "is_sending _ = False"

fun is_sending_v2 :: "client_state_v2 \<Rightarrow> bool" where
  "is_sending_v2 (SendingV2 _) = True"
| "is_sending_v2 _ = False"

text \<open>A data frame of a streaming client: checked against the frame before, then counted.\<close>

definition count_data_frame ::
    "timestamp \<Rightarrow> string \<Rightarrow> (configuration_summary \<Rightarrow> timestamp option \<Rightarrow> ('st, 'w, unit) client_action) \<Rightarrow> ('st, 'w, unit) client_action" where
  "count_data_frame ts message decode =
     bind_p (gets px_client) (\<lambda>c.
     bind_p (lift_ok (ok_or (pc_configuration c) (ProbeError message))) (\<lambda>configuration.
     bind_p (decode configuration (pc_last_timestamp c)) (\<lambda>_.
     set_client (\<lambda>c. c\<lparr>pc_last_timestamp := Some ts, pc_data_frames := pc_data_frames c + 1\<rparr>))))"

definition handle_frame :: "'w probe_os \<Rightarrow> u64 \<Rightarrow> decoded_frame \<Rightarrow> (client_state, 'w, unit) client_action" where
  "handle_frame os token frame =
     bind_p (gets px_client) (\<lambda>c.
     bind_p
       (if pc_state c = AwaitingCapability \<and> df_frame_type frame = FRAME_TYPE_CAPABILITY then
          bind_p (run_reader (decode_configuration (df_body frame) (pc_data_rate_hz c))) (\<lambda>configuration.
          bind_p (set_client (\<lambda>c. c\<lparr>pc_configuration := Some configuration\<rparr>)) (\<lambda>_.
          queue_command StreamConfiguration))
        else if pc_state c = AwaitingStreamConfiguration \<and> df_frame_type frame = FRAME_TYPE_STREAM_CONFIGURATION then
          bind_p (run_reader (decode_configuration (df_body frame) (pc_data_rate_hz c))) (\<lambda>configuration.
          bind_p (refuse_if (pc_configuration c \<noteq> Some configuration) ''capability and stream-configuration frames disagree'') (\<lambda>_.
          queue_command StartV3))
        else if pc_state c = Streaming \<and> df_frame_type frame = FRAME_TYPE_PERIODIC_DATA_V3 then
          count_data_frame (df_timestamp frame) ''periodic data arrived before stream configuration''
            (decode_periodic_data frame)
        else if df_frame_type frame = FRAME_TYPE_ERROR_RESPONSE then
          bind_p (decode_error_response (df_body frame)) (\<lambda>code.
          raise (ProbeError (''source returned C37.118 error response '' @ show_nat (unat code))))
        else raise (ProbeError ''unexpected C37.118 frame for protocol state'')) (\<lambda>_.
     bind_p (gets (is_sending \<circ> pc_state \<circ> px_client)) (request_writable os token)))"

definition handle_frame_v2 :: "'w probe_os \<Rightarrow> u64 \<Rightarrow> decoded_frame_v2 \<Rightarrow> (client_state_v2, 'w, unit) client_action" where
  "handle_frame_v2 os token frame =
     bind_p (gets px_client) (\<lambda>c.
     bind_p
       (if pc_state c = AwaitingHeader \<and> df_frame_type frame = FRAME_TYPE_HEADER_V2 then
          bind_p (decode_header (df_body frame)) (\<lambda>_. queue_command_v2 Configuration1)
        else if pc_state c = AwaitingConfiguration1 \<and> df_frame_type frame = FRAME_TYPE_CONFIGURATION_1_V2 then
          bind_p (run_reader (decode_configuration_v2 (df_body frame) (pc_data_rate_hz c))) (\<lambda>configuration.
          bind_p (set_client (\<lambda>c. c\<lparr>pc_configuration := Some configuration\<rparr>)) (\<lambda>_.
          queue_command_v2 Configuration2))
        else if pc_state c = AwaitingConfiguration2 \<and> df_frame_type frame = FRAME_TYPE_CONFIGURATION_2_V2 then
          bind_p (run_reader (decode_configuration_v2 (df_body frame) (pc_data_rate_hz c))) (\<lambda>configuration.
          bind_p (refuse_if (pc_configuration c \<noteq> Some configuration) ''CFG-1 and CFG-2 frames disagree'') (\<lambda>_.
          queue_command_v2 StartV2))
        else if pc_state c = StreamingV2 \<and> df_frame_type frame = FRAME_TYPE_PERIODIC_DATA_V2 then
          count_data_frame (df_timestamp frame) ''periodic data arrived before CFG-2''
            (decode_periodic_data_v2 frame)
        else raise (ProbeError ''unexpected C37.118 V2 frame for protocol state'')) (\<lambda>_.
     bind_p (gets (is_sending_v2 \<circ> pc_state \<circ> px_client)) (request_writable os token)))"

subsection \<open>Reading\<close>

text \<open>One round of the reading loop; it ends when the stream would block.\<close>

definition fill_round :: "'w probe_os \<Rightarrow> string \<Rightarrow> ('st, 'w, unit option) client_action" where
  "fill_round os full_message =
     bind_p (gets px_client) (\<lambda>c.
     bind_p (refuse_if (pc_input_length c = length (pc_input c)) full_message) (\<lambda>_.
     bind_p (expect (if pc_input_length c \<le> length (pc_input c) then Some (length (pc_input c) - pc_input_length c) else None)) (\<lambda>room.
     bind_p (px_op (os_read (base_os os) (pc_stream c) room)) (\<lambda>r. case r of
         Done data \<Rightarrow>
           if data = [] then raise (ProbeError ''peer closed during frame read'')
           else bind_p (set_client (\<lambda>c. c\<lparr>pc_input := write_at (pc_input_length c) data (pc_input c),
                                           pc_input_length := pc_input_length c + length data\<rparr>)) (\<lambda>_. ret None)
       | WouldBlock \<Rightarrow> ret (Some ())
       | Failed m \<Rightarrow> raise (ProbeError m)))))"

text \<open>
  One round of the frame loop: a complete frame is copied out, the rest moves to the front, and the frame
  is handled by \<open>receive\<close>.  \<open>invalid\<close> says which declared sizes are refused.
\<close>

definition frame_round ::
    "(nat \<Rightarrow> nat \<Rightarrow> bool) \<Rightarrow> string \<Rightarrow> (bytes \<Rightarrow> ('st, 'w, unit) client_action) \<Rightarrow> ('st, 'w, unit option) client_action" where
  "frame_round invalid message receive =
     bind_p (gets px_client) (\<lambda>c.
     if pc_input_length c < 4 then ret (Some ())
     else let frame_size = unat (u16_from_be (pc_input c ! 2) (pc_input c ! 3))
          in if invalid frame_size (length (pc_input c)) then raise (ProbeError message)
             else if pc_input_length c < frame_size then ret (Some ())
             else bind_p (set_client (\<lambda>c. c\<lparr>pc_input := write_at 0 (take (pc_input_length c - frame_size) (drop frame_size (pc_input c))) (pc_input c),
                                             pc_input_length := pc_input_length c - frame_size\<rparr>)) (\<lambda>_.
                  bind_p (receive (take frame_size (pc_input c))) (\<lambda>_. ret None)))"

definition receive_frame :: "'w probe_os \<Rightarrow> u64 \<Rightarrow> bytes \<Rightarrow> (client_state, 'w, unit) client_action" where
  "receive_frame os token bs =
     bind_p (lift_ok (decode_v3_frame bs)) (\<lambda>frame.
     bind_p (gets (pc_stream_id \<circ> px_client)) (\<lambda>stream_id.
     bind_p (lift_ok (validate_frame_identity frame stream_id)) (\<lambda>_.
     handle_frame os token frame)))"

definition receive_frame_v2 :: "'w probe_os \<Rightarrow> u64 \<Rightarrow> bytes \<Rightarrow> (client_state_v2, 'w, unit) client_action" where
  "receive_frame_v2 os token bs =
     bind_p (lift_ok (decode_v2_frame bs)) (\<lambda>frame.
     bind_p (gets (pc_stream_id \<circ> px_client)) (\<lambda>idcode.
     bind_p (lift_ok (validate_frame_identity_v2 frame idcode)) (\<lambda>_.
     handle_frame_v2 os token frame)))"

definition read_ready :: "'w probe_os \<Rightarrow> u64 \<Rightarrow> (client_state, 'w, unit) client_action" where
  "read_ready os token =
     bind_p (loop_p (fill_round os ''C37.118 probe receive buffer is full'')) (\<lambda>_.
     loop_p (frame_round (\<lambda>size limit. limit < size) ''received C37.118 frame exceeds probe buffer''
       (receive_frame os token)))"

definition read_ready_v2 :: "'w probe_os \<Rightarrow> u64 \<Rightarrow> (client_state_v2, 'w, unit) client_action" where
  "read_ready_v2 os token =
     bind_p (loop_p (fill_round os ''C37.118 V2 probe receive buffer is full'')) (\<lambda>_.
     loop_p (frame_round (\<lambda>size limit. size < FRAME_HEADER_BYTES + FRAME_CHECKSUM_BYTES \<or> limit < size)
       ''received C37.118 V2 frame has an invalid declared size'' (receive_frame_v2 os token)))"

section \<open>The probe\<close>

record probe_arguments =
  pa_host :: string
  pa_first_port :: u16
  pa_first_stream_id :: u16
  pa_count :: nat
  pa_duration :: u64
  pa_data_rate_hz :: u16

record probe_summary =
  ps_endpoints :: nat
  ps_data_frames :: u64
  ps_minimum_endpoint_data_frames :: u64
  ps_elapsed :: duration

text \<open>The probe, with the local \<^verbatim>\<open>streaming_started\<close> of its main loop.\<close>

record ('st, 'w) probe =
  pb_clients :: "'st probe_client list"
  pb_duration :: u64
  pb_data_rate_hz :: u16
  pb_streaming_started :: "instant option"
  pb_world :: 'w

type_synonym ('st, 'w, 'a) probe_action = "(('st, 'w) probe, probe_error, 'a) prog"

definition pb_op :: "('w \<Rightarrow> 'a \<times> 'w) \<Rightarrow> ('st, 'w, 'a) probe_action" where
  "pb_op f = (\<lambda>s. case f (pb_world s) of (x, w) \<Rightarrow> Ok (x, s\<lparr>pb_world := w\<rparr>))"

text \<open>\<^verbatim>\<open>self.clients[index]\<close>.\<close>

definition on_client :: "nat \<Rightarrow> ('st, 'w, 'a) client_action \<Rightarrow> ('st, 'w, 'a) probe_action" where
  "on_client i f = (\<lambda>s. if i < length (pb_clients s)
     then zoom (\<lambda>s. \<lparr>px_client = pb_clients s ! i, px_world = pb_world s\<rparr>)
            (\<lambda>t s. s\<lparr>pb_clients := (pb_clients s)[i := px_client t], pb_world := px_world t\<rparr>) f s
     else Panic)"

definition sys_probe :: "('w \<Rightarrow> 'a \<times> 'w) \<Rightarrow> ('w, probe_error, 'a) prog" where
  "sys_probe f = (\<lambda>w. case f w of (x, w') \<Rightarrow> Ok (x, w'))"

definition resolve :: "'w probe_os \<Rightarrow> string \<Rightarrow> u16 \<Rightarrow> ('w, probe_error, socket_addr) prog" where
  "resolve os host port =
     bind_p (bind_p (sys_probe (os_resolve os host port)) probe_try) (\<lambda>addresses. case addresses of
         [] \<Rightarrow> raise (ProbeError (''cannot resolve '' @ host @ '':'' @ show_nat (unat port)))
       | address # _ \<Rightarrow> ret address)"

text \<open>\<^verbatim>\<open>Probe::connect\<close>: one client per port, registered for both interests under its index.\<close>

fun connect_clients ::
    "'w probe_os \<Rightarrow> 'st \<Rightarrow> probe_arguments \<Rightarrow> nat list \<Rightarrow> ('w, probe_error, 'st probe_client list) prog" where
  "connect_clients os connecting arguments [] = ret []"
| "connect_clients os connecting arguments (index # rest) =
     bind_p (resolve os (pa_host arguments) (pa_first_port arguments + of_nat index)) (\<lambda>address.
     bind_p (bind_p (sys_probe (os_connect os address)) probe_try) (\<lambda>stream.
     bind_p (bind_p (sys_probe (os_register_client os stream (of_nat index) READABLE_WRITABLE)) probe_try) (\<lambda>_.
     bind_p (connect_clients os connecting arguments rest) (\<lambda>clients.
     ret (new_probe_client connecting stream (pa_first_stream_id arguments + of_nat index) (pa_data_rate_hz arguments) # clients)))))"

definition connect_probe :: "'w probe_os \<Rightarrow> 'st \<Rightarrow> probe_arguments \<Rightarrow> ('w, probe_error, ('st, 'w) probe) prog" where
  "connect_probe os connecting arguments =
     bind_p (bind_p (sys_probe (os_poll_new (base_os os))) probe_try) (\<lambda>_.
     bind_p (connect_clients os connecting arguments [0..<pa_count arguments]) (\<lambda>clients.
     bind_p (gets (\<lambda>w. w)) (\<lambda>w.
     ret \<lparr>pb_clients = clients, pb_duration = pa_duration arguments, pb_data_rate_hz = pa_data_rate_hz arguments,
          pb_streaming_started = None, pb_world = w\<rparr>)))"

definition minimum_endpoint_data_frames :: "u64 list \<Rightarrow> u64" where
  "minimum_endpoint_data_frames ns = (case ns of [] \<Rightarrow> 0 | n # rest \<Rightarrow> fold min rest n)"

text \<open>The required number and the sum are unchecked 64-bit arithmetic, which wraps in a release build.\<close>

definition finish :: "string \<Rightarrow> 'w probe_os \<Rightarrow> instant \<Rightarrow> ('st, 'w, probe_summary) probe_action" where
  "finish message os since =
     bind_p (gets id) (\<lambda>s.
     let minimum_per_endpoint = (ucast (pb_data_rate_hz s) * pb_duration s * 4) div 5 :: u64;
         counts = map pc_data_frames (pb_clients s)
     in bind_p (refuse_if (list_ex (\<lambda>n. n < minimum_per_endpoint) counts)
          (message @ show_nat (unat minimum_per_endpoint) @ '' data frames'')) (\<lambda>_.
        bind_p (pb_op (os_now (base_os os))) (\<lambda>now.
        ret \<lparr>ps_endpoints = length counts, ps_data_frames = sum_list counts,
             ps_minimum_endpoint_data_frames = minimum_endpoint_data_frames counts,
             ps_elapsed = saturating_duration_since now since\<rparr>)))"

definition PROBE_EVENTS_CAPACITY :: nat where [const_defs]: "PROBE_EVENTS_CAPACITY = 256"
definition HANDSHAKE_TIMEOUT :: duration where [const_defs]: "HANDSHAKE_TIMEOUT = 10 * 10 ^ 9"

text \<open>What the two versions' clients do on events, and when they have got their first data frame.\<close>

record ('st, 'w) client_handlers =
  on_writable :: "u64 \<Rightarrow> ('st, 'w, unit) client_action"
  on_readable :: "u64 \<Rightarrow> ('st, 'w, unit) client_action"
  is_streaming :: "'st probe_client \<Rightarrow> bool"
  timeout_message :: string
  shortfall_message :: string

definition probe_event :: "('st, 'w) client_handlers \<Rightarrow> u64 \<times> bool \<times> bool \<Rightarrow> ('st, 'w, unit) probe_action" where
  "probe_event h event =
     (case event of (token, readable, writable) \<Rightarrow>
        bind_p (gets (length \<circ> pb_clients)) (\<lambda>n.
        if n \<le> unat token then ret ()
        else on_client (unat token)
               (bind_p (if writable then on_writable h token else ret ()) (\<lambda>_.
                if readable then on_readable h token else ret ()))))"

definition probe_round ::
    "'w probe_os \<Rightarrow> ('st, 'w) client_handlers \<Rightarrow> instant \<Rightarrow> ('st, 'w, probe_summary option) probe_action" where
  "probe_round os h handshake_deadline =
     bind_p (pb_op (os_now (base_os os))) (\<lambda>now.
     bind_p (gets id) (\<lambda>s.
     if pb_streaming_started s = None \<and> handshake_deadline \<le> now then raise (ProbeError (timeout_message h))
     else if (case pb_streaming_started s of None \<Rightarrow> False
              | Some since \<Rightarrow> uint (pb_duration s) * 10 ^ 9 \<le> saturating_duration_since now since)
     then bind_p (finish (shortfall_message h) os (the (pb_streaming_started s))) (\<lambda>summary. ret (Some summary))
     else bind_p (bind_p (pb_op (os_poll (base_os os) (100 * 10 ^ 6))) probe_try) (\<lambda>events.
          bind_p (for_each (take PROBE_EVENTS_CAPACITY events) (probe_event h)) (\<lambda>_.
          bind_p (gets id) (\<lambda>s.
          if pb_streaming_started s = None \<and> list_all (is_streaming h) (pb_clients s)
          then bind_p (pb_op (os_now (base_os os))) (\<lambda>now.
               bind_p (modify (pb_streaming_started_update (\<lambda>_. Some now))) (\<lambda>_. ret None))
          else ret None)))))"

definition run_clients :: "'w probe_os \<Rightarrow> ('st, 'w) client_handlers \<Rightarrow> ('st, 'w, probe_summary) probe_action" where
  "run_clients os h =
     bind_p (pb_op (os_now (base_os os))) (\<lambda>now. loop_p (probe_round os h (now + HANDSHAKE_TIMEOUT)))"

definition client_is_streaming :: "client_state probe_client \<Rightarrow> bool" where
  "client_is_streaming c \<longleftrightarrow> pc_state c = Streaming \<and> 0 < pc_data_frames c"

definition client_is_streaming_v2 :: "client_state_v2 probe_client \<Rightarrow> bool" where
  "client_is_streaming_v2 c \<longleftrightarrow> pc_state c = StreamingV2 \<and> 0 < pc_data_frames c"

definition run_probe :: "'w probe_os \<Rightarrow> (client_state, 'w, probe_summary) probe_action" where
  "run_probe os = run_clients os
     \<lparr>on_writable = write_ready os, on_readable = read_ready os, is_streaming = client_is_streaming,
      timeout_message = ''C37.118 handshake timed out'',
      shortfall_message = ''at least one endpoint emitted fewer than ''\<rparr>"

definition run_probe_v2 :: "'w probe_os \<Rightarrow> (client_state_v2, 'w, probe_summary) probe_action" where
  "run_probe_v2 os = run_clients os
     \<lparr>on_writable = write_ready_v2 os, on_readable = read_ready_v2 os, is_streaming = client_is_streaming_v2,
      timeout_message = ''C37.118 V2 handshake timed out'',
      shortfall_message = ''at least one V2 endpoint emitted fewer than ''\<rparr>"

end
