(* ===== verification/Probe_Inv.thy ===== *)
theory Probe_Inv
  imports Probe_Client
begin

text \<open>
  The clients of the probe never index out of range, never divide by zero and never loop: the invariant of a
  client is kept by every event, whatever the peer sends, and the clock only moves forward meanwhile.
\<close>

section \<open>Rules\<close>

lemma wp_px_op [wp_simps]: "wp (px_op f) Q E = (\<lambda>s. case f (px_world s) of (x, w) \<Rightarrow> Q x (s\<lparr>px_world := w\<rparr>))"
  by (simp add: wp_def px_op_def fun_eq_iff split: prod.splits)

lemma wp_set_client [wp_simps]: "wp (set_client f) Q E = (\<lambda>s. Q () (s\<lparr>px_client := f (px_client s)\<rparr>))"
  by (simp add: set_client_def)

lemma wp_refuse_if [wp_simps]: "wp (refuse_if bad m) Q E = (\<lambda>s. if bad then E (ProbeError m) else Q () s)"
  by (simp add: refuse_if_def fun_eq_iff)

lemma wp_probe_try [wp_simps]: "wp (probe_try r) Q E = (\<lambda>s. case r of
    Done x \<Rightarrow> Q x s | WouldBlock \<Rightarrow> E (ProbeError ''would block'') | Failed m \<Rightarrow> E (ProbeError m))"
  by (cases r) (simp_all add: probe_try_def fun_eq_iff)

section \<open>Readers cannot panic\<close>

definition any :: "'e \<Rightarrow> bool" where [simp]: "any e = True"

lemma any_fun: "any = (\<lambda>_. True)"
  by (simp add: fun_eq_iff)

lemma safe_bytes: "(\<And>bs off'. length bs = n \<Longrightarrow> wp (g bs) Q any off') \<Longrightarrow> wp (bind_p (take_bytes body n) g) Q any off"
  by (simp add: take_bytes_def wp_def bind_p_def)

lemma safe_u16:
  assumes "\<And>x off'. wp (g x) Q any off'"
  shows "wp (bind_p (take_u16 body) g) Q any off" "wp (bind_p (take_i16 body) g) Q any off"
  using assms unfolding take_u16_def take_i16_def bind_p_simps by (intro safe_bytes; simp)+

lemma safe_u32: "(\<And>x off'. wp (g x) Q any off') \<Longrightarrow> wp (bind_p (take_u32 body) g) Q any off"
  unfolding take_u32_def bind_p_simps by (intro safe_bytes) simp

lemma safe_name:
  assumes "\<And>x off'. wp (g x) Q any off'"
  shows "wp (bind_p (take_name body) g) Q any off"
  unfolding take_name_def bind_p_simps
proof (rule safe_bytes)
  fix bs :: bytes and off' assume "length bs = 1"
  then obtain b where bs: "bs = [b]" by (cases bs) auto
  show "wp (bind_p (expect (case bs of [] \<Rightarrow> None | b # _ \<Rightarrow> Some (unat b))) (\<lambda>n. bind_p (take_bytes body n) (\<lambda>name.
      bind_p (lift_ok (ok_or (from_utf8 name) (ProbeError ''configuration name is not UTF-8''))) g))) Q any off'"
    unfolding bs list.case expect_simps bind_p_simps
  proof (rule safe_bytes)
    fix name :: bytes and o2
    show "wp (bind_p (lift_ok (ok_or (from_utf8 name) (ProbeError ''configuration name is not UTF-8''))) g) Q any o2"
      by (cases "from_utf8 name") (simp_all add: assms)
  qed
qed

lemma safe_refuse: "(\<not> bad \<Longrightarrow> wp (g ()) Q any s) \<Longrightarrow> wp (bind_p (refuse_if bad m) g) Q any s"
  by (simp add: wp_simps)

lemma safe_time_base:
  assumes "rate \<noteq> 0" "tb \<noteq> 0 \<Longrightarrow> tb mod ucast rate = 0 \<Longrightarrow> wp (g ()) Q any s"
  shows "wp (bind_p (check_time_base tb rate m) g) Q any s"
  using assms by (simp add: check_time_base_def wp_simps)

lemma safe_repeat:
  assumes "\<And>off. wp item (\<lambda>_ _. True) any off" "\<And>off'. wp (g ()) Q any off'"
  shows "wp (bind_p (repeat_p n item) g) Q any off"
proof -
  have "wp (repeat_p n item) (\<lambda>_ _. True) any off"
  proof (induction n arbitrary: off)
    case (Suc n)
    have "wp item (\<lambda>_. wp (repeat_p n item) (\<lambda>_ _. True) any) any off"
      by (rule wp_mono [OF assms(1)]) (rule Suc)
    then show ?case by (simp only: repeat_p.simps wp_bind)
  qed simp
  then show ?thesis unfolding wp_bind by (rule wp_mono) (use assms(2) in simp)
qed

lemmas safe_steps = safe_u16 safe_u32 safe_name safe_refuse safe_bytes safe_repeat

text \<open>What a configuration that was accepted guarantees.\<close>

definition usable :: "u16 \<Rightarrow> configuration_summary \<Rightarrow> bool" where
  "usable rate c \<longleftrightarrow> cs_data_rate_hz c = rate \<and> cs_time_base c \<noteq> 0 \<and> cs_time_base c mod ucast rate = 0"

lemma decode_configuration_safe:
  assumes "rate \<noteq> 0"
  shows "wp (decode_configuration body rate) (\<lambda>c _. usable rate c) any off"
  unfolding decode_configuration_def
  by (rule safe_steps safe_time_base [OF assms] | simp add: usable_def wp_simps)+

lemma decode_configuration_v2_safe:
  assumes "rate \<noteq> 0"
  shows "wp (decode_configuration_v2 body rate) (\<lambda>c _. usable rate c) any off"
  unfolding decode_configuration_v2_def
  by (rule safe_steps safe_time_base [OF assms] | simp add: usable_def wp_simps)+

lemma check_timestamps_safe:
  assumes "usable rate c" "rate \<noteq> 0" "Q () s"
  shows "wp (check_timestamps ts c prev m1 m2) Q any s"
proof -
  have "cs_time_base c div ucast rate \<noteq> 0"
  proof
    assume "cs_time_base c div ucast rate = 0"
    then have "cs_time_base c = cs_time_base c mod ucast rate" by (metis add_0 mult_zero_left div_mult_mod_eq)
    then show False using assms(1) by (simp add: usable_def)
  qed
  then show ?thesis
    using assms by (auto simp: check_timestamps_def reporting_step_def usable_def wp_simps split: option.splits)
qed

section \<open>The invariant of a client\<close>

text \<open>
  The operating system as the probe uses it: reads and writes stay within what was asked for, the clock
  \<open>clk\<close> never goes back, and every look at it takes time.
\<close>

definition probe_env :: "'w probe_os \<Rightarrow> ('w \<Rightarrow> int) \<Rightarrow> bool" where
  "probe_env os clk \<longleftrightarrow>
     (\<forall>x n w r w'. os_read (base_os os) x n w = (r, w') \<longrightarrow> clk w \<le> clk w' \<and> (\<forall>bs. r = Done bs \<longrightarrow> length bs \<le> n))
   \<and> (\<forall>x bs w r w'. os_write (base_os os) x bs w = (r, w') \<longrightarrow> clk w \<le> clk w' \<and> (\<forall>n. r = Done n \<longrightarrow> n \<le> length bs))
   \<and> (\<forall>x t i w r w'. os_reregister (base_os os) x t i w = (r, w') \<longrightarrow> clk w \<le> clk w')
   \<and> (\<forall>x w r w'. os_take_error os x w = (r, w') \<longrightarrow> clk w \<le> clk w')
   \<and> (\<forall>d w r w'. os_poll (base_os os) d w = (r, w') \<longrightarrow> clk w \<le> clk w')
   \<and> (\<forall>w t w'. os_now (base_os os) w = (t, w') \<longrightarrow> t = clk w \<and> clk w < clk w')"

lemma probe_envD:
  assumes "probe_env os clk"
  shows "os_read (base_os os) x n w = (r, w') \<Longrightarrow> clk w \<le> clk w'"
    and "os_read (base_os os) x n w = (Done bs, w') \<Longrightarrow> length bs \<le> n"
    and "os_write (base_os os) x bs' w = (r', w') \<Longrightarrow> clk w \<le> clk w'"
    and "os_write (base_os os) x bs' w = (Done k, w') \<Longrightarrow> k \<le> length bs'"
    and "os_reregister (base_os os) x t i w = (r2, w') \<Longrightarrow> clk w \<le> clk w'"
    and "os_take_error os x w = (r3, w') \<Longrightarrow> clk w \<le> clk w'"
    and "os_poll (base_os os) d w = (r4, w') \<Longrightarrow> clk w \<le> clk w'"
    and "os_now (base_os os) w = (n', w') \<Longrightarrow> n' = clk w \<and> clk w < clk w'"
  using assms unfolding probe_env_def by (elim conjE; metis)+

definition client_inv :: "'st probe_client \<Rightarrow> bool" where
  "client_inv c \<longleftrightarrow> length (pc_input c) = PROBE_MAX_FRAME_BYTES \<and> pc_input_length c \<le> PROBE_MAX_FRAME_BYTES
     \<and> length (pc_output c) = COMMAND_FRAME_BYTES_V2 \<and> pc_output_offset c \<le> pc_output_length c
     \<and> pc_output_length c \<le> COMMAND_FRAME_BYTES_V2 \<and> pc_data_rate_hz c \<noteq> 0
     \<and> (\<forall>conf. pc_configuration c = Some conf \<longrightarrow> usable (pc_data_rate_hz c) conf)"

definition preserves :: "('w \<Rightarrow> int) \<Rightarrow> ('st, 'w) pctx \<Rightarrow> ('st, 'w) pctx \<Rightarrow> bool" where
  "preserves clk s t \<longleftrightarrow> client_inv (px_client t) \<and> clk (px_world s) \<le> clk (px_world t)
     \<and> pc_input_length (px_client t) = pc_input_length (px_client s)"

lemma preserves_refl: "client_inv (px_client s) \<Longrightarrow> preserves clk s s"
  by (simp add: preserves_def)

lemma preserves_trans: "preserves clk s t \<Longrightarrow> preserves clk t u \<Longrightarrow> preserves clk s u"
  by (auto simp: preserves_def)

lemma preserves_world: "client_inv (px_client s) \<Longrightarrow> clk (px_world s) \<le> clk w \<Longrightarrow> preserves clk s (s\<lparr>px_world := w\<rparr>)"
  by (simp add: preserves_def)

text \<open>One call after another.\<close>

lemma preserves_bind:
  assumes "wp f (\<lambda>_. preserves clk s) any s" "\<And>x t. preserves clk s t \<Longrightarrow> wp (g x) (\<lambda>_. preserves clk t) any t"
  shows "wp (bind_p f g) (\<lambda>_. preserves clk s) any s"
  unfolding wp_bind
proof (rule wp_mono [OF assms(1)])
  fix x t assume t: "preserves clk s t"
  show "wp (g x) (\<lambda>_. preserves clk s) any t"
    by (rule wp_mono [OF assms(2) [OF t]]) (rule preserves_trans [OF t])
qed

lemma preserves_client: "preserves clk s t \<Longrightarrow> client_inv (px_client t)"
  by (simp add: preserves_def)

lemma preserves_reregister:
  assumes "probe_env os clk" "client_inv (px_client s)"
  shows "wp (reregister_client os token i) (\<lambda>_. preserves clk s) any s"
  using assms(2) probe_envD(5) [OF assms(1)]
  by (auto simp: reregister_client_def wp_simps split: prod.splits io.splits intro!: preserves_world)

lemma preserves_queue_frame:
  assumes "frame \<noteq> None" "client_inv (px_client s)"
  shows "wp (queue_frame st frame m) (\<lambda>_. preserves clk s) any s"
  using assms by (auto simp: queue_frame_def wp_simps preserves_def client_inv_def)

lemma preserves_queue_command:
  assumes "client_inv (px_client s)"
  shows "wp (queue_command c3) (\<lambda>_. preserves clk s) any s"
  by (simp add: queue_command_def) (rule preserves_queue_frame, simp add: encode_command_v3_def v3.encode_eq, rule assms)

lemma preserves_queue_command_v2:
  assumes "client_inv (px_client s)"
  shows "wp (queue_command_v2 c2) (\<lambda>_. preserves clk s) any s"
  by (simp add: queue_command_v2_def) (rule preserves_queue_frame, simp add: encode_command_v2_def v2.encode_eq, rule assms)

lemma preserves_write_output:
  assumes env: "probe_env os clk" and c: "client_inv (px_client s)"
    and sent: "\<And>t. client_inv (px_client t) \<Longrightarrow> wp sent (\<lambda>_. preserves clk t) any t"
  shows "wp (write_output os sent) (\<lambda>_. preserves clk s) any s"
proof -
  let ?c = "px_client s"
  let ?slice = "take (pc_output_length ?c - pc_output_offset ?c) (drop (pc_output_offset ?c) (pc_output ?c))"
  obtain r w where r: "os_write (base_os os) (pc_stream ?c) ?slice (px_world s) = (r, w)" by fastforce
  note mono = probe_envD(3) [OF env r]
  have out: "pc_output_offset ?c \<le> pc_output_length ?c" "pc_output_length ?c \<le> length (pc_output ?c)"
    using c by (auto simp: client_inv_def)
  show ?thesis
  proof (cases r)
    case (Done k)
    let ?t = "s\<lparr>px_world := w, px_client := ?c\<lparr>pc_output_offset := pc_output_offset ?c + k\<rparr>\<rparr>"
    have "k \<le> length ?slice" using probe_envD(4) [OF env] r Done by blast
    then have "pc_output_offset ?c + k \<le> pc_output_length ?c" using out by simp
    then have t: "preserves clk s ?t" using c mono by (simp add: preserves_def client_inv_def)
    have "wp sent (\<lambda>_. preserves clk s) any ?t"
      by (rule wp_mono [OF sent [OF preserves_client [OF t]]]) (rule preserves_trans [OF t])
    then show ?thesis
      using t out r Done
      by (cases "k = 0"; cases "pc_output_offset ?c + k = pc_output_length ?c") (simp_all add: write_output_def wp_simps)
  qed (use r out mono c in \<open>simp_all add: write_output_def wp_simps preserves_world\<close>)
qed

section \<open>Events\<close>

lemma wp_bind_gets: "wp (bind_p (gets h) g) Q E s = wp (g (h s)) Q E s"
  by simp

lemma preserves_ret: "client_inv (px_client s) \<Longrightarrow> wp (ret x) (\<lambda>_. preserves clk s) any s"
  by (simp add: preserves_refl)

lemma preserves_raise: "wp (raise e) (\<lambda>_. preserves clk s) any s"
  by simp

lemma preserves_check_connected:
  assumes "probe_env os clk" "client_inv (px_client s)"
  shows "wp (check_connected os) (\<lambda>_. preserves clk s) any s"
  using assms(2) probe_envD(6) [OF assms(1)]
  by (auto simp: check_connected_def wp_simps split: prod.splits io.splits option.splits intro!: preserves_world)

lemma preserves_set_state: "client_inv (px_client s) \<Longrightarrow> wp (set_client (\<lambda>c. c\<lparr>pc_state := st\<rparr>)) (\<lambda>_. preserves clk s) any s"
  by (simp add: wp_simps preserves_def client_inv_def)

lemma preserves_write_pending:
  assumes env: "probe_env os clk" and c: "client_inv (px_client s)"
  shows "wp (write_pending os token) (\<lambda>_. preserves clk s) any s"
  unfolding write_pending_def wp_bind_gets
  by (auto split: client_state.splits option.splits
      intro!: preserves_write_output [OF env] preserves_bind [OF preserves_set_state] preserves_reregister [OF env] preserves_ret
      simp: c preserves_refl preserves_client simp del: wp_bind)

lemma preserves_write_pending_v2:
  assumes env: "probe_env os clk" and c: "client_inv (px_client s)"
  shows "wp (write_pending_v2 os token) (\<lambda>_. preserves clk s) any s"
  unfolding write_pending_v2_def wp_bind_gets
  by (auto split: client_state_v2.splits option.splits
      intro!: preserves_write_output [OF env] preserves_bind [OF preserves_set_state] preserves_reregister [OF env] preserves_ret
      simp: c preserves_refl preserves_client simp del: wp_bind)

lemma preserves_write_ready:
  assumes env: "probe_env os clk" and c: "client_inv (px_client s)"
  shows "wp (write_ready os token) (\<lambda>_. preserves clk s) any s"
  unfolding write_ready_def wp_bind_gets
  by (rule preserves_bind; (rule preserves_write_pending [OF env])?)
     (auto intro!: preserves_bind [OF preserves_check_connected [OF env]] preserves_queue_command preserves_ret simp: c preserves_refl preserves_client simp del: wp_bind)

lemma preserves_write_ready_v2:
  assumes env: "probe_env os clk" and c: "client_inv (px_client s)"
  shows "wp (write_ready_v2 os token) (\<lambda>_. preserves clk s) any s"
  unfolding write_ready_v2_def wp_bind_gets
  by (rule preserves_bind; (rule preserves_write_pending_v2 [OF env])?)
     (auto intro!: preserves_bind [OF preserves_check_connected [OF env]] preserves_queue_command_v2 preserves_ret simp: c preserves_refl preserves_client simp del: wp_bind)

lemma preserves_request_writable:
  assumes "probe_env os clk" "client_inv (px_client s)"
  shows "wp (request_writable os token b) (\<lambda>_. preserves clk s) any s"
  using assms by (simp add: request_writable_def preserves_reregister preserves_refl)

lemma preserves_count_data_frame:
  assumes c: "client_inv (px_client s)"
    and "\<And>conf prev. usable (pc_data_rate_hz (px_client s)) conf \<Longrightarrow> wp (decode conf prev) (\<lambda>_ t. t = s) any s"
  shows "wp (count_data_frame ts m decode) (\<lambda>_. preserves clk s) any s"
proof (cases "pc_configuration (px_client s)")
  case None
  then show ?thesis by (simp add: count_data_frame_def)
next
  case (Some conf)
  then have "usable (pc_data_rate_hz (px_client s)) conf" using c by (simp add: client_inv_def)
  then have "wp (decode conf (pc_last_timestamp (px_client s)))
      (\<lambda>_ t. preserves clk s (t\<lparr>px_client := (px_client t)\<lparr>pc_last_timestamp := Some ts, pc_data_frames := pc_data_frames (px_client t) + 1\<rparr>\<rparr>)) any s"
    by (rule wp_mono [OF assms(2)]) (use c in \<open>simp add: preserves_def client_inv_def\<close>)
  then show ?thesis by (simp add: count_data_frame_def Some wp_simps)
qed

text \<open>A configuration frame is read, remembered and answered with the next command.\<close>

lemma wp_run_reader_safe:
  assumes "wp reader (\<lambda>c _. P c) any 0" "\<And>c. P c \<Longrightarrow> wp (g c) Q any s"
  shows "wp (bind_p (run_reader reader) g) Q any s"
  using assms(1)
proof (rule wp_outcome)
  fix c off assume "reader 0 = Ok (c, off)" "P c"
  then show ?thesis using assms(2) by (simp add: run_reader_def)
next
  fix e assume "reader 0 = Err e"
  then show ?thesis by (simp add: run_reader_def)
qed

lemma preserves_if:
  "(b \<Longrightarrow> wp f Q E s) \<Longrightarrow> (\<not> b \<Longrightarrow> wp g Q E s) \<Longrightarrow> wp (if b then f else g) Q E s"
  by simp

lemma preserves_set_configuration:
  "client_inv (px_client s) \<Longrightarrow> usable (pc_data_rate_hz (px_client s)) conf
     \<Longrightarrow> wp (set_client (\<lambda>c. c\<lparr>pc_configuration := Some conf\<rparr>)) (\<lambda>_. preserves clk s) any s"
  by (simp add: wp_simps preserves_def client_inv_def)

lemma preserves_refuse: "(client_inv (px_client s) \<Longrightarrow> wp g (\<lambda>_. preserves clk s) any s) \<Longrightarrow> client_inv (px_client s)
     \<Longrightarrow> wp (bind_p (refuse_if bad m) (\<lambda>_. g)) (\<lambda>_. preserves clk s) any s"
  by (simp add: wp_simps)

lemma rate_positive: "client_inv c \<Longrightarrow> pc_data_rate_hz c \<noteq> 0"
  by (simp add: client_inv_def)

lemma preserves_handle_frame:
  assumes env: "probe_env os clk" and c: "client_inv (px_client s)"
  shows "wp (handle_frame os token frame) (\<lambda>_. preserves clk s) any s"
proof -
  note read = wp_run_reader_safe [OF decode_configuration_safe [OF rate_positive [OF c]]]
  have data: "wp (decode_periodic_data frame conf prev) (\<lambda>_ t. t = s) any s" if "usable (pc_data_rate_hz (px_client s)) conf" for conf prev
    unfolding decode_periodic_data_def
    by (rule safe_refuse, rule check_timestamps_safe [OF that rate_positive [OF c]]) simp
  show ?thesis
    unfolding handle_frame_def wp_bind_gets
    apply (rule preserves_bind)
     apply (rule preserves_if, rule read, rule preserves_bind [OF preserves_set_configuration [OF c]], assumption, rule preserves_queue_command, erule preserves_client)
     apply (rule preserves_if, rule read, rule preserves_refuse [OF _ c], erule preserves_queue_command)
     apply (rule preserves_if, rule preserves_count_data_frame [OF c], erule data)
      apply (simp add: decode_error_response_def wp_simps)
     apply simp
    unfolding wp_bind_gets
    apply (rule preserves_request_writable [OF env], erule preserves_client)
    done
qed

lemma preserves_handle_frame_v2:
  assumes env: "probe_env os clk" and c: "client_inv (px_client s)"
  shows "wp (handle_frame_v2 os token frame) (\<lambda>_. preserves clk s) any s"
proof -
  note read = wp_run_reader_safe [OF decode_configuration_v2_safe [OF rate_positive [OF c]]]
  have data: "wp (decode_periodic_data_v2 frame conf prev) (\<lambda>_ t. t = s) any s" if "usable (pc_data_rate_hz (px_client s)) conf" for conf prev
    unfolding decode_periodic_data_v2_def Let_def
    by (rule safe_refuse)+ (rule check_timestamps_safe [OF that rate_positive [OF c]], simp)
  show ?thesis
    unfolding handle_frame_v2_def wp_bind_gets
    apply (rule preserves_bind)
     apply (rule preserves_if, simp only: decode_header_def, rule preserves_refuse [OF _ c], erule preserves_queue_command_v2)
     apply (rule preserves_if, rule read, rule preserves_bind [OF preserves_set_configuration [OF c]], assumption, rule preserves_queue_command_v2, erule preserves_client)
     apply (rule preserves_if, rule read, rule preserves_refuse [OF _ c], erule preserves_queue_command_v2)
     apply (rule preserves_if, rule preserves_count_data_frame [OF c], erule data)
     apply simp
    unfolding wp_bind_gets
    apply (rule preserves_request_writable [OF env], erule preserves_client)
    done
qed

section \<open>The loops of a read event\<close>

definition moves :: "('w \<Rightarrow> int) \<Rightarrow> ('st, 'w) pctx \<Rightarrow> ('st, 'w) pctx \<Rightarrow> bool" where
  "moves clk s t \<longleftrightarrow> client_inv (px_client t) \<and> clk (px_world s) \<le> clk (px_world t)"

lemma preserves_moves: "preserves clk s t \<Longrightarrow> moves clk s t"
  by (simp add: preserves_def moves_def)

lemma moves_trans: "moves clk s t \<Longrightarrow> moves clk t u \<Longrightarrow> moves clk s u"
  by (auto simp: moves_def)

lemma wp_fill_round:
  assumes env: "probe_env os clk" and c: "client_inv (px_client s)"
  shows "wp (fill_round os m) (\<lambda>r u. moves clk s u \<and> (r = None \<longrightarrow> pc_input_length (px_client s) < pc_input_length (px_client u))) any s"
proof -
  let ?c = "px_client s"
  let ?room = "length (pc_input ?c) - pc_input_length ?c"
  obtain r w where r: "os_read (base_os os) (pc_stream ?c) ?room (px_world s) = (r, w)" by fastforce
  have n: "pc_input_length ?c \<le> length (pc_input ?c)" using c by (simp add: client_inv_def)
  note mono = probe_envD(1) [OF env r]
  show ?thesis
  proof (cases r)
    case (Done bs)
    have "length bs \<le> ?room" using probe_envD(2) [OF env] r Done by blast
    then have room: "pc_input_length ?c + length bs \<le> length (pc_input ?c)" using n by simp
    let ?t = "s\<lparr>px_world := w, px_client := ?c\<lparr>pc_input := write_at (pc_input_length ?c) bs (pc_input ?c),
        pc_input_length := pc_input_length ?c + length bs\<rparr>\<rparr>"
    have "moves clk s ?t" using c mono room by (simp add: moves_def client_inv_def)
    then show ?thesis using r n Done by (simp add: fill_round_def wp_simps)
  qed (use r n mono c in \<open>simp_all add: fill_round_def wp_simps moves_def\<close>)
qed

lemma wp_fill:
  assumes env: "probe_env os clk" and c: "client_inv (px_client s)"
  shows "wp (loop_p (fill_round os m)) (\<lambda>_. moves clk s) any s"
proof (rule wp_loop [where I = "moves clk s" and m = "\<lambda>t. PROBE_MAX_FRAME_BYTES - pc_input_length (px_client t)"])
  show "moves clk s s" using c by (simp add: moves_def)
  fix t assume t: "moves clk s t"
  then have "client_inv (px_client t)" by (simp add: moves_def)
  from wp_fill_round [OF env this]
  show "wp (fill_round os m) (\<lambda>r u. case r of None \<Rightarrow> moves clk s u \<and>
        PROBE_MAX_FRAME_BYTES - pc_input_length (px_client u) < PROBE_MAX_FRAME_BYTES - pc_input_length (px_client t)
      | Some x \<Rightarrow> moves clk s u) any t"
  proof (rule wp_mono)
    fix r u assume u: "moves clk t u \<and> (r = None \<longrightarrow> pc_input_length (px_client t) < pc_input_length (px_client u))"
    moreover have "pc_input_length (px_client u) \<le> PROBE_MAX_FRAME_BYTES" using u by (simp add: moves_def client_inv_def)
    ultimately show "case r of None \<Rightarrow> moves clk s u \<and>
        PROBE_MAX_FRAME_BYTES - pc_input_length (px_client u) < PROBE_MAX_FRAME_BYTES - pc_input_length (px_client t)
      | Some x \<Rightarrow> moves clk s u"
      using moves_trans [OF t] by (auto split: option.splits)
  qed
qed

text \<open>A frame that is taken out of the input is not empty, or it is refused.\<close>

lemma wp_frame_round:
  assumes c: "client_inv (px_client s)"
    and receive: "\<And>bs t. client_inv (px_client t) \<Longrightarrow> wp (receive bs) (\<lambda>_. preserves clk t) any t"
    and empty: "\<And>t. wp (receive []) (\<lambda>_ _. False) any t"
  shows "wp (frame_round invalid m receive) (\<lambda>r u. moves clk s u \<and> (r = None \<longrightarrow> pc_input_length (px_client u) < pc_input_length (px_client s))) any s"
proof -
  let ?c = "px_client s"
  let ?size = "unat (u16_from_be (pc_input ?c ! 2) (pc_input ?c ! 3))"
  let ?t = "s\<lparr>px_client := ?c\<lparr>pc_input := write_at 0 (take (pc_input_length ?c - ?size) (drop ?size (pc_input ?c))) (pc_input ?c),
      pc_input_length := pc_input_length ?c - ?size\<rparr>\<rparr>"
  have s: "moves clk s s" using c by (simp add: moves_def)
  show ?thesis
  proof (cases "4 \<le> pc_input_length ?c \<and> \<not> invalid ?size (length (pc_input ?c)) \<and> ?size \<le> pc_input_length ?c")
    case True
    have t: "client_inv (px_client ?t)" using c by (auto simp: client_inv_def)
    have "wp (receive (take ?size (pc_input ?c)))
        (\<lambda>_ u. moves clk s u \<and> pc_input_length (px_client u) < pc_input_length ?c) any ?t"
    proof (cases "?size = 0")
      case True
      then show ?thesis using wp_mono [OF empty] by simp
    next
      case False
      show ?thesis
      proof (rule wp_mono [OF receive [OF t]])
        fix u assume "preserves clk ?t u"
        then show "moves clk s u \<and> pc_input_length (px_client u) < pc_input_length ?c"
          using True False by (auto simp: preserves_def moves_def)
      qed
    qed
    then show ?thesis using True by (simp add: frame_round_def wp_simps Let_def)
  next
    case False
    then show ?thesis using s by (auto simp: frame_round_def wp_simps Let_def)
  qed
qed

lemma wp_frames:
  assumes c: "client_inv (px_client s)"
    and receive: "\<And>bs t. client_inv (px_client t) \<Longrightarrow> wp (receive bs) (\<lambda>_. preserves clk t) any t"
    and empty: "\<And>t. wp (receive []) (\<lambda>_ _. False) any t"
  shows "wp (loop_p (frame_round invalid m receive)) (\<lambda>_. moves clk s) any s"
proof (rule wp_loop [where I = "moves clk s" and m = "\<lambda>t. pc_input_length (px_client t)"])
  show "moves clk s s" using c by (simp add: moves_def)
  fix t assume t: "moves clk s t"
  then have "client_inv (px_client t)" by (simp add: moves_def)
  then have "wp (frame_round invalid m receive) (\<lambda>r u. moves clk t u \<and> (r = None \<longrightarrow> pc_input_length (px_client u) < pc_input_length (px_client t))) any t"
    by (rule wp_frame_round) (rule receive, assumption, rule empty)
  then show "wp (frame_round invalid m receive) (\<lambda>r u. case r of None \<Rightarrow> moves clk s u \<and> pc_input_length (px_client u) < pc_input_length (px_client t)
      | Some x \<Rightarrow> moves clk s u) any t"
    by (rule wp_mono) (use moves_trans [OF t] in \<open>auto split: option.splits\<close>)
qed

lemma preserves_receive_frame:
  assumes env: "probe_env os clk" and c: "client_inv (px_client s)"
  shows "wp (receive_frame os token bs) (\<lambda>_. preserves clk s) any s"
  by (cases "decode_v3_frame bs")
     (simp_all add: receive_frame_def validate_frame_identity_def fail_if_def preserves_handle_frame [OF env c])

lemma preserves_receive_frame_v2:
  assumes env: "probe_env os clk" and c: "client_inv (px_client s)"
  shows "wp (receive_frame_v2 os token bs) (\<lambda>_. preserves clk s) any s"
  by (cases "decode_v2_frame bs")
     (simp_all add: receive_frame_v2_def validate_frame_identity_v2_def fail_if_def preserves_handle_frame_v2 [OF env c])

lemma empty_frame_refused:
  "wp (receive_frame os token []) (\<lambda>_ _. False) any t" "wp (receive_frame_v2 os token []) (\<lambda>_ _. False) any t'"
  by (simp_all add: receive_frame_def receive_frame_v2_def decode_v3_frame_def decode_v2_frame_def const_defs)

lemma wp_read_ready:
  assumes env: "probe_env os clk" and c: "client_inv (px_client s)"
  shows "wp (read_ready os token) (\<lambda>_. moves clk s) any s"
  unfolding read_ready_def wp_bind
proof (rule wp_mono [OF wp_fill [OF env c]])
  fix t assume t: "moves clk s t"
  then have "client_inv (px_client t)" by (simp add: moves_def)
  then have "wp (loop_p (frame_round (\<lambda>size limit. limit < size) ''received C37.118 frame exceeds probe buffer'' (receive_frame os token)))
      (\<lambda>_. moves clk t) any t"
    by (rule wp_frames) (rule preserves_receive_frame [OF env], assumption, rule empty_frame_refused)
  then show "wp (loop_p (frame_round (\<lambda>size limit. limit < size) ''received C37.118 frame exceeds probe buffer'' (receive_frame os token)))
      (\<lambda>_. moves clk s) any t"
    by (rule wp_mono) (rule moves_trans [OF t])
qed

lemma wp_read_ready_v2:
  assumes env: "probe_env os clk" and c: "client_inv (px_client s)"
  shows "wp (read_ready_v2 os token) (\<lambda>_. moves clk s) any s"
  unfolding read_ready_v2_def wp_bind
proof (rule wp_mono [OF wp_fill [OF env c]])
  let ?frames = "loop_p (frame_round (\<lambda>size limit. size < FRAME_HEADER_BYTES + FRAME_CHECKSUM_BYTES \<or> limit < size)
       ''received C37.118 V2 frame has an invalid declared size'' (receive_frame_v2 os token))"
  fix t assume t: "moves clk s t"
  then have "client_inv (px_client t)" by (simp add: moves_def)
  then have "wp ?frames (\<lambda>_. moves clk t) any t"
    by (rule wp_frames) (rule preserves_receive_frame_v2 [OF env], assumption, rule empty_frame_refused)
  then show "wp ?frames (\<lambda>_. moves clk s) any t"
    by (rule wp_mono) (rule moves_trans [OF t])
qed

section \<open>The main loop\<close>

definition handlers_ok :: "('w \<Rightarrow> int) \<Rightarrow> ('st, 'w) client_handlers \<Rightarrow> bool" where
  "handlers_ok clk h \<longleftrightarrow> (\<forall>token s. client_inv (px_client s) \<longrightarrow>
     wp (on_writable h token) (\<lambda>_. moves clk s) any s \<and> wp (on_readable h token) (\<lambda>_. moves clk s) any s)"

text \<open>What the rounds of the probe keep: its clients, their number, its parameters and the direction of time.\<close>

definition evolves_probe :: "('w \<Rightarrow> int) \<Rightarrow> ('st, 'w) probe \<Rightarrow> ('st, 'w) probe \<Rightarrow> bool" where
  "evolves_probe clk s t \<longleftrightarrow> list_all client_inv (pb_clients t) \<and> length (pb_clients t) = length (pb_clients s)
     \<and> pb_duration t = pb_duration s \<and> pb_data_rate_hz t = pb_data_rate_hz s \<and> clk (pb_world s) \<le> clk (pb_world t)"

lemma evolves_probe_trans: "evolves_probe clk s t \<Longrightarrow> evolves_probe clk t u \<Longrightarrow> evolves_probe clk s u"
  by (auto simp: evolves_probe_def)

lemma wp_pb_op [wp_simps]: "wp (pb_op f) Q E = (\<lambda>s. case f (pb_world s) of (x, w) \<Rightarrow> Q x (s\<lparr>pb_world := w\<rparr>))"
  by (simp add: wp_def pb_op_def fun_eq_iff split: prod.splits)

lemma wp_on_client: "wp (on_client i f) Q E s \<longleftrightarrow> i < length (pb_clients s) \<and>
    wp f (\<lambda>x t. Q x (s\<lparr>pb_clients := (pb_clients s)[i := px_client t], pb_world := px_world t\<rparr>)) E
      \<lparr>px_client = pb_clients s ! i, px_world = pb_world s\<rparr>"
  by (simp add: on_client_def wp_def zoom_def split: res.splits prod.splits)

lemma list_all_update: "list_all P xs \<Longrightarrow> P x \<Longrightarrow> list_all P (xs[i := x])"
  by (auto simp: list_all_iff dest!: set_update_subset_insert [THEN subsetD])

lemma wp_probe_event:
  assumes h: "handlers_ok clk h" and s: "list_all client_inv (pb_clients s)"
  shows "wp (probe_event h event) (\<lambda>_ t. evolves_probe clk s t \<and> pb_streaming_started t = pb_streaming_started s) any s"
proof -
  obtain token readable writable where e: "event = (token, readable, writable)" by (cases event)
  show ?thesis
  proof (cases "length (pb_clients s) \<le> unat token")
    case True
    then show ?thesis using s by (simp add: probe_event_def e evolves_probe_def)
  next
    case False
    let ?c = "\<lparr>px_client = pb_clients s ! unat token, px_world = pb_world s\<rparr>"
    have c: "client_inv (px_client ?c)" using s False by (simp add: list_all_length)
    have "wp (if writable then on_writable h token else ret ()) (\<lambda>_. moves clk ?c) any ?c"
      using h c by (simp add: handlers_ok_def moves_def)
    then have "wp (if writable then on_writable h token else ret ())
        (\<lambda>_. wp (if readable then on_readable h token else ret ()) (\<lambda>_. moves clk ?c) any) any ?c"
    proof (rule wp_mono)
      fix t assume t: "moves clk ?c t"
      then have "client_inv (px_client t)" by (simp add: moves_def)
      then have "wp (if readable then on_readable h token else ret ()) (\<lambda>_. moves clk t) any t"
        using h by (simp add: handlers_ok_def moves_def)
      then show "wp (if readable then on_readable h token else ret ()) (\<lambda>_. moves clk ?c) any t"
        by (rule wp_mono) (rule moves_trans [OF t])
    qed
    then have "wp (bind_p (if writable then on_writable h token else ret ()) (\<lambda>_. if readable then on_readable h token else ret ()))
        (\<lambda>_ t. evolves_probe clk s (s\<lparr>pb_clients := (pb_clients s)[unat token := px_client t], pb_world := px_world t\<rparr>)) any ?c"
      unfolding wp_bind by (elim wp_mono) (simp add: evolves_probe_def moves_def list_all_update s)
    then show ?thesis using False by (simp add: probe_event_def e wp_on_client)
  qed
qed

text \<open>
  How long the probe can still run: until the handshake deadline plus the whole measurement, or until the
  end of the measurement.
\<close>

definition patience :: "('w \<Rightarrow> int) \<Rightarrow> instant \<Rightarrow> ('st, 'w) probe \<Rightarrow> nat" where
  "patience clk deadline s =
     (case pb_streaming_started s of
        None \<Rightarrow> nat (uint (pb_duration s) * 10 ^ 9) + 1 + nat (deadline - clk (pb_world s))
      | Some since \<Rightarrow> nat (since + uint (pb_duration s) * 10 ^ 9 - clk (pb_world s)))"

text \<open>What a summary says.\<close>

definition measured :: "('st, 'w) probe \<Rightarrow> probe_summary \<Rightarrow> ('st, 'w) probe \<Rightarrow> bool" where
  "measured s summary t \<longleftrightarrow> ps_endpoints summary = length (pb_clients s) \<and> length (pb_clients t) = length (pb_clients s)
     \<and> (\<forall>c \<in> set (pb_clients t). (ucast (pb_data_rate_hz s) * pb_duration s * 4) div 5 \<le> pc_data_frames c)
     \<and> ps_data_frames summary = sum_list (map pc_data_frames (pb_clients t))
     \<and> uint (pb_duration s) * 10 ^ 9 \<le> ps_elapsed summary
     \<and> (pb_clients s \<noteq> [] \<longrightarrow>
          (ucast (pb_data_rate_hz s) * pb_duration s * 4) div 5 \<le> ps_minimum_endpoint_data_frames summary)"

lemma fold_min_lower: "\<forall>x \<in> set xs. m \<le> x \<Longrightarrow> m \<le> n \<Longrightarrow> m \<le> fold min xs (n :: 'a::linorder)"
  by (induction xs arbitrary: n) simp_all

lemma minimum_lower:
  assumes "\<forall>n \<in> set ns. m \<le> n" "ns \<noteq> []"
  shows "m \<le> minimum_endpoint_data_frames ns"
  using assms by (cases ns) (simp_all add: minimum_endpoint_data_frames_def fold_min_lower)

lemma wp_finish:
  assumes env: "probe_env os clk" and since: "uint (pb_duration s) * 10 ^ 9 \<le> saturating_duration_since (clk (pb_world s)) since"
  shows "wp (finish m os since) (\<lambda>summary t. measured s summary t) any s"
proof -
  obtain now w where n: "os_now (base_os os) (pb_world s) = (now, w)" by fastforce
  then have "now = clk (pb_world s)" using probe_envD(8) [OF env] by blast
  then show ?thesis
    using since n by (auto simp: finish_def Let_def wp_simps measured_def saturating_duration_since_def list_ex_iff linorder_not_less
        intro!: minimum_lower)
qed

lemma bind_pb_op: "bind_p (pb_op f) g s = (case f (pb_world s) of (x, w) \<Rightarrow> g x (s\<lparr>pb_world := w\<rparr>))"
  by (simp add: bind_p_def pb_op_def split: prod.splits)

lemma bind_gets_eq: "bind_p (gets h) g s = g (h s) s"
  by (simp add: bind_p_def gets_def)

lemma wp_eqI: "f s = g t \<Longrightarrow> wp g Q E t \<Longrightarrow> wp f Q E s"
  by (simp add: wp_def)

text \<open>One round: the summary, or time has passed.\<close>

lemma wp_poll_events:
  assumes env: "probe_env os clk" and h: "handlers_ok clk h" and s: "list_all client_inv (pb_clients s)"
  shows "wp (bind_p (bind_p (pb_op (os_poll (base_os os) d)) probe_try) (\<lambda>events. for_each (take n events) (probe_event h)))
      (\<lambda>_ t. evolves_probe clk s t \<and> pb_streaming_started t = pb_streaming_started s) any s"
proof -
  obtain r w where r: "os_poll (base_os os) d (pb_world s) = (r, w)" by fastforce
  note mono = probe_envD(7) [OF env r]
  show ?thesis
  proof (cases r)
    case (Done events)
    have "wp (for_each (take n events) (probe_event h)) (\<lambda>_ t. evolves_probe clk s t \<and> pb_streaming_started t = pb_streaming_started s) any
        (s\<lparr>pb_world := w\<rparr>)"
    proof (rule wp_for_each)
      show "evolves_probe clk s (s\<lparr>pb_world := w\<rparr>) \<and> pb_streaming_started (s\<lparr>pb_world := w\<rparr>) = pb_streaming_started s"
        using s mono by (simp add: evolves_probe_def)
      fix e t assume t: "evolves_probe clk s t \<and> pb_streaming_started t = pb_streaming_started s"
      then have "list_all client_inv (pb_clients t)" by (simp add: evolves_probe_def)
      from wp_probe_event [OF h this]
      show "wp (probe_event h e) (\<lambda>_ t. evolves_probe clk s t \<and> pb_streaming_started t = pb_streaming_started s) any t"
        by (rule wp_mono) (use t evolves_probe_trans in fastforce)
    qed
    then show ?thesis using r Done by (simp add: wp_simps)
  qed (use r in \<open>simp_all add: wp_simps\<close>)
qed

definition probe_outcome ::
    "('w \<Rightarrow> int) \<Rightarrow> instant \<Rightarrow> ('st, 'w) probe \<Rightarrow> probe_summary option \<Rightarrow> ('st, 'w) probe \<Rightarrow> bool" where
  "probe_outcome clk deadline s r t \<longleftrightarrow> (case r of
       None \<Rightarrow> evolves_probe clk s t \<and> patience clk deadline t < patience clk deadline s
     | Some summary \<Rightarrow> measured s summary t)"

lemma wp_probe_round:
  assumes env: "probe_env os clk" and h: "handlers_ok clk h" and s: "list_all client_inv (pb_clients s)"
  shows "wp (probe_round os h deadline) (probe_outcome clk deadline s) any s"
proof -
  obtain now w where n: "os_now (base_os os) (pb_world s) = (now, w)" by fastforce
  then have now: "now = clk (pb_world s)" "clk (pb_world s) < clk w" using probe_envD(8) [OF env] by blast+
  let ?s = "s\<lparr>pb_world := w\<rparr>" and ?D = "uint (pb_duration s) * 10 ^ 9"
  have D: "0 \<le> ?D" by simp
  have inv: "list_all client_inv (pb_clients ?s)" using s by simp
  let ?late = "pb_streaming_started s = None \<and> deadline \<le> now"
  let ?over = "case pb_streaming_started s of None \<Rightarrow> False | Some since \<Rightarrow> ?D \<le> saturating_duration_since now since"
  let ?rest = "\<lambda>_. bind_p (gets id) (\<lambda>s.
          if pb_streaming_started s = None \<and> list_all (is_streaming h) (pb_clients s)
          then bind_p (pb_op (os_now (base_os os))) (\<lambda>now.
               bind_p (modify (pb_streaming_started_update (\<lambda>_. Some now))) (\<lambda>_. ret None))
          else ret None)"
  have go_on: "wp (bind_p (bind_p (pb_op (os_poll (base_os os) (100 * 10 ^ 6))) probe_try) (\<lambda>events.
      bind_p (for_each (take PROBE_EVENTS_CAPACITY events) (probe_event h)) ?rest)) (probe_outcome clk deadline s) any ?s"
    if late: "\<not> ?late" and over: "\<not> ?over"
  proof -
    have less: "patience clk deadline t < patience clk deadline s"
      if t: "evolves_probe clk ?s t" "pb_streaming_started t = pb_streaming_started s" for t
      using t now D late over by (auto simp: patience_def evolves_probe_def saturating_duration_since_def split: option.splits)
    have "wp (?rest x) (probe_outcome clk deadline s) any t"
      if t: "evolves_probe clk ?s t \<and> pb_streaming_started t = pb_streaming_started s" for x t
    proof -
      have ev: "evolves_probe clk s t" using t now by (auto simp: evolves_probe_def)
      obtain now2 w2 where n2: "os_now (base_os os) (pb_world t) = (now2, w2)" by fastforce
      then have now2: "now2 = clk (pb_world t)" "clk (pb_world t) < clk w2" using probe_envD(8) [OF env] by blast+
      have start: "probe_outcome clk deadline s None (t\<lparr>pb_world := w2, pb_streaming_started := Some now2\<rparr>)"
        if "pb_streaming_started s = None"
        using that ev now2 by (simp add: probe_outcome_def evolves_probe_def patience_def)
      show ?thesis
        using start less [of t] t ev n2 by (auto simp: wp_simps probe_outcome_def)
    qed
    then have "wp (bind_p (bind_p (bind_p (pb_op (os_poll (base_os os) (100 * 10 ^ 6))) probe_try) (\<lambda>events.
        for_each (take PROBE_EVENTS_CAPACITY events) (probe_event h))) ?rest) (probe_outcome clk deadline s) any ?s"
      by (subst wp_bind) (rule wp_mono [OF wp_poll_events [OF env h inv]], simp)
    then show ?thesis by (simp only: bind_p_simps)
  qed
  have done_: "wp (bind_p (finish (shortfall_message h) os (the (pb_streaming_started s))) (\<lambda>summary. ret (Some summary)))
      (probe_outcome clk deadline s) any ?s" if over: "?over"
  proof -
    obtain since where since: "pb_streaming_started s = Some since" "?D \<le> saturating_duration_since now since"
      using over by (cases "pb_streaming_started s") auto
    then have "uint (pb_duration ?s) * 10 ^ 9 \<le> saturating_duration_since (clk (pb_world ?s)) since"
      using now by (simp add: saturating_duration_since_def)
    from wp_finish [OF env this] show ?thesis by (simp add: since(1) wp_mono probe_outcome_def measured_def)
  qed
  have "probe_round os h deadline s =
      (if ?late then raise (ProbeError (timeout_message h))
       else if ?over then bind_p (finish (shortfall_message h) os (the (pb_streaming_started s))) (\<lambda>summary. ret (Some summary))
       else bind_p (bind_p (pb_op (os_poll (base_os os) (100 * 10 ^ 6))) probe_try) (\<lambda>events.
          bind_p (for_each (take PROBE_EVENTS_CAPACITY events) (probe_event h)) ?rest)) ?s"
    unfolding probe_round_def bind_pb_op n prod.case bind_gets_eq id_apply by (simp cong: option.case_cong)
  then show ?thesis
    by (rule wp_eqI) (use go_on done_ in \<open>auto simp del: wp_bind\<close>)
qed

theorem wp_run_clients:
  assumes env: "probe_env os clk" and h: "handlers_ok clk h" and s: "list_all client_inv (pb_clients s)"
  shows "wp (run_clients os h) (measured s) any s"
proof -
  obtain now w where n: "os_now (base_os os) (pb_world s) = (now, w)" by fastforce
  then have "clk (pb_world s) < clk w" using probe_envD(8) [OF env] by blast
  let ?s = "s\<lparr>pb_world := w\<rparr>" and ?deadline = "now + HANDSHAKE_TIMEOUT"
  have "wp (loop_p (probe_round os h ?deadline)) (measured s) any ?s"
  proof (rule wp_loop [where I = "evolves_probe clk ?s" and m = "patience clk ?deadline"])
    show "evolves_probe clk ?s ?s" using s by (simp add: evolves_probe_def)
    fix t assume t: "evolves_probe clk ?s t"
    then have "list_all client_inv (pb_clients t)" by (simp add: evolves_probe_def)
    from wp_probe_round [OF env h this]
    show "wp (probe_round os h ?deadline)
        (\<lambda>r u. case r of None \<Rightarrow> evolves_probe clk ?s u \<and> patience clk ?deadline u < patience clk ?deadline t
          | Some summary \<Rightarrow> measured s summary u) any t"
    proof (rule wp_mono)
      fix r u assume "probe_outcome clk ?deadline t r u"
      then show "case r of None \<Rightarrow> evolves_probe clk ?s u \<and> patience clk ?deadline u < patience clk ?deadline t
          | Some summary \<Rightarrow> measured s summary u"
        using t evolves_probe_trans [OF t] by (auto simp: probe_outcome_def measured_def evolves_probe_def split: option.splits)
    qed
  qed
  then show ?thesis using n by (simp add: run_clients_def wp_simps)
qed

lemma probe_handlers_ok:
  assumes "probe_env os clk"
  shows "handlers_ok clk \<lparr>on_writable = write_ready os, on_readable = read_ready os, is_streaming = i, timeout_message = a, shortfall_message = b\<rparr>"
    "handlers_ok clk \<lparr>on_writable = write_ready_v2 os, on_readable = read_ready_v2 os, is_streaming = i2, timeout_message = a, shortfall_message = b\<rparr>"
  by (auto simp: handlers_ok_def intro: wp_read_ready [OF assms] wp_read_ready_v2 [OF assms] preserves_moves
      wp_mono [OF preserves_write_ready [OF assms]] wp_mono [OF preserves_write_ready_v2 [OF assms]])

section \<open>Connecting\<close>

lemma wp_sys_probe [wp_simps]: "wp (sys_probe f) Q E = (\<lambda>w. case f w of (x, w') \<Rightarrow> Q x w')"
  by (simp add: wp_def sys_probe_def fun_eq_iff split: prod.splits)

lemma new_client_inv: "rate \<noteq> 0 \<Longrightarrow> client_inv (new_probe_client st stream i rate)"
  by (simp add: client_inv_def new_probe_client_def)

lemma wp_connect_clients:
  assumes "pa_data_rate_hz args \<noteq> 0"
  shows "wp (connect_clients os st args is) (\<lambda>cs _. list_all client_inv cs \<and> length cs = length is) any w"
proof (induction "is" arbitrary: w)
  case (Cons i "is" w)
  have rest: "wp (connect_clients os st args is) (\<lambda>cs. wp (ret (new_probe_client st stream j (pa_data_rate_hz args) # cs))
      (\<lambda>cs _. list_all client_inv cs \<and> length cs = length (i # is)) any) any v" for v stream j
    by (rule wp_mono [OF Cons.IH]) (simp add: new_client_inv assms)
  show ?case
    using rest unfolding any_fun
    by (auto simp: resolve_def wp_simps split: prod.splits io.splits list.splits)
qed simp

lemma wp_connect_probe:
  assumes "pa_data_rate_hz args \<noteq> 0"
  shows "wp (connect_probe os st args) (\<lambda>p _. list_all client_inv (pb_clients p) \<and> length (pb_clients p) = pa_count args
      \<and> pb_duration p = pa_duration args \<and> pb_data_rate_hz p = pa_data_rate_hz args) any w"
proof -
  have "wp (connect_clients os st args [0..<pa_count args]) (\<lambda>cs v. list_all client_inv cs \<and> length cs = pa_count args) any v" for v
    by (rule wp_mono [OF wp_connect_clients [OF assms]]) simp
  then show ?thesis by (auto simp: connect_probe_def wp_simps split: prod.splits io.splits)
qed

end
