(* ===== verification/Probe_Decode.thy ===== *)
theory Probe_Decode
  imports Probe Emission_Inv Management_Names
begin

text \<open>
  The probe's decoders against the simulator's encoders.  \<open>rest_at body off rest\<close> says that a reader at
  offset \<open>off\<close> has \<open>rest\<close> before it; one rule per reader consumes the encoding of one field.
\<close>

section \<open>Readers\<close>

definition rest_at :: "bytes \<Rightarrow> bytes \<Rightarrow> nat \<Rightarrow> bool" where
  "rest_at body rest off \<longleftrightarrow> drop off body = rest \<and> off + length rest = length body \<and> length body < 2 ^ 64"

lemma rest_at_start: "length body < 2 ^ 64 \<Longrightarrow> rest_at body body 0"
  by (simp add: rest_at_def)

lemma rest_at_end: "rest_at body [] off \<Longrightarrow> off = length body"
  by (simp add: rest_at_def)

lemma rest_at_append: "rest_at body (bs @ rest) off \<Longrightarrow> rest_at body rest (off + length bs)"
  by (auto simp: rest_at_def drop_drop [symmetric] add.commute [of off])

lemma step_bytes:
  assumes r: "rest_at body (bs @ rest) off" and n: "length bs = n"
    and "\<And>off'. rest_at body rest off' \<Longrightarrow> wp (g bs) Q E off'"
  shows "wp (bind_p (take_bytes body n) g) Q E off"
proof -
  have "take_bytes body n off = Ok (bs, off + n)"
    using r n by (auto simp: take_bytes_def rest_at_def)
  then show ?thesis
    using assms(3) [OF rest_at_append [OF r]] n by (simp add: wp_def bind_p_def)
qed

lemma bind_take_u16: "bind_p (take_u16 body) g = bind_p (take_bytes body 2) (\<lambda>bs. g (u16_from_be (bs ! 0) (bs ! 1)))"
  and bind_take_i16: "bind_p (take_i16 body) g = bind_p (take_bytes body 2) (\<lambda>bs. g (u16_from_be (bs ! 0) (bs ! 1)))"
  and bind_take_u32: "bind_p (take_u32 body) h =
      bind_p (take_bytes body 4) (\<lambda>bs. h (u32_from_be (bs ! 0) (bs ! 1) (bs ! 2) (bs ! 3)))"
  by (simp_all add: take_u16_def take_i16_def take_u32_def)

lemma step_u16:
  assumes "rest_at body (u16_to_be x @ rest) off" "\<And>off'. rest_at body rest off' \<Longrightarrow> wp (g x) Q E off'"
  shows "wp (bind_p (take_u16 body) g) Q E off" "wp (bind_p (take_i16 body) g) Q E off"
  unfolding bind_take_u16 bind_take_i16
  by (rule step_bytes [OF assms(1)]; use assms(2) in \<open>simp add: u16_to_be_def\<close>)+

lemma step_u32:
  assumes "rest_at body (u32_to_be x @ rest) off" "\<And>off'. rest_at body rest off' \<Longrightarrow> wp (g x) Q E off'"
  shows "wp (bind_p (take_u32 body) g) Q E off"
  unfolding bind_take_u32
  by (rule step_bytes [OF assms(1)]; use assms(2) in \<open>simp add: u32_to_be_def numeral_3_eq_3\<close>)

lemma step_refuse:
  assumes "\<not> bad" "wp (g ()) Q E off"
  shows "wp (bind_p (refuse_if bad message) g) Q E off"
  using assms by (simp add: refuse_if_def)

lemma step_time_base:
  assumes "0 < unat tb" "unat tb < 2 ^ 24" "unat tb mod unat rate = 0" "rate \<noteq> 0" "wp (g ()) Q E off"
  shows "wp (bind_p (check_time_base tb rate message) g) Q E off"
proof -
  have "drop_bit 24 tb = 0" using assms(2) by (simp add: word_unat_eq_iff drop_bit_eq_div unat_div)
  moreover have "unat (ucast rate :: u32) = unat rate"
    using unsigned_less [of rate, where 'a = nat] by (simp add: unsigned_ucast_eq take_bit_nat_eq_self)
  then have "tb mod ucast rate = 0" using assms(3) by (simp add: word_unat_eq_iff unat_mod)
  moreover have "tb \<noteq> 0" using assms(1) by auto
  ultimately show ?thesis using assms(4,5) by (simp add: check_time_base_def refuse_if_def)
qed

text \<open>A name is its length and its text.\<close>

definition text_name :: "bytes \<Rightarrow> bool" where
  "text_name bs \<longleftrightarrow> bs \<noteq> [] \<and> unat (hd bs) = length (tl bs) \<and> from_utf8 (tl bs) \<noteq> None"

lemma step_name:
  assumes r: "rest_at body (bs @ rest) off" and n: "text_name bs"
    and "\<And>name off'. rest_at body rest off' \<Longrightarrow> wp (g name) Q E off'"
  shows "wp (bind_p (take_name body) g) Q E off"
proof -
  obtain b t where bs: "bs = b # t" "unat b = length t" using n by (cases bs) (auto simp: text_name_def)
  obtain s where s: "from_utf8 t = Some s" using n by (auto simp: bs text_name_def)
  have r': "rest_at body ([b] @ t @ rest) off" using r by (simp add: bs)
  have "wp (bind_p (take_bytes body 1) (\<lambda>bs. bind_p (expect (case bs of [] \<Rightarrow> None | b # _ \<Rightarrow> Some (unat b))) (\<lambda>n.
      bind_p (take_bytes body n) (\<lambda>name. bind_p (lift_ok (ok_or (from_utf8 name) (ProbeError ''configuration name is not UTF-8''))) g)))) Q E off"
  proof (rule step_bytes [OF r'])
    fix o1 assume r1: "rest_at body (t @ rest) o1"
    show "wp (bind_p (expect (case [b] of [] \<Rightarrow> None | b # _ \<Rightarrow> Some (unat b))) (\<lambda>n.
      bind_p (take_bytes body n) (\<lambda>name. bind_p (lift_ok (ok_or (from_utf8 name) (ProbeError ''configuration name is not UTF-8''))) g))) Q E o1"
      unfolding list.case expect_simps bind_p_simps
      by (rule step_bytes [OF r1]) (simp_all add: bs s assms(3) del: wp_bind)
  qed simp
  then show ?thesis unfolding take_name_def by (simp del: wp_bind)
qed

lemma step_repeat:
  assumes "rest_at body (concat (map enc xs) @ rest) off" "n = length xs"
    and item: "\<And>x rest off. x \<in> set xs \<Longrightarrow> rest_at body (enc x @ rest) off \<Longrightarrow> wp item (\<lambda>_. rest_at body rest) E off"
    and "\<And>off'. rest_at body rest off' \<Longrightarrow> wp (g ()) Q E off'"
  shows "wp (bind_p (repeat_p n item) g) Q E off"
proof -
  have "wp (repeat_p (length xs) item) (\<lambda>_. rest_at body rest) E off"
    using assms(1) item
  proof (induction xs arbitrary: off)
    case (Cons x xs)
    have "wp item (\<lambda>_. rest_at body (concat (map enc xs) @ rest)) E off"
      using Cons.prems(1) by (intro Cons.prems(2) [of x]) simp_all
    then have "wp item (\<lambda>_. wp (repeat_p (length xs) item) (\<lambda>_. rest_at body rest) E) E off"
    proof (rule wp_mono)
      fix t assume t: "rest_at body (concat (map enc xs) @ rest) t"
      show "wp (repeat_p (length xs) item) (\<lambda>_. rest_at body rest) E t"
        by (rule Cons.IH [OF t]) (rule Cons.prems(2), auto)
    qed
    then show ?case by simp
  qed simp
  then show ?thesis unfolding wp_bind assms(2)
    by (rule wp_mono) (use assms(4) in simp)
qed

section \<open>Configuration bodies\<close>

lemma identifier_wf_range: "identifier_wf i \<Longrightarrow> \<not> (i = 0 \<or> i = - 1)"
  by (auto simp: identifier_wf_def unsigned_minus_1_eq_mask mask_eq_exp_minus_1)

theorem configuration_v3_read:
  assumes wf: "endpoint_wf d" "ep_wire_version d = V3"
    and names: "text_name (ep_pdc_name d)" "text_name (ep_pmu_name d)" "list_all text_name (ep_channel_names d)"
  shows "wp (decode_configuration (configuration_body_v3 d) 50)
      (\<lambda>c _. c = \<lparr>cs_time_base = ep_time_base d, cs_pmu_id = ep_pmu_id d, cs_data_rate_hz = 50\<rparr>) (\<lambda>_. False) 0"
proof -
  let ?body = "configuration_body_v3 d"
  let ?scaling = "\<lambda>channel. [0, 0, phase_type channel (3 \<le> channel), 0]
         @ u32_to_be (if channel < 3 then ep_voltage_scale d else ep_current_scale d) @ u32_to_be (f32_lit 0) @ u32_to_be (ep_voltage_class d)"
  have rate: "ep_data_rate_hz d = 50" and tb: "0 < unat (ep_time_base d)" "unat (ep_time_base d) < 2 ^ 24" "unat (ep_time_base d) mod 50 = 0"
    and id: "identifier_wf (ep_pmu_id d)" and version: "ep_protocol_version d = protocol_version V3"
    and v3: "v3_names_wf d" using wf by (simp_all add: endpoint_wf_def)
  have channels: "length (ep_channel_names d) = 8" and uuid: "length (ep_global_pmu_id d) = 16"
    using v3 by (simp_all add: v3_names_wf_def uuid_v4_shaped_def)
  have "length ?body < 2 ^ 64" using length_configuration_body_v3 endpoint_wf_v3 wf by fastforce
  have eq: "?body = u16_to_be 0 @ u32_to_be (ep_time_base d) @ ep_pdc_name d @ u16_to_be 1 @ ep_pmu_name d
       @ u16_to_be (ep_pmu_id d) @ u16_to_be 3 @ ep_global_pmu_id d @ u16_to_be 1 @ u16_to_be 6 @ u16_to_be 0 @ u16_to_be 1
       @ u16_to_be 1 @ u16_to_be 0 @ concat (map (\<lambda>x. x) (ep_channel_names d)) @ concat (map ?scaling [0..<6])
       @ (u32_to_be (f32_lit 0.001) @ u32_to_be (f32_lit 0) @ u32_to_be (f32_lit 0.01) @ u32_to_be (f32_lit 0))
       @ (u32_to_be f32_infinity @ u32_to_be f32_infinity @ u32_to_be f32_infinity)
       @ u16_to_be (pmu_flag (ep_nominal_frequency_hz d)) @ (u32_to_be (- 1) @ u32_to_be (- 1))
       @ u16_to_be 50 @ u16_to_be 0 @ u16_to_be 50 @ u16_to_be 0 @ []"
    by (simp add: configuration_body_v3_def rate version const_defs V3_PROTOCOL_VERSION_def)
  have start: "rest_at ?body \<dots> 0" unfolding eq [symmetric] by (rule rest_at_start) fact
  have scaling: "length (concat (map ?scaling [0..<6])) = 96" by (simp add: upt_rec)
  show ?thesis
    unfolding decode_configuration_def
    apply (rule step_u16, rule start)
    apply (rule step_refuse, simp)
    apply (rule step_u32, assumption)
    apply (rule step_time_base [OF tb(1,2)], use tb(3) in simp, simp)
    apply (rule step_name, assumption, rule names(1))
    apply (rule step_u16, assumption)
    apply (rule step_refuse, simp)
    apply (rule step_name, assumption, rule names(2))
    apply (rule step_u16, assumption)
    apply (rule step_refuse, rule identifier_wf_range [OF id])
    apply (rule step_u16, assumption)
    apply (rule step_refuse, simp add: V3_PROTOCOL_VERSION_def)
    apply (rule step_bytes, assumption, rule uuid)
    apply (rule step_u16, assumption)
    apply (rule step_refuse, simp)
    apply (rule step_u16, assumption)+
    apply (rule step_refuse, simp)
    apply (rule step_repeat, assumption, simp add: channels)
     apply (rule step_name, assumption, use names(3) in \<open>simp add: list_all_iff\<close>, simp)
    apply (rule step_bytes, assumption, subst scaling, simp)
    apply (rule step_bytes, assumption, simp)
    apply (rule step_bytes, assumption, simp)
    apply (rule step_u16, assumption)
    apply (rule step_refuse, simp add: pmu_flag_def)
    apply (rule step_bytes, assumption, simp)
    apply (rule step_u16, assumption)+
    apply (simp add: refuse_if_def rest_at_end)
    done
qed

theorem configuration_v2_read:
  assumes wf: "endpoint_wf d" "ep_wire_version d = V2" and m: "ep_v2 d = Some m"
  shows "wp (decode_configuration_v2 (configuration_body_v2 d m) 50)
      (\<lambda>c _. c = \<lparr>cs_time_base = ep_time_base d, cs_pmu_id = ep_pmu_id d, cs_data_rate_hz = 50\<rparr>) (\<lambda>_. False) 0"
proof -
  let ?body = "configuration_body_v2 d m" and ?fnom = "if ep_nominal_frequency_hz d = 50 then 1 else 0 :: u16"
  have rate: "ep_data_rate_hz d = 50" and tb: "0 < unat (ep_time_base d)" "unat (ep_time_base d) < 2 ^ 24" "unat (ep_time_base d) mod 50 = 0"
    and id: "identifier_wf (ep_pmu_id d)" and m_wf: "v2_metadata_wf m" using wf m by (simp_all add: endpoint_wf_def)
  have name: "length (station_name m) = 16" "list_all is_printable_ascii (station_name m)"
    and channels: "length (v2_channel_names m) = 6" "list_all fixed_name_wf (v2_channel_names m)"
    and units: "length (phunits m) = 6" "list_all phunit_wf (phunits m)"
    using m_wf by (simp_all add: v2_metadata_wf_def fixed_name_wf_def const_defs)
  have "length ?body < 2 ^ 64" using length_configuration_body_v2 [OF m_wf] by simp
  have eq: "?body = u32_to_be (ep_time_base d) @ u16_to_be 1 @ station_name m @ u16_to_be (ep_pmu_id d) @ u16_to_be 1
      @ u16_to_be 6 @ u16_to_be 0 @ u16_to_be 0 @ concat (map (\<lambda>x. x) (v2_channel_names m)) @ concat (map u32_to_be (phunits m))
      @ u16_to_be ?fnom @ u16_to_be 0 @ u16_to_be 50 @ []"
    by (simp add: configuration_body_v2_def rate const_defs)
  have start: "rest_at ?body \<dots> 0" unfolding eq [symmetric] by (rule rest_at_start) fact
  show ?thesis
    unfolding decode_configuration_v2_def
    apply (rule step_u32, rule start)
    apply (rule step_time_base [OF tb(1,2)], use tb(3) in simp, simp)
    apply (rule step_u16, assumption)
    apply (rule step_refuse, simp)
    apply (rule step_bytes, assumption, rule name(1))
    apply (rule step_refuse, use name(2) in simp)
    apply (rule step_u16, assumption)
    apply (rule step_refuse, rule identifier_wf_range [OF id])
    apply (rule step_u16, assumption)
    apply (rule step_refuse, simp)
    apply (rule step_u16, assumption)+
    apply (rule step_refuse, simp)
    apply (rule step_repeat, assumption, simp add: channels)
     apply (rule step_bytes, assumption)
      apply (use channels(2) in \<open>simp add: list_all_iff fixed_name_wf_def const_defs\<close>)
     apply (use channels(2) in \<open>simp add: list_all_iff fixed_name_wf_def refuse_if_def\<close>)
    apply (rule step_repeat, assumption, simp add: units)
     apply (rule step_u32, assumption)
     apply (use units(2) in \<open>simp add: list_all_iff phunit_wf_def refuse_if_def linorder_not_less\<close>)
    apply (rule step_u16, assumption)
    apply (rule step_refuse, simp)
    apply (rule step_u16, assumption)+
    apply (simp add: refuse_if_def rest_at_end)
    done
qed

section \<open>Frames\<close>

lemma probe_crc: "probe_crc16_ccitt bs = crc16_ccitt bs"
proof -
  have "probe_crc_round = crc_shift" by (intro ext) (simp only: probe_crc_round_def crc_shift_def)
  then have "probe_crc_byte = crc_byte" by (intro ext) (simp only: probe_crc_byte_def crc_byte_def)
  then show ?thesis by (simp add: probe_crc16_ccitt_def crc16_ccitt_def foldl_conv_fold)
qed

lemma frame_size_field:
  assumes "16 + length body \<le> 65535"
  shows "unat (u16_from_be (frame_bytes v q ty i ts body ! 2) (frame_bytes v q ty i ts body ! 3)) = 16 + length body"
  using v2.declared_size_frame [OF assms] by (simp add: declared_size_def)

lemma frame_checksum_field:
  fixes v q ty i ts body
  defines "f \<equiv> frame_bytes v q ty i ts body"
  shows "u16_from_be (f ! (14 + length body)) (f ! (15 + length body)) = crc16_ccitt (take (14 + length body) f)"
proof -
  have l: "length (frame_header v q ty i ts (16 + length body)) = 14" by simp
  show ?thesis by (simp add: f_def frame_bytes_def Let_def nth_append u16_to_be_def)
qed

lemma decode_v3_frame_bytes:
  assumes "16 + length body \<le> 65535" "unat (fracsec ts) < 2 ^ 24"
    and "(push_bit 4 ty OR V3_PROTOCOL_VERSION) AND 0x0f = V3_PROTOCOL_VERSION" "drop_bit 4 (push_bit 4 ty OR V3_PROTOCOL_VERSION) = ty"
  shows "decode_v3_frame (frame_bytes V3_PROTOCOL_VERSION q ty i ts body) =
    Inr \<lparr>df_frame_type = ty, df_stream_id = i, df_timestamp = ts, df_body = body\<rparr>"
  using assms(2-)
  by (simp add: frame_fields frame_size_field [OF assms(1)] frame_checksum_field [simplified] decode_v3_frame_def Let_def probe_crc FRAME_HEADER_BYTES_def FRAME_CHECKSUM_BYTES_def SYNC_BYTE_def)

lemma decode_v2_frame_bytes:
  assumes "16 + length body \<le> 65535" "unat (fracsec ts) < 2 ^ 24"
    and "(push_bit 4 ty OR V2_PROTOCOL_VERSION) AND 0x80 = 0"
    and "(push_bit 4 ty OR V2_PROTOCOL_VERSION) AND 0x0f = V2_PROTOCOL_VERSION" "drop_bit 4 (push_bit 4 ty OR V2_PROTOCOL_VERSION) = ty"
  shows "decode_v2_frame (frame_bytes V2_PROTOCOL_VERSION q ty i ts body) =
    Inr \<lparr>df_frame_type = ty, df_stream_id = i, df_timestamp = ts, df_body = body, df_message_time_quality = q\<rparr>"
  using assms(2-)
  by (simp add: frame_fields frame_size_field [OF assms(1)] frame_checksum_field [simplified] decode_v2_frame_def Let_def probe_crc FRAME_HEADER_BYTES_def FRAME_CHECKSUM_BYTES_def SYNC_BYTE_def)

section \<open>Timestamps\<close>

text \<open>A wall clock whose frames are whole ticks and whose first sample is on a frame boundary.\<close>

definition sampling :: "wall_clock \<Rightarrow> u16 \<Rightarrow> bool" where
  "sampling wc rate \<longleftrightarrow> (let T = uint (wc_time_base wc); F = uint (ticks_per_frame wc) in
     0 < F \<and> 0 < uint rate \<and> F * uint rate = T \<and> T < 2 ^ 24 \<and> ticks_of (wc_time_base wc) (first_timestamp wc) mod F = 0
     \<and> uint (fracsec (first_timestamp wc)) < T)"

definition sample_in_range :: "wall_clock \<Rightarrow> u64 \<Rightarrow> bool" where
  "sample_in_range wc i \<longleftrightarrow> uint i * uint (ticks_per_frame wc) < 2 ^ 63
     \<and> uint (soc (first_timestamp wc))
         + (uint (fracsec (first_timestamp wc)) + uint i * uint (ticks_per_frame wc)) div uint (wc_time_base wc) < 2 ^ 32"

lemma aligned_sampling:
  assumes "aligned_start system_now inst rate tb = Inr (clock, start)"
    and "rate_divides rate tb" "uint tb < 2 ^ 24" "system_now < 2 ^ 32 * 1000000000"
  shows "sampling clock rate" "wc_time_base clock = tb"
proof -
  show tb: "wc_time_base clock = tb" using assms(1) by (auto simp: aligned_start_def Let_def)
  have "0 < uint rate" "0 < uint tb" using assms(2) by (simp_all add: rate_divides_def)
  moreover from aligned_first_sample [OF assms] this have "0 < uint (ticks_per_frame clock)"
    by (metis Let_def mult_zero_left order_less_le uint_ge_0)
  ultimately show "sampling clock rate"
    using aligned_first_sample [OF assms] assms(3) by (simp add: sampling_def tb Let_def)
qed

lemma sample_clock:
  assumes wc: "sampling wc rate" and i: "sample_in_range wc i" and c: "cs_time_base c = wc_time_base wc"
  defines "ts \<equiv> timestamp_for_sample wc i" and "F \<equiv> uint (ticks_per_frame wc)"
  shows "uint (fracsec ts) < uint (wc_time_base wc)" "uint (fracsec ts) mod F = 0" "unat (fracsec ts) < 2 ^ 24"
    "uint (probe_ticks ts c) = ticks_of (wc_time_base wc) (first_timestamp wc) + uint i * F"
proof -
  let ?T = "wc_time_base wc"
  have a: "uint ?T < 2 ^ 24" "uint (fracsec (first_timestamp wc)) < uint ?T" "F * uint rate = uint ?T"
    "ticks_of ?T (first_timestamp wc) mod F = 0" using wc by (simp_all add: sampling_def Let_def F_def)
  have s: "ticks_of ?T ts = ticks_of ?T (first_timestamp wc) + uint i * F" and f: "uint (fracsec ts) < uint ?T"
    and "unat (fracsec ts) < 2 ^ 24"
    using sample_ticks [OF a(1,2)] i by (simp_all add: sample_in_range_def ts_def F_def)
  show "uint (fracsec ts) < uint ?T" "unat (fracsec ts) < 2 ^ 24" by fact+
  have "ticks_of ?T ts mod F = 0" unfolding s using a(4) by simp
  moreover have "uint ?T mod F = 0" using a(3) by (metis mod_mult_self1_is_0)
  ultimately show "uint (fracsec ts) mod F = 0"
    by (simp add: ticks_of_def mod_mult_right_eq [symmetric] flip: mod_add_left_eq)
  have "uint (soc ts) * uint ?T < 2 ^ 56"
    by (rule small_product) (use a(1) unsigned_less [of "soc ts", where 'a = int] in simp_all)
  moreover have "uint (fracsec ts) < 2 ^ 24" using f a(1) by linarith
  ultimately have "uint (probe_ticks ts c) = ticks_of ?T ts"
    by (simp add: probe_ticks_def ticks_of_def c uint_word_ariths mod_pos_pos_trivial)
  then show "uint (probe_ticks ts c) = ticks_of ?T (first_timestamp wc) + uint i * F" using s by simp
qed

text \<open>The probe accepts the next sample after the last one, and no other.\<close>

lemma check_samples:
  assumes wc: "sampling wc rate" and i: "sample_in_range wc i" and c: "cs_time_base c = wc_time_base wc" "cs_data_rate_hz c = rate"
  shows "check_timestamps (timestamp_for_sample wc i) c None unaligned skipped = ret ()"
    and "sample_in_range wc j \<Longrightarrow> check_timestamps (timestamp_for_sample wc i) c (Some (timestamp_for_sample wc j)) unaligned skipped =
      (if uint i = uint j + 1 then ret () else raise (ProbeError skipped))"
proof -
  let ?ts = "timestamp_for_sample wc" and ?F = "uint (ticks_per_frame wc)" and ?step = "wc_time_base wc div ucast rate"
  have F: "0 < ?F" "0 < uint rate" "?F * uint rate = uint (wc_time_base wc)" using wc by (simp_all add: sampling_def Let_def)
  have step: "uint ?step = ?F" using F(2) by (simp add: uint_div F(3) [symmetric])
  have rate0: "rate \<noteq> 0" using F(2) by auto
  have step0: "?step \<noteq> 0" using step F(1) by auto
  have aligned: "\<not> wc_time_base wc \<le> fracsec (?ts i)" "fracsec (?ts i) mod ?step = 0"
    using sample_clock(1,2) [OF wc i c(1)] by (simp_all add: word_less_alt word_le_def word_uint_eq_iff uint_mod step)
  have "check_timestamps (?ts i) c prev unaligned skipped = (case prev of None \<Rightarrow> ret () | Some p \<Rightarrow>
      refuse_if (saturating_sub (probe_ticks (?ts i) c) (probe_ticks p c) \<noteq> ucast ?step) skipped)" for prev
    using aligned rate0 step0 by (simp add: check_timestamps_def reporting_step_def refuse_if_def c split: option.splits)
  note eq = this
  show "check_timestamps (?ts i) c None unaligned skipped = ret ()" by (simp add: eq)
  assume j: "sample_in_range wc j"
  let ?a = "probe_ticks (?ts i) c" and ?b = "probe_ticks (?ts j) c"
  have ab: "uint ?a - uint ?b = (uint i - uint j) * ?F"
    using sample_clock(4) [OF wc i c(1)] sample_clock(4) [OF wc j c(1)] by (simp add: left_diff_distrib)
  have "uint (saturating_sub ?a ?b) = (if uint ?b \<le> uint ?a then uint ?a - uint ?b else 0)"
    by (simp add: saturating_sub_def word_le_def uint_sub_if_size)
  moreover have "uint (ucast ?step :: u64) = ?F" using step by simp
  ultimately have "saturating_sub ?a ?b = ucast ?step \<longleftrightarrow> (if uint ?b \<le> uint ?a then uint ?a - uint ?b else 0) = ?F"
    by (simp add: word_uint_eq_iff)
  also have "\<dots> \<longleftrightarrow> uint i = uint j + 1"
  proof -
    have "uint ?b \<le> uint ?a" if "uint i = uint j + 1" using ab F(1) that by simp
    then show ?thesis using ab F(1) by auto
  qed
  finally show "check_timestamps (?ts i) c (Some (?ts j)) unaligned skipped =
      (if uint i = uint j + 1 then ret () else raise (ProbeError skipped))"
    by (simp add: eq refuse_if_def)
qed

end
