(* ===== verification/Probe_Run.thy ===== *)
theory Probe_Run
  imports Probe_Inv Probe_Decode Bind_Inv
begin

text \<open>
  The probe's clients fed with the frames of an endpoint of the simulator: the handshake of either version
  ends in the streaming state, and data frames are counted exactly when they are consecutive samples.
\<close>

section \<open>Steps of a client\<close>

lemma wp_run_reader:
  assumes "wp reader (\<lambda>c _. c = x) (\<lambda>_. False) 0"
  shows "wp (run_reader reader) Q E s = Q x s"
  using assms by (auto simp: wp_def run_reader_def ret_def split: res.splits)

text \<open>A stream that takes every write as a whole, has no error and can be registered again.\<close>

definition writes_through :: "'w probe_os \<Rightarrow> bool" where
  "writes_through os \<longleftrightarrow> (\<forall>x bs w. \<exists>w'. os_write (base_os os) x bs w = (Done (length bs), w'))
     \<and> (\<forall>x t i w. \<exists>w'. os_reregister (base_os os) x t i w = (Done (), w'))
     \<and> (\<forall>x w. \<exists>w'. os_take_error os x w = (Done None, w'))"

lemma writes_throughD:
  assumes "writes_through os"
  obtains w1 w2 w3 where "os_write (base_os os) x bs w = (Done (length bs), w1)"
    "os_reregister (base_os os) x t i w = (Done (), w2)" "os_take_error os x w = (Done None, w3)"
  using assms unfolding writes_through_def by meson

lemma wp_reregister_client:
  assumes "writes_through os" "\<And>w. Q () (s\<lparr>px_world := w\<rparr>)"
  shows "wp (reregister_client os token i) Q E s"
proof -
  obtain w where "os_reregister (base_os os) (pc_stream (px_client s)) token i (px_world s) = (Done (), w)"
    using writes_throughD [OF assms(1)] by metis
  then show ?thesis using assms(2) by (simp add: reregister_client_def wp_simps)
qed

lemma wp_queue_frame:
  assumes "length f = length (pc_output (px_client s))"
    "Q () (s\<lparr>px_client := (px_client s)\<lparr>pc_output := f, pc_output_length := length f, pc_output_offset := 0, pc_state := st\<rparr>\<rparr>)"
  shows "wp (queue_frame st (Some f) m) Q E s"
  using assms by (simp add: queue_frame_def wp_simps)

lemma command_frames:
  "encode_command_v2 i c2 ts = Some (frame_bytes V2_PROTOCOL_VERSION MESSAGE_TIME_QUALITY_UNKNOWN FRAME_TYPE_COMMAND_V2 i ts (u16_to_be (command_code_v2 c2)))"
  "encode_command_v3 i c3 ts = Some (frame_bytes V3_PROTOCOL_VERSION 0 FRAME_TYPE_COMMAND_V3 i ts (u16_to_be (command_code_v3 c3)))"
  by (simp_all add: encode_command_v2_def encode_command_v3_def v2.encode_eq v3.encode_eq)

text \<open>Where a client is in its handshake: the fields that matter, with a command buffer of the right size.\<close>

definition at_state :: "'st \<Rightarrow> configuration_summary option \<Rightarrow> u16 \<Rightarrow> 'st probe_client \<Rightarrow> bool" where
  "at_state st configuration stream_id c \<longleftrightarrow> pc_state c = st \<and> pc_configuration c = configuration \<and> pc_stream_id c = stream_id
     \<and> pc_data_rate_hz c = 50 \<and> length (pc_output c) = 18 \<and> pc_last_timestamp c = None \<and> pc_data_frames c = 0"

definition sends :: "'st \<Rightarrow> configuration_summary option \<Rightarrow> u16 \<Rightarrow> 'st probe_client \<Rightarrow> bool" where
  "sends st configuration stream_id c \<longleftrightarrow> at_state st configuration stream_id c \<and> pc_output_length c = 18 \<and> pc_output_offset c = 0"

lemma wp_queue_command:
  assumes "at_state st conf i (px_client s)" "\<And>t. sends (Sending command) conf i (px_client t) \<Longrightarrow> Q () t"
  shows "wp (queue_command command) Q E s"
  using assms(1)
  by (simp add: queue_command_def command_frames)
     (rule wp_queue_frame; use assms in \<open>simp add: at_state_def sends_def\<close>)

lemma wp_queue_command_v2:
  assumes "at_state st conf i (px_client s)" "\<And>t. sends (SendingV2 command) conf i (px_client t) \<Longrightarrow> Q () t"
  shows "wp (queue_command_v2 command) Q E s"
  using assms(1)
  by (simp add: queue_command_v2_def command_frames)
     (rule wp_queue_frame; use assms in \<open>simp add: at_state_def sends_def\<close>)

lemma wp_write_output:
  assumes os: "writes_through os" and c: "sends st conf i (px_client s)"
    and "\<And>t. at_state st conf i (px_client t) \<Longrightarrow> wp sent Q E t"
  shows "wp (write_output os sent) Q E s"
proof -
  let ?c = "px_client s"
  obtain w where "os_write (base_os os) (pc_stream ?c) (pc_output ?c) (px_world s) = (Done 18, w)"
    using writes_throughD [OF os, of "pc_stream ?c" "pc_output ?c" "px_world s"] c by (metis sends_def at_state_def)
  then show ?thesis
    using c assms(3) by (simp add: write_output_def wp_simps sends_def at_state_def)
qed

lemma wp_write_pending:
  assumes os: "writes_through os" and c: "sends (Sending command) conf i (px_client s)" and nxt: "awaiting command = Some st"
    and "\<And>t. at_state st conf i (px_client t) \<Longrightarrow> Q () t"
  shows "wp (write_pending os token) Q E s"
proof -
  have "wp (write_output os (bind_p (set_client (\<lambda>c. c\<lparr>pc_state := st\<rparr>)) (\<lambda>_. reregister_client os token READABLE))) Q E s"
    by (rule wp_write_output [OF os c])
       (simp add: wp_simps, rule wp_reregister_client [OF os], use assms(4) in \<open>simp add: at_state_def\<close>)
  then show ?thesis using c nxt by (simp add: write_pending_def sends_def at_state_def)
qed

lemma wp_write_pending_v2:
  assumes os: "writes_through os" and c: "sends (SendingV2 command) conf i (px_client s)" and nxt: "awaiting_v2 command = Some st"
    and "\<And>t. at_state st conf i (px_client t) \<Longrightarrow> Q () t"
  shows "wp (write_pending_v2 os token) Q E s"
proof -
  have "wp (write_output os (bind_p (set_client (\<lambda>c. c\<lparr>pc_state := st\<rparr>)) (\<lambda>_. reregister_client os token READABLE))) Q E s"
    by (rule wp_write_output [OF os c])
       (simp add: wp_simps, rule wp_reregister_client [OF os], use assms(4) in \<open>simp add: at_state_def\<close>)
  then show ?thesis using c nxt by (simp add: write_pending_v2_def sends_def at_state_def)
qed

lemma wp_write_ready:
  assumes "sends (Sending command) conf i (px_client s)" "wp (write_pending os token) Q E s"
  shows "wp (write_ready os token) Q E s"
  using assms by (simp add: write_ready_def sends_def at_state_def)

lemma wp_write_ready_v2:
  assumes "sends (SendingV2 command) conf i (px_client s)" "wp (write_pending_v2 os token) Q E s"
  shows "wp (write_ready_v2 os token) Q E s"
  using assms by (simp add: write_ready_v2_def sends_def at_state_def)

text \<open>The first event of a client: the connection is there, the first command goes out.\<close>

lemma wp_check_connected:
  assumes "writes_through os" "\<And>w. Q () (s\<lparr>px_world := w\<rparr>)"
  shows "wp (check_connected os) Q E s"
proof -
  obtain w where "os_take_error os (pc_stream (px_client s)) (px_world s) = (Done None, w)"
    using writes_throughD [OF assms(1)] by metis
  then show ?thesis using assms(2) by (simp add: check_connected_def wp_simps)
qed

lemma wp_connect:
  assumes os: "writes_through os" and c: "at_state Connecting conf i (px_client s)"
    and "\<And>t. at_state AwaitingCapability conf i (px_client t) \<Longrightarrow> Q () t"
  shows "wp (write_ready os token) Q E s"
proof -
  have "wp (check_connected os) (\<lambda>_. wp (queue_command Capability) (\<lambda>_. wp (write_pending os token) Q E) E) E s"
    by (rule wp_check_connected [OF os], rule wp_queue_command [where st = Connecting and conf = conf and i = i], use c in simp)
       (erule wp_write_pending [OF os], simp, rule assms(3))
  then show ?thesis using c by (simp add: write_ready_def at_state_def)
qed

lemma wp_connect_v2:
  assumes os: "writes_through os" and c: "at_state ConnectingV2 conf i (px_client s)"
    and "\<And>t. at_state AwaitingHeader conf i (px_client t) \<Longrightarrow> Q () t"
  shows "wp (write_ready_v2 os token) Q E s"
proof -
  have "wp (check_connected os) (\<lambda>_. wp (queue_command_v2 HeaderV2) (\<lambda>_. wp (write_pending_v2 os token) Q E) E) E s"
    by (rule wp_check_connected [OF os], rule wp_queue_command_v2 [where st = ConnectingV2 and conf = conf and i = i], use c in simp)
       (erule wp_write_pending_v2 [OF os], simp, rule assms(3))
  then show ?thesis using c by (simp add: write_ready_v2_def at_state_def)
qed

section \<open>The handshake\<close>

text \<open>A frame arrives and the next command goes out.\<close>

definition exchange :: "'w probe_os \<Rightarrow> u64 \<Rightarrow> bytes \<Rightarrow> (client_state, 'w, unit) client_action" where
  "exchange os token frame = bind_p (receive_frame os token frame) (\<lambda>_. write_ready os token)"

definition exchange_v2 :: "'w probe_os \<Rightarrow> u64 \<Rightarrow> bytes \<Rightarrow> (client_state_v2, 'w, unit) client_action" where
  "exchange_v2 os token frame = bind_p (receive_frame_v2 os token frame) (\<lambda>_. write_ready_v2 os token)"

lemma wp_request_and_write:
  assumes os: "writes_through os" and c: "sends (Sending command) conf i (px_client s)" and nxt: "awaiting command = Some st"
    and Q: "\<And>t. at_state st conf i (px_client t) \<Longrightarrow> Q () t"
  shows "wp (request_writable os token (is_sending (pc_state (px_client s)))) (\<lambda>_. wp (write_ready os token) Q E) E s"
proof -
  have "wp (reregister_client os token READABLE_WRITABLE) (\<lambda>_. wp (write_ready os token) Q E) E s"
    by (rule wp_reregister_client [OF os], rule wp_write_ready, use c in simp)
       (rule wp_write_pending [OF os _ nxt], use c in simp, rule Q)
  then show ?thesis using c by (simp add: request_writable_def sends_def at_state_def)
qed

lemma wp_request_and_write_v2:
  assumes os: "writes_through os" and c: "sends (SendingV2 command) conf i (px_client s)" and nxt: "awaiting_v2 command = Some st"
    and Q: "\<And>t. at_state st conf i (px_client t) \<Longrightarrow> Q () t"
  shows "wp (request_writable os token (is_sending_v2 (pc_state (px_client s)))) (\<lambda>_. wp (write_ready_v2 os token) Q E) E s"
proof -
  have "wp (reregister_client os token READABLE_WRITABLE) (\<lambda>_. wp (write_ready_v2 os token) Q E) E s"
    by (rule wp_reregister_client [OF os], rule wp_write_ready_v2, use c in simp)
       (rule wp_write_pending_v2 [OF os _ nxt], use c in simp, rule Q)
  then show ?thesis using c by (simp add: request_writable_def sends_def at_state_def)
qed

lemma at_state_set: "at_state st conf i c \<Longrightarrow> at_state st conf' i (c\<lparr>pc_configuration := conf'\<rparr>)"
  by (simp add: at_state_def)

lemma frame_types_v2:
  "t \<in> {FRAME_TYPE_PERIODIC_DATA_V2, FRAME_TYPE_HEADER_V2, FRAME_TYPE_CONFIGURATION_1_V2, FRAME_TYPE_CONFIGURATION_2_V2} \<Longrightarrow>
     (push_bit 4 t OR V2_PROTOCOL_VERSION) AND 0x80 = 0
   \<and> (push_bit 4 t OR V2_PROTOCOL_VERSION) AND 0x0f = V2_PROTOCOL_VERSION \<and> drop_bit 4 (push_bit 4 t OR V2_PROTOCOL_VERSION) = t"
  by (auto simp: FRAME_TYPE_PERIODIC_DATA_V2_def FRAME_TYPE_HEADER_V2_def FRAME_TYPE_CONFIGURATION_1_V2_def
      FRAME_TYPE_CONFIGURATION_2_V2_def V2_PROTOCOL_VERSION_def)

lemma frame_types_v3:
  "t \<in> {FRAME_TYPE_PERIODIC_DATA_V3, FRAME_TYPE_CAPABILITY, FRAME_TYPE_STREAM_CONFIGURATION} \<Longrightarrow>
     (push_bit 4 t OR V3_PROTOCOL_VERSION) AND 0x0f = V3_PROTOCOL_VERSION \<and> drop_bit 4 (push_bit 4 t OR V3_PROTOCOL_VERSION) = t"
  by (auto simp: FRAME_TYPE_PERIODIC_DATA_V3_def FRAME_TYPE_CAPABILITY_def FRAME_TYPE_STREAM_CONFIGURATION_def V3_PROTOCOL_VERSION_def)

text \<open>Receiving a frame of the endpoint is handling it.\<close>

lemma wp_receive_v2:
  assumes "t \<in> {FRAME_TYPE_PERIODIC_DATA_V2, FRAME_TYPE_HEADER_V2, FRAME_TYPE_CONFIGURATION_1_V2, FRAME_TYPE_CONFIGURATION_2_V2}"
    and "16 + length body \<le> 65535" "unat (fracsec ts) < 2 ^ 24" "pc_stream_id (px_client s) = i"
  shows "wp (receive_frame_v2 os token (frame_bytes V2_PROTOCOL_VERSION q t i ts body)) Q E s =
    wp (handle_frame_v2 os token \<lparr>df_frame_type = t, df_stream_id = i, df_timestamp = ts, df_body = body,
      df_message_time_quality = q\<rparr>) Q E s"
  using decode_v2_frame_bytes [OF assms(2,3), of t q i] frame_types_v2 [OF assms(1)] assms(4)
  by (simp add: receive_frame_v2_def validate_frame_identity_v2_def)

lemma wp_receive_v3:
  assumes "t \<in> {FRAME_TYPE_PERIODIC_DATA_V3, FRAME_TYPE_CAPABILITY, FRAME_TYPE_STREAM_CONFIGURATION}"
    and "16 + length body \<le> 65535" "unat (fracsec ts) < 2 ^ 24" "pc_stream_id (px_client s) = i"
  shows "wp (receive_frame os token (frame_bytes V3_PROTOCOL_VERSION q t i ts body)) Q E s =
    wp (handle_frame os token \<lparr>df_frame_type = t, df_stream_id = i, df_timestamp = ts, df_body = body\<rparr>) Q E s"
  using decode_v3_frame_bytes [OF assms(2,3), of t q i] frame_types_v3 [OF assms(1)] assms(4)
  by (simp add: receive_frame_def validate_frame_identity_def)

text \<open>The three exchanges of version 2.\<close>

lemma wp_header_exchange:
  assumes os: "writes_through os" and c: "at_state AwaitingHeader None i (px_client s)"
    and body: "16 + length body \<le> 65535" "unat (fracsec ts) < 2 ^ 24" "body \<noteq> []" "list_all is_printable_ascii body"
    and Q: "\<And>t. at_state AwaitingConfiguration1 None i (px_client t) \<Longrightarrow> Q () t"
  shows "wp (exchange_v2 os token (frame_bytes V2_PROTOCOL_VERSION q FRAME_TYPE_HEADER_V2 i ts body)) Q E s"
proof -
  have st: "pc_state (px_client s) = AwaitingHeader" "pc_stream_id (px_client s) = i" using c by (simp_all add: at_state_def)
  have "wp (queue_command_v2 Configuration1) (\<lambda>_ t. wp (request_writable os token (is_sending_v2 (pc_state (px_client t))))
      (\<lambda>_. wp (write_ready_v2 os token) Q E) E t) E s"
    by (rule wp_queue_command_v2 [OF c], rule wp_request_and_write_v2 [OF os]) (assumption, simp, rule Q)
  then show ?thesis
    using st body by (simp add: exchange_v2_def wp_receive_v2 handle_frame_v2_def decode_header_def refuse_if_def)
qed

lemma wp_configuration_1_exchange:
  assumes os: "writes_through os" and c: "at_state AwaitingConfiguration1 None i (px_client s)"
    and body: "16 + length body \<le> 65535" "unat (fracsec ts) < 2 ^ 24"
      "wp (decode_configuration_v2 body 50) (\<lambda>c _. c = conf) (\<lambda>_. False) 0"
    and Q: "\<And>t. at_state AwaitingConfiguration2 (Some conf) i (px_client t) \<Longrightarrow> Q () t"
  shows "wp (exchange_v2 os token (frame_bytes V2_PROTOCOL_VERSION q FRAME_TYPE_CONFIGURATION_1_V2 i ts body)) Q E s"
proof -
  have st: "pc_state (px_client s) = AwaitingConfiguration1" "pc_stream_id (px_client s) = i" "pc_data_rate_hz (px_client s) = 50"
    using c by (simp_all add: at_state_def)
  let ?s = "s\<lparr>px_client := (px_client s)\<lparr>pc_configuration := Some conf\<rparr>\<rparr>"
  have "wp (queue_command_v2 Configuration2) (\<lambda>_ t. wp (request_writable os token (is_sending_v2 (pc_state (px_client t))))
      (\<lambda>_. wp (write_ready_v2 os token) Q E) E t) E ?s"
    by (rule wp_queue_command_v2 [where st = AwaitingConfiguration1 and conf = "Some conf" and i = i],
        use at_state_set [OF c] in simp, rule wp_request_and_write_v2 [OF os]) (assumption, simp, rule Q)
  then show ?thesis
    using st body by (simp add: exchange_v2_def wp_receive_v2 handle_frame_v2_def wp_run_reader wp_simps)
qed

lemma wp_configuration_2_exchange:
  assumes os: "writes_through os" and c: "at_state AwaitingConfiguration2 (Some conf) i (px_client s)"
    and body: "16 + length body \<le> 65535" "unat (fracsec ts) < 2 ^ 24"
      "wp (decode_configuration_v2 body 50) (\<lambda>c _. c = conf) (\<lambda>_. False) 0"
    and Q: "\<And>t. at_state StreamingV2 (Some conf) i (px_client t) \<Longrightarrow> Q () t"
  shows "wp (exchange_v2 os token (frame_bytes V2_PROTOCOL_VERSION q FRAME_TYPE_CONFIGURATION_2_V2 i ts body)) Q E s"
proof -
  have st: "pc_state (px_client s) = AwaitingConfiguration2" "pc_stream_id (px_client s) = i" "pc_data_rate_hz (px_client s) = 50"
    "pc_configuration (px_client s) = Some conf" using c by (simp_all add: at_state_def)
  have "wp (queue_command_v2 StartV2) (\<lambda>_ t. wp (request_writable os token (is_sending_v2 (pc_state (px_client t))))
      (\<lambda>_. wp (write_ready_v2 os token) Q E) E t) E s"
    by (rule wp_queue_command_v2 [OF c], rule wp_request_and_write_v2 [OF os]) (assumption, simp, rule Q)
  then show ?thesis
    using st body by (simp add: exchange_v2_def wp_receive_v2 handle_frame_v2_def wp_run_reader wp_simps)
qed

text \<open>The two exchanges of version 3.\<close>

lemma wp_capability_exchange:
  assumes os: "writes_through os" and c: "at_state AwaitingCapability None i (px_client s)"
    and body: "16 + length body \<le> 65535" "unat (fracsec ts) < 2 ^ 24"
      "wp (decode_configuration body 50) (\<lambda>c _. c = conf) (\<lambda>_. False) 0"
    and Q: "\<And>t. at_state AwaitingStreamConfiguration (Some conf) i (px_client t) \<Longrightarrow> Q () t"
  shows "wp (exchange os token (frame_bytes V3_PROTOCOL_VERSION q FRAME_TYPE_CAPABILITY i ts body)) Q E s"
proof -
  have st: "pc_state (px_client s) = AwaitingCapability" "pc_stream_id (px_client s) = i" "pc_data_rate_hz (px_client s) = 50"
    using c by (simp_all add: at_state_def)
  let ?s = "s\<lparr>px_client := (px_client s)\<lparr>pc_configuration := Some conf\<rparr>\<rparr>"
  have "wp (queue_command StreamConfiguration) (\<lambda>_ t. wp (request_writable os token (is_sending (pc_state (px_client t))))
      (\<lambda>_. wp (write_ready os token) Q E) E t) E ?s"
    by (rule wp_queue_command [where st = AwaitingCapability and conf = "Some conf" and i = i],
        use at_state_set [OF c] in simp, rule wp_request_and_write [OF os]) (assumption, simp, rule Q)
  then show ?thesis
    using st body by (simp add: exchange_def wp_receive_v3 handle_frame_def wp_run_reader wp_simps)
qed

lemma wp_stream_configuration_exchange:
  assumes os: "writes_through os" and c: "at_state AwaitingStreamConfiguration (Some conf) i (px_client s)"
    and body: "16 + length body \<le> 65535" "unat (fracsec ts) < 2 ^ 24"
      "wp (decode_configuration body 50) (\<lambda>c _. c = conf) (\<lambda>_. False) 0"
    and Q: "\<And>t. at_state Streaming (Some conf) i (px_client t) \<Longrightarrow> Q () t"
  shows "wp (exchange os token (frame_bytes V3_PROTOCOL_VERSION q FRAME_TYPE_STREAM_CONFIGURATION i ts body)) Q E s"
proof -
  have st: "pc_state (px_client s) = AwaitingStreamConfiguration" "pc_stream_id (px_client s) = i" "pc_data_rate_hz (px_client s) = 50"
    "pc_configuration (px_client s) = Some conf" using c by (simp_all add: at_state_def)
  have "wp (queue_command StartV3) (\<lambda>_ t. wp (request_writable os token (is_sending (pc_state (px_client t))))
      (\<lambda>_. wp (write_ready os token) Q E) E t) E s"
    by (rule wp_queue_command [OF c], rule wp_request_and_write [OF os]) (assumption, simp, rule Q)
  then show ?thesis
    using st body by (simp add: exchange_def wp_receive_v3 handle_frame_def wp_run_reader wp_simps)
qed

section \<open>The frames of an endpoint\<close>

lemma static_frames_v2:
  assumes wf: "endpoint_wf d" and m: "ep_v2 d = Some m" and f: "endpoint_frames_for d ts = Some (FramesV2 h c1 c2, data)"
  defines "frame \<equiv> \<lambda>ty body. frame_bytes V2_PROTOCOL_VERSION MESSAGE_TIME_QUALITY_UNKNOWN ty (ep_stream_id d) ts body"
  shows "h = frame FRAME_TYPE_HEADER_V2 (station_name m)" "c1 = frame FRAME_TYPE_CONFIGURATION_1_V2 (configuration_body_v2 d m)"
    "c2 = frame FRAME_TYPE_CONFIGURATION_2_V2 (configuration_body_v2 d m)"
  using f m
  by (auto simp: frame_def endpoint_frames_for_def encode_header_v2_def encode_configuration_1_def encode_configuration_2_def
      encode_configuration_v2_def v2.encode_eq Option.bind_eq_Some_conv split: wire_version.splits option.splits if_splits)

lemma static_frames_v3:
  assumes f: "endpoint_frames_for d ts = Some (FramesV3 c s, data)"
  defines "frame \<equiv> \<lambda>ty. frame_bytes V3_PROTOCOL_VERSION 0 ty (ep_stream_id d) ts (configuration_body_v3 d)"
  shows "c = frame FRAME_TYPE_CAPABILITY" "s = frame FRAME_TYPE_STREAM_CONFIGURATION"
  using f
  by (auto simp: frame_def endpoint_frames_for_def encode_capability_def encode_stream_configuration_def
      encode_configuration_v3_def v3.encode_eq Option.bind_eq_Some_conv split: wire_version.splits option.splits if_splits)

lemma frames_version: "endpoint_frames_for d ts = Some (FramesV2 h c1 c2, data) \<Longrightarrow> ep_wire_version d = V2"
  "endpoint_frames_for d ts = Some (FramesV3 c s, data) \<Longrightarrow> ep_wire_version d = V3"
  by (auto simp: endpoint_frames_for_def Option.bind_eq_Some_conv split: wire_version.splits)

text \<open>The names of a compiled profile are text.\<close>

lemma encoded_text_name: "encoded_name name fld = Inr bs \<Longrightarrow> is_utf8 name \<Longrightarrow> text_name bs"
  by (auto simp: encoded_name_def text_name_def from_utf8_bytes unsigned_of_nat take_bit_nat_eq_self split: if_splits)

lemma channel_names_text: "standard_channel_names = Inr names \<Longrightarrow> list_all text_name names"
proof -
  have "list_all text_name (map (\<lambda>s. of_nat (length s) # str_bytes s)
     [''VL1'', ''VL2'', ''VL3'', ''IL1'', ''IL2'', ''IL3'', ''FREQ'', ''ROCOF''])" by code_simp
  then show "standard_channel_names = Inr names \<Longrightarrow> list_all text_name names" by (simp add: standard_channel_names_eq)
qed

lemma compiled_text_names:
  assumes cp: "compile_profile p = Some (Inr cp)" and d: "d \<in> set (cp_endpoints cp)" and v: "ep_wire_version d = V3"
    and utf8: "is_utf8 (fl_pdc_name (pr_fleet p))" "is_utf8 (pmu_name_prefix (pr_fleet p))"
  shows "text_name (ep_pdc_name d)" "text_name (ep_pmu_name d)" "list_all text_name (ep_channel_names d)"
proof -
  obtain i where i: "i < length (cp_endpoints cp)" "d = cp_endpoints cp ! i" using d by (auto simp: in_set_conv_nth)
  obtain wv pdc names v2_names v2_units
    where pre: "compile_prefix p = Inr (wv, pdc, names, v2_names, v2_units)"
      and ep: "compile_endpoint p wv pdc names v2_names v2_units i = Some (Inr d)"
    using cp i by (elim compile_profile_Inr) (metis)
  note n = compile_endpoint_names [OF ep]
  have digits: "is_utf8 (pmu_name_prefix (pr_fleet p) @ show_nat_03 (i + 1))"
    by (rule is_utf8_append_ascii [OF utf8(2) digit_string(1) [OF show_nat_03_digits]])
  show "text_name (ep_pdc_name d)" using encoded_text_name [OF compile_prefix_pdc [OF pre] utf8(1)] n(1) by simp
  show "text_name (ep_pmu_name d)" using encoded_text_name [OF n(3) digits] n(2) v by simp
  have "standard_channel_names = Inr names" using pre n(2) v by (auto simp: compile_prefix_def Let_def)
  moreover have "ep_channel_names d = names"
    using ep by (auto simp: compile_endpoint_def Let_def split: sum.splits wire_version.splits option.splits prod.splits)
  ultimately show "list_all text_name (ep_channel_names d)" using channel_names_text by simp
qed

end
