(* ===== verification/Probe_Args.thy ===== *)
theory Probe_Args
  imports Probe_Client
begin

text \<open>
  The probe's command line (\<^verbatim>\<open>src/bin/c37-118-probe.rs\<close>): the protocol version is taken out first, then the
  remaining flags are read and checked.
\<close>

section \<open>Integers\<close>

text \<open>\<^verbatim>\<open>str::parse\<close> for unsigned integers: an optional plus sign, then one or more digits, without overflow.\<close>

fun parse_digits :: "'a::len word \<Rightarrow> bytes \<Rightarrow> 'a word option" where
  "parse_digits n [] = Some n"
| "parse_digits n (b # bs) =
     (if \<not> is_ascii_digit b then None
      else case checked_mul n 10 of
             None \<Rightarrow> None
           | Some m \<Rightarrow> (case checked_add m (ucast (b - 0x30)) of None \<Rightarrow> None | Some k \<Rightarrow> parse_digits k bs))"

definition parse_unsigned :: "string \<Rightarrow> 'a::len word option" where
  "parse_unsigned text =
     (let digits = (case str_bytes text of b # rest \<Rightarrow> if b = 0x2b then rest else b # rest | [] \<Rightarrow> [])
      in if digits = [] then None else parse_digits 0 digits)"

definition parse_u16 :: "string \<Rightarrow> string \<Rightarrow> probe_error + u16" where
  "parse_u16 name v = ok_or (parse_unsigned v) (ProbeError (name @ '' must be a u16''))"

definition parse_usize :: "string \<Rightarrow> string \<Rightarrow> probe_error + u64" where
  "parse_usize name v = ok_or (parse_unsigned v) (ProbeError (name @ '' must be an integer''))"

definition parse_u64 :: "string \<Rightarrow> string \<Rightarrow> probe_error + u64" where
  "parse_u64 name v = ok_or (parse_unsigned v) (ProbeError (name @ '' must be an integer''))"

section \<open>The protocol version\<close>

text \<open>The loop state: the version, whether it was given, and the retained arguments.\<close>

fun parse_wire_version_loop ::
    "wire_version \<Rightarrow> bool \<Rightarrow> string list \<Rightarrow> string list \<Rightarrow> probe_error + (wire_version \<times> string list)" where
  "parse_wire_version_loop wire_version found retained [] = Inr (wire_version, retained)"
| "parse_wire_version_loop wire_version found retained [flag] = Inl (ProbeError (flag @ '' requires a value''))"
| "parse_wire_version_loop wire_version found retained (flag # v # rest) =
     (if flag \<noteq> ''--wire-version'' then parse_wire_version_loop wire_version found (retained @ [flag, v]) rest
      else if found then Inl (ProbeError ''--wire-version may only be provided once'')
      else bind_ok (ok_or (parse_unsigned v :: u8 option) (ProbeError ''--wire-version must be 2 or 3'')) (\<lambda>parsed.
           case wire_version_try_from parsed of
             Inl _ \<Rightarrow> Inl (ProbeError ''--wire-version must be 2 or 3'')
           | Inr version \<Rightarrow> parse_wire_version_loop version True retained rest))"

definition parse_wire_version :: "string list \<Rightarrow> probe_error + (wire_version \<times> string list)" where
  "parse_wire_version arguments = parse_wire_version_loop V3 False [] arguments"

section \<open>The other arguments\<close>

record raw_probe_arguments =
  raw_host :: "string option"
  raw_first_port :: "u16 option"
  raw_first_stream_id :: "u16 option"
  raw_count :: "u64 option"
  raw_duration_seconds :: "u64 option"
  raw_data_rate_hz :: "u16 option"

text \<open>One flag and its value; a flag given again replaces the value.\<close>

definition probe_flag :: "string \<Rightarrow> string \<Rightarrow> raw_probe_arguments \<Rightarrow> probe_error + raw_probe_arguments" where
  "probe_flag flag v raw =
     (if flag = ''--host'' then Inr (raw\<lparr>raw_host := Some v\<rparr>)
      else if flag = ''--first-port'' then bind_ok (parse_u16 flag v) (\<lambda>n. Inr (raw\<lparr>raw_first_port := Some n\<rparr>))
      else if flag = ''--first-stream-id'' then bind_ok (parse_u16 flag v) (\<lambda>n. Inr (raw\<lparr>raw_first_stream_id := Some n\<rparr>))
      else if flag = ''--count'' then bind_ok (parse_usize flag v) (\<lambda>n. Inr (raw\<lparr>raw_count := Some n\<rparr>))
      else if flag = ''--duration-seconds'' then bind_ok (parse_u64 flag v) (\<lambda>n. Inr (raw\<lparr>raw_duration_seconds := Some n\<rparr>))
      else if flag = ''--data-rate-hz'' then bind_ok (parse_u16 flag v) (\<lambda>n. Inr (raw\<lparr>raw_data_rate_hz := Some n\<rparr>))
      else Inl (ProbeError (''unknown argument '' @ flag)))"

fun probe_flags :: "string list \<Rightarrow> raw_probe_arguments \<Rightarrow> probe_error + raw_probe_arguments" where
  "probe_flags [] raw = Inr raw"
| "probe_flags [flag] raw = Inl (ProbeError (flag @ '' requires a value''))"
| "probe_flags (flag # v # rest) raw = bind_ok (probe_flag flag v raw) (probe_flags rest)"

definition PROBE_MAX_ENDPOINTS :: nat where [const_defs]: "PROBE_MAX_ENDPOINTS = 100"

definition usage :: probe_error where
  "usage = ProbeError ''usage: c37-118-probe [--wire-version <2|3>] --host <host> --first-port <port> --first-stream-id <id> --count <1-100> --duration-seconds <seconds> --data-rate-hz <rate>''"

text \<open>The ranges: \<^verbatim>\<open>(count - 1) as u16\<close> cannot truncate after the test of the count.\<close>

definition check_probe_arguments :: "string \<Rightarrow> u16 \<Rightarrow> u16 \<Rightarrow> u64 \<Rightarrow> u64 \<Rightarrow> u16 \<Rightarrow> probe_error + probe_arguments" where
  "check_probe_arguments host first_port first_stream count duration_seconds data_rate_hz =
     bind_ok (fail_if (\<not> (1 \<le> unat count \<and> unat count \<le> PROBE_MAX_ENDPOINTS)) (ProbeError ''--count must be in 1..=100'')) (\<lambda>_.
     bind_ok (fail_if (first_port = 0 \<or> checked_add first_port (ucast (count - 1)) = None)
       (ProbeError ''--first-port range is invalid'')) (\<lambda>_.
     bind_ok (fail_if (first_stream = 0
         \<or> (case checked_add first_stream (ucast (count - 1)) of None \<Rightarrow> True | Some last_stream \<Rightarrow> last_stream = - 1))
       (ProbeError ''--first-stream-id range is invalid'')) (\<lambda>_.
     bind_ok (fail_if (duration_seconds = 0 \<or> data_rate_hz = 0) (ProbeError ''duration and data rate must be positive'')) (\<lambda>_.
     Inr \<lparr>pa_host = host, pa_first_port = first_port, pa_first_stream_id = first_stream, pa_count = unat count,
          pa_duration = duration_seconds, pa_data_rate_hz = data_rate_hz\<rparr>))))"

definition parse_probe_arguments :: "string list \<Rightarrow> probe_error + probe_arguments" where
  "parse_probe_arguments arguments =
     bind_ok (probe_flags arguments \<lparr>raw_host = None, raw_first_port = None, raw_first_stream_id = None, raw_count = None,
       raw_duration_seconds = None, raw_data_rate_hz = None\<rparr>) (\<lambda>raw.
     bind_ok (ok_or (raw_host raw) usage) (\<lambda>host.
     bind_ok (ok_or (raw_first_port raw) usage) (\<lambda>first_port.
     bind_ok (ok_or (raw_first_stream_id raw) usage) (\<lambda>first_stream.
     bind_ok (ok_or (raw_count raw) usage) (\<lambda>count.
     bind_ok (ok_or (raw_duration_seconds raw) usage) (\<lambda>duration_seconds.
     bind_ok (ok_or (raw_data_rate_hz raw) usage) (\<lambda>data_rate_hz.
     check_probe_arguments host first_port first_stream count duration_seconds data_rate_hz)))))))"

text \<open>\<^verbatim>\<open>run\<close>: the version selects the client.\<close>

definition probe_main :: "'w probe_os \<Rightarrow> string list \<Rightarrow> 'w \<Rightarrow> (probe_error, probe_summary) res" where
  "probe_main os raw_arguments w =
     (case bind_ok (parse_wire_version raw_arguments) (\<lambda>(version, retained).
           bind_ok (parse_probe_arguments retained) (\<lambda>arguments. Inr (version, arguments))) of
        Inl e \<Rightarrow> Err e
      | Inr (V2, arguments) \<Rightarrow>
          (case bind_p (connect_probe os ConnectingV2 arguments) (\<lambda>probe w. case run_probe_v2 os probe of
               Ok (summary, s) \<Rightarrow> Ok (summary, pb_world s) | Err e \<Rightarrow> Err e | Panic \<Rightarrow> Panic | Diverged \<Rightarrow> Diverged) w of
             Ok (summary, _) \<Rightarrow> Ok summary | Err e \<Rightarrow> Err e | Panic \<Rightarrow> Panic | Diverged \<Rightarrow> Diverged)
      | Inr (V3, arguments) \<Rightarrow>
          (case bind_p (connect_probe os Connecting arguments) (\<lambda>probe w. case run_probe os probe of
               Ok (summary, s) \<Rightarrow> Ok (summary, pb_world s) | Err e \<Rightarrow> Err e | Panic \<Rightarrow> Panic | Diverged \<Rightarrow> Diverged) w of
             Ok (summary, _) \<Rightarrow> Ok summary | Err e \<Rightarrow> Err e | Panic \<Rightarrow> Panic | Diverged \<Rightarrow> Diverged))"

end
