(* ===== verification/Probe_Args_Inv.thy ===== *)
theory Probe_Args_Inv
  imports Probe_Args Probe_Inv
begin

text \<open>
  The probe's command line: what an accepted integer is, that accepted ranges cannot wrap, and that the
  whole program ends.
\<close>

section \<open>Integers\<close>

definition decimal :: "nat \<Rightarrow> bytes \<Rightarrow> nat" where
  "decimal n bs = foldl (\<lambda>n b. 10 * n + (unat b - 48)) n bs"

lemma decimal_Cons: "decimal n (b # bs) = decimal (10 * n + (unat b - 48)) bs"
  by (simp add: decimal_def)

lemma decimal_ge: "n \<le> decimal n bs"
proof (induction bs arbitrary: n)
  case (Cons b bs)
  have "n \<le> 10 * n + (unat b - 48)" by simp
  also have "\<dots> \<le> decimal n (b # bs)" using Cons by (simp add: decimal_Cons)
  finally show ?case .
qed (simp add: decimal_def)

lemma digit_value: "is_ascii_digit b \<Longrightarrow> unat (b - 0x30) = unat b - 48"
  by (simp add: is_ascii_digit_def unat_sub)

lemma parse_digits_iff:
  assumes "8 \<le> LENGTH('a)"
  shows "parse_digits (n :: 'a::len word) bs = Some w \<longleftrightarrow> list_all is_ascii_digit bs \<and> unat w = decimal (unat n) bs"
proof (induction bs arbitrary: n)
  case Nil
  show ?case by (auto simp: decimal_def word_unat_eq_iff)
next
  case (Cons b bs)
  have "take_bit LENGTH('a) (10 :: nat) = 10"
    using power_increasing [OF assms, of "2 :: nat"] by (simp add: take_bit_nat_eq_self)
  then have ten: "unat (10 :: 'a word) = 10" "take_bit LENGTH('a) (10 :: nat) = 10" by simp_all
  have digit: "unat (ucast (b - 0x30) :: 'a word) = unat b - 48" if "is_ascii_digit b"
    using that assms unsigned_less [of "b - 0x30", where 'a = nat] power_increasing [OF assms, of "2 :: nat"]
    by (simp add: unsigned_ucast_eq take_bit_nat_eq_self digit_value)
  have fits: "unat w = decimal k bs \<Longrightarrow> k < 2 ^ LENGTH('a)" for k
    using decimal_ge [of k bs] unsigned_less [of w, where 'a = nat] by linarith
  show ?case
  proof (cases "is_ascii_digit b")
    case digit_b: True
    let ?d = "ucast (b - 0x30) :: 'a word" and ?k = "10 * unat n + (unat b - 48)"
    show ?thesis
    proof (cases "?k < 2 ^ LENGTH('a)")
      case True
      then have m: "unat n * unat (10 :: 'a word) < 2 ^ LENGTH('a)" by (simp add: ten)
      have v: "unat (n * 10) = 10 * unat n" using unat_mult_fits [OF m] by (simp add: ten)
      have a: "unat (n * 10) + unat ?d < 2 ^ LENGTH('a)" using True by (simp add: v digit [OF digit_b])
      have "unat (n * 10 + ?d) = ?k" using unat_add_fits [OF a] by (simp add: v digit [OF digit_b])
      then show ?thesis
        using m a Cons.IH [of "n * 10 + ?d"] digit_b by (simp add: checked_mul_def checked_add_def decimal_Cons)
    next
      case False
      then have "\<not> (unat n * unat (10 :: 'a word) < 2 ^ LENGTH('a) \<and> unat (n * 10) + unat ?d < 2 ^ LENGTH('a))"
        using unat_mult_fits [of n 10] by (auto simp: ten digit [OF digit_b])
      then have "parse_digits n (b # bs) = None" using digit_b by (auto simp: checked_mul_def checked_add_def)
      moreover have "unat w \<noteq> decimal (unat n) (b # bs)" using fits [of ?k] False by (auto simp: decimal_Cons)
      ultimately show ?thesis by simp
    qed
  qed simp
qed

definition digits_of :: "string \<Rightarrow> bytes" where
  "digits_of v = (case str_bytes v of b # rest \<Rightarrow> if b = 0x2b then rest else b # rest | [] \<Rightarrow> [])"

lemma parse_unsigned_Some_iff:
  assumes "8 \<le> LENGTH('a)"
  shows "parse_unsigned v = Some (w :: 'a::len word) \<longleftrightarrow>
    digits_of v \<noteq> [] \<and> list_all is_ascii_digit (digits_of v) \<and> unat w = decimal 0 (digits_of v)"
  using parse_digits_iff [OF assms, of 0 "digits_of v" w] by (simp add: parse_unsigned_def digits_of_def Let_def)

section \<open>Ranges\<close>

lemma check_probe_arguments_Inr:
  "check_probe_arguments host port stream count duration rate = Inr args \<longleftrightarrow>
     1 \<le> unat count \<and> unat count \<le> 100 \<and> 1 \<le> unat port \<and> unat port + (unat count - 1) \<le> 65535
   \<and> 1 \<le> unat stream \<and> unat stream + (unat count - 1) \<le> 65534 \<and> duration \<noteq> 0 \<and> rate \<noteq> 0
   \<and> args = \<lparr>pa_host = host, pa_first_port = port, pa_first_stream_id = stream, pa_count = unat count,
              pa_duration = duration, pa_data_rate_hz = rate\<rparr>"
  (is "?L \<longleftrightarrow> ?R")
proof (cases "1 \<le> unat count \<and> unat count \<le> 100")
  case True
  then have "count \<noteq> 0" by auto
  then have m: "unat (count - 1) = unat count - 1" by (simp add: unat_minus_one)
  have "unat count - 1 < 2 ^ 16" using True by (elim conjE) simp
  with m have n: "unat (ucast (count - 1) :: u16) = unat count - 1"
    by (simp add: unsigned_ucast_eq take_bit_nat_eq_self)
  let ?n = "ucast (count - 1) :: u16"
  have last: "(case checked_add stream ?n of None \<Rightarrow> True | Some l \<Rightarrow> l = - 1) \<longleftrightarrow> \<not> unat stream + (unat count - 1) \<le> 65534"
  proof (cases "unat stream + unat ?n < 2 ^ LENGTH(16)")
    case True
    then have "unat (stream + ?n) = unat stream + (unat count - 1)" using unat_add_fits [of stream ?n] n by simp
    then have "stream + ?n = - 1 \<longleftrightarrow> unat stream + (unat count - 1) = 65535"
      by (simp add: word_unat_eq_iff unsigned_minus_1_eq_mask mask_eq_exp_minus_1)
    then show ?thesis using True n by (auto simp: checked_add_def)
  qed (use n in \<open>auto simp: checked_add_def\<close>)
  have port: "checked_add port ?n = None \<longleftrightarrow> \<not> unat port + (unat count - 1) \<le> 65535"
    using n by (auto simp: checked_add_def)
  have zero: "x = 0 \<longleftrightarrow> \<not> 1 \<le> unat x" for x :: u16 by (simp add: Suc_le_eq unat_gt_0)
  have "?L \<longleftrightarrow> \<not> (port = 0 \<or> checked_add port ?n = None) \<and> \<not> (stream = 0 \<or> (case checked_add stream ?n of None \<Rightarrow> True | Some l \<Rightarrow> l = - 1))
      \<and> \<not> (duration = 0 \<or> rate = 0) \<and> args = \<lparr>pa_host = host, pa_first_port = port, pa_first_stream_id = stream, pa_count = unat count,
              pa_duration = duration, pa_data_rate_hz = rate\<rparr>"
    using True by (auto simp: check_probe_arguments_def PROBE_MAX_ENDPOINTS_def)
  then show ?thesis unfolding last port zero [of port] zero [of stream] using True by blast
qed (auto simp: check_probe_arguments_def PROBE_MAX_ENDPOINTS_def)

lemma parse_probe_arguments_Inr:
  assumes "parse_probe_arguments arguments = Inr args"
  shows "1 \<le> pa_count args \<and> pa_count args \<le> 100 \<and> 1 \<le> unat (pa_first_port args) \<and> unat (pa_first_port args) + (pa_count args - 1) \<le> 65535
   \<and> 1 \<le> unat (pa_first_stream_id args) \<and> unat (pa_first_stream_id args) + (pa_count args - 1) \<le> 65534
   \<and> pa_duration args \<noteq> 0 \<and> pa_data_rate_hz args \<noteq> 0"
proof -
  obtain host port stream count duration rate where "check_probe_arguments host port stream count duration rate = Inr args"
    using assms by (auto simp: parse_probe_arguments_def)
  then show ?thesis unfolding check_probe_arguments_Inr by auto
qed

lemma add_index:
  assumes "unat (x :: u16) + (n - 1) \<le> 65535" "i < n"
  shows "unat (x + of_nat i) = unat x + i"
proof -
  have "unat (of_nat i :: u16) = i" using assms by (simp add: unsigned_of_nat take_bit_nat_eq_self)
  then show ?thesis using unat_add_fits [of x "of_nat i"] assms by simp
qed

section \<open>The program\<close>

lemma wp_run_probes:
  assumes env: "probe_env os clk" and rate: "pa_data_rate_hz args \<noteq> 0"
  shows "wp (connect_probe os Connecting args) (\<lambda>p _. wp (run_probe os) (measured p) any p \<and> length (pb_clients p) = pa_count args
      \<and> pb_duration p = pa_duration args \<and> pb_data_rate_hz p = pa_data_rate_hz args) any w"
    and "wp (connect_probe os ConnectingV2 args) (\<lambda>p _. wp (run_probe_v2 os) (measured p) any p \<and> length (pb_clients p) = pa_count args
      \<and> pb_duration p = pa_duration args \<and> pb_data_rate_hz p = pa_data_rate_hz args) any w"
  by (rule wp_mono [OF wp_connect_probe [OF rate]],
      simp add: run_probe_def run_probe_v2_def wp_run_clients [OF env] probe_handlers_ok [OF env])+

end
