(* ===== verification/Probe_Props.thy ===== *)
theory Probe_Props
  imports Probe_Run Probe_Args_Inv Script
begin

text \<open>
  Properties of the verification probe: against the simulator's own frames its handshake completes and its
  data check is exact; its command line only lets identifiers through that cannot wrap.  The instances are
  the shipped profiles.
\<close>

section \<open>A probe on a stream that takes every write\<close>

definition open_probe_os :: "script probe_os" where
  "open_probe_os = \<lparr>base_os = script_os\<lparr>os_write := \<lambda>_ bs w. (Done (length bs), w)\<rparr>,
     os_resolve = (\<lambda>_ _ w. (Done [], w)), os_connect = (\<lambda>_ w. (Done 1, w)), os_register_client = (\<lambda>_ _ _ w. (Done (), w)),
     os_take_error = (\<lambda>_ w. (Done None, w))\<rparr>"

lemma open_probe: "writes_through open_probe_os"
  by (simp add: writes_through_def open_probe_os_def script_os_def)

lemma first_member: "profile_wf cp \<Longrightarrow> cp_endpoints cp ! 0 \<in> set (cp_endpoints cp)"
  by (cases "cp_endpoints cp") (simp_all add: profile_wf_def)

lemma shipped_members: "endpoint_v2 \<in> set (cp_endpoints (compiled three_pmu_v2))" "endpoint_v3 \<in> set (cp_endpoints (compiled one_pmu))"
  unfolding endpoint_v2_def endpoint_v3_def
  by (rule first_member, rule compile_profile_wf, rule shipped_compile)+

definition shipped_time :: timestamp where "shipped_time = \<lparr>soc = 1700000000, fracsec = 20000\<rparr>"

lemma shipped_fraction: "unat (fracsec shipped_time) < 2 ^ 24"
  by (simp add: shipped_time_def)

definition fresh :: "'st \<Rightarrow> endpoint_descriptor \<Rightarrow> ('st, script) pctx" where
  "fresh connecting d = \<lparr>px_client = new_probe_client connecting 3 (ep_stream_id d) (ep_data_rate_hz d), px_world = idle\<rparr>"

section \<open>The handshake\<close>

text \<open>C6. The version-2 handshake of the probe against the simulator: for every endpoint of a compiled profile, a
  new client that gets the endpoint's header, CFG-1 and CFG-2 frames in answer to its commands accepts
  each of them, never panics, and ends streaming with exactly the endpoint's time base, PMU identifier
  and data rate.\<close>

theorem probe_handshake_v2:
  assumes "compile_profile p = Some (Inr cp)" and "d \<in> set (cp_endpoints cp)"
    and "endpoint_frames_for d ts = Some (FramesV2 header cfg1 cfg2, data)" and "unat (fracsec ts) < 2 ^ 24"
    and "writes_through os" and "px_client s = new_probe_client ConnectingV2 stream (ep_stream_id d) (ep_data_rate_hz d)"
  shows "wp (bind_p (write_ready_v2 os token) (\<lambda>_. for_each [header, cfg1, cfg2] (exchange_v2 os token)))
      (\<lambda>_ t. pc_state (px_client t) = StreamingV2 \<and> pc_data_frames (px_client t) = 0 \<and> pc_last_timestamp (px_client t) = None
        \<and> pc_configuration (px_client t) =
            Some \<lparr>cs_time_base = ep_time_base d, cs_pmu_id = ep_pmu_id d, cs_data_rate_hz = ep_data_rate_hz d\<rparr>)
      (\<lambda>_. False) s"
proof -
  have wf: "endpoint_wf d" "ep_wire_version d = V2"
    using compile_profile_wf [OF assms(1)] assms(2) frames_version(1) [OF assms(3)] by (auto simp: profile_wf_def list_all_iff)
  then obtain m where m: "ep_v2 d = Some m" "v2_metadata_wf m" using endpoint_wf_v2 by blast
  have rate: "ep_data_rate_hz d = 50" using wf(1) by (simp add: endpoint_wf_def)
  have st: "station_name m \<noteq> []" "list_all is_printable_ascii (station_name m)" "16 + length (station_name m) \<le> 65535"
    using m(2) by (auto simp: v2_metadata_wf_def fixed_name_wf_def const_defs)
  have len: "16 + length (configuration_body_v2 d m) \<le> 65535" using length_configuration_body_v2 [OF m(2)] by simp
  note frames = static_frames_v2 [OF wf(1) m(1) assms(3)]
  show ?thesis
    unfolding wp_bind for_each.simps frames
    apply (rule wp_connect_v2 [OF assms(5), where conf = None and i = "ep_stream_id d"],
        simp add: assms(6) rate new_probe_client_def at_state_def const_defs)
    apply (rule wp_header_exchange [OF assms(5) _ st(3) assms(4) st(1,2)], assumption)
    apply (rule wp_configuration_1_exchange [OF assms(5) _ len assms(4) configuration_v2_read [OF wf m(1)]], assumption)
    apply (rule wp_configuration_2_exchange [OF assms(5) _ len assms(4) configuration_v2_read [OF wf m(1)]], assumption)
    apply (simp add: at_state_def rate)
    done
qed

theorem probe_handshake_v2_witness:
  "\<exists>header cfg1 cfg2 data. endpoint_frames_for endpoint_v2 shipped_time = Some (FramesV2 header cfg1 cfg2, data)
   \<and> wp (bind_p (write_ready_v2 open_probe_os 0) (\<lambda>_. for_each [header, cfg1, cfg2] (exchange_v2 open_probe_os 0)))
       (\<lambda>_ t. pc_state (px_client t) = StreamingV2) (\<lambda>_. False) (fresh ConnectingV2 endpoint_v2)"
proof -
  obtain header cfg1 cfg2 data where f: "endpoint_frames_for endpoint_v2 shipped_time = Some (FramesV2 header cfg1 cfg2, data)"
    using endpoint_frames_v2 [OF shipped_endpoints(1,2)] by metis
  from wp_mono [OF probe_handshake_v2 [OF shipped_compile(1) shipped_members(1) f shipped_fraction open_probe, where stream = 3]]
  have "wp (bind_p (write_ready_v2 open_probe_os 0) (\<lambda>_. for_each [header, cfg1, cfg2] (exchange_v2 open_probe_os 0)))
       (\<lambda>_ t. pc_state (px_client t) = StreamingV2) (\<lambda>_. False) (fresh ConnectingV2 endpoint_v2)"
    by (simp add: fresh_def)
  with f show ?thesis by blast
qed

text \<open>C7. The version-3 handshake of the probe against the simulator: for every endpoint of a compiled profile whose
  names are text, a new client that gets the endpoint's capability and stream-configuration frames in
  answer to its commands accepts both, never panics, and ends streaming with exactly the endpoint's
  time base, PMU identifier and data rate.\<close>

theorem probe_handshake_v3:
  assumes "compile_profile p = Some (Inr cp)" and "d \<in> set (cp_endpoints cp)"
    and "is_utf8 (fl_pdc_name (pr_fleet p))" and "is_utf8 (pmu_name_prefix (pr_fleet p))"
    and "endpoint_frames_for d ts = Some (FramesV3 capability stream_configuration, data)" and "unat (fracsec ts) < 2 ^ 24"
    and "writes_through os" and "px_client s = new_probe_client Connecting stream (ep_stream_id d) (ep_data_rate_hz d)"
  shows "wp (bind_p (write_ready os token) (\<lambda>_. for_each [capability, stream_configuration] (exchange os token)))
      (\<lambda>_ t. pc_state (px_client t) = Streaming \<and> pc_data_frames (px_client t) = 0 \<and> pc_last_timestamp (px_client t) = None
        \<and> pc_configuration (px_client t) =
            Some \<lparr>cs_time_base = ep_time_base d, cs_pmu_id = ep_pmu_id d, cs_data_rate_hz = ep_data_rate_hz d\<rparr>)
      (\<lambda>_. False) s"
proof -
  have wf: "endpoint_wf d" "ep_wire_version d = V3"
    using compile_profile_wf [OF assms(1)] assms(2) frames_version(2) [OF assms(5)] by (auto simp: profile_wf_def list_all_iff)
  have rate: "ep_data_rate_hz d = 50" using wf(1) by (simp add: endpoint_wf_def)
  have "length (configuration_body_v3 d) \<le> 2752" using length_configuration_body_v3 endpoint_wf_v3 wf by blast
  then have len: "16 + length (configuration_body_v3 d) \<le> 65535" by simp
  note frames = static_frames_v3 [OF assms(5)]
  note read = configuration_v3_read [OF wf compiled_text_names [OF assms(1,2) wf(2) assms(3,4)]]
  show ?thesis
    unfolding wp_bind for_each.simps frames
    apply (rule wp_connect [OF assms(7), where conf = None and i = "ep_stream_id d"],
        simp add: assms(8) rate new_probe_client_def at_state_def const_defs)
    apply (rule wp_capability_exchange [OF assms(7) _ len assms(6) read], assumption)
    apply (rule wp_stream_configuration_exchange [OF assms(7) _ len assms(6) read], assumption)
    apply (simp add: at_state_def rate)
    done
qed

theorem probe_handshake_v3_witness:
  "\<exists>capability configuration data. endpoint_frames_for endpoint_v3 shipped_time = Some (FramesV3 capability configuration, data)
   \<and> wp (bind_p (write_ready open_probe_os 0) (\<lambda>_. for_each [capability, configuration] (exchange open_probe_os 0)))
       (\<lambda>_ t. pc_state (px_client t) = Streaming) (\<lambda>_. False) (fresh Connecting endpoint_v3)"
proof -
  obtain capability configuration data
    where f: "endpoint_frames_for endpoint_v3 shipped_time = Some (FramesV3 capability configuration, data)"
    using endpoint_frames_v3 [OF shipped_endpoints(3,4)] by metis
  have utf8: "is_utf8 (fl_pdc_name (pr_fleet one_pmu))" "is_utf8 (pmu_name_prefix (pr_fleet one_pmu))" by code_simp+
  from wp_mono [OF probe_handshake_v3 [OF shipped_compile(2) shipped_members(2) utf8 f shipped_fraction open_probe, where stream = 3]]
  have "wp (bind_p (write_ready open_probe_os 0) (\<lambda>_. for_each [capability, configuration] (exchange open_probe_os 0)))
       (\<lambda>_ t. pc_state (px_client t) = Streaming) (\<lambda>_. False) (fresh Connecting endpoint_v3)"
    by (simp add: fresh_def)
  with f show ?thesis by blast
qed

section \<open>Data frames\<close>

lemma endpoint_sampling:
  assumes "endpoint_wf d" and "aligned_start system_now now (ep_data_rate_hz d) (ep_time_base d) = Inr (clock, origin)"
    and "system_now < 2 ^ 32 * 1000000000"
  shows "sampling clock (ep_data_rate_hz d)" "wc_time_base clock = ep_time_base d"
proof -
  have tb: "ep_data_rate_hz d = 50" "0 < unat (ep_time_base d)" "unat (ep_time_base d) < 2 ^ 24" "unat (ep_time_base d) mod 50 = 0"
    using assms(1) by (simp_all add: endpoint_wf_def)
  have "0 < uint (ep_time_base d)" using tb(2) by (simp only: uint_nat of_nat_0_less_iff)
  moreover have small: "uint (ep_time_base d) < 2 ^ 24" using tb(3) by (simp only: nat_less_pow_iff uint_nat)
  moreover have "uint (ep_time_base d) mod 50 = 0" using arg_cong [OF tb(4), of int] by (simp add: zmod_int)
  ultimately have "rate_divides (ep_data_rate_hz d) (ep_time_base d)" by (simp add: rate_divides_def tb(1))
  then show "sampling clock (ep_data_rate_hz d)" "wc_time_base clock = ep_time_base d"
    using aligned_sampling [OF assms(2)] small assms(3) by simp_all
qed

text \<open>A streaming client on a data frame: the decoder decides.\<close>

lemma count_data_frame_eq:
  fixes s :: "('st, 'w) pctx"
  assumes "pc_configuration (px_client s) = Some conf"
  shows "wp (count_data_frame ts m decode) Q E s = wp (decode conf (pc_last_timestamp (px_client s)))
    (\<lambda>_ t. Q () (t\<lparr>px_client := (px_client t)\<lparr>pc_last_timestamp := Some ts, pc_data_frames := pc_data_frames (px_client t) + 1\<rparr>\<rparr>)) E s"
  using assms by (simp add: count_data_frame_def wp_simps)

lemma data_body_v2:
  "length (concat (map u16_to_be (data_words_v2 sin32 d m seed i degraded x))) = 30"
  "u16_from_be (concat (map u16_to_be (data_words_v2 sin32 d m seed i degraded x)) ! 0)
     (concat (map u16_to_be (data_words_v2 sin32 d m seed i degraded x)) ! 1) = stat_v2 m degraded"
  by (simp_all only: length_words length_data_words_v2) (simp_all add: data_words_v2_def u16_to_be_def)

lemma check_sample_after:
  assumes "sampling wc rate" "sample_in_range wc i" "cs_time_base c = wc_time_base wc" "cs_data_rate_hz c = rate"
    "\<forall>j \<in> set_option prev. sample_in_range wc j"
  shows "check_timestamps (timestamp_for_sample wc i) c (map_option (timestamp_for_sample wc) prev) unaligned skipped =
    (if \<forall>j \<in> set_option prev. uint i = uint j + 1 then ret () else raise (ProbeError skipped))"
  using assms(5) by (cases prev) (simp_all add: check_samples [OF assms(1-4)])

lemma decode_sample_v2:
  assumes "\<And>unaligned skipped. check_timestamps ts conf prev unaligned skipped =
        (if ok then ret () else raise (ProbeError skipped) :: ('s, probe_error, unit) prog)"
    and "length body = 30" "u16_from_be (body ! 0) (body ! 1) = stat_v2 m degraded"
  shows "decode_periodic_data_v2 \<lparr>df_frame_type = ty, df_stream_id = i, df_timestamp = ts, df_body = body,
      df_message_time_quality = MESSAGE_TIME_QUALITY_UNKNOWN\<rparr> conf prev =
    (if ok then ret () else raise (ProbeError ''V2 periodic data timestamps skipped a configured reporting interval'')
      :: ('s, probe_error, unit) prog)"
proof -
  have "stat_v2 m degraded = 0 \<or> stat_v2 m degraded = STAT_FLAG_SYNC_UNCERTAIN OR STAT_PMU_TIME_QUALITY_UNKNOWN"
    by (simp add: stat_v2_def)
  with assms(2,3) show ?thesis
    unfolding decode_periodic_data_v2_def Let_def by (elim disjE) (simp_all add: refuse_if_def assms(1))
qed

lemma decode_sample_v3:
  assumes "\<And>unaligned skipped. check_timestamps ts conf prev unaligned skipped =
        (if ok then ret () else raise (ProbeError skipped) :: ('s, probe_error, unit) prog)"
    and "length body = 32"
  shows "decode_periodic_data \<lparr>df_frame_type = ty, df_stream_id = i, df_timestamp = ts, df_body = body\<rparr> conf prev =
    (if ok then ret () else raise (ProbeError ''periodic data timestamps skipped a configured reporting interval'')
      :: ('s, probe_error, unit) prog)"
  unfolding decode_periodic_data_def using assms(2) by (simp add: refuse_if_def assms(1))

text \<open>The shipped profiles at 0.123 seconds: the first sample is at 0.14 seconds.\<close>

definition shipped_clock :: wall_clock where
  "shipped_clock = \<lparr>first_timestamp = \<lparr>soc = 0, fracsec = 140000\<rparr>, ticks_per_frame = 20000, wc_time_base = 1000000\<rparr>"

lemma shipped_start: "aligned_start 123000000 0 50 1000000 = Inr (shipped_clock, 17000000)"
  by code_simp

lemma shipped_rates:
  "ep_data_rate_hz endpoint_v2 = 50" "ep_time_base endpoint_v2 = 1000000"
  "ep_data_rate_hz endpoint_v3 = 50" "ep_time_base endpoint_v3 = 1000000"
proof -
  have first: "ep_data_rate_hz (cp_endpoints cp ! 0) = fl_data_rate_hz (pr_fleet p)"
      "ep_time_base (cp_endpoints cp ! 0) = fl_time_base (pr_fleet p)"
    if cp: "compile_profile p = Some (Inr cp)" for p cp
  proof -
    have "0 < length (cp_endpoints cp)" using compile_profile_wf [OF cp] by (auto simp: profile_wf_def)
    then obtain wv pdc names v2_names v2_units
      where "compile_endpoint p wv pdc names v2_names v2_units 0 = Some (Inr (cp_endpoints cp ! 0))"
      using cp by (elim compile_profile_Inr) metis
    then show "ep_data_rate_hz (cp_endpoints cp ! 0) = fl_data_rate_hz (pr_fleet p)"
      "ep_time_base (cp_endpoints cp ! 0) = fl_time_base (pr_fleet p)" by (rule compile_endpoint_Inr(7,8))+
  qed
  show "ep_data_rate_hz endpoint_v2 = 50" "ep_time_base endpoint_v2 = 1000000"
    using first [OF shipped_compile(1)] by (simp_all add: endpoint_v2_def three_pmu_v2_def shipped_fleet_def)
  show "ep_data_rate_hz endpoint_v3 = 50" "ep_time_base endpoint_v3 = 1000000"
    using first [OF shipped_compile(2)] by (simp_all add: endpoint_v3_def one_pmu_def shipped_fleet_def)
qed

lemma shipped_samples: "k < 100 \<Longrightarrow> sample_in_range shipped_clock (of_nat k)"
proof -
  assume "k < 100"
  then have "uint (of_nat k :: u64) = int k" by (simp add: uint_nat unsigned_of_nat take_bit_nat_eq_self)
  with \<open>k < 100\<close> show ?thesis by (simp add: sample_in_range_def shipped_clock_def div_less_int)
qed

text \<open>A client that streams and has seen the given sample.\<close>

definition streaming_client :: "'st \<Rightarrow> endpoint_descriptor \<Rightarrow> u64 option \<Rightarrow> ('st, script) pctx" where
  "streaming_client st d prev = \<lparr>px_client = (new_probe_client st 3 (ep_stream_id d) (ep_data_rate_hz d))
      \<lparr>pc_configuration := Some \<lparr>cs_time_base = ep_time_base d, cs_pmu_id = ep_pmu_id d, cs_data_rate_hz = ep_data_rate_hz d\<rparr>,
       pc_last_timestamp := map_option (timestamp_for_sample shipped_clock) prev\<rparr>, px_world = idle\<rparr>"

definition is_streamed :: "(probe_error, unit \<times> ('st, script) pctx) res \<Rightarrow> bool" where
  "is_streamed r = (case r of Ok (_, t) \<Rightarrow> pc_data_frames (px_client t) = 1 | _ \<Rightarrow> False)"

text \<open>C8. The version-2 probe counts exactly the consecutive samples: fed with the data frame of sample \<open>i\<close> of an
  endpoint whose clock was aligned at binding, a streaming client accepts it as its first frame or when
  the frame before was sample \<open>i - 1\<close>, and then counts it and remembers its timestamp; after any other
  sample it reports the skipped interval.  Degraded time, scenarios and the waveform make no difference.\<close>

theorem probe_counts_samples_v2:
  assumes "endpoint_wf d" and "ep_wire_version d = V2"
    and "aligned_start system_now now (ep_data_rate_hz d) (ep_time_base d) = Inr (clock, origin)" and "system_now < 2 ^ 32 * 1000000000"
    and "sample_in_range clock i" and "\<forall>j \<in> set_option prev. sample_in_range clock j"
    and "pc_state (px_client s) = StreamingV2" and "pc_stream_id (px_client s) = ep_stream_id d"
    and "pc_configuration (px_client s) =
      Some \<lparr>cs_time_base = ep_time_base d, cs_pmu_id = ep_pmu_id d, cs_data_rate_hz = ep_data_rate_hz d\<rparr>"
    and "pc_last_timestamp (px_client s) = map_option (timestamp_for_sample clock) prev"
  shows "receive_frame_v2 os token
      (data_frame_bytes (sample_frame sin32 seed i (timestamp_for_sample clock i) degraded plan d)) s =
    (if \<forall>j \<in> set_option prev. uint i = uint j + 1
     then Ok ((), s\<lparr>px_client := (px_client s)\<lparr>pc_last_timestamp := Some (timestamp_for_sample clock i),
                                             pc_data_frames := pc_data_frames (px_client s) + 1\<rparr>\<rparr>)
     else Err (ProbeError ''V2 periodic data timestamps skipped a configured reporting interval''))"
proof -
  obtain m where m: "ep_v2 d = Some m" "v2_metadata_wf m" using endpoint_wf_v2 assms(1,2) by blast
  let ?conf = "\<lparr>cs_time_base = ep_time_base d, cs_pmu_id = ep_pmu_id d, cs_data_rate_hz = ep_data_rate_hz d\<rparr>"
    and ?ts = "timestamp_for_sample clock i"
  define degraded' where "degraded' = (case plan of None \<Rightarrow> degraded | Some p \<Rightarrow> degraded \<or> degraded_time p)"
  define body where "body = concat (map u16_to_be (data_words_v2 sin32 d m seed i degraded' (case plan of None \<Rightarrow> None | Some p \<Rightarrow> plan_signal p)))"
  have frame: "data_frame_bytes (sample_frame sin32 seed i ?ts degraded plan d) =
      frame_bytes V2_PROTOCOL_VERSION MESSAGE_TIME_QUALITY_UNKNOWN FRAME_TYPE_PERIODIC_DATA_V2 (ep_stream_id d) ?ts body"
    by (simp add: sample_frame_def assms(2) m(1) body_def degraded'_def Let_def)
  note sampling = endpoint_sampling [OF assms(1,3,4)]
  have conf: "cs_time_base ?conf = wc_time_base clock" "cs_data_rate_hz ?conf = ep_data_rate_hz d" by (simp_all add: sampling(2))
  note check = check_sample_after [OF sampling(1) assms(5) conf assms(6)]
  have fraction: "unat (fracsec ?ts) < 2 ^ 24" by (rule sample_clock(3) [OF sampling(1) assms(5) conf(1)])
  have len: "length body = 30" and stat: "u16_from_be (body ! 0) (body ! 1) = stat_v2 m degraded'"
    using data_body_v2 by (simp_all add: body_def)
  have "decode_v2_frame (frame_bytes V2_PROTOCOL_VERSION MESSAGE_TIME_QUALITY_UNKNOWN FRAME_TYPE_PERIODIC_DATA_V2 (ep_stream_id d) ?ts body) =
    Inr \<lparr>df_frame_type = FRAME_TYPE_PERIODIC_DATA_V2, df_stream_id = ep_stream_id d, df_timestamp = ?ts, df_body = body,
         df_message_time_quality = MESSAGE_TIME_QUALITY_UNKNOWN\<rparr>"
    by (rule decode_v2_frame_bytes) (use len fraction frame_types_v2 [of FRAME_TYPE_PERIODIC_DATA_V2] in simp_all)
  then show ?thesis
    unfolding frame using assms(7-10)
    by (simp add: decode_sample_v2 [OF check len stat] receive_frame_v2_def validate_frame_identity_v2_def handle_frame_v2_def
        count_data_frame_def request_writable_def set_client_def prog_defs)
qed

theorem probe_counts_samples_v2_witness:
  "is_streamed (receive_frame_v2 open_probe_os 0 (data_frame_bytes (sample_frame (\<lambda>x. x) 7 5 (timestamp_for_sample shipped_clock 5) False None endpoint_v2))
       (streaming_client StreamingV2 endpoint_v2 (Some 4)))
   \<and> \<not> is_streamed (receive_frame_v2 open_probe_os 0 (data_frame_bytes (sample_frame (\<lambda>x. x) 7 6 (timestamp_for_sample shipped_clock 6) False None endpoint_v2))
       (streaming_client StreamingV2 endpoint_v2 (Some 4)))"
proof -
  have start: "aligned_start 123000000 0 (ep_data_rate_hz endpoint_v2) (ep_time_base endpoint_v2) = Inr (shipped_clock, 17000000)"
    by (simp add: shipped_rates shipped_start)
  have r: "sample_in_range shipped_clock 4" "sample_in_range shipped_clock 5" "sample_in_range shipped_clock 6"
    using shipped_samples [of 4] shipped_samples [of 5] shipped_samples [of 6] by simp_all
  note counts = probe_counts_samples_v2 [OF shipped_endpoints(1,2) start, where prev = "Some 4" and os = open_probe_os and
      s = "streaming_client StreamingV2 endpoint_v2 (Some 4)" and token = 0 and ?sin32.0 = "\<lambda>x. x" and seed = 7 and degraded = False and plan = None]
  show ?thesis
    using counts [of 5] counts [of 6] r
    by (simp add: streaming_client_def new_probe_client_def is_streamed_def)
qed

text \<open>The version-3 probe counts exactly the consecutive samples as well: fed with the data frame of sample \<open>i\<close> of an
  endpoint whose clock was aligned at binding, a streaming client accepts it as its first frame or when
  the frame before was sample \<open>i - 1\<close>, and then counts it and remembers its timestamp; after any other
  sample it reports the skipped interval.  Degraded time, scenarios and the waveform make no difference.\<close>

theorem probe_counts_samples_v3:
  assumes "endpoint_wf d" and "ep_wire_version d = V3"
    and "aligned_start system_now now (ep_data_rate_hz d) (ep_time_base d) = Inr (clock, origin)" and "system_now < 2 ^ 32 * 1000000000"
    and "sample_in_range clock i" and "\<forall>j \<in> set_option prev. sample_in_range clock j"
    and "pc_state (px_client s) = Streaming" and "pc_stream_id (px_client s) = ep_stream_id d"
    and "pc_configuration (px_client s) =
      Some \<lparr>cs_time_base = ep_time_base d, cs_pmu_id = ep_pmu_id d, cs_data_rate_hz = ep_data_rate_hz d\<rparr>"
    and "pc_last_timestamp (px_client s) = map_option (timestamp_for_sample clock) prev"
  shows "receive_frame os token
      (data_frame_bytes (sample_frame sin32 seed i (timestamp_for_sample clock i) degraded plan d)) s =
    (if \<forall>j \<in> set_option prev. uint i = uint j + 1
     then Ok ((), s\<lparr>px_client := (px_client s)\<lparr>pc_last_timestamp := Some (timestamp_for_sample clock i),
                                             pc_data_frames := pc_data_frames (px_client s) + 1\<rparr>\<rparr>)
     else Err (ProbeError ''periodic data timestamps skipped a configured reporting interval''))"
proof -
  let ?conf = "\<lparr>cs_time_base = ep_time_base d, cs_pmu_id = ep_pmu_id d, cs_data_rate_hz = ep_data_rate_hz d\<rparr>"
    and ?ts = "timestamp_for_sample clock i"
  define body where "body = concat (map u16_to_be (data_words_v3 sin32 d seed i (case plan of None \<Rightarrow> None | Some p \<Rightarrow> plan_signal p)))"
  have frame: "data_frame_bytes (sample_frame sin32 seed i ?ts degraded plan d) =
      frame_bytes V3_PROTOCOL_VERSION 0 FRAME_TYPE_PERIODIC_DATA_V3 (ep_stream_id d) ?ts body"
    by (simp add: sample_frame_def assms(2) body_def Let_def)
  note sampling = endpoint_sampling [OF assms(1,3,4)]
  have conf: "cs_time_base ?conf = wc_time_base clock" "cs_data_rate_hz ?conf = ep_data_rate_hz d" by (simp_all add: sampling(2))
  note check = check_sample_after [OF sampling(1) assms(5) conf assms(6)]
  have fraction: "unat (fracsec ?ts) < 2 ^ 24" by (rule sample_clock(3) [OF sampling(1) assms(5) conf(1)])
  have len: "length body = 32" by (simp add: body_def length_words length_data_words_v3)
  have "decode_v3_frame (frame_bytes V3_PROTOCOL_VERSION 0 FRAME_TYPE_PERIODIC_DATA_V3 (ep_stream_id d) ?ts body) =
    Inr \<lparr>df_frame_type = FRAME_TYPE_PERIODIC_DATA_V3, df_stream_id = ep_stream_id d, df_timestamp = ?ts, df_body = body\<rparr>"
    by (rule decode_v3_frame_bytes) (use len fraction frame_types_v3 [of FRAME_TYPE_PERIODIC_DATA_V3] in simp_all)
  then show ?thesis
    unfolding frame using assms(7-10)
    by (simp add: decode_sample_v3 [OF check len] receive_frame_def validate_frame_identity_def handle_frame_def
        count_data_frame_def request_writable_def set_client_def prog_defs)
qed

theorem probe_counts_samples_v3_witness:
  "is_streamed (receive_frame open_probe_os 0 (data_frame_bytes (sample_frame (\<lambda>x. x) 7 5 (timestamp_for_sample shipped_clock 5) False None endpoint_v3))
       (streaming_client Streaming endpoint_v3 (Some 4)))
   \<and> \<not> is_streamed (receive_frame open_probe_os 0 (data_frame_bytes (sample_frame (\<lambda>x. x) 7 6 (timestamp_for_sample shipped_clock 6) False None endpoint_v3))
       (streaming_client Streaming endpoint_v3 (Some 4)))"
proof -
  have start: "aligned_start 123000000 0 (ep_data_rate_hz endpoint_v3) (ep_time_base endpoint_v3) = Inr (shipped_clock, 17000000)"
    by (simp add: shipped_rates shipped_start)
  have r: "sample_in_range shipped_clock 4" "sample_in_range shipped_clock 5" "sample_in_range shipped_clock 6"
    using shipped_samples [of 4] shipped_samples [of 5] shipped_samples [of 6] by simp_all
  note counts = probe_counts_samples_v3 [OF shipped_endpoints(3,4) start, where prev = "Some 4" and os = open_probe_os and
      s = "streaming_client Streaming endpoint_v3 (Some 4)" and token = 0 and ?sin32.0 = "\<lambda>x. x" and seed = 7 and degraded = False and plan = None]
  show ?thesis
    using counts [of 5] counts [of 6] r
    by (simp add: streaming_client_def new_probe_client_def is_streamed_def)
qed

section \<open>The program\<close>

text \<open>Accepted probe arguments: between 1 and 100 endpoints, a positive duration and rate, and for every endpoint a
  port from 1 and an identifier from 1 to 65534 that the 16-bit additions compute without wrapping.\<close>

theorem probe_arguments_bounds:
  assumes "parse_probe_arguments arguments = Inr args" and "i < pa_count args"
  shows "pa_count args \<le> 100 \<and> 0 < unat (pa_duration args) \<and> 0 < unat (pa_data_rate_hz args)
    \<and> unat (pa_first_port args + of_nat i) = unat (pa_first_port args) + i \<and> 1 \<le> unat (pa_first_port args)
    \<and> unat (pa_first_stream_id args + of_nat i) = unat (pa_first_stream_id args) + i
    \<and> 1 \<le> unat (pa_first_stream_id args) \<and> unat (pa_first_stream_id args) + i \<le> 65534"
proof -
  note a = parse_probe_arguments_Inr [OF assms(1)]
  have stream: "unat (pa_first_stream_id args) + (pa_count args - 1) \<le> 65535" using a by linarith
  have last: "unat (pa_first_stream_id args) + i \<le> 65534" using a assms(2) by linarith
  show ?thesis
    using last a assms(2) add_index [OF _ assms(2), of "pa_first_port args"] add_index [OF stream assms(2)]
    by (simp add: unat_gt_0)
qed

definition sample_arguments :: "string list" where
  "sample_arguments = [''--host'', ''pmu'', ''--first-port'', ''65436'', ''--first-stream-id'', ''65435'', ''--count'', ''100'',
     ''--duration-seconds'', ''60'', ''--data-rate-hz'', ''50'']"

lemma sample_arguments_parse:
  "parse_probe_arguments sample_arguments = Inr \<lparr>pa_host = ''pmu'', pa_first_port = 65436, pa_first_stream_id = 65435,
     pa_count = 100, pa_duration = 60, pa_data_rate_hz = 50\<rparr>"
  by code_simp

theorem probe_arguments_bounds_witness: "unat (65436 + of_nat 99 :: u16) = 65535 \<and> unat (65435 + of_nat 99 :: u16) = 65534"
  using probe_arguments_bounds [OF sample_arguments_parse, of 99] by simp

text \<open>Integers on the command line: a text is accepted exactly when, after an optional plus sign, it is a nonempty
  sequence of ASCII digits whose decimal value fits the type, and the result is that value.\<close>

theorem unsigned_argument_iff:
  "(parse_unsigned v = Some (w :: u64) \<longleftrightarrow>
      digits_of v \<noteq> [] \<and> list_all is_ascii_digit (digits_of v) \<and> unat w = decimal 0 (digits_of v))
   \<and> (parse_unsigned v = Some (x :: u16) \<longleftrightarrow>
      digits_of v \<noteq> [] \<and> list_all is_ascii_digit (digits_of v) \<and> unat x = decimal 0 (digits_of v))"
  by (simp add: parse_unsigned_Some_iff)

text \<open>C4. The probe always ends: whatever its arguments, its peers and the operating system do, as long as the system
  takes and returns no more bytes than asked for and each reading of the clock is later than the one
  before, the probe neither panics nor runs forever.  When it reports success, the arguments were valid, every endpoint was measured for the
  whole duration, and the least number of data frames of an endpoint is at least the bound of the code,
  80 percent of rate and duration in wrapping 64-bit arithmetic.\<close>

theorem probe_always_ends:
  assumes "probe_env os clk"
  shows "case probe_main os raw_arguments w of
      Ok summary \<Rightarrow> \<exists>version retained args. parse_wire_version raw_arguments = Inr (version, retained)
        \<and> parse_probe_arguments retained = Inr args \<and> ps_endpoints summary = pa_count args
        \<and> uint (pa_duration args) * 10 ^ 9 \<le> ps_elapsed summary
        \<and> (ucast (pa_data_rate_hz args) * pa_duration args * 4) div 5 \<le> ps_minimum_endpoint_data_frames summary
    | Err e \<Rightarrow> True
    | Panic \<Rightarrow> False
    | Diverged \<Rightarrow> False"
proof (cases "parse_wire_version raw_arguments")
  case (Inr r)
  obtain version retained where r: "r = (version, retained)" by (cases r)
  show ?thesis
  proof (cases "parse_probe_arguments retained")
    case args: (Inr args)
    note a = parse_probe_arguments_Inr [OF args]
    then have rate: "pa_data_rate_hz args \<noteq> 0" by blast
    show ?thesis
    proof (cases version)
      case V2
      from wp_run_probes(2) [OF assms rate, of w] show ?thesis
        by (rule wp_outcome; elim conjE wp_outcome)
           (use a in \<open>auto simp: probe_main_def Inr r args V2 bind_p_def measured_def prog_defs\<close>)
    next
      case V3
      from wp_run_probes(1) [OF assms rate, of w] show ?thesis
        by (rule wp_outcome; elim conjE wp_outcome)
           (use a in \<open>auto simp: probe_main_def Inr r args V3 bind_p_def measured_def prog_defs\<close>)
    qed
  qed (simp add: probe_main_def Inr r)
qed (simp add: probe_main_def)

text \<open>A system whose world is its clock, and whose peers accept connections and then stay silent.\<close>

definition silent_os :: "int probe_os" where
  "silent_os = \<lparr>base_os =
     \<lparr>os_now = (\<lambda>w. (w, w + 1)), os_system_time = (\<lambda>w. (w, w)), os_poll_new = (\<lambda>w. (Done (), w)),
      os_bind = (\<lambda>_ w. (Done 1, w)), os_accept = (\<lambda>_ w. (WouldBlock, w)), os_read = (\<lambda>_ _ w. (WouldBlock, w)),
      os_write = (\<lambda>_ bs w. (Done (length bs), w)), os_drop = (\<lambda>_ w. w), os_set_nodelay = (\<lambda>_ w. (Done (), w)),
      os_set_recv_buffer_size = (\<lambda>_ _ w. (Done (), w)), os_set_send_buffer_size = (\<lambda>_ _ w. (Done (), w)),
      os_register = (\<lambda>_ _ w. (Done (), w)), os_reregister = (\<lambda>_ _ _ w. (Done (), w)), os_deregister = (\<lambda>_ w. (Done (), w)),
      os_read_to_string = (\<lambda>_ w. (None, w)), os_process_id = (\<lambda>w. (1, w)), os_next_incarnation = (\<lambda>w. (0, w)),
      os_poll = (\<lambda>_ w. (Done [(0, True, True)], w)), os_eprintln = (\<lambda>_ w. w)\<rparr>,
     os_resolve = (\<lambda>_ port w. (Done [\<lparr>sa_ip = bind_address (pr_fleet three_pmu_v2), sa_port = port\<rparr>], w)),
     os_connect = (\<lambda>_ w. (Done 1, w)), os_register_client = (\<lambda>_ _ _ w. (Done (), w)), os_take_error = (\<lambda>_ w. (Done None, w))\<rparr>"

lemma silent_env: "probe_env silent_os (\<lambda>w. w)"
  by (simp add: probe_env_def silent_os_def)

text \<open>Against silent peers the probe ends; a summary would have to cover all 100 endpoints.\<close>

theorem probe_always_ends_witness:
  "case probe_main silent_os sample_arguments 0 of
     Ok summary \<Rightarrow> ps_endpoints summary = 100 \<and> 2400 \<le> ps_minimum_endpoint_data_frames summary
   | Err e \<Rightarrow> True | Panic \<Rightarrow> False | Diverged \<Rightarrow> False"
proof -
  have wire: "parse_wire_version sample_arguments = Inr (V3, sample_arguments)" by code_simp
  show ?thesis
    using probe_always_ends [OF silent_env, of sample_arguments 0]
    by (cases "probe_main silent_os sample_arguments 0") (auto simp: wire sample_arguments_parse)
qed

end
