(* ===== verification/Startup.thy ===== *)
theory Startup
  imports Management_Server
begin

text \<open>
  Starting the program (\<^verbatim>\<open>src/startup.rs\<close>, \<^verbatim>\<open>src/main.rs\<close>): the command line, the immutable startup inputs, the
  order in which the server is bound, and the health check.  File contents, the environment, the parsing
  of socket addresses, the YAML decoder and SHA-256 are arguments.
\<close>

section \<open>Startup inputs\<close>

definition DEFAULT_IMAGE_REF :: string where [const_defs]: "DEFAULT_IMAGE_REF = ''local-build''"

record startup =
  st_profile :: compiled_profile
  st_scenario_catalog :: scenario_catalog
  st_runtime_identity :: runtime_identity
  st_deployment_label :: string

text \<open>A \<^verbatim>\<open>StartupError\<close> is a message; the constructors hold what each message is made of.\<close>

datatype startup_error =
    InvalidText string nat
  | StartupCannotRead string string string
  | NotUtf8 string string
  | InvalidProfile config_error
  | InvalidCatalog catalog_error

definition validate_text :: "string \<Rightarrow> string \<Rightarrow> nat \<Rightarrow> startup_error + unit" where
  "validate_text name value maximum_bytes =
     fail_if (value = [] \<or> maximum_bytes < length value \<or> list_ex is_ascii_control (str_bytes value))
       (InvalidText name maximum_bytes)"

definition read_startup_file :: "(string \<Rightarrow> string + bytes) \<Rightarrow> string \<Rightarrow> string \<Rightarrow> startup_error + bytes" where
  "read_startup_file files path kind = (case files path of Inl e \<Rightarrow> Inl (StartupCannotRead kind path e) | Inr bs \<Rightarrow> Inr bs)"

text \<open>The outer \<^const>\<open>None\<close> is a panic of the profile compiler.\<close>

definition load_startup ::
    "(string \<Rightarrow> string + bytes) \<Rightarrow> (string \<Rightarrow> string + profile) \<Rightarrow> (string \<Rightarrow> string + raw_scenario_catalog) \<Rightarrow> (bytes \<Rightarrow> string)
      \<Rightarrow> string \<Rightarrow> string \<Rightarrow> string \<Rightarrow> string \<Rightarrow> (startup_error + startup) option" where
  "load_startup files yaml_profile yaml_catalog sha256_hex profile_path catalog_path deployment_label image_ref =
     (case bind_ok (validate_text ''deployment label'' deployment_label 128) (\<lambda>_.
           bind_ok (validate_text ''image reference'' image_ref 255) (\<lambda>_.
           bind_ok (read_startup_file files profile_path ''profile'') (\<lambda>profile_contents.
           bind_ok (read_startup_file files catalog_path ''scenario catalog'') (\<lambda>catalog_contents.
           bind_ok (ok_or (from_utf8 profile_contents) (NotUtf8 ''profile'' profile_path)) (\<lambda>profile_text.
           bind_ok (ok_or (from_utf8 catalog_contents) (NotUtf8 ''scenario catalog'' catalog_path)) (\<lambda>catalog_text.
           Inr (profile_contents, catalog_contents, profile_text, catalog_text))))))) of
        Inl e \<Rightarrow> Some (Inl e)
      | Inr (profile_contents, catalog_contents, profile_text, catalog_text) \<Rightarrow>
          (case parse_profile yaml_profile profile_text of
             None \<Rightarrow> None
           | Some (Inl e) \<Rightarrow> Some (Inl (InvalidProfile e))
           | Some (Inr profile) \<Rightarrow>
               (case parse_catalog yaml_catalog catalog_text of
                  Inl e \<Rightarrow> Some (Inl (InvalidCatalog e))
                | Inr checked_catalog \<Rightarrow>
                    Some (Inr \<lparr>st_profile = profile, st_scenario_catalog = checked_catalog,
                          st_runtime_identity = new_runtime_identity sha256_hex image_ref profile_contents catalog_contents,
                          st_deployment_label = deployment_label\<rparr>))))"

section \<open>The command line\<close>

record run_arguments =
  ra_profile_path :: string
  ra_scenario_catalog_path :: string
  ra_deployment_label :: string
  ra_management_bind :: socket_addr
  ra_time_sync_status_file :: string

datatype main_command = Healthcheck socket_addr | Run run_arguments

text \<open>The messages of \<^verbatim>\<open>parse_command\<close> and \<^verbatim>\<open>parse_healthcheck\<close>, one constructor each.\<close>

datatype command_error =
    ExpectedCommand
  | RequiresValue string
  | UnsupportedArgument string
  | SpecifiedTwice string
  | Required string
  | NotASocketAddress string
  | HealthcheckUsage

definition RUN_FLAGS :: "string list" where
  "RUN_FLAGS = [''--profile'', ''--scenario-catalog'', ''--deployment-label'', ''--management-bind'', ''--time-sync-status-file'']"

text \<open>The loop over the flags; the five slots of the source are one map from flags to values.\<close>

fun parse_run_flags :: "(string \<Rightarrow> string option) \<Rightarrow> string list \<Rightarrow> command_error + (string \<Rightarrow> string option)" where
  "parse_run_flags slots [] = Inr slots"
| "parse_run_flags slots [flag] = Inl (RequiresValue flag)"
| "parse_run_flags slots (flag # v # rest) =
     (if flag \<notin> set RUN_FLAGS then Inl (UnsupportedArgument flag)
      else if slots flag \<noteq> None then Inl (SpecifiedTwice flag)
      else parse_run_flags (slots(flag := Some v)) rest)"

definition parse_healthcheck :: "(string \<Rightarrow> socket_addr option) \<Rightarrow> string list \<Rightarrow> command_error + socket_addr" where
  "parse_healthcheck socket_address arguments =
     (case arguments of
        [command, flag, address] \<Rightarrow>
          if command = ''healthcheck'' \<and> flag = ''--management-address''
          then ok_or (socket_address address) (NotASocketAddress flag) else Inl HealthcheckUsage
      | _ \<Rightarrow> Inl HealthcheckUsage)"

definition parse_main_command :: "(string \<Rightarrow> socket_addr option) \<Rightarrow> string list \<Rightarrow> command_error + main_command" where
  "parse_main_command socket_address arguments =
     (case arguments of
        [] \<Rightarrow> Inl ExpectedCommand
      | command # flags \<Rightarrow>
          if command = ''healthcheck'' then bind_ok (parse_healthcheck socket_address arguments) (Inr \<circ> Healthcheck)
          else if command \<noteq> ''run'' then Inl ExpectedCommand
          else bind_ok (parse_run_flags (\<lambda>_. None) flags) (\<lambda>slots.
               bind_ok (ok_or (slots ''--profile'') (Required ''--profile'')) (\<lambda>profile_path.
               bind_ok (ok_or (slots ''--scenario-catalog'') (Required ''--scenario-catalog'')) (\<lambda>catalog_path.
               bind_ok (ok_or (slots ''--deployment-label'') (Required ''--deployment-label'')) (\<lambda>label.
               bind_ok (ok_or (slots ''--management-bind'') (Required ''--management-bind'')) (\<lambda>bind_text.
               bind_ok (ok_or (socket_address bind_text) (NotASocketAddress ''--management-bind'')) (\<lambda>bind_address.
               bind_ok (ok_or (slots ''--time-sync-status-file'') (Required ''--time-sync-status-file'')) (\<lambda>status_file.
               Inr (Run \<lparr>ra_profile_path = profile_path, ra_scenario_catalog_path = catalog_path,
                         ra_deployment_label = label, ra_management_bind = bind_address,
                         ra_time_sync_status_file = status_file\<rparr>)))))))))"

section \<open>Running\<close>

text \<open>
  \<^verbatim>\<open>run\<close> of \<^verbatim>\<open>main.rs\<close>: load, log, bind, set the metadata, run.  \<open>to_json\<close> is \<^verbatim>\<open>serde_json::to_string\<close> on the start-up
  record; \<^const>\<open>None\<close> is its error.  Indexing the first endpoint panics when there is none.
\<close>

datatype run_error = StartupFailed startup_error | LogFailed | ServerFailed server_error

record startup_log =
  sl_event :: string
  sl_message :: string
  sl_pmu_endpoints :: nat
  sl_data_rate_hz :: u16
  sl_scenarios :: nat
  sl_deployment_label :: string
  sl_runtime_identity :: runtime_identity

definition log_startup ::
    "'w os \<Rightarrow> (startup_log \<Rightarrow> string option) \<Rightarrow> nat \<Rightarrow> u16 \<Rightarrow> nat \<Rightarrow> string \<Rightarrow> runtime_identity \<Rightarrow> ('w, run_error, unit) prog" where
  "log_startup os to_json endpoint_count data_rate_hz scenario_count label identity =
     bind_p (lift_ok (ok_or (to_json
       \<lparr>sl_event = ''simulator_started'', sl_message = ''starting C37.118 simulator'', sl_pmu_endpoints = endpoint_count,
        sl_data_rate_hz = data_rate_hz, sl_scenarios = scenario_count, sl_deployment_label = label,
        sl_runtime_identity = identity\<rparr>) LogFailed)) (\<lambda>line.
     modify (os_eprintln os line))"

definition startup_server ::
    "'w os \<Rightarrow> codec \<Rightarrow> (startup_log \<Rightarrow> string option) \<Rightarrow> startup \<Rightarrow> string \<Rightarrow> socket_addr \<Rightarrow> ('w, run_error, 'w server) prog" where
  "startup_server os ex to_json startup status_file management_address =
     bind_p (expect (case cp_endpoints (st_profile startup) of [] \<Rightarrow> None | d # _ \<Rightarrow> Some (ep_data_rate_hz d))) (\<lambda>rate.
     bind_p (log_startup os to_json (length (cp_endpoints (st_profile startup))) rate
          (length (sc_scenarios (st_scenario_catalog startup))) (st_deployment_label startup) (st_runtime_identity startup)) (\<lambda>_.
     (\<lambda>w. case bind_with_management os ex (st_profile startup) (st_scenario_catalog startup) (SourceFile status_file) management_address w of
        Ok (s, w') \<Rightarrow>
          (case configure_runtime_metadata (st_deployment_label startup) (st_runtime_identity startup) s of
             Ok (_, s') \<Rightarrow> Ok (s', w') | Err e \<Rightarrow> Err (ServerFailed e) | Panic \<Rightarrow> Panic | Diverged \<Rightarrow> Diverged)
      | Err e \<Rightarrow> Err (ServerFailed e) | Panic \<Rightarrow> Panic | Diverged \<Rightarrow> Diverged)))"

definition run_main ::
    "'w os \<Rightarrow> codec \<Rightarrow> (f32 \<Rightarrow> f32) \<Rightarrow> (startup_log \<Rightarrow> string option)
      \<Rightarrow> (string \<Rightarrow> string + bytes) \<Rightarrow> (string \<Rightarrow> string + profile) \<Rightarrow> (string \<Rightarrow> string + raw_scenario_catalog)
      \<Rightarrow> string option \<Rightarrow> run_arguments \<Rightarrow> 'w \<Rightarrow> (run_error, unit) res" where
  "run_main os ex sin32 to_json files yaml_profile yaml_catalog image_ref_variable arguments w =
     (case load_startup files yaml_profile yaml_catalog (ex_sha256_hex ex) (ra_profile_path arguments)
          (ra_scenario_catalog_path arguments) (ra_deployment_label arguments)
          (case image_ref_variable of None \<Rightarrow> DEFAULT_IMAGE_REF | Some r \<Rightarrow> r) of
        None \<Rightarrow> Panic
      | Some (Inl e) \<Rightarrow> Err (StartupFailed e)
      | Some (Inr startup) \<Rightarrow>
          (case startup_server os ex to_json startup (ra_time_sync_status_file arguments) (ra_management_bind arguments) w of
             Ok (s, _) \<Rightarrow>
               (case run_server os ex sin32 s of
                  Ok _ \<Rightarrow> Ok () | Err e \<Rightarrow> Err (ServerFailed e) | Panic \<Rightarrow> Panic | Diverged \<Rightarrow> Diverged)
           | Err e \<Rightarrow> Err e | Panic \<Rightarrow> Panic | Diverged \<Rightarrow> Diverged))"

section \<open>The health check\<close>

text \<open>
  The stream of the health check: what connecting, the two timeouts and writing the request give, and
  successive reads of at most \<open>n\<close> bytes.  \<open>status_line[received..]\<close> panics when more was read than it holds.
\<close>

definition HEALTHCHECK_REQUEST :: bytes where
  "HEALTHCHECK_REQUEST = str_bytes (''GET /readyz HTTP/1.1'' @ [CHR 13, CHR 10] @ ''Host: localhost'' @ [CHR 13, CHR 10, CHR 13, CHR 10])"

definition STATUS_LINE_BYTES :: nat where [const_defs]: "STATUS_LINE_BYTES = 64"

record 'w health_io =
  hc_connect :: "socket_addr \<Rightarrow> 'w \<Rightarrow> (string + unit) \<times> 'w"
  hc_timeouts :: "'w \<Rightarrow> (string + unit) \<times> 'w"
  hc_write_all :: "bytes \<Rightarrow> 'w \<Rightarrow> (string + unit) \<times> 'w"
  hc_read :: "nat \<Rightarrow> 'w \<Rightarrow> (string + bytes) \<times> 'w"

definition hc_op :: "('w \<Rightarrow> (string + 'a) \<times> 'w) \<Rightarrow> ('w, string, 'a) prog" where
  "hc_op f = (\<lambda>w. case f w of (Inl e, _) \<Rightarrow> Err e | (Inr x, w') \<Rightarrow> Ok (x, w'))"

fun has_crlf :: "bytes \<Rightarrow> bool" where
  "has_crlf (a # b # rest) \<longleftrightarrow> a = 0x0d \<and> b = 0x0a \<or> has_crlf (b # rest)"
| "has_crlf _ \<longleftrightarrow> False"

definition health_read_round :: "'w health_io \<Rightarrow> (bytes \<times> 'w, string, bytes option) prog" where
  "health_read_round io = (\<lambda>(received, w).
     if STATUS_LINE_BYTES \<le> length received then Ok (Some received, received, w)
     else case hc_read io (STATUS_LINE_BYTES - length received) w of
         (Inl e, _) \<Rightarrow> Err e
       | (Inr bs, w') \<Rightarrow>
           if bs = [] then Ok (Some received, received, w')
           else if STATUS_LINE_BYTES < length (received @ bs) then Panic
           else if has_crlf (received @ bs) then Ok (Some (received @ bs), received @ bs, w')
           else Ok (None, received @ bs, w'))"

definition healthcheck :: "'w health_io \<Rightarrow> socket_addr \<Rightarrow> ('w, string, unit) prog" where
  "healthcheck io management_address =
     bind_p (hc_op (hc_connect io management_address)) (\<lambda>_.
     bind_p (hc_op (hc_timeouts io)) (\<lambda>_.
     bind_p (hc_op (hc_write_all io HEALTHCHECK_REQUEST)) (\<lambda>_.
     bind_p (\<lambda>w. case loop_p (health_read_round io) ([], w) of
         Ok (bs, _, w') \<Rightarrow> Ok (bs, w') | Err e \<Rightarrow> Err e | Panic \<Rightarrow> Panic | Diverged \<Rightarrow> Diverged) (\<lambda>status_line.
     if take 13 status_line = str_bytes ''HTTP/1.1 200 '' then ret ()
     else raise ''management readiness probe did not return HTTP 200''))))"

end
