(* ===== verification/Startup_Props.thy ===== *)
theory Startup_Props
  imports Startup Server_Props
begin

text \<open>
  Properties of the program's entry: which command lines run, that what was loaded is what the server
  serves, and what the health check decides on.
\<close>

section \<open>The command line\<close>

text \<open>A list of flags with their values, as the arguments spell it.\<close>

definition spelled :: "(string \<times> string) list \<Rightarrow> string list" where
  "spelled ps = concat (map (\<lambda>(flag, v). [flag, v]) ps)"

lemma spelled_simps [simp]: "spelled [] = []" "spelled ((f, v) # ps) = f # v # spelled ps"
  by (simp_all add: spelled_def)

lemma parse_run_flags_Inr:
  "parse_run_flags slots arguments = Inr slots' \<longleftrightarrow>
     (\<exists>ps. arguments = spelled ps \<and> distinct (map fst ps) \<and> fst ` set ps \<subseteq> set RUN_FLAGS
       \<and> (\<forall>f \<in> fst ` set ps. slots f = None) \<and> slots' = slots ++ map_of ps)"
proof (induction slots arguments arbitrary: slots' rule: parse_run_flags.induct)
  case (1 slots)
  show ?case by (auto intro!: exI [of _ "[]"]) (case_tac ps; force)
next
  case (2 slots flag)
  have "[flag] \<noteq> spelled ps" for ps by (cases ps) auto
  then show ?case by auto
next
  case (3 slots flag v rest)
  show ?case
  proof (cases "flag \<in> set RUN_FLAGS \<and> slots flag = None")
    case True
    then have step: "parse_run_flags slots (flag # v # rest) = parse_run_flags (slots(flag := Some v)) rest" by simp
    have IH: "parse_run_flags (slots(flag := Some v)) rest = Inr slots' \<longleftrightarrow>
     (\<exists>ps. rest = spelled ps \<and> distinct (map fst ps) \<and> fst ` set ps \<subseteq> set RUN_FLAGS
       \<and> (\<forall>f \<in> fst ` set ps. (slots(flag := Some v)) f = None) \<and> slots' = slots(flag := Some v) ++ map_of ps)"
      by (rule "3.IH") (use True in auto)
    show ?thesis unfolding step IH
    proof
      assume "\<exists>ps. rest = spelled ps \<and> distinct (map fst ps) \<and> fst ` set ps \<subseteq> set RUN_FLAGS
       \<and> (\<forall>f \<in> fst ` set ps. (slots(flag := Some v)) f = None) \<and> slots' = slots(flag := Some v) ++ map_of ps"
      then obtain ps where ps: "rest = spelled ps" "distinct (map fst ps)" "fst ` set ps \<subseteq> set RUN_FLAGS"
        "\<forall>f \<in> fst ` set ps. (slots(flag := Some v)) f = None" "slots' = slots(flag := Some v) ++ map_of ps" by blast
      have new: "flag \<notin> fst ` set ps" using ps(4) by (metis fun_upd_same option.distinct(1))
      then have "slots(flag := Some v) ++ map_of ps = slots ++ map_of ((flag, v) # ps)"
        by (auto simp: fun_eq_iff map_add_def split: option.splits dest: map_of_SomeD) (metis image_eqI fst_conv map_of_SomeD)
      then show "\<exists>ps. flag # v # rest = spelled ps \<and> distinct (map fst ps) \<and> fst ` set ps \<subseteq> set RUN_FLAGS
          \<and> (\<forall>f \<in> fst ` set ps. slots f = None) \<and> slots' = slots ++ map_of ps"
        using ps new True by (intro exI [of _ "(flag, v) # ps"]) (auto split: if_splits)
    next
      assume "\<exists>ps. flag # v # rest = spelled ps \<and> distinct (map fst ps) \<and> fst ` set ps \<subseteq> set RUN_FLAGS
          \<and> (\<forall>f \<in> fst ` set ps. slots f = None) \<and> slots' = slots ++ map_of ps"
      then obtain qs where qs: "flag # v # rest = spelled qs" "distinct (map fst qs)" "fst ` set qs \<subseteq> set RUN_FLAGS"
        "\<forall>f \<in> fst ` set qs. slots f = None" "slots' = slots ++ map_of qs" by blast
      obtain ps where q: "qs = (flag, v) # ps" "rest = spelled ps" using qs(1) by (cases qs) auto
      have new: "flag \<notin> fst ` set ps" using qs(2) by (simp add: q)
      then have "slots(flag := Some v) ++ map_of ps = slots ++ map_of qs"
        by (auto simp: q fun_eq_iff map_add_def split: option.splits dest: map_of_SomeD) (metis image_eqI fst_conv map_of_SomeD)
      then show "\<exists>ps. rest = spelled ps \<and> distinct (map fst ps) \<and> fst ` set ps \<subseteq> set RUN_FLAGS
         \<and> (\<forall>f \<in> fst ` set ps. (slots(flag := Some v)) f = None) \<and> slots' = slots(flag := Some v) ++ map_of ps"
        using qs q new by (intro exI [of _ ps]) auto
    qed
  next
    case False
    then show ?thesis
      by auto (case_tac ps; force)+
  qed
qed

lemma five_keys:
  assumes "distinct (map fst ps)"
  shows "fst ` set ps \<subseteq> {f1, f2, f3, f4, f5} \<and> map_of ps f1 = Some v1 \<and> map_of ps f2 = Some v2 \<and> map_of ps f3 = Some v3
      \<and> map_of ps f4 = Some v4 \<and> map_of ps f5 = Some v5
    \<longleftrightarrow> set ps = {(f1, v1), (f2, v2), (f3, v3), (f4, v4), (f5, v5)}" (is "?L \<longleftrightarrow> set ps = ?S")
proof
  assume L: ?L
  have "(k, v) \<in> ?S" if "(k, v) \<in> set ps" for k v
  proof -
    have "map_of ps k = Some v" using that assms by simp
    moreover have "k \<in> {f1, f2, f3, f4, f5}" using that L by force
    ultimately show ?thesis using L by auto
  qed
  moreover have "?S \<subseteq> set ps" using L by (auto dest: map_of_SomeD)
  ultimately show "set ps = ?S" by auto
next
  assume S: "set ps = ?S"
  have "map_of ps k = Some v" if "(k, v) \<in> set ps" for k v using that assms by simp
  then show ?L using S by auto
qed

text \<open>C33. The run command: it is accepted exactly when the five flags of the program are each given once, in any order
  and with any values, and the management address parses; a missing, repeated or unknown flag or a
  flag without a value is refused.\<close>

theorem run_arguments_any_order:
  "parse_main_command socket_address (''run'' # arguments) = Inr (Run ra) \<longleftrightarrow>
     (\<exists>ps b. arguments = spelled ps \<and> distinct (map fst ps) \<and> socket_address b = Some (ra_management_bind ra)
       \<and> set ps = {(''--profile'', ra_profile_path ra), (''--scenario-catalog'', ra_scenario_catalog_path ra),
                   (''--deployment-label'', ra_deployment_label ra), (''--management-bind'', b),
                   (''--time-sync-status-file'', ra_time_sync_status_file ra)})"
proof -
  have "parse_main_command socket_address (''run'' # arguments) = Inr (Run ra) \<longleftrightarrow>
    (\<exists>slots b. parse_run_flags (\<lambda>_. None) arguments = Inr slots \<and> slots ''--profile'' = Some (ra_profile_path ra)
      \<and> slots ''--scenario-catalog'' = Some (ra_scenario_catalog_path ra) \<and> slots ''--deployment-label'' = Some (ra_deployment_label ra)
      \<and> slots ''--management-bind'' = Some b \<and> socket_address b = Some (ra_management_bind ra)
      \<and> slots ''--time-sync-status-file'' = Some (ra_time_sync_status_file ra))"
    by (cases ra) (auto simp: parse_main_command_def)
  also have "\<dots> \<longleftrightarrow> (\<exists>ps b. arguments = spelled ps \<and> distinct (map fst ps) \<and> socket_address b = Some (ra_management_bind ra)
       \<and> (fst ` set ps \<subseteq> set RUN_FLAGS \<and> map_of ps ''--profile'' = Some (ra_profile_path ra)
         \<and> map_of ps ''--scenario-catalog'' = Some (ra_scenario_catalog_path ra)
         \<and> map_of ps ''--deployment-label'' = Some (ra_deployment_label ra) \<and> map_of ps ''--management-bind'' = Some b
         \<and> map_of ps ''--time-sync-status-file'' = Some (ra_time_sync_status_file ra)))"
    unfolding parse_run_flags_Inr by (auto simp only: empty_map_add simp_thms)
  finally show ?thesis by (simp only: RUN_FLAGS_def list.set five_keys cong: conj_cong)
qed

section \<open>The health check\<close>

text \<open>A peer that delivers the given bytes in pieces of any size, then the end of the stream.\<close>

inductive delivers :: "'w health_io \<Rightarrow> bytes \<Rightarrow> 'w \<Rightarrow> bool" for io where
  delivers_end: "(\<And>n. 0 < n \<Longrightarrow> \<exists>w'. hc_read io n w = (Inr [], w')) \<Longrightarrow> delivers io [] w"
| delivers_piece: "(\<And>n. 0 < n \<Longrightarrow> \<exists>k w'. 0 < k \<and> k \<le> n \<and> k \<le> length bs \<and> hc_read io n w = (Inr (take k bs), w')
      \<and> delivers io (drop k bs) w') \<Longrightarrow> bs \<noteq> [] \<Longrightarrow> delivers io bs w"

definition OK_PREFIX :: bytes where "OK_PREFIX = str_bytes ''HTTP/1.1 200 ''"

lemma has_crlf_cr: "has_crlf bs \<Longrightarrow> 0x0d \<in> set bs"
  by (induction bs rule: has_crlf.induct) auto

lemma ok_prefix: "length OK_PREFIX = 13" "0x0d \<notin> set OK_PREFIX"
  by code_simp+

text \<open>However far the reading got, the answer is decided by the first 13 bytes of the stream.\<close>

lemma prefix_decides:
  assumes "length received = 64 \<or> rest = [] \<or> has_crlf received" and len: "length received \<le> 64"
  shows "take 13 received = OK_PREFIX \<longleftrightarrow> take 13 (received @ rest) = OK_PREFIX"
proof (cases "13 \<le> length received")
  case False
  with assms(1) have "rest = [] \<or> 0x0d \<in> set received" using has_crlf_cr by fastforce
  then show ?thesis
  proof
    assume cr: "0x0d \<in> set received"
    have short: "length (take 13 received) < 13" using False by simp
    then have "take 13 received \<noteq> OK_PREFIX" using ok_prefix(1) by (metis less_irrefl)
    moreover have "take 13 (received @ rest) \<noteq> OK_PREFIX"
    proof
      assume eq: "take 13 (received @ rest) = OK_PREFIX"
      have "set received \<subseteq> set (take 13 (received @ rest))" using False by auto
      then show False using cr ok_prefix(2) unfolding eq by blast
    qed
    ultimately show ?thesis by blast
  qed simp
qed simp

lemma delivers_read:
  assumes "delivers io bs w" "0 < n"
  obtains k w' where "hc_read io n w = (Inr (take k bs), w')" "k \<le> n" "bs = [] \<or> 0 < k \<and> k \<le> length bs \<and> delivers io (drop k bs) w'"
  using assms(1)
proof cases
  case delivers_end
  then obtain w' where "hc_read io n w = (Inr [], w')" using assms(2) by blast
  then show thesis using that [of 0 w'] delivers_end by simp
next
  case delivers_piece
  then show thesis using that assms(2) by blast
qed

lemma wp_health_read:
  assumes "delivers io bs w"
  shows "wp (loop_p (health_read_round io)) (\<lambda>r _. take 13 r = OK_PREFIX \<longleftrightarrow> take 13 bs = OK_PREFIX) (\<lambda>_. False) ([], w)"
proof (rule wp_loop [where I = "\<lambda>(received, w). length received \<le> 64 \<and> (\<exists>rest. bs = received @ rest \<and> delivers io rest w)"
      and m = "\<lambda>(received, w). 64 - length received"])
  show "case ([], w) of (received, w) \<Rightarrow> length received \<le> 64 \<and> (\<exists>rest. bs = received @ rest \<and> delivers io rest w)"
    using assms by simp
  fix t assume t: "case t of (received, w) \<Rightarrow> length received \<le> 64 \<and> (\<exists>rest. bs = received @ rest \<and> delivers io rest w)"
  obtain received v rest where t': "t = (received, v)" "length received \<le> 64" "bs = received @ rest" "delivers io rest v"
    using t by (cases t) auto
  show "wp (health_read_round io) (\<lambda>r u. case r of
      None \<Rightarrow> (case u of (received, w) \<Rightarrow> length received \<le> 64 \<and> (\<exists>rest. bs = received @ rest \<and> delivers io rest w))
        \<and> (case u of (received, w) \<Rightarrow> 64 - length received) < (case t of (received, w) \<Rightarrow> 64 - length received)
    | Some r \<Rightarrow> take 13 r = OK_PREFIX \<longleftrightarrow> take 13 bs = OK_PREFIX) (\<lambda>_. False) t"
  proof (cases "length received = 64")
    case True
    then show ?thesis using prefix_decides [of received rest] t' by (simp add: health_read_round_def wp_def STATUS_LINE_BYTES_def)
  next
    case False
    then have room: "length received < 64" "0 < 64 - length received" using t'(2) by simp_all
    obtain k v' where r: "hc_read io (64 - length received) v = (Inr (take k rest), v')" "k \<le> 64 - length received"
      "rest = [] \<or> 0 < k \<and> k \<le> length rest \<and> delivers io (drop k rest) v'"
      using delivers_read [OF t'(4) room(2)] by blast
    show ?thesis
    proof (cases "rest = []")
      case True
      then show ?thesis using r t' room by (simp add: health_read_round_def wp_def STATUS_LINE_BYTES_def)
    next
      case False
      then have k: "0 < k" "k \<le> length rest" "delivers io (drop k rest) v'" using r(3) by simp_all
      have len: "length (received @ take k rest) \<le> 64" using r(2) room k by simp
      have bs: "bs = (received @ take k rest) @ drop k rest" using t'(3) by simp
      have ne: "take k rest \<noteq> []" using k by auto
      show ?thesis
      proof (cases "has_crlf (received @ take k rest)")
        case True
        then show ?thesis
          using prefix_decides [of "received @ take k rest" "drop k rest"] len bs ne r(1) room k
          by (simp add: t'(1) health_read_round_def wp_def STATUS_LINE_BYTES_def)
      next
        case False
        then show ?thesis
          using len bs ne r(1) room k
          by (auto simp: t'(1) health_read_round_def wp_def STATUS_LINE_BYTES_def intro!: exI [of _ "drop k rest"])
      qed
    qed
  qed
qed

text \<open>C34. The health check: once connected, it succeeds exactly when the response starts with \<^verbatim>\<open>HTTP/1.1 200\<close> and a space,
  however the peer cuts the response into pieces and wherever it ends; otherwise it reports that the
  service is not ready, and it always ends.\<close>

theorem healthcheck_decides:
  assumes "hc_connect io address w = (Inr (), w1)" and "hc_timeouts io w1 = (Inr (), w2)"
    and "hc_write_all io HEALTHCHECK_REQUEST w2 = (Inr (), w3)" and "delivers io response w3"
  shows "if take 13 response = str_bytes ''HTTP/1.1 200 '' then \<exists>w'. healthcheck io address w = Ok ((), w')
    else healthcheck io address w = Err ''management readiness probe did not return HTTP 200''"
proof -
  obtain r t where r: "loop_p (health_read_round io) ([], w3) = Ok (r, t)" "take 13 r = OK_PREFIX \<longleftrightarrow> take 13 response = OK_PREFIX"
    using wp_health_read [OF assms(4)] by (rule wp_outcome) auto
  then show ?thesis
    using assms(1-3) by (cases t) (simp add: healthcheck_def hc_op_def prog_defs OK_PREFIX_def)
qed

text \<open>A peer that sends the bytes of its world one at a time.\<close>

definition slow_io :: "bytes health_io" where
  "slow_io = \<lparr>hc_connect = (\<lambda>_ w. (Inr (), w)), hc_timeouts = (\<lambda>w. (Inr (), w)), hc_write_all = (\<lambda>_ w. (Inr (), w)),
     hc_read = (\<lambda>_ w. (Inr (take 1 w), drop 1 w))\<rparr>"

lemma slow_delivers: "delivers slow_io bs bs"
proof (induction bs)
  case Nil
  show ?case by (rule delivers_end) (simp add: slow_io_def)
next
  case (Cons b bs)
  show ?case by (rule delivers_piece) (use Cons in \<open>auto simp: slow_io_def intro!: exI [of _ "Suc 0"]\<close>)
qed

theorem healthcheck_decides_witness:
  "(\<exists>w'. healthcheck slow_io script_management (str_bytes ''HTTP/1.1 200 OK'') = Ok ((), w'))
   \<and> healthcheck slow_io script_management (str_bytes ''HTTP/1.1 503 Service Unavailable'')
       = Err ''management readiness probe did not return HTTP 200''"
proof -
  have io: "hc_connect slow_io script_management w = (Inr (), w)" "hc_timeouts slow_io w = (Inr (), w)"
    "hc_write_all slow_io bs w = (Inr (), w)" for w bs by (simp_all add: slow_io_def)
  show ?thesis
    using healthcheck_decides [OF io slow_delivers, of "str_bytes ''HTTP/1.1 200 OK''"]
      healthcheck_decides [OF io slow_delivers, of "str_bytes ''HTTP/1.1 503 Service Unavailable''"]
    by (simp add: str_bytes_def)
qed

section \<open>Startup\<close>

lemma load_startup_Inr:
  assumes "load_startup files yaml_profile yaml_catalog sha256_hex profile_path catalog_path label image_ref = Some (Inr st)"
  obtains pc cc pt ct p raw where "files profile_path = Inr pc" "files catalog_path = Inr cc" "yaml_profile pt = Inr p"
    "compile_profile p = Some (Inr (st_profile st))" "yaml_catalog ct = Inr raw" "compile_catalog raw = Inr (st_scenario_catalog st)"
    "valid_runtime_text label 128" "valid_runtime_text image_ref 255"
    "st_runtime_identity st = new_runtime_identity sha256_hex image_ref pc cc" "st_deployment_label st = label"
  using assms
  by (auto simp: load_startup_def parse_profile_def parse_catalog_def read_startup_file_def validate_text_def valid_runtime_text_def
      fail_if_def bind_ok_def split: sum.splits option.splits if_splits)

text \<open>C5. What was loaded is what is served: when the startup inputs load - with a decoder that yields text and a SHA-256
  that prints 64 lowercase hexadecimal digits - starting the server never panics; it can only fail to
  write its log line or as binding fails.  The server is then ready and in its invariant, serves exactly
  the endpoints of the profile with the scenarios of the catalog and a management listener, and shows the
  configured label, image reference and the digests of the two files: its metadata is never silently refused.\<close>

theorem startup_serves:
  assumes "load_startup files yaml_profile yaml_catalog sha256_hex profile_path catalog_path label image_ref = Some (Inr st)"
    and "\<And>contents p. yaml_profile contents = Inr p \<Longrightarrow> is_utf8 (fl_pdc_name (pr_fleet p)) \<and> is_utf8 (pmu_name_prefix (pr_fleet p))"
    and "\<And>bs. is_lowercase_sha256 (sha256_hex bs)"
  shows "wp (startup_server os ex to_json st status_file management_address)
      (\<lambda>s _. server_inv s \<and> sv_ready s \<and> map en_descriptor (sv_endpoints s) = cp_endpoints (st_profile st)
        \<and> sv_controller s = Some (new_controller (st_scenario_catalog st)) \<and> sv_management s \<noteq> None
        \<and> (\<exists>pc cc. files profile_path = Inr pc \<and> files catalog_path = Inr cc
             \<and> sv_runtime_metadata s = Some \<lparr>rm_deployment_label = label,
                 rm_runtime_identity = \<lparr>ri_image_ref = image_ref, ri_profile_sha256 = sha256_hex pc, ri_scenario_catalog_sha256 = sha256_hex cc\<rparr>\<rparr>))
      (\<lambda>e. e = LogFailed \<or> (\<exists>b. e = ServerFailed b \<and> bind_error b)) w"
proof -
  obtain pc cc pt ct p raw where l: "files profile_path = Inr pc" "files catalog_path = Inr cc" "yaml_profile pt = Inr p"
    "compile_profile p = Some (Inr (st_profile st))" "compile_catalog raw = Inr (st_scenario_catalog st)"
    "valid_runtime_text label 128" "valid_runtime_text image_ref 255"
    "st_runtime_identity st = new_runtime_identity sha256_hex image_ref pc cc" "st_deployment_label st = label"
    using load_startup_Inr [OF assms(1)] by metis
  have utf8: "is_utf8 (fl_pdc_name (pr_fleet p))" "is_utf8 (pmu_name_prefix (pr_fleet p))" using assms(2) [OF l(3)] by simp_all
  obtain d ds where d: "cp_endpoints (st_profile st) = d # ds"
    using compile_profile_wf [OF l(4)] by (cases "cp_endpoints (st_profile st)") (auto simp: profile_wf_def)
  define identity where "identity = \<lparr>ri_image_ref = image_ref, ri_profile_sha256 = sha256_hex pc, ri_scenario_catalog_sha256 = sha256_hex cc\<rparr>"
  have meta: "new_runtime_metadata label (st_runtime_identity st) = Some \<lparr>rm_deployment_label = label, rm_runtime_identity = identity\<rparr>"
    using l(6-8) assms(3) by (simp add: new_runtime_metadata_def new_runtime_identity_def identity_def const_defs)
  have bind: "wp (bind_with_management os ex (st_profile st) (st_scenario_catalog st) (SourceFile status_file) management_address)
      (\<lambda>s _. bound os (st_profile st) (Some (new_controller (st_scenario_catalog st))) (Some management_address) s) bind_error w'" for w'
    unfolding bind_with_management_def by (rule wp_bind_compiled [OF l(4) utf8]) (use l(5) in auto)
  have bind': "case bind_with_management os ex (st_profile st) (st_scenario_catalog st) (SourceFile status_file) management_address w' of
      Ok (s, _) \<Rightarrow> bound os (st_profile st) (Some (new_controller (st_scenario_catalog st))) (Some management_address) s
    | Err e \<Rightarrow> bind_error e | Panic \<Rightarrow> False | Diverged \<Rightarrow> False" for w'
    using bind [of w'] by (simp add: wp_def split: res.splits)
  have inv: "server_inv (s\<lparr>sv_runtime_metadata := m\<rparr>) = server_inv s" for s :: "'a server" and m
    by (rule server_inv_cong) simp_all
  show ?thesis
  proof (cases "to_json \<lparr>sl_event = ''simulator_started'', sl_message = ''starting C37.118 simulator'',
        sl_pmu_endpoints = length (cp_endpoints (st_profile st)), sl_data_rate_hz = ep_data_rate_hz d,
        sl_scenarios = length (sc_scenarios (st_scenario_catalog st)), sl_deployment_label = st_deployment_label st,
        sl_runtime_identity = st_runtime_identity st\<rparr>")
    case None
    then show ?thesis by (simp add: startup_server_def log_startup_def d)
  next
    case (Some line)
    then show ?thesis
      using bind' [of "os_eprintln os line w"] meta l
      by (auto simp: startup_server_def log_startup_def d wp_def bind_p_def modify_def configure_runtime_metadata_def bound_def inv
          identity_def prog_defs split: res.splits prod.splits)
  qed
qed

text \<open>The shipped profile and scenarios, whatever the files hold.\<close>

definition shipped_startup :: startup where
  "shipped_startup = \<lparr>st_profile = compiled three_pmu_v2, st_scenario_catalog = baseline_compiled,
     st_runtime_identity = new_runtime_identity (\<lambda>_. replicate 64 (CHR ''0'')) DEFAULT_IMAGE_REF (str_bytes ''p'') (str_bytes ''s''),
     st_deployment_label = ''wama-lab''\<rparr>"

definition shipped_files :: "string \<Rightarrow> string + bytes" where
  "shipped_files path = Inr (str_bytes (if path = ''profile'' then ''p'' else ''s''))"

lemma shipped_startup_loads:
  "load_startup shipped_files (\<lambda>_. Inr three_pmu_v2) (\<lambda>_. Inr baseline_catalog) (\<lambda>_. replicate 64 (CHR ''0''))
     ''profile'' ''scenarios'' ''wama-lab'' DEFAULT_IMAGE_REF = Some (Inr shipped_startup)"
proof -
  have "validate_text ''deployment label'' ''wama-lab'' 128 = Inr ()" "validate_text ''image reference'' DEFAULT_IMAGE_REF 255 = Inr ()"
    by code_simp+
  moreover have "from_utf8 (str_bytes ''p'') = Some ''p''" "from_utf8 (str_bytes ''s'') = Some ''s''" by code_simp+
  ultimately show ?thesis
    by (simp add: load_startup_def read_startup_file_def shipped_files_def parse_profile_def parse_catalog_def shipped_compile(1)
        baseline_compiled_eq shipped_startup_def)
qed

theorem startup_serves_witness:
  "wp (startup_server script_os script_codec (\<lambda>_. Some []) shipped_startup ''status'' script_management)
     (\<lambda>s _. server_inv s \<and> sv_ready s \<and> sv_runtime_metadata s \<noteq> None) (\<lambda>e. e = LogFailed \<or> (\<exists>b. e = ServerFailed b \<and> bind_error b)) idle"
proof -
  have sha: "is_lowercase_sha256 (replicate 64 (CHR ''0''))" by code_simp
  show ?thesis
    by (rule wp_mono [OF startup_serves [OF shipped_startup_loads _ sha]]) (use shipped_text in auto)
qed

end
