(* ===== verification/Spec2Isabelle.thy ===== *)
theory Spec2Isabelle
  imports Server_Props Command_Stream Management_Pages Management_Names Scenario_Props Config_Props Wire_Props
    Scheduling Tokens Time_Health Management_Props Probe_Props Startup_Props
begin

text \<open>
  \<^bold>\<open>A verified model of the C37.118 PMU simulator.\<close>

  The program (a Rust crate, \<^verbatim>\<open>src/\<close>) simulates a fleet of phasor measurement units.  It reads a profile of
  the fleet and a catalog of scenarios, opens one listener per PMU, serves IEEE C37.118 commands of up to
  two clients (PDCs) per PMU, sends every streaming client one data frame per reporting boundary, and
  lets an operator prepare and confirm scenarios - missing frames, degraded time, signal excursions,
  disconnections - over a small HTTP interface.  One thread runs everything from a poll loop.

  \<^bold>\<open>Parts and theories.\<close>  The theories follow the modules; every definition keeps the name of the function
  or type it translates.

  \<^item> Integers, results, BTree maps, \<^verbatim>\<open>f32\<close>, effects: \<^verbatim>\<open>Prelude\<close>, \<^verbatim>\<open>BTree_Map\<close>, \<^verbatim>\<open>F32\<close>, \<^verbatim>\<open>Effects\<close>.  Machine
    integers are words at the width of the source, with checked and saturating operations written out.
    Floats are binary32 bit patterns with exact rounding.  Errors are values of sums, panics are
    \<^const>\<open>None\<close> or \<^const>\<open>Panic\<close>.  A stateful Rust function is a \<^verbatim>\<open>prog\<close>: from a state to a value and a state,
    an error, a panic, or divergence; its weakest precondition \<^const>\<open>wp\<close> excludes the last two.
  \<^item> \<^verbatim>\<open>config.rs\<close>: \<^verbatim>\<open>Config\<close> (validation and compilation of a profile to endpoint descriptors), \<^verbatim>\<open>Config_Props\<close>
    (well-formedness of the result, when compilation succeeds, that it never panics).
  \<^item> \<^verbatim>\<open>scenario.rs\<close>: \<^verbatim>\<open>Scenario\<close> (catalog, controller, frame plans), \<^verbatim>\<open>Scenario_Inv\<close> (invariant of the
    controller, reachable states, totality, growth of the revision), \<^verbatim>\<open>Scenario_Props\<close>.
  \<^item> \<^verbatim>\<open>wire_v2.rs\<close>, \<^verbatim>\<open>wire_v3.rs\<close>: \<^verbatim>\<open>Crc\<close>, \<^verbatim>\<open>Wire\<close> (the envelope both versions share, as a locale interpreted for each
    version), \<^verbatim>\<open>Wire_V2\<close>, \<^verbatim>\<open>Wire_V3\<close>, \<^verbatim>\<open>Wire_Props\<close> (round trips, frames that parse, corruption).
  \<^item> \<^verbatim>\<open>time_health.rs\<close>: \<^verbatim>\<open>Time_Health\<close>.
  \<^item> \<^verbatim>\<open>server.rs\<close>, poll tokens and clocks: \<^verbatim>\<open>Tokens\<close>, \<^verbatim>\<open>Scheduling\<close>.
  \<^item> \<^verbatim>\<open>server.rs\<close>, PDC connections: \<^verbatim>\<open>Connection\<close> (receive buffer, framing, pending frames), \<^verbatim>\<open>Endpoint\<close> (accepting,
    reading, commands, flushing, closing), \<^verbatim>\<open>Endpoint_Inv\<close>, \<^verbatim>\<open>Accept_Inv\<close>, \<^verbatim>\<open>Emission_Inv\<close> (what each operation
    does to the slots), \<^verbatim>\<open>Delivery\<close> (the bytes each socket gets at a reporting boundary), \<^verbatim>\<open>Command_Stream\<close>
    (reading and framing against a specification on byte streams).
  \<^item> \<^verbatim>\<open>management.rs\<close>: \<^verbatim>\<open>Management\<close> (HTTP requests, routes, bounded responses), \<^verbatim>\<open>Management_Props\<close>.
  \<^item> \<^verbatim>\<open>server.rs\<close> and \<^verbatim>\<open>identity.rs\<close>, management: \<^verbatim>\<open>Management_Connection\<close>, \<^verbatim>\<open>Management_Inv\<close> (the listener),
    \<^verbatim>\<open>Management_Api\<close> (values, metrics, names, pages), \<^verbatim>\<open>Management_Pages\<close>, \<^verbatim>\<open>Management_Names\<close>.
  \<^item> \<^verbatim>\<open>server.rs\<close>, the whole server: \<^verbatim>\<open>Server\<close> (state, binding, events, emission), \<^verbatim>\<open>Management_Server\<close> (requests,
    management events, the main loop), \<^verbatim>\<open>Server_Inv\<close>, \<^verbatim>\<open>Request_Inv\<close>, \<^verbatim>\<open>Round_Inv\<close>, \<^verbatim>\<open>Bind_Inv\<close> (the invariant and
    that binding establishes and every handler keeps it), \<^verbatim>\<open>Script\<close> (a scripted operating system for
    concrete instances), \<^verbatim>\<open>Server_Props\<close>.
  \<^item> \<^verbatim>\<open>startup.rs\<close>, \<^verbatim>\<open>main.rs\<close>: \<^verbatim>\<open>Startup\<close> (start-up inputs, command line, running, health check), \<^verbatim>\<open>Startup_Props\<close>.
  \<^item> \<^verbatim>\<open>bin/c37-118-probe.rs\<close>, \<^verbatim>\<open>bin/c37_118_probe_v2.rs\<close>: \<^verbatim>\<open>Probe\<close> (the decoders of the verification probe),
    \<^verbatim>\<open>Probe_Client\<close> (its clients and main loop), \<^verbatim>\<open>Probe_Args\<close> (its command line), \<^verbatim>\<open>Probe_Decode\<close> (the decoders on
    the frames of the simulator), \<^verbatim>\<open>Probe_Run\<close> (the handshake step by step), \<^verbatim>\<open>Probe_Inv\<close> (invariant and
    termination), \<^verbatim>\<open>Probe_Args_Inv\<close>, \<^verbatim>\<open>Probe_Props\<close>.

  \<^bold>\<open>How they interact.\<close>  \<^const>\<open>bind_inner\<close> builds a server from a compiled profile: per endpoint the static frames
  of its wire version, and the first sample from \<^const>\<open>aligned_start\<close>.  \<^const>\<open>run_round\<close> is one turn of the main loop:
  poll, \<^const>\<open>dispatch_event\<close> for each event by its token (\<^const>\<open>event_target\<close>), \<^const>\<open>expire_connections\<close>, and \<^const>\<open>emit_if_due\<close>,
  which advances the scenario controller to the boundary and asks it for the frame plan of every
  endpoint.  An operation on one endpoint runs on a context (\<^const>\<open>to_ctx\<close>, \<^const>\<open>from_ctx\<close>): the endpoint, the counters
  and the world, which is what the Rust function borrows.  Requests reach the controller through
  \<^const>\<open>management_request_response\<close>.  \<^const>\<open>run_main\<close> loads the inputs, binds the server and runs it.  The probe is a
  program of its own that meets the server on the wire only: \<^const>\<open>handle_frame\<close> and \<^const>\<open>handle_frame_v2\<close> are its side
  of the protocol, written in the source independently of the encoders.

  \<^bold>\<open>What is shown.\<close>  Compilation and catalog: well-formed results, exact success conditions.  Controller: its
  invariant in every reachable state, single use of tokens, the window in which a scenario is in effect,
  no panic while the revision counter has room.  Wire formats: round trips of commands, parseable
  configuration and data frames for every compiled endpoint, detection of every single-byte corruption,
  separation of the versions.  Reading and framing: a byte stream is cut into its commands, in whatever
  pieces reads deliver it, and nothing of it is lost or refused.
  Schedule: alignment, timestamps, skipped and never repeated samples; tokens decode to what they were
  made for.  Management: request extents, canonical tokens, cursors, bounded bodies, paging without loss and with
  an end,
  names read back as configured.  Server: binding establishes the invariant; every handler ends, does not
  panic and keeps it; listeners admit only into free slots under fresh identifiers; expiry and emission
  close exactly the clients they should; a data frame reaches the sockets of the idle streaming clients
  and no other; partial writes resume; a request is at most one operation of
  the controller; the main loop is safe for any number of rounds.  Start-up: the command line is accepted
  in any order of its flags, what was loaded is what is served, the health check decides on the status
  line alone.  Probe against simulator: the handshake completes on the frames of every compiled endpoint,
  data frames are accepted exactly in the order of the samples, and the probe always ends.

  \<^bold>\<open>Bounds.\<close>  The main loop may not end, so it is a \<^verbatim>\<open>while\<close> combinator that can diverge; \<^verbatim>\<open>rounds\<close> unrolls it and
  \<^verbatim>\<open>main_loop_safe\<close> ties the two.  The revision of the controller is a 64-bit counter that the source
  increments with an \<^verbatim>\<open>expect\<close>: a round makes at most 513 controller operations (512 events and one
  boundary) of at most 451 increments each, and \<^const>\<open>room\<close> says that these fit, which is so for the first
  \<open>7 * 10 ^ 13\<close> rounds of a fresh server.  \<^const>\<open>uptime_bounded\<close> keeps sample indices below \<open>2 ^ 64\<close>: \<open>2 ^ 58\<close> seconds.
  The accept loops end because the queue of waiting clients is finite (\<^const>\<open>backlog\<close>); the reading and
  command loops end because buffers are bounded.  The walk over console pages and the
  turns of a reader take a count; the theorems require it to exceed the records, or the bytes and stalls to
  come, and show that the walk then ended of its own accord and that the reader has got everything.

  \<^bold>\<open>Parameters.\<close>  The operating system (sockets, poller, clocks, files, standard error) is the record \<^verbatim>\<open>os\<close> of
  state-passing functions; the laws used of it are \<^const>\<open>io_bounded\<close> (reads and writes stay within their
  slices), \<^const>\<open>backlog\<close>, \<^const>\<open>transmits\<close> (a write adds to its socket the bytes it took, and nothing else does) and
  \<^const>\<open>arrives\<close> (reads deliver the bytes of a peer in pieces).  httparse and serde_json are the record \<^verbatim>\<open>codec\<close>, of which only \<^const>\<open>codec_total\<close> is assumed;
  SHA-256 and \<^verbatim>\<open>f32::sin\<close>, whose precision Rust leaves open, are functions without laws, except
  that \<^verbatim>\<open>startup_serves\<close> needs a digest to be printed as 64 lowercase hexadecimal digits.  That the names of a
  decoded profile are text (Rust strings) is a hypothesis where it matters.  The probe's system is \<^verbatim>\<open>probe_os\<close>, with \<^const>\<open>probe_env\<close> (bounded reads and writes, a clock that advances); the stream of
  the health check is \<^verbatim>\<open>health_io\<close>.

  \<^bold>\<open>Not modelled.\<close>  YAML decoding of the profile and the catalog (serde_yaml; the model starts at the raw
  records); \<^verbatim>\<open>wire.rs\<close>, which is not a module of the crate; what the two \<^verbatim>\<open>main\<close> functions print and their exit
  codes; and the browser console, which is not part of the crate.
\<close>

end
